(* ===== verification/Prelude.thy ===== *)
theory Prelude
  imports "HOL-Library.Word"
begin

text \<open>
  Shared vocabulary of the development: the machine types of the program, its big-endian
  byte helpers (\<^verbatim>\<open>Rd32be\<close>, \<^verbatim>\<open>Wr16be\<close>, \<^verbatim>\<open>Wr32be\<close> of \<^verbatim>\<open>tunnel/slp_tunnel.cpp\<close>), \<open>memcpy\<close> into a
  fixed buffer, and the fixed-size drop-oldest ring that the program writes out twice (the
  receive ring of a proxy socket and the pending ring of the socket manager), stated once as
  the locales \<open>ring\<close> and \<open>ring_fifo\<close>.
\<close>

unbundle bit_operations_syntax

section \<open>Machine types\<close>

type_synonym u8 = "8 word"
type_synonym u16 = "16 word"
type_synonym u32 = "32 word"
type_synonym u64 = "64 word"
type_synonym bytes = "u8 list"

named_theorems wire_simps \<open>rewrite rules for byte codecs\<close>
named_theorems ring_simps \<open>defining equations of ring operations\<close>

section \<open>Big-endian byte helpers\<close>

definition Wr16be :: "u16 \<Rightarrow> bytes" where
  "Wr16be v = [ucast (drop_bit 8 v), ucast (v AND 0xFF)]"

definition Wr32be :: "u32 \<Rightarrow> bytes" where
  "Wr32be v = [ucast (drop_bit 24 v), ucast (drop_bit 16 v), ucast (drop_bit 8 v),
     ucast (v AND 0xFF)]"

definition Rd16be :: "u8 \<Rightarrow> u8 \<Rightarrow> u16" where
  "Rd16be a b = push_bit 8 (ucast a) OR ucast b"

definition Rd32be :: "bytes \<Rightarrow> u32" where
  "Rd32be p = push_bit 24 (ucast (p ! 0)) OR push_bit 16 (ucast (p ! 1)) OR
     push_bit 8 (ucast (p ! 2)) OR ucast (p ! 3)"

lemma and_255: "(x :: 'a::len word) AND 0xFF = take_bit 8 x"
  by (simp add: take_bit_eq_mask mask_numeral)

lemma and_65535: "(x :: 'a::len word) AND 0xFFFF = take_bit 16 x"
  by (simp add: take_bit_eq_mask mask_numeral)

lemma length_Wr16be [simp]: "length (Wr16be v) = 2"
  by (simp add: Wr16be_def)

lemma length_Wr32be [simp]: "length (Wr32be v) = 4"
  by (simp add: Wr32be_def)

lemma Rd16be_Wr16be [wire_simps]: "Rd16be (Wr16be v ! 0) (Wr16be v ! Suc 0) = v"
  unfolding Rd16be_def Wr16be_def and_255
  by (rule bit_word_eqI) (auto simp: bit_simps)

lemma Rd16be_inverse: "Rd16be (ucast (drop_bit 8 v)) (ucast (v AND 0xFF)) = v"
  using Rd16be_Wr16be [of v] by (simp add: Wr16be_def)

lemma Wr16be_Rd16be: "Wr16be (Rd16be a b) = [a, b]"
  unfolding Rd16be_def Wr16be_def and_255
  by (simp, intro conjI) (rule bit_word_eqI, auto simp: bit_simps dest: bit_imp_le_length)+

lemma Rd32be_Wr32be [wire_simps]: "Rd32be (Wr32be v @ r) = v"
proof (rule bit_word_eqI)
  fix n assume "n < LENGTH(32)"
  then show "bit (Rd32be (Wr32be v @ r)) n = bit v n"
    unfolding Rd32be_def Wr32be_def and_255
    by (cases "n < 8"; cases "n < 16"; cases "n < 24") (auto simp: bit_simps)
qed

lemma Rd32be_Wr32be_Nil [wire_simps]: "Rd32be (Wr32be v) = v"
  using Rd32be_Wr32be [of v "[]"] by simp

lemma Wr32be_Rd32be: "Wr32be (Rd32be [a, b, c, d]) = [a, b, c, d]"
  unfolding Rd32be_def Wr32be_def and_255
  by (simp, intro conjI) (rule bit_word_eqI, auto simp: bit_simps dest: bit_imp_le_length)+

lemma length4_conv: "length p = 4 \<Longrightarrow> p = [p ! 0, p ! 1, p ! 2, p ! 3]"
  by (rule nth_equalityI) (auto simp: less_Suc_eq numeral_eq_Suc)

lemma Wr32be_Rd32be_list: "length p = 4 \<Longrightarrow> Wr32be (Rd32be p) = p"
  by (metis length4_conv Wr32be_Rd32be)

lemma Wr32be_inject: "Wr32be v = Wr32be w \<longleftrightarrow> v = w"
  by (metis Rd32be_Wr32be_Nil)

section \<open>Copying into a fixed buffer\<close>

text \<open>\<open>memcpy(dst, src, n)\<close> with \<open>n\<close> the length of \<open>src\<close>: the bytes of \<open>dst\<close> behind the copy
  keep their old values.\<close>

definition memcpy :: "bytes \<Rightarrow> bytes \<Rightarrow> bytes" where
  "memcpy dst src = src @ drop (length src) dst"

lemma length_memcpy [simp]: "length src \<le> length dst \<Longrightarrow> length (memcpy dst src) = length dst"
  by (simp add: memcpy_def)

lemma take_memcpy [simp]: "take (length src) (memcpy dst src) = src"
  by (simp add: memcpy_def)

section \<open>The drop-oldest ring\<close>

text \<open>
  A ring is an array of \<open>cap\<close> elements with a read index, a write index and a count.
  Pushing onto a full ring first advances the read index. \<open>store m e\<close> is what the program stores
  into a slot that held \<open>e\<close>, \<open>view\<close> what a reader sees of a slot.
\<close>

definition ring_contents :: "('e \<Rightarrow> 'v) \<Rightarrow> 'e list \<Rightarrow> nat \<Rightarrow> nat \<Rightarrow> 'v list" where
  "ring_contents view slots head count =
     map (\<lambda>i. view (slots ! ((head + i) mod length slots))) [0..<count]"

definition ring_wf :: "nat \<Rightarrow> 'e list \<Rightarrow> nat \<Rightarrow> nat \<Rightarrow> nat \<Rightarrow> bool" where
  "ring_wf cap slots head tail count \<longleftrightarrow>
     length slots = cap \<and> head < cap \<and> count \<le> cap \<and> tail = (head + count) mod cap"

lemma length_ring_contents [simp]: "length (ring_contents view slots head count) = count"
  by (simp add: ring_contents_def)

lemma ring_contents_0 [simp]: "ring_contents view slots head 0 = []"
  by (simp add: ring_contents_def)

lemma ring_contents_nth [simp]:
  "i < count \<Longrightarrow> ring_contents view slots head count ! i = view (slots ! ((head + i) mod length slots))"
  by (simp add: ring_contents_def)

lemma ring_contents_Suc:
  "ring_contents view slots head (Suc n) =
     view (slots ! (head mod length slots)) #
       ring_contents view slots ((head + 1) mod length slots) n"
  by (rule nth_equalityI) (auto simp: nth_Cons mod_simps split: nat.splits)

lemma ring_contents_tl:
  "0 < n \<Longrightarrow> ring_contents view slots ((head + 1) mod length slots) (n - 1) =
     tl (ring_contents view slots head n)"
  by (cases n) (simp_all add: ring_contents_Suc)

lemma ring_contents_hd:
  "0 < n \<Longrightarrow> head < length slots \<Longrightarrow> hd (ring_contents view slots head n) = view (slots ! head)"
  by (cases n) (simp_all add: ring_contents_Suc)

lemma mod_add_neq:
  assumes "i < n" and "n < cap"
  shows "(head + i) mod cap \<noteq> (head + n) mod (cap::nat)"
proof
  assume "(head + i) mod cap = (head + n) mod cap"
  then have "cap dvd (head + n) - (head + i)"
    using assms by (metis add_le_cancel_left less_imp_le_nat mod_eq_dvd_iff_nat)
  then have "cap dvd n - i" by simp
  then show False using assms by (auto dest: dvd_imp_le)
qed

lemma ring_contents_write:
  assumes "n < length slots"
  shows "ring_contents view (slots[(head + n) mod length slots := e]) head (Suc n) =
     ring_contents view slots head n @ [view e]"
proof (rule nth_equalityI)
  fix i assume "i < length (ring_contents view (slots[(head + n) mod length slots := e]) head (Suc n))"
  then have i: "i < Suc n" by simp
  have p: "(head + n) mod length slots < length slots"
    using assms by (intro mod_less_divisor) linarith
  show "ring_contents view (slots[(head + n) mod length slots := e]) head (Suc n) ! i =
      (ring_contents view slots head n @ [view e]) ! i"
  proof (cases "i = n")
    case True
    then show ?thesis using p by (simp add: nth_append)
  next
    case False
    with i have "i < n" by simp
    with assms have "(head + i) mod length slots \<noteq> (head + n) mod length slots"
      using mod_add_neq by blast
    with \<open>i < n\<close> i show ?thesis by (simp add: nth_append)
  qed
qed simp


lemma ring_contents_frame:
  assumes "\<And>j. j < n \<Longrightarrow> (head + j) mod length slots \<noteq> k"
  shows "ring_contents view (slots[k := e]) head n = ring_contents view slots head n"
  using assms by (simp add: ring_contents_def nth_list_update_neq [OF not_sym])

lemma ring_contents_map: "ring_contents view slots head n = map view (ring_contents (\<lambda>x. x) slots head n)"
  by (simp add: ring_contents_def)

lemma ring_wf_write:
  "ring_wf cap slots head tail count \<Longrightarrow> count < cap \<Longrightarrow>
     ring_wf cap (slots[tail := e]) head ((tail + 1) mod cap) (count + 1)"
  by (auto simp: ring_wf_def mod_simps)

lemma ring_wf_drop:
  assumes "ring_wf cap slots head tail count" and "0 < count"
  shows "ring_wf cap slots ((head + 1) mod cap) tail (count - 1)"
proof -
  have "Suc head + (count - 1) = head + count" using assms(2) by simp
  then have "(Suc head mod cap + (count - 1)) mod cap = (head + count) mod cap"
    by (metis mod_add_left_eq)
  with assms show ?thesis by (auto simp: ring_wf_def)
qed

definition bounded_push :: "nat \<Rightarrow> 'v \<Rightarrow> 'v list \<Rightarrow> 'v list" where
  "bounded_push cap m q = (if length q \<ge> cap then tl q else q) @ [m]"

lemma length_bounded_push: "0 < cap \<Longrightarrow> length q \<le> cap \<Longrightarrow> length (bounded_push cap m q) \<le> cap"
  by (auto simp: bounded_push_def)

locale ring =
  fixes cap :: nat
    and slots :: "'s \<Rightarrow> 'e list"
    and head :: "'s \<Rightarrow> nat"
    and tail :: "'s \<Rightarrow> nat"
    and count :: "'s \<Rightarrow> nat"
    and store :: "'m \<Rightarrow> 'e \<Rightarrow> 'e"
    and view :: "'e \<Rightarrow> 'v"
    and seen :: "'m \<Rightarrow> 'v"
    and push :: "'m \<Rightarrow> 's \<Rightarrow> 's"
  assumes cap_pos: "0 < cap"
    and view_store: "view (store m e) = seen m"
    and push_slots: "slots (push m s) = (slots s)[tail s := store m (slots s ! tail s)]"
    and push_head: "head (push m s) = (if count s \<ge> cap then (head s + 1) mod cap else head s)"
    and push_tail: "tail (push m s) = (tail s + 1) mod cap"
    and push_count: "count (push m s) = (if count s \<ge> cap then count s - 1 else count s) + 1"
begin

definition wf :: "'s \<Rightarrow> bool" where
  "wf s \<longleftrightarrow> ring_wf cap (slots s) (head s) (tail s) (count s)"

definition contents :: "'s \<Rightarrow> 'v list" where
  "contents s = ring_contents view (slots s) (head s) (count s)"

lemma length_contents: "length (contents s) = count s"
  by (simp add: contents_def)

lemma push_core:
  assumes "ring_wf cap sl h t n" and "n < cap"
  shows "ring_contents view (sl[t := store m (sl ! t)]) h (n + 1) =
      ring_contents view sl h n @ [seen m]"
proof -
  have "length sl = cap" "t = (h + n) mod length sl" using assms by (auto simp: ring_wf_def)
  with assms(2) show ?thesis
    using ring_contents_write [of n sl view h "store m (sl ! t)"] by (simp add: view_store)
qed

lemma wf_push:
  assumes "wf s" shows "wf (push m s)"
proof (cases "count s < cap")
  case True
  then show ?thesis
    using assms ring_wf_write [of cap "slots s" "head s" "tail s" "count s"]
    by (simp add: wf_def push_slots push_head push_tail push_count)
next
  case False
  with assms cap_pos have "ring_wf cap (slots s) ((head s + 1) mod cap) (tail s) (count s - 1)"
    unfolding wf_def by (intro ring_wf_drop) (auto simp: ring_wf_def)
  then have "ring_wf cap ((slots s)[tail s := store m (slots s ! tail s)]) ((head s + 1) mod cap)
      ((tail s + 1) mod cap) (count s - 1 + 1)"
    using assms cap_pos by (intro ring_wf_write) (auto simp: wf_def ring_wf_def)
  with False show ?thesis by (simp add: wf_def push_slots push_head push_tail push_count)
qed

theorem contents_push:
  assumes "wf s" shows "contents (push m s) = bounded_push cap (seen m) (contents s)"
proof (cases "count s < cap")
  case True
  with assms show ?thesis
    using push_core [of "slots s" "head s" "tail s" "count s" m]
    by (simp add: contents_def bounded_push_def push_slots push_head push_count wf_def)
next
  case False
  with assms have n: "count s = cap" "length (slots s) = cap" by (auto simp: wf_def ring_wf_def)
  have "ring_wf cap (slots s) ((head s + 1) mod cap) (tail s) (count s - 1)"
    using assms n cap_pos unfolding wf_def by (intro ring_wf_drop) auto
  from push_core [OF this] n cap_pos False show ?thesis
    using ring_contents_tl [of "count s" view "slots s" "head s"]
    by (simp add: contents_def bounded_push_def push_slots push_head push_count)
qed

lemma contents_push_many:
  "wf s \<Longrightarrow> contents (fold push ms s) =
     drop (length (contents s) + length ms - cap) (contents s @ map seen ms)"
proof (induction ms arbitrary: s)
  case Nil
  then show ?case by (simp add: length_contents wf_def ring_wf_def)
next
  case (Cons m ms)
  have le: "length (contents s) \<le> cap"
    using Cons.prems by (simp add: length_contents wf_def ring_wf_def)
  show ?case
    using Cons.IH [OF wf_push [OF Cons.prems, of m]] le cap_pos
    by (cases "contents s")
      (auto simp: contents_push [OF Cons.prems] bounded_push_def drop_Cons' Suc_diff_le)
qed

lemma wf_push_many: "wf s \<Longrightarrow> wf (fold push ms s)"
  by (induction ms arbitrary: s) (auto intro: wf_push)

end

locale ring_fifo = ring cap slots head tail count store view seen push
  for cap :: nat
    and slots :: "'s \<Rightarrow> 'e list"
    and head :: "'s \<Rightarrow> nat"
    and tail :: "'s \<Rightarrow> nat"
    and count :: "'s \<Rightarrow> nat"
    and store :: "'m \<Rightarrow> 'e \<Rightarrow> 'e"
    and view :: "'e \<Rightarrow> 'v"
    and seen :: "'m \<Rightarrow> 'v"
    and push :: "'m \<Rightarrow> 's \<Rightarrow> 's" +
  fixes pop :: "'s \<Rightarrow> 's"
  assumes pop_slots: "slots (pop s) = slots s"
    and pop_head: "head (pop s) = (head s + 1) mod cap"
    and pop_tail: "tail (pop s) = tail s"
    and pop_count: "count (pop s) = count s - 1"
begin

lemma wf_pop: "wf s \<Longrightarrow> 0 < count s \<Longrightarrow> wf (pop s)"
  unfolding wf_def pop_slots pop_head pop_tail pop_count by (rule ring_wf_drop)

theorem contents_pop:
  assumes "wf s" and "0 < count s"
  shows "contents s = view (slots s ! head s) # contents (pop s)"
proof -
  have "length (slots s) = cap" "head s < cap" using assms(1) by (auto simp: wf_def ring_wf_def)
  with assms(2) show ?thesis
    using ring_contents_Suc [of view "slots s" "head s" "count s - 1"]
    by (simp add: contents_def pop_slots pop_head pop_count)
qed

text \<open>First in, first out: after a push onto an empty ring and any pops before it, the pushed
  message is what the next pop reads.\<close>

theorem push_then_pop:
  assumes "wf s" and "count s = 0"
  shows "view (slots (push m s) ! head (push m s)) = seen m"
proof -
  have "contents (push m s) = [seen m]"
    using assms contents_push [OF assms(1)] cap_pos length_contents [of s]
    by (simp add: bounded_push_def)
  moreover have "0 < count (push m s)" by (simp add: push_count)
  ultimately show ?thesis
    using contents_pop [OF wf_push [OF assms(1)], of m] by simp
qed

end

section \<open>Systems of operations\<close>

text \<open>A run is a list of operations; it is legal when each operation meets its precondition in the state
  the run has reached. A component whose operations keep an invariant under their preconditions keeps it
  along every legal run.\<close>

fun legal :: "('c \<Rightarrow> 's \<Rightarrow> bool) \<Rightarrow> ('c \<Rightarrow> 's \<Rightarrow> 's) \<Rightarrow> 'c list \<Rightarrow> 's \<Rightarrow> bool" where
  "legal pre step [] s = True"
| "legal pre step (c # cs) s = (pre c s \<and> legal pre step cs (step c s))"

lemma legal_append: "legal pre step (cs @ ds) s \<longleftrightarrow> legal pre step cs s \<and> legal pre step ds (fold step cs s)"
  by (induction cs arbitrary: s) auto

locale invariant_system =
  fixes pre :: "'c \<Rightarrow> 's \<Rightarrow> bool"
    and step :: "'c \<Rightarrow> 's \<Rightarrow> 's"
    and inv :: "'s \<Rightarrow> bool"
  assumes inv_step: "inv s \<Longrightarrow> pre c s \<Longrightarrow> inv (step c s)"
begin

lemma inv_steps: "inv s \<Longrightarrow> legal pre step cs s \<Longrightarrow> inv (fold step cs s)"
  by (induction cs arbitrary: s) (auto intro: inv_step)

end

end
