(* ===== verification/Slp_Frame.thy ===== *)
theory Slp_Frame
  imports Prelude
begin

text \<open>
  The wire frames of the relay protocol (\<^verbatim>\<open>slp/slp_client.h\<close> and \<^verbatim>\<open>slp/slp_client.c\<close>): the frame codecs,
  the send helpers with the fragmentation of \<^verbatim>\<open>slpClientSendIpv4\<close>, and the IPv4 header helpers.

  A frame is its byte list; a codec that returns length 0 gives the empty list. \<open>sendto\<close> is the
  answer of the operating system for one datagram on one descriptor (whether all of it was sent), and
  a send returns whether it succeeded together with the datagrams that went out.
\<close>

section \<open>Frame codecs\<close>

definition SLP_TYPE_KEEPALIVE :: u8 where "SLP_TYPE_KEEPALIVE = 0x00"
definition SLP_TYPE_IPV4 :: u8 where "SLP_TYPE_IPV4 = 0x01"
definition SLP_TYPE_PING :: u8 where "SLP_TYPE_PING = 0x02"
definition SLP_TYPE_IPV4_FRAG :: u8 where "SLP_TYPE_IPV4_FRAG = 0x03"
definition SLP_TYPE_AUTH_ME :: u8 where "SLP_TYPE_AUTH_ME = 0x04"
definition SLP_MTU :: nat where "SLP_MTU = 1400"

definition slpFrameKeepalive :: bytes where
  "slpFrameKeepalive = [SLP_TYPE_KEEPALIVE]"

definition slpFramePing :: "u32 \<Rightarrow> bytes" where
  "slpFramePing ts = [SLP_TYPE_PING, ucast (drop_bit 24 ts), ucast (drop_bit 16 ts), ucast (drop_bit 8 ts),
     ucast (ts AND 0xFF)]"

definition slpFrameIpv4 :: "bytes \<Rightarrow> bytes" where
  "slpFrameIpv4 ip_pkt = (if length ip_pkt = 0 then [] else SLP_TYPE_IPV4 # ip_pkt)"

definition slpFrameIpv4Frag :: "u32 \<Rightarrow> u32 \<Rightarrow> u16 \<Rightarrow> u8 \<Rightarrow> u8 \<Rightarrow> bytes \<Rightarrow> bytes" where
  "slpFrameIpv4Frag src dst ident part total_part chunk =
     SLP_TYPE_IPV4_FRAG # Wr32be src @ Wr32be dst @ Wr16be ident @ [part, total_part] @
     Wr16be (of_nat (length chunk)) @ Wr16be (of_nat SLP_MTU) @ chunk"

text \<open>\<open>None\<close> stands for -1.\<close>

definition slpFrameType :: "bytes \<Rightarrow> u8 option" where
  "slpFrameType buf = (if length buf < 1 then None else Some (buf ! 0 AND 0x7F))"

section \<open>IPv4 header helpers\<close>

definition slpIpv4Valid :: "bytes \<Rightarrow> bool" where
  "slpIpv4Valid pkt \<longleftrightarrow>
     (if length pkt < 20 then False
      else if drop_bit 4 (pkt ! 0) \<noteq> 4 then False
      else (let ihl = unat (pkt ! 0 AND 0x0F) * 4 in \<not> (ihl < 20 \<or> length pkt < ihl)))"

definition slpIpv4Src :: "bytes \<Rightarrow> u32" where
  "slpIpv4Src pkt = push_bit 24 (ucast (pkt ! 12)) OR push_bit 16 (ucast (pkt ! 13)) OR
     push_bit 8 (ucast (pkt ! 14)) OR ucast (pkt ! 15)"

definition slpIpv4Dst :: "bytes \<Rightarrow> u32" where
  "slpIpv4Dst pkt = push_bit 24 (ucast (pkt ! 16)) OR push_bit 16 (ucast (pkt ! 17)) OR
     push_bit 8 (ucast (pkt ! 18)) OR ucast (pkt ! 19)"

definition slpIpv4TotalLen :: "bytes \<Rightarrow> nat" where
  "slpIpv4TotalLen pkt = (let total_p = unat (Rd16be (pkt ! 2) (pkt ! 3)) in if total_p \<le> length pkt then total_p else length pkt)"

section \<open>The client and its sends\<close>

record SlpClient =
  cl_fd :: int
  server_ip :: u32
  server_port :: u16
  cl_host :: bytes
  has_credentials :: bool
  username :: bytes
  password_sha1 :: bytes

type_synonym relay_out = "u32 \<times> u16 \<times> bytes"

definition slpClientSendRaw :: "(int \<Rightarrow> bytes \<Rightarrow> bool) \<Rightarrow> SlpClient \<Rightarrow> bytes \<Rightarrow> bool \<times> relay_out list" where
  "slpClientSendRaw sendto c buf =
     (if sendto (cl_fd c) buf then (True, [(server_ip c, server_port c, buf)]) else (False, []))"

definition slpClientSendKeepalive :: "(int \<Rightarrow> bytes \<Rightarrow> bool) \<Rightarrow> SlpClient \<Rightarrow> bool \<times> relay_out list" where
  "slpClientSendKeepalive sendto c = slpClientSendRaw sendto c slpFrameKeepalive"

definition slpClientSendPing :: "(int \<Rightarrow> bytes \<Rightarrow> bool) \<Rightarrow> SlpClient \<Rightarrow> u32 \<Rightarrow> bool \<times> relay_out list" where
  "slpClientSendPing sendto c ts = slpClientSendRaw sendto c (slpFramePing ts)"

text \<open>The loop of \<^verbatim>\<open>slpClientSendIpv4\<close>: one fragment per iteration, until the packet is used up or a send
  fails.\<close>

function send_frags :: "(int \<Rightarrow> bytes \<Rightarrow> bool) \<Rightarrow> SlpClient \<Rightarrow> bytes \<Rightarrow> u16 \<Rightarrow> u8 \<Rightarrow> nat \<Rightarrow> u8 \<Rightarrow> bool \<times> relay_out list" where
  "send_frags sendto c ip_pkt ident total_p offset part =
     (if offset < length ip_pkt then
        (let chunk = (if length ip_pkt - offset > SLP_MTU then SLP_MTU else length ip_pkt - offset);
             out = slpFrameIpv4Frag (slpIpv4Src ip_pkt) (slpIpv4Dst ip_pkt) ident part total_p
                     (take chunk (drop offset ip_pkt));
             (ok, ds) = slpClientSendRaw sendto c out
         in if length out = 0 \<or> \<not> ok then (False, ds)
            else (let (ok', ds') = send_frags sendto c ip_pkt ident total_p (offset + chunk) (part + 1)
                  in (ok', ds @ ds')))
      else (True, []))"
  by pat_completeness auto
termination
  by (relation "measure (\<lambda>(_, _, ip_pkt, _, _, offset, _). length ip_pkt - offset)") (auto simp: SLP_MTU_def)

declare send_frags.simps [simp del]

definition slpClientSendIpv4 :: "(int \<Rightarrow> bytes \<Rightarrow> bool) \<Rightarrow> SlpClient \<Rightarrow> bytes \<Rightarrow> bool \<times> relay_out list" where
  "slpClientSendIpv4 sendto c ip_pkt =
     (if length ip_pkt \<le> SLP_MTU then
        (let out = slpFrameIpv4 ip_pkt in if length out \<noteq> 0 then slpClientSendRaw sendto c out else (False, []))
      else
        (let ident = Rd16be (ip_pkt ! 4) (ip_pkt ! 5);
             total_u = (length ip_pkt + SLP_MTU - 1) div SLP_MTU
         in if total_u > 255 then (False, [])
            else send_frags sendto c ip_pkt ident (of_nat total_u) 0 0))"

section \<open>What the sends put on the wire\<close>

text \<open>Part \<open>i\<close> of a packet that is sent in fragments.\<close>

definition chunk_of :: "bytes \<Rightarrow> nat \<Rightarrow> bytes" where
  "chunk_of pkt i = take SLP_MTU (drop (i * SLP_MTU) pkt)"

definition parts :: "bytes \<Rightarrow> nat" where
  "parts pkt = (length pkt + SLP_MTU - 1) div SLP_MTU"

definition frag_frame :: "bytes \<Rightarrow> nat \<Rightarrow> bytes" where
  "frag_frame pkt i = slpFrameIpv4Frag (slpIpv4Src pkt) (slpIpv4Dst pkt) (Rd16be (pkt ! 4) (pkt ! 5))
     (of_nat i) (of_nat (parts pkt)) (chunk_of pkt i)"

lemma Rd32be_src: "slpIpv4Src pkt = Rd32be (take 4 (drop 12 pkt))" if "length pkt \<ge> 20"
  using that by (simp add: slpIpv4Src_def Rd32be_def)

lemma Rd32be_dst: "slpIpv4Dst pkt = Rd32be (take 4 (drop 16 pkt))" if "length pkt \<ge> 20"
  using that by (simp add: slpIpv4Dst_def Rd32be_def)

lemma parts_less: "i < parts pkt \<longleftrightarrow> i * SLP_MTU < length pkt"
  unfolding parts_def SLP_MTU_def by linarith

lemma chunks_concat: "concat (map (chunk_of pkt) [i..<parts pkt]) = drop (i * SLP_MTU) pkt"
proof (induction "parts pkt - i" arbitrary: i)
  case 0
  then show ?case using parts_less [of i pkt] by simp
next
  case (Suc n)
  then have i: "i < parts pkt" by simp
  have "concat (map (chunk_of pkt) [i..<parts pkt]) = chunk_of pkt i @ drop ((i + 1) * SLP_MTU) pkt"
    using Suc.hyps(1) [of "i + 1"] Suc.hyps(2) i by (simp add: upt_conv_Cons)
  also have "\<dots> = drop (i * SLP_MTU) pkt"
    using append_take_drop_id [of SLP_MTU "drop (i * SLP_MTU) pkt"]
    by (simp add: chunk_of_def drop_drop add.commute)
  finally show ?case .
qed

lemma slpFrameIpv4Frag_ne: "slpFrameIpv4Frag src dst ident part total_p chunk \<noteq> []"
  by (simp add: slpFrameIpv4Frag_def)

lemma send_frags_end: "\<not> offset < length pkt \<Longrightarrow> send_frags sendto c pkt ident total_p offset part = (True, [])"
  by (subst send_frags.simps) simp

lemma send_frags_all:
  assumes "\<And>buf. sendto (cl_fd c) buf"
  shows "send_frags sendto c pkt ident total_p (i * SLP_MTU) (of_nat i) = (True,
     map (\<lambda>k. (server_ip c, server_port c, slpFrameIpv4Frag (slpIpv4Src pkt) (slpIpv4Dst pkt) ident (of_nat k) total_p
       (chunk_of pkt k))) [i..<parts pkt])"
proof (induction "parts pkt - i" arbitrary: i)
  case 0
  then have "\<not> i * SLP_MTU < length pkt" "\<not> i < parts pkt" using parts_less [of i pkt] by auto
  then show ?case by (simp add: send_frags.simps)
next
  case (Suc n)
  then have i: "i < parts pkt" "i * SLP_MTU < length pkt" using parts_less [of i pkt] by auto
  let ?chunk = "if length pkt - i * SLP_MTU > SLP_MTU then SLP_MTU else length pkt - i * SLP_MTU"
  have ch: "take ?chunk (drop (i * SLP_MTU) pkt) = chunk_of pkt i" by (simp add: chunk_of_def)
  have rest: "send_frags sendto c pkt ident total_p (i * SLP_MTU + ?chunk) (of_nat i + 1) =
      send_frags sendto c pkt ident total_p ((i + 1) * SLP_MTU) (of_nat (i + 1))"
  proof (cases "length pkt - i * SLP_MTU > SLP_MTU")
    case False
    then have e: "\<not> i * SLP_MTU + ?chunk < length pkt" "\<not> (i + 1) * SLP_MTU < length pkt" using i by auto
    show ?thesis unfolding send_frags_end [OF e(1)] send_frags_end [OF e(2)] ..
  qed (simp add: add.commute)
  have "send_frags sendto c pkt ident total_p (i * SLP_MTU) (of_nat i) = (True,
      (server_ip c, server_port c, slpFrameIpv4Frag (slpIpv4Src pkt) (slpIpv4Dst pkt) ident (of_nat i) total_p (chunk_of pkt i)) #
      snd (send_frags sendto c pkt ident total_p ((i + 1) * SLP_MTU) (of_nat (i + 1))))"
    using Suc.hyps(1) [of "i + 1"] Suc.hyps(2) i(2) assms
    by (subst send_frags.simps) (simp add: Let_def ch rest slpClientSendRaw_def slpFrameIpv4Frag_ne del: mult_Suc of_nat_Suc)
  with Suc.hyps(1) [of "i + 1"] Suc.hyps(2) i(1) show ?case by (simp add: upt_conv_Cons)
qed

text \<open>Reading the fields of a fragment frame behind its type byte.\<close>

lemma length_chunk_of: "length (chunk_of pkt i) = min SLP_MTU (length pkt - i * SLP_MTU)"
  by (simp add: chunk_of_def)

lemma length_frag_frame: "length (frag_frame pkt i) = 17 + length (chunk_of pkt i)"
  by (simp add: frag_frame_def slpFrameIpv4Frag_def)

lemma Wr16be_nth: "Wr16be v = [ucast (drop_bit 8 v), ucast (v AND 0xFF)]"
  by (rule Wr16be_def)

lemma frag_frame_fields:
  fixes pkt i
  defines "p \<equiv> tl (frag_frame pkt i)"
  shows "hd (frag_frame pkt i) = SLP_TYPE_IPV4_FRAG" "Rd32be p = slpIpv4Src pkt"
    "Rd16be (p ! 8) (p ! 9) = Rd16be (pkt ! 4) (pkt ! 5)" "p ! 10 = of_nat i" "p ! 11 = of_nat (parts pkt)"
    "Rd16be (p ! 12) (p ! 13) = of_nat (length (chunk_of pkt i))" "Rd16be (p ! 14) (p ! 15) = of_nat SLP_MTU"
    "drop 16 p = chunk_of pkt i"
proof -
  have p: "p = Wr32be (slpIpv4Src pkt) @ Wr32be (slpIpv4Dst pkt) @ Wr16be (Rd16be (pkt ! 4) (pkt ! 5)) @
      [of_nat i, of_nat (parts pkt)] @ Wr16be (of_nat (length (chunk_of pkt i))) @ Wr16be (of_nat SLP_MTU) @ chunk_of pkt i"
    by (simp add: p_def frag_frame_def slpFrameIpv4Frag_def)
  show "Rd32be p = slpIpv4Src pkt" unfolding p by (rule Rd32be_Wr32be)
  show "Rd16be (p ! 8) (p ! 9) = Rd16be (pkt ! 4) (pkt ! 5)"
    "Rd16be (p ! 12) (p ! 13) = of_nat (length (chunk_of pkt i))" "Rd16be (p ! 14) (p ! 15) = of_nat SLP_MTU"
    using Rd16be_inverse unfolding p by (simp_all add: nth_append Wr16be_nth numeral_eq_Suc)
qed (simp_all add: p_def frag_frame_def slpFrameIpv4Frag_def nth_append Wr32be_def Wr16be_def)

section \<open>Properties\<close>

text \<open>Sending an IPv4 packet when the socket accepts every datagram. A packet of 1 to 1400 bytes goes
  out as one frame of type 1 carrying it. A longer one of at most 255 parts goes out as its parts in
  order, part \<open>i\<close> a fragment frame that carries bytes \<open>1400 i\<close> to \<open>1400 i + 1399\<close>, so that the carried
  pieces together are the packet; no frame is longer than the 1417 bytes of the send buffer. An empty
  packet and one of more than 255 parts send nothing and fail.\<close>

theorem slpClientSendIpv4_frames:
  assumes "\<And>buf. sendto (cl_fd c) buf"
  shows "slpClientSendIpv4 sendto c pkt =
     (if pkt = [] \<or> length pkt > 255 * 1400 then (False, [])
      else if length pkt \<le> 1400 then (True, [(server_ip c, server_port c, SLP_TYPE_IPV4 # pkt)])
      else (True, map (\<lambda>i. (server_ip c, server_port c, frag_frame pkt i)) [0..<parts pkt])) \<and>
     concat (map (chunk_of pkt) [0..<parts pkt]) = pkt \<and>
     list_all (\<lambda>d. length (snd (snd d)) \<le> 1417) (snd (slpClientSendIpv4 sendto c pkt))"
proof -
  have m: "length pkt \<le> SLP_MTU \<longleftrightarrow> length pkt \<le> 1400" by (simp add: SLP_MTU_def)
  have "parts pkt > 255 \<longleftrightarrow> length pkt > 255 * 1400" using parts_less [of 255 pkt] by (auto simp: SLP_MTU_def)
  then have e: "slpClientSendIpv4 sendto c pkt =
     (if pkt = [] \<or> length pkt > 255 * 1400 then (False, [])
      else if length pkt \<le> 1400 then (True, [(server_ip c, server_port c, SLP_TYPE_IPV4 # pkt)])
      else (True, map (\<lambda>i. (server_ip c, server_port c, frag_frame pkt i)) [0..<parts pkt]))"
    using send_frags_all [of sendto c pkt "Rd16be (pkt ! 4) (pkt ! 5)" "of_nat (parts pkt)" 0] assms
    unfolding slpClientSendIpv4_def Let_def parts_def [symmetric]
    by (auto simp: slpFrameIpv4_def slpClientSendRaw_def frag_frame_def m)
  moreover have "list_all (\<lambda>d. length (snd (snd d)) \<le> 1417) (snd (slpClientSendIpv4 sendto c pkt))"
    unfolding e by (auto simp: list_all_iff length_frag_frame length_chunk_of SLP_MTU_def)
  ultimately show ?thesis using chunks_concat [of pkt 0] by simp
qed

theorem slpClientSendIpv4_frames_witness:
  "concat (map (chunk_of (replicate 3000 7)) [0..<parts (replicate 3000 7)]) = replicate 3000 7"
  using slpClientSendIpv4_frames [of "\<lambda>_ _. True" "\<lparr>cl_fd = 3, server_ip = 1, server_port = 11451, cl_host = [],
      has_credentials = False, username = [], password_sha1 = []\<rparr>" "replicate 3000 7"] by blast

end
