(* ===== verification/Ldn_Wire.thy ===== *)
theory Ldn_Wire
  imports Prelude
begin

text \<open>
  The wire layer of the LDN control plane: the run-length coding and the 12-byte frame header of
  \<^verbatim>\<open>ldn/ldn_control.cpp\<close> and the structures of \<^verbatim>\<open>ldn/ldn_interfaces.hpp\<close> with their memory layout.
  The program sends a structure by sending its bytes, so each structure has an encoder and a decoder
  over its layout on the (little-endian) console. The contract of such a pair is the locale
  \<open>codec\<close>, interpreted on every structure and on the header.
\<close>

section \<open>Little-endian integers\<close>

definition Wr16le :: "u16 \<Rightarrow> bytes" where "Wr16le v = rev (Wr16be v)"
definition Wr32le :: "u32 \<Rightarrow> bytes" where "Wr32le v = rev (Wr32be v)"
definition Wr64le :: "u64 \<Rightarrow> bytes" where
  "Wr64le v = Wr32le (ucast v) @ Wr32le (ucast (drop_bit 32 v))"

definition Rd16le :: "bytes \<Rightarrow> u16" where "Rd16le p = Rd16be (p ! 1) (p ! 0)"
definition Rd32le :: "bytes \<Rightarrow> u32" where "Rd32le p = Rd32be (rev (take 4 p))"
definition Rd64le :: "bytes \<Rightarrow> u64" where
  "Rd64le p = ucast (Rd32le p) OR push_bit 32 (ucast (Rd32le (drop 4 p)))"

section \<open>The codec contract\<close>

locale codec =
  fixes enc :: "'a \<Rightarrow> bytes"
    and dec :: "bytes \<Rightarrow> 'a"
    and ok :: "'a \<Rightarrow> bool"
    and width :: nat
  assumes enc_length: "ok x \<Longrightarrow> length (enc x) = width"
    and dec_enc: "ok x \<Longrightarrow> dec (enc x @ r) = x"
    and dec_ok: "width \<le> length b \<Longrightarrow> ok (dec b)"
    and enc_dec: "width \<le> length b \<Longrightarrow> enc (dec b) = take width b"
begin

lemma dec_enc_Nil: "ok x \<Longrightarrow> dec (enc x) = x"
  using dec_enc [of x "[]"] by simp

lemma enc_inject: "ok x \<Longrightarrow> ok y \<Longrightarrow> enc x = enc y \<Longrightarrow> x = y"
  using dec_enc_Nil by metis

lemma enc_dec_exact: "length b = width \<Longrightarrow> enc (dec b) = b"
  by (simp add: enc_dec)

end

text \<open>Two codecs in sequence are a codec for the pair.\<close>

locale codec2 = a: codec enca deca oka wa + b: codec encb decb okb wb
  for enca :: "'a \<Rightarrow> bytes" and deca oka wa
    and encb :: "'b \<Rightarrow> bytes" and decb okb wb
begin

definition enc2 :: "'a \<times> 'b \<Rightarrow> bytes" where "enc2 p = enca (fst p) @ encb (snd p)"
definition dec2 :: "bytes \<Rightarrow> 'a \<times> 'b" where "dec2 b = (deca b, decb (drop wa b))"

sublocale both: codec enc2 dec2 "\<lambda>p. oka (fst p) \<and> okb (snd p)" "wa + wb"
  by unfold_locales
    (auto simp: enc2_def dec2_def a.enc_length b.enc_length a.dec_enc b.dec_enc a.dec_ok b.dec_ok
      a.enc_dec b.enc_dec take_add)

end

lemma split_bytes: "n \<le> length b \<Longrightarrow> \<exists>x y. b = x @ y \<and> length x = n"
  by (rule exI [of _ "take n b"], rule exI [of _ "drop n b"]) simp

lemma length_Wr_le [simp]: "length (Wr16le v) = 2" "length (Wr32le w) = 4" "length (Wr64le z) = 8"
  by (simp_all add: Wr16le_def Wr32le_def Wr64le_def)

lemma Rd16le_Wr16le [simp]: "Rd16le (Wr16le v @ r) = v"
  using Rd16be_Wr16be [of v] by (simp add: Rd16le_def Wr16le_def Wr16be_def)

lemma Rd32le_Wr32le [simp]: "Rd32le (Wr32le v @ r) = v"
  by (simp add: Rd32le_def Wr32le_def Rd32be_Wr32be_Nil)

lemma Rd64le_Wr64le [simp]: "Rd64le (Wr64le v @ r) = v"
proof -
  have "Rd64le (Wr64le v @ r) = ucast (ucast v :: u32) OR push_bit 32 (ucast (ucast (drop_bit 32 v) :: u32))"
    by (simp add: Rd64le_def Wr64le_def)
  also have "\<dots> = v" by (rule bit_word_eqI) (auto simp: bit_simps)
  finally show ?thesis .
qed

lemma Rd_le_Nil [simp]: "Rd16le (Wr16le v) = v" "Rd32le (Wr32le w) = w" "Rd64le (Wr64le z) = z"
  using Rd16le_Wr16le [of v "[]"] Rd32le_Wr32le [of w "[]"] Rd64le_Wr64le [of z "[]"] by simp_all

lemma length2_conv: "length p = 2 \<Longrightarrow> p = [p ! 0, p ! 1]"
  by (rule nth_equalityI) (auto simp: less_Suc_eq numeral_eq_Suc)

lemma Wr16le_Rd16le [simp]: "length p = 2 \<Longrightarrow> Wr16le (Rd16le (p @ r)) = p"
proof -
  assume l: "length p = 2"
  then obtain a b where "p = [a, b]" using length2_conv by blast
  then show ?thesis by (simp add: Rd16le_def Wr16le_def Wr16be_Rd16be)
qed

lemma Wr32le_Rd32le [simp]: "length p = 4 \<Longrightarrow> Wr32le (Rd32le (p @ r)) = p"
  by (simp add: Rd32le_def Wr32le_def Wr32be_Rd32be_list)

lemma Wr64le_Rd64le [simp]: "length p = 8 \<Longrightarrow> Wr64le (Rd64le (p @ r)) = p"
proof -
  assume l: "length p = 8"
  then obtain a b where p: "p = a @ b" "length a = 4" "length b = 4"
    using split_bytes [of 4 p] by auto
  have lo: "ucast (ucast (x :: u32) OR push_bit 32 (ucast (y :: u32)) :: u64) = x" for x y
    by (rule bit_word_eqI) (auto simp: bit_simps)
  have hi: "ucast (drop_bit 32 (ucast (x :: u32) OR push_bit 32 (ucast (y :: u32)) :: u64)) = y" for x y
    by (rule bit_word_eqI) (auto simp: bit_simps dest: bit_imp_le_length)
  have "Rd64le (p @ r) = ucast (Rd32le (a @ b @ r)) OR push_bit 32 (ucast (Rd32le (b @ r)))"
    using p by (simp add: Rd64le_def)
  then have "Wr64le (Rd64le (p @ r)) = Wr32le (Rd32le (a @ b @ r)) @ Wr32le (Rd32le (b @ r))"
    unfolding Wr64le_def by (simp only: lo hi)
  then show ?thesis using p by simp
qed

section \<open>Run-length coding\<close>

fun count_zeros :: "bytes \<Rightarrow> nat \<Rightarrow> nat \<times> bytes" where
  "count_zeros [] count = (count, [])"
| "count_zeros (b # ins) count =
     (if b = 0 \<and> count < 0xFF then count_zeros ins (count + 1) else (count, b # ins))"

lemma count_zeros_spec:
  "count_zeros ins n = (k, rest) \<Longrightarrow> n \<le> k \<and> (n \<le> 255 \<longrightarrow> k \<le> 255) \<and> ins = replicate (k - n) 0 @ rest"
proof (induction ins n rule: count_zeros.induct)
  case (2 b ins count)
  show ?case
  proof (cases "b = 0 \<and> count < 0xFF")
    case True
    with 2 have "count + 1 \<le> k \<and> k \<le> 255 \<and> ins = replicate (k - (count + 1)) 0 @ rest" by auto
    moreover from this have "replicate (k - count) (0::u8) = 0 # replicate (k - (count + 1)) 0"
      by (simp add: Suc_diff_Suc flip: replicate_Suc)
    ultimately show ?thesis using True by simp
  qed (use 2 in auto)
qed simp

lemma count_zeros_length: "length (snd (count_zeros ins n)) \<le> length ins"
  by (induction ins n rule: count_zeros.induct) auto

text \<open>\<open>Compress ins room\<close> is the output for an output buffer of \<open>room\<close> bytes, or \<open>None\<close> where the
  source returns -1.\<close>

function Compress :: "bytes \<Rightarrow> nat \<Rightarrow> bytes option" where
  "Compress ins room =
     (case ins of
        [] \<Rightarrow> Some []
      | c # ins1 \<Rightarrow>
          if room = 0 then None
          else if c = 0 then
            (let (count, ins2) = count_zeros ins1 0
             in if room = 1 then None
                else map_option (\<lambda>out. 0 # of_nat count # out) (Compress ins2 (room - 2)))
          else map_option (Cons c) (Compress ins1 (room - 1)))"
  by pat_completeness auto
termination
proof (relation "measure (length \<circ> fst)")
  fix ins :: bytes and room c and ins1 :: bytes and x count ins2
  assume "ins = c # ins1" and "x = count_zeros ins1 0" and "(count, ins2) = x"
  then show "((ins2, room - 2), ins, room) \<in> measure (length \<circ> fst)"
    using count_zeros_length [of ins1 0] by (metis comp_apply fst_conv in_measure le_imp_less_Suc
        length_Cons snd_conv)
qed auto

declare Compress.simps [simp del]

lemma Compress_Nil [simp]: "Compress [] room = Some []"
  by (simp add: Compress.simps [of "[]"])

lemma Compress_Cons:
  "Compress (c # ins1) room =
     (if room = 0 then None
      else if c = 0 then
        (let (count, ins2) = count_zeros ins1 0
         in if room = 1 then None
            else map_option (\<lambda>out. 0 # of_nat count # out) (Compress ins2 (room - 2)))
      else map_option (Cons c) (Compress ins1 (room - 1)))"
  by (simp add: Compress.simps [of "c # ins1"])

fun Decompress :: "bytes \<Rightarrow> nat \<Rightarrow> bytes option" where
  "Decompress [] room = Some []"
| "Decompress (c # ins1) room =
     (if room = 0 then None
      else if c = 0 then
        (case ins1 of
           [] \<Rightarrow> None
         | count # ins2 \<Rightarrow>
             (let n = min (unat count) (room - 1)
              in map_option (\<lambda>out. 0 # replicate n 0 @ out) (Decompress ins2 (room - 1 - n))))
      else map_option (Cons c) (Decompress ins1 (room - 1)))"

lemma Compress_Decompress:
  "Compress ins room = Some out \<Longrightarrow> length ins \<le> room' \<Longrightarrow> Decompress out room' = Some ins"
proof (induction ins room arbitrary: out room' rule: Compress.induct)
  case (1 ins room)
  show ?case
  proof (cases ins)
    case Nil
    with "1.prems" show ?thesis by simp
  next
    case (Cons c ins1)
    with "1.prems"(1) have room: "room \<noteq> 0" by (cases "room = 0") (simp_all add: Compress_Cons)
    show ?thesis
    proof (cases "c = 0")
      case False
      with "1.prems"(1) Cons room obtain out1 where o: "Compress ins1 (room - 1) = Some out1" "out = c # out1"
        by (auto simp: Compress_Cons)
      from "1.prems"(2) Cons have le: "length ins1 \<le> room' - 1" and "room' \<noteq> 0" by auto
      with "1.IH"(2) [OF Cons room False o(1) le] o(2) False Cons show ?thesis by simp
    next
      case True
      obtain count ins2 where cz: "count_zeros ins1 0 = (count, ins2)" by fastforce
      with "1.prems"(1) Cons room True obtain out1 where
        o: "room \<noteq> 1" "Compress ins2 (room - 2) = Some out1" "out = 0 # of_nat count # out1"
        by (auto simp: Compress_Cons split: if_splits)
      from count_zeros_spec [OF cz] have k: "count \<le> 255" "ins1 = replicate count 0 @ ins2" by auto
      have u: "unat (of_nat count :: u8) = count"
        using k(1) by (simp add: unat_of_nat take_bit_nat_eq_self)
      from "1.prems"(2) Cons k(2) have le: "length ins2 \<le> room' - 1 - count" "count \<le> room' - 1" "room' \<noteq> 0"
        by auto
      from "1.IH"(1) [OF Cons room True cz [symmetric] refl o(1,2) le(1)]
      show ?thesis using o(3) True Cons k(2) le u by (simp add: min_def)
    qed
  qed
qed

lemma Compress_length: "Compress ins room = Some out \<Longrightarrow> length out \<le> room"
proof (induction ins room arbitrary: out rule: Compress.induct)
  case (1 ins room)
  show ?case
  proof (cases ins)
    case (Cons c ins1)
    with "1.prems" have room: "room \<noteq> 0" by (cases "room = 0") (simp_all add: Compress_Cons)
    obtain count ins2 where cz: "count_zeros ins1 0 = (count, ins2)" by fastforce
    show ?thesis
    proof (cases "c = 0")
      case True
      with "1.prems" Cons room cz obtain out1 where
        o: "room \<noteq> 1" "Compress ins2 (room - 2) = Some out1" "out = 0 # of_nat count # out1"
        by (auto simp: Compress_Cons split: if_splits)
      from "1.IH"(1) [OF Cons room True cz [symmetric] refl o(1,2)] o room show ?thesis by simp
    next
      case False
      with "1.prems" Cons room obtain out1 where "Compress ins1 (room - 1) = Some out1" "out = c # out1"
        by (auto simp: Compress_Cons)
      with "1.IH"(2) [OF Cons room False] room show ?thesis by fastforce
    qed
  qed (use "1.prems" in simp)
qed

section \<open>Structures\<close>

type_synonym MacAddress = bytes

definition SsidLengthMax :: nat where "SsidLengthMax = 32"
definition AdvertiseDataSizeMax :: nat where "AdvertiseDataSizeMax = 384"
definition UserNameBytesMax :: nat where "UserNameBytesMax = 32"
definition NodeCountMax :: nat where "NodeCountMax = 8"

record NodeInfo =
  ipv4Address :: u32
  macAddress :: MacAddress
  nodeId :: u8
  isConnected :: u8
  userName :: bytes
  ni_unk1 :: u8
  localCommunicationVersion :: u16
  ni_unk2 :: bytes

record CommonNetworkInfo =
  bssid :: MacAddress
  ssid_length :: u8
  ssid_raw :: bytes
  channel :: u16
  linkLevel :: u8
  networkType :: u8
  common_unk :: u32

record LdnNetworkInfo =
  unkRandom :: bytes
  securityMode :: u16
  stationAcceptPolicy :: u8
  ldn_unk1 :: bytes
  nodeCountMax :: u8
  nodeCount :: u8
  nodes :: "NodeInfo list"
  ldn_unk2 :: u16
  advertiseDataSize :: u16
  advertiseData :: bytes
  ldn_unk3 :: bytes

record NetworkId =
  localCommunicationId :: u64
  intent_unk1 :: bytes
  sceneId :: u16
  intent_unk2 :: bytes
  session_high :: u64
  session_low :: u64

record NetworkInfo =
  networkId :: NetworkId
  common :: CommonNetworkInfo
  ldn :: LdnNetworkInfo

record LanPacketHeader =
  magic :: u32
  hdr_type :: u8
  compressed :: u8
  hdr_length :: u16
  decompress_length :: u16
  hdr_seq :: u16

record RelayHeartbeatPayload =
  hb_bssid :: MacAddress
  hb_pad :: bytes
  hb_ipv4 :: u32

section \<open>Layouts\<close>

definition enc_NodeInfo :: "NodeInfo \<Rightarrow> bytes" where
  "enc_NodeInfo n = Wr32le (ipv4Address n) @ macAddress n @ [nodeId n] @ [isConnected n] @ userName n @
     [ni_unk1 n] @ Wr16le (localCommunicationVersion n) @ ni_unk2 n"

definition dec_NodeInfo :: "bytes \<Rightarrow> NodeInfo" where
  "dec_NodeInfo b = \<lparr>ipv4Address = Rd32le b, macAddress = take 6 (drop 4 b), nodeId = b ! 10,
     isConnected = b ! 11, userName = take 33 (drop 12 b), ni_unk1 = b ! 45,
     localCommunicationVersion = Rd16le (drop 46 b), ni_unk2 = take 16 (drop 48 b)\<rparr>"

definition NodeInfo_ok :: "NodeInfo \<Rightarrow> bool" where
  "NodeInfo_ok n \<longleftrightarrow> length (macAddress n) = 6 \<and> length (userName n) = 33 \<and> length (ni_unk2 n) = 16"

definition enc_Common :: "CommonNetworkInfo \<Rightarrow> bytes" where
  "enc_Common c = bssid c @ [ssid_length c] @ ssid_raw c @ Wr16le (channel c) @ [linkLevel c] @
     [networkType c] @ Wr32le (common_unk c)"

definition dec_Common :: "bytes \<Rightarrow> CommonNetworkInfo" where
  "dec_Common b = \<lparr>bssid = take 6 b, ssid_length = b ! 6, ssid_raw = take 33 (drop 7 b),
     channel = Rd16le (drop 40 b), linkLevel = b ! 42, networkType = b ! 43,
     common_unk = Rd32le (drop 44 b)\<rparr>"

definition Common_ok :: "CommonNetworkInfo \<Rightarrow> bool" where
  "Common_ok c \<longleftrightarrow> length (bssid c) = 6 \<and> length (ssid_raw c) = 33"

fun enc_nodes :: "NodeInfo list \<Rightarrow> bytes" where
  "enc_nodes [] = []"
| "enc_nodes (n # ns) = enc_NodeInfo n @ enc_nodes ns"

fun dec_nodes :: "nat \<Rightarrow> bytes \<Rightarrow> NodeInfo list" where
  "dec_nodes 0 b = []"
| "dec_nodes (Suc k) b = dec_NodeInfo b # dec_nodes k (drop 64 b)"

definition enc_Ldn :: "LdnNetworkInfo \<Rightarrow> bytes" where
  "enc_Ldn l = unkRandom l @ Wr16le (securityMode l) @ [stationAcceptPolicy l] @ ldn_unk1 l @
     [nodeCountMax l] @ [nodeCount l] @ enc_nodes (nodes l) @ Wr16le (ldn_unk2 l) @
     Wr16le (advertiseDataSize l) @ advertiseData l @ ldn_unk3 l"

definition dec_Ldn :: "bytes \<Rightarrow> LdnNetworkInfo" where
  "dec_Ldn b = \<lparr>unkRandom = take 16 b, securityMode = Rd16le (drop 16 b), stationAcceptPolicy = b ! 18,
     ldn_unk1 = take 3 (drop 19 b), nodeCountMax = b ! 22, nodeCount = b ! 23,
     nodes = dec_nodes NodeCountMax (drop 24 b), ldn_unk2 = Rd16le (drop 536 b),
     advertiseDataSize = Rd16le (drop 538 b), advertiseData = take 384 (drop 540 b),
     ldn_unk3 = take 148 (drop 924 b)\<rparr>"

definition Ldn_ok :: "LdnNetworkInfo \<Rightarrow> bool" where
  "Ldn_ok l \<longleftrightarrow> length (unkRandom l) = 16 \<and> length (ldn_unk1 l) = 3 \<and> length (nodes l) = NodeCountMax \<and>
     (\<forall>n \<in> set (nodes l). NodeInfo_ok n) \<and> length (advertiseData l) = 384 \<and> length (ldn_unk3 l) = 148"

definition enc_NetworkId :: "NetworkId \<Rightarrow> bytes" where
  "enc_NetworkId i = Wr64le (localCommunicationId i) @ intent_unk1 i @ Wr16le (sceneId i) @ intent_unk2 i @
     Wr64le (session_high i) @ Wr64le (session_low i)"

definition dec_NetworkId :: "bytes \<Rightarrow> NetworkId" where
  "dec_NetworkId b = \<lparr>localCommunicationId = Rd64le b, intent_unk1 = take 2 (drop 8 b),
     sceneId = Rd16le (drop 10 b), intent_unk2 = take 4 (drop 12 b),
     session_high = Rd64le (drop 16 b), session_low = Rd64le (drop 24 b)\<rparr>"

definition NetworkId_ok :: "NetworkId \<Rightarrow> bool" where
  "NetworkId_ok i \<longleftrightarrow> length (intent_unk1 i) = 2 \<and> length (intent_unk2 i) = 4"

definition sizeof_NetworkInfo :: nat where "sizeof_NetworkInfo = 1152"
definition sizeof_NodeInfo :: nat where "sizeof_NodeInfo = 64"
definition sizeof_LanPacketHeader :: nat where "sizeof_LanPacketHeader = 12"
definition sizeof_RelayHeartbeatPayload :: nat where "sizeof_RelayHeartbeatPayload = 12"

definition enc_NetworkInfo :: "NetworkInfo \<Rightarrow> bytes" where
  "enc_NetworkInfo i = enc_NetworkId (networkId i) @ enc_Common (common i) @ enc_Ldn (ldn i)"

definition dec_NetworkInfo :: "bytes \<Rightarrow> NetworkInfo" where
  "dec_NetworkInfo b = \<lparr>networkId = dec_NetworkId b, common = dec_Common (drop 32 b),
     ldn = dec_Ldn (drop 80 b)\<rparr>"

definition NetworkInfo_ok :: "NetworkInfo \<Rightarrow> bool" where
  "NetworkInfo_ok i \<longleftrightarrow> NetworkId_ok (networkId i) \<and> Common_ok (common i) \<and> Ldn_ok (ldn i)"

definition enc_Header :: "LanPacketHeader \<Rightarrow> bytes" where
  "enc_Header h = Wr32le (magic h) @ [hdr_type h] @ [compressed h] @ Wr16le (hdr_length h) @
     Wr16le (decompress_length h) @ Wr16le (hdr_seq h)"

definition dec_Header :: "bytes \<Rightarrow> LanPacketHeader" where
  "dec_Header b = \<lparr>magic = Rd32le b, hdr_type = b ! 4, compressed = b ! 5,
     hdr_length = Rd16le (drop 6 b), decompress_length = Rd16le (drop 8 b), hdr_seq = Rd16le (drop 10 b)\<rparr>"

definition enc_Heartbeat :: "RelayHeartbeatPayload \<Rightarrow> bytes" where
  "enc_Heartbeat p = hb_bssid p @ hb_pad p @ Wr32le (hb_ipv4 p)"

definition dec_Heartbeat :: "bytes \<Rightarrow> RelayHeartbeatPayload" where
  "dec_Heartbeat b = \<lparr>hb_bssid = take 6 b, hb_pad = take 2 (drop 6 b), hb_ipv4 = Rd32le (drop 8 b)\<rparr>"

definition Heartbeat_ok :: "RelayHeartbeatPayload \<Rightarrow> bool" where
  "Heartbeat_ok p \<longleftrightarrow> length (hb_bssid p) = 6 \<and> length (hb_pad p) = 2"

section \<open>Every layout is a codec\<close>

lemma Wr_Rd_take:
  "4 \<le> length b \<Longrightarrow> Wr32le (Rd32le b) = take 4 b"
  "2 \<le> length b \<Longrightarrow> Wr16le (Rd16le b) = take 2 b"
  "8 \<le> length b \<Longrightarrow> Wr64le (Rd64le b) = take 8 b"
  using Wr32le_Rd32le [of "take 4 b" "drop 4 b"] Wr16le_Rd16le [of "take 2 b" "drop 2 b"]
    Wr64le_Rd64le [of "take 8 b" "drop 8 b"] by simp_all

lemma nth_as_take: "i < length b \<Longrightarrow> [b ! i] = take 1 (drop i b)"
  by (simp add: take_Suc_conv_app_nth)

text \<open>Consecutive slices of a buffer join up; with this rule the slices a decoder cut out of a
  buffer collapse back into its prefix.\<close>

lemma join_slices: "i + n = m \<Longrightarrow> take i b @ take n (drop i b) @ z = take m b @ z"
  by (metis append.assoc take_add)

lemma join_last: "i + n = m \<Longrightarrow> take i b @ take n (drop i b) = take m b"
  by (metis take_add)

interpretation node: codec enc_NodeInfo dec_NodeInfo NodeInfo_ok 64
proof unfold_locales
  fix x :: NodeInfo and r assume "NodeInfo_ok x"
  then show "length (enc_NodeInfo x) = 64" "dec_NodeInfo (enc_NodeInfo x @ r) = x"
    by (simp_all add: NodeInfo_ok_def enc_NodeInfo_def dec_NodeInfo_def nth_append)
next
  fix b :: bytes assume "64 \<le> length b"
  then show "NodeInfo_ok (dec_NodeInfo b)" "enc_NodeInfo (dec_NodeInfo b) = take 64 b"
    by (simp_all add: NodeInfo_ok_def enc_NodeInfo_def dec_NodeInfo_def Wr_Rd_take nth_as_take
        join_slices join_last del: append_Cons append_Nil append.simps)
qed

interpretation comm: codec enc_Common dec_Common Common_ok 48
proof unfold_locales
  fix x :: CommonNetworkInfo and r assume "Common_ok x"
  then show "length (enc_Common x) = 48" "dec_Common (enc_Common x @ r) = x"
    by (simp_all add: Common_ok_def enc_Common_def dec_Common_def nth_append)
next
  fix b :: bytes assume "48 \<le> length b"
  then show "Common_ok (dec_Common b)" "enc_Common (dec_Common b) = take 48 b"
    by (simp_all add: Common_ok_def enc_Common_def dec_Common_def Wr_Rd_take nth_as_take
        join_slices join_last del: append_Cons append_Nil append.simps)
qed

interpretation netid: codec enc_NetworkId dec_NetworkId NetworkId_ok 32
proof unfold_locales
  fix x :: NetworkId and r assume "NetworkId_ok x"
  then show "length (enc_NetworkId x) = 32" "dec_NetworkId (enc_NetworkId x @ r) = x"
    by (simp_all add: NetworkId_ok_def enc_NetworkId_def dec_NetworkId_def nth_append)
next
  fix b :: bytes assume "32 \<le> length b"
  then show "NetworkId_ok (dec_NetworkId b)" "enc_NetworkId (dec_NetworkId b) = take 32 b"
    by (simp_all add: NetworkId_ok_def enc_NetworkId_def dec_NetworkId_def Wr_Rd_take
        join_slices join_last)
qed

interpretation hdr: codec enc_Header dec_Header "\<lambda>_. True" 12
proof unfold_locales
  fix x :: LanPacketHeader and r
  show "length (enc_Header x) = 12" "dec_Header (enc_Header x @ r) = x"
    by (simp_all add: enc_Header_def dec_Header_def nth_append)
next
  fix b :: bytes assume "12 \<le> length b"
  then show "enc_Header (dec_Header b) = take 12 b"
    by (simp add: enc_Header_def dec_Header_def Wr_Rd_take nth_as_take
        join_slices join_last del: append_Cons append_Nil append.simps)
qed simp

interpretation beat: codec enc_Heartbeat dec_Heartbeat Heartbeat_ok 12
proof unfold_locales
  fix x :: RelayHeartbeatPayload and r assume "Heartbeat_ok x"
  then show "length (enc_Heartbeat x) = 12" "dec_Heartbeat (enc_Heartbeat x @ r) = x"
    by (simp_all add: Heartbeat_ok_def enc_Heartbeat_def dec_Heartbeat_def)
next
  fix b :: bytes assume "12 \<le> length b"
  then show "Heartbeat_ok (dec_Heartbeat b)" "enc_Heartbeat (dec_Heartbeat b) = take 12 b"
    by (simp_all add: Heartbeat_ok_def enc_Heartbeat_def dec_Heartbeat_def Wr_Rd_take
        join_slices join_last)
qed

text \<open>The node array, and the structures around it.\<close>

lemma length_enc_nodes: "\<forall>n \<in> set ns. NodeInfo_ok n \<Longrightarrow> length (enc_nodes ns) = 64 * length ns"
  by (induction ns) (simp_all add: node.enc_length)

lemma dec_enc_nodes: "\<forall>n \<in> set ns. NodeInfo_ok n \<Longrightarrow> dec_nodes (length ns) (enc_nodes ns @ r) = ns"
  by (induction ns) (simp_all add: node.enc_length node.dec_enc)

lemma dec_nodes_ok:
  "64 * k \<le> length b \<Longrightarrow> length (dec_nodes k b) = k \<and> (\<forall>n \<in> set (dec_nodes k b). NodeInfo_ok n)"
proof (induction k arbitrary: b)
  case (Suc k)
  then show ?case using Suc.IH [of "drop 64 b"] node.dec_ok [of b] by auto
qed simp

lemma enc_dec_nodes: "64 * k \<le> length b \<Longrightarrow> enc_nodes (dec_nodes k b) = take (64 * k) b"
proof (induction k arbitrary: b)
  case (Suc k)
  then have "64 \<le> length b" and "64 * k \<le> length (drop 64 b)" by auto
  with Suc.IH [of "drop 64 b"] show ?case
    using take_add [of 64 "64 * k" b] by (simp add: node.enc_dec)
qed simp

interpretation ldn: codec enc_Ldn dec_Ldn Ldn_ok 1072
proof unfold_locales
  fix x :: LdnNetworkInfo and r assume ok: "Ldn_ok x"
  then have l: "length (enc_nodes (nodes x)) = 512"
    and d: "dec_nodes 8 (enc_nodes (nodes x) @ z) = nodes x" for z
    using length_enc_nodes [of "nodes x"] dec_enc_nodes [of "nodes x" z]
    by (auto simp: Ldn_ok_def NodeCountMax_def)
  from ok l d show "length (enc_Ldn x) = 1072" "dec_Ldn (enc_Ldn x @ r) = x"
    by (simp_all add: Ldn_ok_def enc_Ldn_def dec_Ldn_def nth_append NodeCountMax_def)
next
  fix b :: bytes assume b: "1072 \<le> length b"
  then have d: "enc_nodes (dec_nodes 8 (drop 24 b)) = take 512 (drop 24 b)"
    using enc_dec_nodes [of 8 "drop 24 b"] by simp
  have "length (dec_nodes 8 (drop 24 b)) = 8" "\<forall>n \<in> set (dec_nodes 8 (drop 24 b)). NodeInfo_ok n"
    using dec_nodes_ok [of 8 "drop 24 b"] b by auto
  with b show "Ldn_ok (dec_Ldn b)"
    by (simp add: Ldn_ok_def dec_Ldn_def NodeCountMax_def)
  from b d show "enc_Ldn (dec_Ldn b) = take 1072 b"
    by (simp add: enc_Ldn_def dec_Ldn_def NodeCountMax_def Wr_Rd_take nth_as_take
        join_slices join_last del: append_Cons append_Nil append.simps)
qed

interpretation idc: codec2 enc_NetworkId dec_NetworkId NetworkId_ok 32 enc_Common dec_Common Common_ok 48
  by unfold_locales

interpretation info: codec enc_NetworkInfo dec_NetworkInfo NetworkInfo_ok 1152
proof unfold_locales
  have e: "enc_NetworkInfo x = idc.enc2 (networkId x, common x) @ enc_Ldn (ldn x)" for x
    by (simp add: enc_NetworkInfo_def idc.enc2_def)
  have d: "dec_NetworkInfo b = \<lparr>networkId = fst (idc.dec2 b), common = snd (idc.dec2 b), ldn = dec_Ldn (drop 80 b)\<rparr>" for b
    by (simp add: dec_NetworkInfo_def idc.dec2_def)
  fix x :: NetworkInfo and r assume ok: "NetworkInfo_ok x"
  then have l: "length (idc.enc2 (networkId x, common x)) = 80"
    and dd: "idc.dec2 (idc.enc2 (networkId x, common x) @ z) = (networkId x, common x)" for z
    using idc.both.enc_length [of "(networkId x, common x)"] idc.both.dec_enc [of "(networkId x, common x)" z]
    by (auto simp: NetworkInfo_ok_def)
  from ok l show "length (enc_NetworkInfo x) = 1152"
    by (simp add: e NetworkInfo_ok_def ldn.enc_length)
  from ok l dd show "dec_NetworkInfo (enc_NetworkInfo x @ r) = x"
    by (simp add: e d NetworkInfo_ok_def ldn.dec_enc)
next
  fix b :: bytes assume b: "1152 \<le> length b"
  then show "NetworkInfo_ok (dec_NetworkInfo b)"
    by (simp add: NetworkInfo_ok_def dec_NetworkInfo_def netid.dec_ok comm.dec_ok ldn.dec_ok)
  from b show "enc_NetworkInfo (dec_NetworkInfo b) = take 1152 b"
    by (simp add: enc_NetworkInfo_def dec_NetworkInfo_def netid.enc_dec comm.enc_dec ldn.enc_dec
        join_slices join_last)
qed

section \<open>Frames\<close>

definition LanMagic :: u32 where "LanMagic = 0x11451400"

text \<open>The frame \<^verbatim>\<open>SendFrame\<close> hands to the tunnel, for a body of at most \<open>sizeof(NetworkInfo)\<close> bytes, and
  the part of \<^verbatim>\<open>OnControlFrame\<close> before its dispatch: \<open>None\<close> where it drops the frame, else the frame
  type, the sequence number and the body.\<close>

definition build_frame :: "u16 \<Rightarrow> u8 \<Rightarrow> bytes \<Rightarrow> bytes" where
  "build_frame seq ty body =
     (let h = \<lparr>magic = LanMagic, hdr_type = ty, compressed = 0, hdr_length = 0,
               decompress_length = 0, hdr_seq = seq\<rparr>
      in if body = [] then enc_Header h
         else case Compress body sizeof_NetworkInfo of
            Some out \<Rightarrow> enc_Header (h\<lparr>compressed := 1, decompress_length := of_nat (length body),
               hdr_length := of_nat (length out)\<rparr>) @ out
          | None \<Rightarrow> enc_Header (h\<lparr>hdr_length := of_nat (length body)\<rparr>) @ body)"

definition parse_frame :: "bytes \<Rightarrow> (u8 \<times> u16 \<times> bytes) option" where
  "parse_frame payload =
     (if length payload < sizeof_LanPacketHeader then None
      else
        (let h = dec_Header payload
         in if magic h \<noteq> LanMagic then None
            else if length payload < sizeof_LanPacketHeader + unat (hdr_length h) then None
            else
              (let body = take (unat (hdr_length h)) (drop sizeof_LanPacketHeader payload)
               in if compressed h \<noteq> 0 then
                    (case Decompress body sizeof_NetworkInfo of
                       None \<Rightarrow> None
                     | Some out \<Rightarrow>
                         if length out \<noteq> unat (decompress_length h) then None
                         else Some (hdr_type h, hdr_seq h, out))
                  else Some (hdr_type h, hdr_seq h, body))))"

lemma unat_u16: "n \<le> 1152 \<Longrightarrow> unat (of_nat n :: u16) = n"
  by (simp add: unat_of_nat take_bit_nat_eq_self)

lemma parse_build:
  assumes "length body \<le> sizeof_NetworkInfo"
  shows "parse_frame (build_frame seq ty body) = Some (ty, seq, body)"
proof (cases "body = []")
  case True
  then show ?thesis
    using hdr.dec_enc_Nil hdr.enc_length
    by (simp add: parse_frame_def build_frame_def Let_def sizeof_LanPacketHeader_def)
next
  case False
  have le: "length body \<le> 1152" using assms by (simp add: sizeof_NetworkInfo_def)
  show ?thesis
  proof (cases "Compress body sizeof_NetworkInfo")
    case None
    with False le show ?thesis
      by (simp add: parse_frame_def build_frame_def Let_def hdr.dec_enc hdr.enc_length
          sizeof_LanPacketHeader_def unat_u16)
  next
    case (Some out)
    have "length out \<le> 1152" using Compress_length [OF Some] by (simp add: sizeof_NetworkInfo_def)
    with Some False le Compress_Decompress [OF Some assms] show ?thesis
      by (simp add: parse_frame_def build_frame_def Let_def hdr.dec_enc hdr.enc_length
          sizeof_LanPacketHeader_def unat_u16)
  qed
qed

lemma length_build_frame:
  "length body \<le> sizeof_NetworkInfo \<Longrightarrow> length (build_frame seq ty body) \<le> 12 + sizeof_NetworkInfo"
  using Compress_length [of body sizeof_NetworkInfo]
  by (auto simp: build_frame_def Let_def hdr.enc_length split: option.splits)

section \<open>Properties\<close>

text \<open>The run-length coder is lossless: whenever \<^verbatim>\<open>Compress\<close> succeeds, its output fits the buffer
  it was given and \<^verbatim>\<open>Decompress\<close>, with any buffer large enough for the original, returns exactly the
  original bytes.\<close>

lemma rle_roundtrip:
  assumes "Compress ins room = Some out" and "length ins \<le> room'"
  shows "length out \<le> room \<and> Decompress out room' = Some ins"
  using assms by (simp add: Compress_length Compress_Decompress)

text \<open>C34: A control frame survives the wire: for every body of at most 1152 bytes, whether or not it
  shrinks under compression, the frame that is sent passes every check of the receiver (magic,
  lengths, decompression) and yields the same type, sequence number and body; and the frame fits
  the sender's buffer.\<close>

theorem control_frame_roundtrip:
  assumes "length body \<le> sizeof_NetworkInfo"
  shows "parse_frame (build_frame seq ty body) = Some (ty, seq, body) \<and>
     length (build_frame seq ty body) \<le> sizeof_LanPacketHeader + sizeof_NetworkInfo"
  using parse_build [OF assms] length_build_frame [OF assms]
  by (simp add: sizeof_LanPacketHeader_def)

theorem control_frame_roundtrip_witness:
  "parse_frame (build_frame 9 2 [1, 0, 0, 3]) = Some (2, 9, [1, 0, 0, 3])"
  using control_frame_roundtrip [of "[1, 0, 0, 3]" 9 2] by (simp add: sizeof_NetworkInfo_def)

text \<open>The structure layouts lose nothing: a network description, a node description and a
  heartbeat are each recovered from their bytes, their sizes are the 1152, 64 and 12 bytes the
  receivers test for, and conversely every 1152-byte body that arrives is a complete description
  whose bytes are the ones received.\<close>

theorem struct_layout_roundtrip:
  "(NetworkInfo_ok i \<longrightarrow> dec_NetworkInfo (enc_NetworkInfo i) = i \<and>
      length (enc_NetworkInfo i) = sizeof_NetworkInfo) \<and>
   (NodeInfo_ok n \<longrightarrow> dec_NodeInfo (enc_NodeInfo n) = n \<and> length (enc_NodeInfo n) = sizeof_NodeInfo) \<and>
   (Heartbeat_ok h \<longrightarrow> dec_Heartbeat (enc_Heartbeat h) = h \<and>
      length (enc_Heartbeat h) = sizeof_RelayHeartbeatPayload) \<and>
   (length b = sizeof_NetworkInfo \<longrightarrow> NetworkInfo_ok (dec_NetworkInfo b) \<and>
      enc_NetworkInfo (dec_NetworkInfo b) = b)"
  by (simp add: info.dec_enc_Nil info.enc_length node.dec_enc_Nil node.enc_length beat.dec_enc_Nil
      beat.enc_length info.dec_ok info.enc_dec sizeof_NetworkInfo_def sizeof_NodeInfo_def
      sizeof_RelayHeartbeatPayload_def)

theorem struct_layout_roundtrip_witness:
  "enc_NetworkInfo (dec_NetworkInfo (replicate 1152 7)) = replicate 1152 7"
  using struct_layout_roundtrip [where b = "replicate 1152 7"] by (simp add: sizeof_NetworkInfo_def)

end
