(* ===== verification/Ip_Addr.thy ===== *)
theory Ip_Addr
  imports Prelude
begin

text \<open>
  IPv4 addresses and socket addresses: the class \<^verbatim>\<open>IpV4\<close> of \<^verbatim>\<open>bsd/ip_addr.hpp\<close>, the constants,
  enumerations and \<^verbatim>\<open>SockAddrIn\<close> of \<^verbatim>\<open>bsd/bsd_types.hpp\<close>, and the LAN address translation of
  \<^verbatim>\<open>bsd/lan_addr_map.cpp\<close>. Addresses live in two 32-bit encodings, numeric (first octet in the
  high byte) and network (the byte-swapped value a \<^verbatim>\<open>sockaddr_in\<close> holds); the lemmas show that
  the conversions are inverse to each other and that the two subnet tests of the program agree.
\<close>

section \<open>Byte swapping\<close>

definition bswap32 :: "u32 \<Rightarrow> u32" where
  "bswap32 v = Rd32be (rev (Wr32be v))"

definition bswap16 :: "u16 \<Rightarrow> u16" where
  "bswap16 v = Rd16be (ucast (v AND 0xFF)) (ucast (drop_bit 8 v))"

section \<open>IpV4\<close>

record IpV4 =
  m_numeric :: u32

definition FromNumeric :: "u32 \<Rightarrow> IpV4" where
  "FromNumeric v = \<lparr>m_numeric = v\<rparr>"

definition FromNetwork :: "u32 \<Rightarrow> IpV4" where
  "FromNetwork v = \<lparr>m_numeric = bswap32 v\<rparr>"

definition FromOctets :: "u8 \<Rightarrow> u8 \<Rightarrow> u8 \<Rightarrow> u8 \<Rightarrow> IpV4" where
  "FromOctets a b c d = \<lparr>m_numeric = push_bit 24 (ucast a) OR push_bit 16 (ucast b) OR
     push_bit 8 (ucast c) OR ucast d\<rparr>"

definition Numeric :: "IpV4 \<Rightarrow> u32" where
  "Numeric ip = m_numeric ip"

definition Network :: "IpV4 \<Rightarrow> u32" where
  "Network ip = bswap32 (m_numeric ip)"

definition Octet :: "IpV4 \<Rightarrow> nat \<Rightarrow> u8" where
  "Octet ip i = ucast (drop_bit (24 - 8 * i) (m_numeric ip) AND 0xFF)"

definition IsAny :: "IpV4 \<Rightarrow> bool" where
  "IsAny ip \<longleftrightarrow> m_numeric ip = 0"

definition IsBroadcast :: "IpV4 \<Rightarrow> bool" where
  "IsBroadcast ip \<longleftrightarrow> m_numeric ip AND 0xFF = 0xFF"

definition InSubnet :: "IpV4 \<Rightarrow> IpV4 \<Rightarrow> IpV4 \<Rightarrow> bool" where
  "InSubnet ip net msk \<longleftrightarrow>
     m_numeric ip AND m_numeric msk = m_numeric net AND m_numeric msk"

definition VirtualNet :: IpV4 where "VirtualNet = FromOctets 10 13 0 0"
definition VirtualMask :: IpV4 where "VirtualMask = FromOctets 255 255 0 0"

section \<open>Constants and enumerations of the bsd service\<close>

definition LAN_NETWORK_BASE :: u32 where "LAN_NETWORK_BASE = 0x0A0D0000"
definition LAN_NETWORK_MASK :: u32 where "LAN_NETWORK_MASK = 0xFFFF0000"

definition IsLanAddress :: "u32 \<Rightarrow> bool" where
  "IsLanAddress ip \<longleftrightarrow> ip AND LAN_NETWORK_MASK = LAN_NETWORK_BASE"

definition MAX_PROXY_SOCKETS :: nat where "MAX_PROXY_SOCKETS = 64"

datatype AddressFamily = AF_Unspecified | AF_Unix | AF_Inet | AF_Inet6

fun family_val :: "AddressFamily \<Rightarrow> u8" where
  "family_val AF_Unspecified = 0"
| "family_val AF_Unix = 1"
| "family_val AF_Inet = 2"
| "family_val AF_Inet6 = 28"

text \<open>The two enumerations are 32-bit integers that the code casts from what a game passes, so a value
  without a name is possible; the last constructor stands for it.\<close>

datatype SocketType = Stream | Dgram | Raw | Seqpacket | Type_Other int

fun socket_type_val :: "SocketType \<Rightarrow> int" where
  "socket_type_val Stream = 1"
| "socket_type_val Dgram = 2"
| "socket_type_val Raw = 3"
| "socket_type_val Seqpacket = 5"
| "socket_type_val (Type_Other v) = v"

definition to_SocketType :: "int \<Rightarrow> SocketType" where
  "to_SocketType v = (if v = 1 then Stream else if v = 2 then Dgram else if v = 3 then Raw
     else if v = 5 then Seqpacket else Type_Other v)"

datatype ProtocolType = Proto_Unspecified | Proto_Icmp | Proto_Tcp | Proto_Udp | Proto_Other int

definition to_ProtocolType :: "int \<Rightarrow> ProtocolType" where
  "to_ProtocolType v = (if v = 0 then Proto_Unspecified else if v = 1 then Proto_Icmp else if v = 6 then Proto_Tcp
     else if v = 17 then Proto_Udp else Proto_Other v)"

datatype BsdErrno = E_Success | E_Perm | E_NoEnt | E_Intr | E_Io | E_BadF | E_Again | E_NoMem
  | E_Access | E_Fault | E_Inval | E_NFile | E_MFile | E_NotSock | E_DestAddrReq | E_MsgSize
  | E_ProtoType | E_NoProtoOpt | E_ProtoNoSupport | E_OpNotSupp | E_AfNoSupport | E_AddrInUse
  | E_AddrNotAvail | E_NetDown | E_NetUnreach | E_ConnReset | E_NoBufs | E_IsConn | E_NotConn
  | E_TimedOut | E_ConnRefused | E_InProgress | E_Already

fun errno_val :: "BsdErrno \<Rightarrow> int" where
  "errno_val E_Success = 0"
| "errno_val E_Perm = 1"
| "errno_val E_NoEnt = 2"
| "errno_val E_Intr = 4"
| "errno_val E_Io = 5"
| "errno_val E_BadF = 9"
| "errno_val E_Again = 11"
| "errno_val E_NoMem = 12"
| "errno_val E_Access = 13"
| "errno_val E_Fault = 14"
| "errno_val E_Inval = 22"
| "errno_val E_NFile = 23"
| "errno_val E_MFile = 24"
| "errno_val E_NotSock = 108"
| "errno_val E_DestAddrReq = 121"
| "errno_val E_MsgSize = 122"
| "errno_val E_ProtoType = 107"
| "errno_val E_NoProtoOpt = 109"
| "errno_val E_ProtoNoSupport = 123"
| "errno_val E_OpNotSupp = 95"
| "errno_val E_AfNoSupport = 106"
| "errno_val E_AddrInUse = 112"
| "errno_val E_AddrNotAvail = 125"
| "errno_val E_NetDown = 115"
| "errno_val E_NetUnreach = 114"
| "errno_val E_ConnReset = 104"
| "errno_val E_NoBufs = 105"
| "errno_val E_IsConn = 127"
| "errno_val E_NotConn = 128"
| "errno_val E_TimedOut = 116"
| "errno_val E_ConnRefused = 111"
| "errno_val E_InProgress = 119"
| "errno_val E_Already = 120"

section \<open>SockAddrIn\<close>

record SockAddrIn =
  sin_len :: u8
  sin_family :: u8
  sin_port :: u16
  sin_addr :: u32
  sin_zero :: bytes

definition zero_SockAddrIn :: SockAddrIn where
  "zero_SockAddrIn = \<lparr>sin_len = 0, sin_family = 0, sin_port = 0, sin_addr = 0,
     sin_zero = replicate 8 0\<rparr>"

definition SockAddrIn_IsLanAddress :: "SockAddrIn \<Rightarrow> bool" where
  "SockAddrIn_IsLanAddress a \<longleftrightarrow> IsLanAddress (bswap32 (sin_addr a))"

definition GetPort :: "SockAddrIn \<Rightarrow> u16" where
  "GetPort a = bswap16 (sin_port a)"

definition GetAddr :: "SockAddrIn \<Rightarrow> u32" where
  "GetAddr a = bswap32 (sin_addr a)"

definition Addr :: "SockAddrIn \<Rightarrow> IpV4" where
  "Addr a = FromNetwork (sin_addr a)"

definition SetAddr :: "IpV4 \<Rightarrow> SockAddrIn \<Rightarrow> SockAddrIn" where
  "SetAddr ip a = a\<lparr>sin_addr := Network ip\<rparr>"

section \<open>LAN address translation\<close>

record netmap =
  g_real_addr :: u32
  g_real_mask :: u32

definition TranslationEnabled :: bool where "TranslationEnabled = False"

definition netmap_init :: netmap where
  "netmap_init = \<lparr>g_real_addr = 0, g_real_mask = 0\<rparr>"

definition RealNet :: "netmap \<Rightarrow> u32" where
  "RealNet g = g_real_addr g AND g_real_mask g"

definition RealBcast :: "netmap \<Rightarrow> u32" where
  "RealBcast g = RealNet g OR NOT (g_real_mask g)"

definition nm_VirtualNet :: u32 where "nm_VirtualNet = 0x0A0D0000"
definition nm_VirtualMask :: u32 where "nm_VirtualMask = 0xFFFF0000"
definition nm_VirtualPeerNet :: u32 where "nm_VirtualPeerNet = 0x0A0D2500"
definition nm_VirtualBcast :: u32 where "nm_VirtualBcast = 0x0A0DFFFF"

definition SetRealAddress :: "u32 \<Rightarrow> u32 \<Rightarrow> netmap \<Rightarrow> netmap" where
  "SetRealAddress addr msk g =
     (if \<not> TranslationEnabled then g\<lparr>g_real_addr := 0, g_real_mask := 0\<rparr>
      else if addr \<noteq> 0 \<and> msk \<noteq> 0 \<and> addr AND nm_VirtualMask = nm_VirtualNet
      then g\<lparr>g_real_addr := 0, g_real_mask := 0\<rparr>
      else g\<lparr>g_real_addr := addr, g_real_mask := msk\<rparr>)"

definition HasRealAddress :: "netmap \<Rightarrow> bool" where
  "HasRealAddress g \<longleftrightarrow> g_real_addr g \<noteq> 0 \<and> g_real_mask g \<noteq> 0"

definition IsLanModePort :: "u16 \<Rightarrow> bool" where
  "IsLanModePort port \<longleftrightarrow> port = 30000 \<or> port = 40000 \<or> port = 35000 \<or>
     (49152 \<le> port \<and> port \<le> 49155)"

definition VirtualToGame :: "netmap \<Rightarrow> u32 \<Rightarrow> u32" where
  "VirtualToGame g virt =
     (if \<not> HasRealAddress g then virt
      else if virt = nm_VirtualBcast \<or> virt AND 0xFF = 0xFF then RealBcast g
      else if virt AND nm_VirtualMask = nm_VirtualNet then
        (let mapped = RealNet g OR (virt AND NOT (g_real_mask g))
         in if mapped = g_real_addr g then virt else mapped)
      else virt)"

definition GameToVirtual :: "netmap \<Rightarrow> u32 \<Rightarrow> u32" where
  "GameToVirtual g game =
     (if \<not> HasRealAddress g then game
      else if game = RealBcast g \<or> game AND 0xFF = 0xFF then game
      else if game AND g_real_mask g = RealNet g
      then nm_VirtualPeerNet OR (game AND NOT (g_real_mask g) AND 0xFF)
      else game)"

section \<open>Lemmas\<close>

lemma bswap32_bswap32 [simp]: "bswap32 (bswap32 v) = v"
  by (simp add: bswap32_def Wr32be_Rd32be_list Rd32be_Wr32be_Nil)

lemma bswap32_inject [simp]: "bswap32 v = bswap32 w \<longleftrightarrow> v = w"
  by (metis bswap32_bswap32)

lemma bswap32_0 [simp]: "bswap32 0 = 0"
  by (simp add: bswap32_def Wr32be_def Rd32be_def)

lemma bswap16_bswap16 [simp]: "bswap16 (bswap16 v) = v"
proof -
  have "Wr16be (bswap16 v) = [ucast (v AND 0xFF), ucast (drop_bit 8 v)]"
    by (simp add: bswap16_def Wr16be_Rd16be)
  then show ?thesis
    by (simp add: bswap16_def [of "bswap16 v"] Wr16be_def Rd16be_inverse)
qed

lemma bswap16_inject [simp]: "bswap16 v = bswap16 w \<longleftrightarrow> v = w"
  by (metis bswap16_bswap16)

lemma bswap16_0 [simp]: "bswap16 0 = 0"
  by (simp add: bswap16_def Rd16be_def)

lemma Addr_SetAddr [simp]: "Addr (SetAddr ip a) = ip"
  by (cases ip) (simp add: Addr_def SetAddr_def FromNetwork_def Network_def)

lemma GetAddr_SetAddr [simp]: "GetAddr (SetAddr ip a) = Numeric ip"
  by (simp add: GetAddr_def SetAddr_def Network_def Numeric_def)

lemma GetAddr_Addr: "Numeric (Addr a) = GetAddr a"
  by (simp add: GetAddr_def Addr_def FromNetwork_def Numeric_def)

lemma Numeric_FromNumeric [simp]: "Numeric (FromNumeric v) = v"
  by (simp add: Numeric_def FromNumeric_def)

lemma SetAddr_fields [simp]:
  "sin_len (SetAddr ip a) = sin_len a" "sin_family (SetAddr ip a) = sin_family a"
  "sin_port (SetAddr ip a) = sin_port a" "sin_zero (SetAddr ip a) = sin_zero a"
  by (simp_all add: SetAddr_def)

lemma errno_val_inject: "errno_val x = errno_val y \<longleftrightarrow> x = y"
  by (cases x; cases y) simp_all

lemma netmap_off: "\<not> HasRealAddress (SetRealAddress addr msk g)" "\<not> HasRealAddress netmap_init"
  by (simp_all add: SetRealAddress_def TranslationEnabled_def HasRealAddress_def netmap_init_def)

lemma translate_off [simp]:
  "\<not> HasRealAddress g \<Longrightarrow> VirtualToGame g ip = ip" "\<not> HasRealAddress g \<Longrightarrow> GameToVirtual g ip = ip"
  by (simp_all add: VirtualToGame_def GameToVirtual_def)

lemma IsLanAddress_InSubnet: "IsLanAddress (Numeric ip) \<longleftrightarrow> InSubnet ip VirtualNet VirtualMask"
  by (simp add: IsLanAddress_def InSubnet_def VirtualNet_def VirtualMask_def FromOctets_def
      Numeric_def LAN_NETWORK_BASE_def LAN_NETWORK_MASK_def)

lemma Octet_FromOctets:
  "Octet (FromOctets a b c d) 0 = a" "Octet (FromOctets a b c d) 1 = b"
  "Octet (FromOctets a b c d) 2 = c" "Octet (FromOctets a b c d) 3 = d"
  unfolding Octet_def FromOctets_def and_255
  by (rule bit_word_eqI, auto simp: bit_simps dest: bit_imp_le_length)+

section \<open>Properties\<close>

text \<open>Writing an address into a \<^verbatim>\<open>SockAddrIn\<close> through \<^verbatim>\<open>SetAddr\<close> and reading it back with either
  accessor (\<^verbatim>\<open>Addr().Numeric()\<close> or \<^verbatim>\<open>GetAddr()\<close>) gives the same numeric address, and the LAN test of
  \<^verbatim>\<open>bsd_types.hpp\<close> on the stored bytes agrees with the 10.13.0.0/16 subnet test of
  \<^verbatim>\<open>ip_addr.hpp\<close> on the address.\<close>

theorem sockaddr_address_roundtrip:
  "Addr (SetAddr ip a) = ip \<and> GetAddr (SetAddr ip a) = Numeric ip \<and>
   (SockAddrIn_IsLanAddress (SetAddr ip a) \<longleftrightarrow> InSubnet ip VirtualNet VirtualMask)"
proof (intro conjI)
  have "SockAddrIn_IsLanAddress (SetAddr ip a) \<longleftrightarrow> IsLanAddress (GetAddr (SetAddr ip a))"
    by (simp only: SockAddrIn_IsLanAddress_def GetAddr_def)
  then show "SockAddrIn_IsLanAddress (SetAddr ip a) \<longleftrightarrow> InSubnet ip VirtualNet VirtualMask"
    by (simp only: GetAddr_SetAddr IsLanAddress_InSubnet)
qed simp_all

text \<open>Address translation is inert: whatever sequence of real addresses the runtime reports
  through \<^verbatim>\<open>SetRealAddress\<close>, both directions of the translation leave every address unchanged.\<close>

theorem translation_inert:
  "VirtualToGame (fold (\<lambda>(addr, msk). SetRealAddress addr msk) reports netmap_init) ip = ip \<and>
   GameToVirtual (fold (\<lambda>(addr, msk). SetRealAddress addr msk) reports netmap_init) ip = ip"
proof -
  have "\<not> HasRealAddress (fold (\<lambda>(addr, msk). SetRealAddress addr msk) reports netmap_init)"
    by (cases reports rule: rev_cases) (auto simp: netmap_off split_beta)
  then show ?thesis by (simp add: VirtualToGame_def GameToVirtual_def)
qed

end
