(* ===== verification/Ldn_Control.thy ===== *)
theory Ldn_Control
  imports Ldn_Wire Ip_Addr
begin

text \<open>
  The LDN control plane (\<^verbatim>\<open>ldn/ldn_control.hpp\<close> and \<^verbatim>\<open>.cpp\<close>): the state of the \<^verbatim>\<open>LdnControl\<close> singleton,
  the handlers of the six frame types, the host and station operations, the periodic \<^verbatim>\<open>Tick\<close> and the
  queries.

  Every operation takes the state and returns the changed state and the list of datagrams it passes
  to \<^verbatim>\<open>tun::Send\<close>, in order; the answer of \<^verbatim>\<open>tun::Send\<close> is only logged by the source. The system tick is
  the argument \<open>now\<close>, whether the runtime is running the argument \<open>running\<close>, random bytes and the
  answers of the console's network service (\<^verbatim>\<open>nifm\<close>, not part of the repository) are arguments, and so
  is what other threads do to the state while an operation sleeps (\<open>env\<close>). The mutex shows as the
  atomicity of each operation.
\<close>

section \<open>State\<close>

datatype CommState = CS_None | CS_Initialized | CS_AccessPoint | CS_AccessPointCreated | CS_Station
  | CS_StationConnected | CS_Error

definition ControlPort :: u16 where "ControlPort = 11452"
definition LanPacket_Scan :: u8 where "LanPacket_Scan = 0"
definition LanPacket_ScanResp :: u8 where "LanPacket_ScanResp = 1"
definition LanPacket_Connect :: u8 where "LanPacket_Connect = 2"
definition LanPacket_SyncNetwork :: u8 where "LanPacket_SyncNetwork = 3"
definition LanPacket_RelayHeartbeat :: u8 where "LanPacket_RelayHeartbeat = 4"
definition LanPacket_RelayBye :: u8 where "LanPacket_RelayBye = 5"

definition RelayBeaconIntervalTicks :: int where "RelayBeaconIntervalTicks = 19200000 * 5"
definition RelayPeerTimeoutTicks :: int where "RelayPeerTimeoutTicks = 19200000 * 30"
definition ScannerTimeoutTicks :: int where "ScannerTimeoutTicks = 19200000 * 30"
definition MaxScanResults :: nat where "MaxScanResults = 8"
definition MaxRecentScanners :: nat where "MaxRecentScanners = 16"
definition StationCountMax :: nat where "StationCountMax = NodeCountMax - 1"

record Station =
  active :: bool
  connected :: bool
  src_ip :: u32
  st_node :: NodeInfo
  last_seen :: int

record ScannerEntry =
  sc_ip :: u32
  sc_last_tick :: int
  sc_used :: bool

record NetworkConfig =
  nc_lcid :: u64
  nc_unk1 :: bytes
  nc_sceneId :: u16
  nc_unk2 :: bytes
  nc_channel :: u16
  nc_nodeCountMax :: u8
  nc_localCommunicationVersion :: u16

text \<open>The scan results are the first \<^verbatim>\<open>m_scan_result_count\<close> entries of the array; the others are never
  read.\<close>

record LdnControl =
  m_state :: CommState
  m_disconnect_reason :: u32
  m_ipv4_address :: u32
  m_subnet_mask :: u32
  m_network_info :: NetworkInfo
  m_network_config :: NetworkConfig
  m_advertise_data :: bytes
  m_advertise_size :: u16
  m_station_accept_policy :: u8
  m_self_name :: bytes
  m_stations :: "Station list"
  m_scan_filter_lcid :: u64
  m_scan_results :: "NetworkInfo list"
  m_join_active :: bool
  m_join_target_bssid :: MacAddress
  m_host_last_seen :: int
  m_last_beacon :: int
  m_tx_seq :: u16
  m_relay_sync_seq :: u16
  m_relay_sync_seq_valid :: bool
  m_recent_scanners :: "ScannerEntry list"
  m_prev_node_connected :: "bool list"
  m_node_changes :: "u8 list"
  m_local_network_mode :: bool
  m_saved_mtu :: u32
  m_state_event :: bool

type_synonym datagram = "u32 \<times> u16 \<times> u32 \<times> u16 \<times> ProtocolType \<times> bytes"
type_synonym ldn_result = "(nat \<times> nat) option"

definition LdnModuleId :: nat where "LdnModuleId = 0xCB"
definition ModuleID :: nat where "ModuleID = 0xFD"
definition MakeError :: "nat \<Rightarrow> nat \<Rightarrow> ldn_result" where "MakeError module desc = Some (module, desc)"
definition BadState :: ldn_result where "BadState = MakeError LdnModuleId 32"

definition zero_NodeInfo :: NodeInfo where "zero_NodeInfo = dec_NodeInfo (replicate 64 0)"
definition zero_NetworkInfo :: NetworkInfo where "zero_NetworkInfo = dec_NetworkInfo (replicate 1152 0)"
definition zero_Station :: Station where
  "zero_Station = \<lparr>active = False, connected = False, src_ip = 0, st_node = zero_NodeInfo, last_seen = 0\<rparr>"
definition zero_Scanner :: ScannerEntry where
  "zero_Scanner = \<lparr>sc_ip = 0, sc_last_tick = 0, sc_used = False\<rparr>"
definition zero_NetworkConfig :: NetworkConfig where
  "zero_NetworkConfig = \<lparr>nc_lcid = 0, nc_unk1 = replicate 2 0, nc_sceneId = 0, nc_unk2 = replicate 4 0,
     nc_channel = 0, nc_nodeCountMax = 0, nc_localCommunicationVersion = 0\<rparr>"

definition new_LdnControl :: LdnControl where
  "new_LdnControl =
     \<lparr>m_state = CS_None, m_disconnect_reason = 0, m_ipv4_address = 0x0A0D2502, m_subnet_mask = 0xFFFF0000,
      m_network_info = zero_NetworkInfo, m_network_config = zero_NetworkConfig,
      m_advertise_data = replicate AdvertiseDataSizeMax 0, m_advertise_size = 0, m_station_accept_policy = 0,
      m_self_name = replicate (UserNameBytesMax + 1) 0, m_stations = replicate NodeCountMax zero_Station,
      m_scan_filter_lcid = 0, m_scan_results = [], m_join_active = False, m_join_target_bssid = replicate 6 0,
      m_host_last_seen = 0, m_last_beacon = 0, m_tx_seq = 0, m_relay_sync_seq = 0,
      m_relay_sync_seq_valid = False, m_recent_scanners = replicate MaxRecentScanners zero_Scanner,
      m_prev_node_connected = replicate NodeCountMax False, m_node_changes = replicate NodeCountMax 0,
      m_local_network_mode = False, m_saved_mtu = 0, m_state_event = False\<rparr>"

section \<open>Small helpers\<close>

fun parse_ip_loop :: "string \<Rightarrow> u32 \<Rightarrow> nat \<Rightarrow> nat \<Rightarrow> u32" where
  "parse_ip_loop [] v oct cur =
     (if cur > 255 \<or> oct > 3 then 0
      else if oct + 1 = 4 then push_bit 8 v OR of_nat cur else 0)"
| "parse_ip_loop (p # ps) v oct cur =
     (if (48::nat) \<le> of_char p \<and> of_char p \<le> (57::nat) then
        parse_ip_loop ps v oct (cur * 10 + (of_char p - 48))
      else if p = CHR ''.'' then
        (if cur > 255 \<or> oct > 3 then 0 else parse_ip_loop ps (push_bit 8 v OR of_nat cur) (oct + 1) 0)
      else 0)"

definition ParseIp :: "string \<Rightarrow> u32" where
  "ParseIp s = parse_ip_loop s 0 0 0"

definition FakeMac :: "u32 \<Rightarrow> MacAddress" where
  "FakeMac ip = [0x02, 0x00] @ Wr32le ip"

definition strncpy :: "bytes \<Rightarrow> nat \<Rightarrow> bytes" where
  "strncpy src n = (let s = takeWhile (\<lambda>c. c \<noteq> 0) (take n src) in s @ replicate (n - length s) 0)"

definition SignalStateChange :: "LdnControl \<Rightarrow> LdnControl" where
  "SignalStateChange c = c\<lparr>m_state_event := True\<rparr>"

definition SetState :: "CommState \<Rightarrow> LdnControl \<Rightarrow> LdnControl" where
  "SetState st c = (if m_state c \<noteq> st then SignalStateChange (c\<lparr>m_state := st\<rparr>) else c)"

definition LocalIp :: "LdnControl \<Rightarrow> u32" where "LocalIp c = m_ipv4_address c"

definition SubnetBroadcast :: "LdnControl \<Rightarrow> u32" where
  "SubnetBroadcast c = m_ipv4_address c OR NOT (m_subnet_mask c)"

definition in_session :: "LdnControl \<Rightarrow> bool" where
  "in_session c \<longleftrightarrow> m_state c = CS_AccessPointCreated \<or> m_state c = CS_Station \<or> m_state c = CS_StationConnected"

definition listed_node :: "u32 \<Rightarrow> LdnControl \<Rightarrow> bool" where
  "listed_node ip c \<longleftrightarrow>
     list_ex (\<lambda>n. isConnected n \<noteq> 0 \<and> ipv4Address n = ip)
       (take (unat (nodeCount (ldn (m_network_info c)))) (nodes (ldn (m_network_info c))))"

definition IsKnownSessionPeer :: "u32 \<Rightarrow> LdnControl \<Rightarrow> bool" where
  "IsKnownSessionPeer ip c \<longleftrightarrow> \<not> in_session c \<or> ip = m_ipv4_address c \<or> listed_node ip c"

definition reset_station :: "Station \<Rightarrow> Station" where
  "reset_station s = s\<lparr>active := False, connected := False, st_node := zero_NodeInfo\<rparr>"

definition ResetStations :: "LdnControl \<Rightarrow> LdnControl" where
  "ResetStations c = c\<lparr>m_stations :=
     map reset_station (take StationCountMax (m_stations c)) @ drop StationCountMax (m_stations c)\<rparr>"

definition StationCount :: "LdnControl \<Rightarrow> nat" where
  "StationCount c = length (filter (\<lambda>s. active s \<and> connected s) (take StationCountMax (m_stations c)))"

fun find_index :: "('a \<Rightarrow> bool) \<Rightarrow> 'a list \<Rightarrow> nat \<Rightarrow> nat option" where
  "find_index P [] i = None"
| "find_index P (x # xs) i = (if P x then Some i else find_index P xs (i + 1))"

text \<open>Node identifiers are 1 to 7; \<open>None\<close> stands for the result -1.\<close>

definition FindFreeNodeId :: "LdnControl \<Rightarrow> nat option" where
  "FindFreeNodeId c = find_index (\<lambda>s. \<not> active s) (take StationCountMax (m_stations c)) 1"

definition FindStationByIp :: "u32 \<Rightarrow> LdnControl \<Rightarrow> nat option" where
  "FindStationByIp ip c =
     find_index (\<lambda>s. active s \<and> src_ip s = ip) (take StationCountMax (m_stations c)) 1"

definition InitNodeStateChange :: "LdnControl \<Rightarrow> LdnControl" where
  "InitNodeStateChange c = c\<lparr>m_node_changes := replicate NodeCountMax 0,
     m_prev_node_connected := replicate NodeCountMax False\<rparr>"

definition NodeStateChange_Connect :: u8 where "NodeStateChange_Connect = 1"
definition NodeStateChange_Disconnect :: u8 where "NodeStateChange_Disconnect = 2"

definition node_flags :: "LdnControl \<Rightarrow> bool list" where
  "node_flags c = map (\<lambda>n. isConnected n \<noteq> 0) (nodes (ldn (m_network_info c)))"

definition OnNetworkInfoChanged :: "LdnControl \<Rightarrow> LdnControl" where
  "OnNetworkInfoChanged c =
     (let now_on = node_flags c; prev = m_prev_node_connected c;
          c1 = c\<lparr>m_node_changes := map2 (\<lambda>(old, new) ch.
                    if new = old then ch
                    else if new then ch OR NodeStateChange_Connect else ch OR NodeStateChange_Disconnect)
                  (zip prev now_on) (m_node_changes c),
                 m_prev_node_connected := now_on\<rparr>
      in if now_on \<noteq> prev then SignalStateChange c1 else c1)"

section \<open>Sending\<close>

definition SendFrame :: "bool \<Rightarrow> u32 \<Rightarrow> u8 \<Rightarrow> bytes \<Rightarrow> LdnControl \<Rightarrow> LdnControl \<times> datagram list" where
  "SendFrame running dst_ip ty body c =
     (if \<not> running then (c, [])
      else
        (let seq = (if m_tx_seq c + 1 = 0 then 1 else m_tx_seq c + 1)
         in (c\<lparr>m_tx_seq := seq\<rparr>,
             [(m_ipv4_address c, ControlPort, dst_ip, ControlPort, Proto_Udp, build_frame seq ty body)])))"

definition host_node :: "LdnControl \<Rightarrow> NodeInfo" where
  "host_node c = zero_NodeInfo\<lparr>ipv4Address := m_ipv4_address c, macAddress := FakeMac (m_ipv4_address c),
     nodeId := 0, isConnected := 1, userName := strncpy (m_self_name c) UserNameBytesMax @ [0],
     localCommunicationVersion := nc_localCommunicationVersion (m_network_config c)\<rparr>"

text \<open>The node list of \<^verbatim>\<open>BuildNetwork\<close>: the connected stations by ascending node id, packed behind the
  host's node.\<close>

fun pack_stations :: "nat \<Rightarrow> Station list \<Rightarrow> NodeInfo list" where
  "pack_stations nid [] = []"
| "pack_stations nid (s # ss) =
     (if active s \<and> connected s
      then (st_node s)\<lparr>nodeId := of_nat nid, isConnected := 1\<rparr> # pack_stations (nid + 1) ss
      else pack_stations (nid + 1) ss)"

definition BuildNetwork :: "LdnControl \<Rightarrow> NetworkInfo" where
  "BuildNetwork c =
     (let info = m_network_info c;
          used = host_node c # pack_stations 1 (take StationCountMax (m_stations c));
          l = (ldn info)\<lparr>nodes := used @ replicate (NodeCountMax - length used) zero_NodeInfo,
                 nodeCount := of_nat (length used), advertiseDataSize := m_advertise_size c,
                 advertiseData := (if m_advertise_size c > 0
                   then memcpy (advertiseData (ldn info)) (take (unat (m_advertise_size c)) (m_advertise_data c))
                   else replicate AdvertiseDataSizeMax 0)\<rparr>
      in info\<lparr>ldn := l\<rparr>)"

fun sync_loop :: "bool \<Rightarrow> Station list \<Rightarrow> LdnControl \<Rightarrow> LdnControl \<times> datagram list" where
  "sync_loop running [] c = (c, [])"
| "sync_loop running (s # ss) c =
     (if active s \<and> connected s then
        (let (c1, d1) = SendFrame running (src_ip s) LanPacket_SyncNetwork (enc_NetworkInfo (m_network_info c)) c;
             (c2, d2) = sync_loop running ss c1
         in (c2, d1 @ d2))
      else sync_loop running ss c)"

definition UpdateNodes :: "bool \<Rightarrow> LdnControl \<Rightarrow> LdnControl \<times> datagram list" where
  "UpdateNodes running c =
     (let c1 = c\<lparr>m_network_info := BuildNetwork c\<rparr>;
          (c2, ds) = sync_loop running (take StationCountMax (m_stations c1)) c1
      in (OnNetworkInfoChanged c2, ds))"

section \<open>Frame handlers\<close>

definition stale :: "int \<Rightarrow> ScannerEntry \<Rightarrow> bool" where
  "stale now e \<longleftrightarrow> \<not> sc_used e \<or> now - sc_last_tick e > ScannerTimeoutTicks"

definition RecordScanner :: "int \<Rightarrow> u32 \<Rightarrow> LdnControl \<Rightarrow> LdnControl" where
  "RecordScanner now sip c =
     (case find_index (\<lambda>e. sc_used e \<and> sc_ip e = sip) (m_recent_scanners c) 0 of
        Some i \<Rightarrow> c\<lparr>m_recent_scanners := (m_recent_scanners c)[i := (m_recent_scanners c ! i)\<lparr>sc_last_tick := now\<rparr>]\<rparr>
      | None \<Rightarrow>
          (let free_slot = (case find_index (stale now) (m_recent_scanners c) 0 of None \<Rightarrow> 0 | Some i \<Rightarrow> i)
           in c\<lparr>m_recent_scanners := (m_recent_scanners c)[free_slot :=
                 \<lparr>sc_ip = sip, sc_last_tick = now, sc_used = True\<rparr>]\<rparr>))"

definition WasRecentScanner :: "int \<Rightarrow> u32 \<Rightarrow> LdnControl \<Rightarrow> bool" where
  "WasRecentScanner now sip c =
     list_ex (\<lambda>e. sc_used e \<and> sc_ip e = sip \<and> now - sc_last_tick e \<le> ScannerTimeoutTicks) (m_recent_scanners c)"

definition HandleScan :: "bool \<Rightarrow> int \<Rightarrow> u32 \<Rightarrow> LdnControl \<Rightarrow> LdnControl \<times> datagram list" where
  "HandleScan running now sip c =
     (if m_state c \<noteq> CS_AccessPointCreated then (c, [])
      else
        (let c1 = RecordScanner now sip c
         in SendFrame running sip LanPacket_ScanResp (enc_NetworkInfo (BuildNetwork c1)) c1))"

definition HandleScanResp :: "u32 \<Rightarrow> bytes \<Rightarrow> LdnControl \<Rightarrow> LdnControl" where
  "HandleScanResp sip body c =
     (if length body \<noteq> sizeof_NetworkInfo then c
      else if sip = m_ipv4_address c then c
      else
        (let info = dec_NetworkInfo body
         in if m_scan_filter_lcid c \<noteq> 0 \<and> localCommunicationId (networkId info) \<noteq> m_scan_filter_lcid c then c
            else case find_index (\<lambda>r. bssid (common r) = bssid (common info)) (m_scan_results c) 0 of
                Some i \<Rightarrow> c\<lparr>m_scan_results := (m_scan_results c)[i := info]\<rparr>
              | None \<Rightarrow>
                  if length (m_scan_results c) < MaxScanResults
                  then c\<lparr>m_scan_results := m_scan_results c @ [info]\<rparr> else c))"

definition connect_station :: "int \<Rightarrow> u32 \<Rightarrow> nat \<Rightarrow> NodeInfo \<Rightarrow> Station \<Rightarrow> Station" where
  "connect_station now sip nid node s =
     s\<lparr>active := True, connected := True, src_ip := sip,
       st_node := node\<lparr>ipv4Address := sip, macAddress := FakeMac sip, nodeId := of_nat nid, isConnected := 1\<rparr>,
       last_seen := now\<rparr>"

definition connect_slot :: "u32 \<Rightarrow> LdnControl \<Rightarrow> nat option" where
  "connect_slot sip c =
     (case FindStationByIp sip c of
        Some nid \<Rightarrow> Some nid
      | None \<Rightarrow> if StationCount c \<ge> StationCountMax then None else FindFreeNodeId c)"

definition HandleConnect :: "bool \<Rightarrow> int \<Rightarrow> u32 \<Rightarrow> bytes \<Rightarrow> LdnControl \<Rightarrow> LdnControl \<times> datagram list" where
  "HandleConnect running now sip body c =
     (if m_state c \<noteq> CS_AccessPointCreated then (c, [])
      else if length body \<noteq> sizeof_NodeInfo then (c, [])
      else if \<not> WasRecentScanner now sip c \<and> FindStationByIp sip c = None then (c, [])
      else case connect_slot sip c of
          None \<Rightarrow> (c, [])
        | Some nid \<Rightarrow>
            UpdateNodes running (c\<lparr>m_stations := (m_stations c)[nid - 1 :=
               connect_station now sip nid (dec_NodeInfo body) (m_stations c ! (nid - 1))]\<rparr>))"

definition seq_stale :: "u16 \<Rightarrow> LdnControl \<Rightarrow> bool" where
  "seq_stale relay_seq c \<longleftrightarrow> m_relay_sync_seq_valid c \<and> m_relay_sync_seq c - relay_seq < 256"

definition HandleSyncNetwork :: "int \<Rightarrow> bytes \<Rightarrow> u16 \<Rightarrow> LdnControl \<Rightarrow> LdnControl" where
  "HandleSyncNetwork now body relay_seq c =
     (if length body \<noteq> sizeof_NetworkInfo then c
      else if m_state c \<noteq> CS_Station \<and> m_state c \<noteq> CS_StationConnected then c
      else if relay_seq \<noteq> 0 \<and> seq_stale relay_seq c then c
      else
        (let c1 = (if relay_seq \<noteq> 0
                   then c\<lparr>m_relay_sync_seq := relay_seq, m_relay_sync_seq_valid := True\<rparr> else c);
             info = dec_NetworkInfo body
         in if m_join_active c1 \<and> bssid (common info) \<noteq> m_join_target_bssid c1 then c1
            else
              (let c2 = c1\<lparr>m_network_info := info, m_host_last_seen := now\<rparr>;
                   c3 = (if m_state c2 = CS_Station \<and> listed_node (m_ipv4_address c2) c2
                         then SetState CS_StationConnected c2 else c2)
               in OnNetworkInfoChanged c3)))"

definition HandleRelayHeartbeat :: "int \<Rightarrow> u32 \<Rightarrow> bytes \<Rightarrow> LdnControl \<Rightarrow> LdnControl" where
  "HandleRelayHeartbeat now sip body c =
     (if length body \<noteq> sizeof_RelayHeartbeatPayload then c
      else if m_state c \<noteq> CS_AccessPointCreated then c
      else if hb_bssid (dec_Heartbeat body) \<noteq> bssid (common (m_network_info c)) then c
      else case FindStationByIp sip c of
          None \<Rightarrow> c
        | Some nid \<Rightarrow> c\<lparr>m_stations := (m_stations c)[nid - 1 := (m_stations c ! (nid - 1))\<lparr>last_seen := now\<rparr>]\<rparr>)"

definition HandleRelayBye :: "bool \<Rightarrow> u32 \<Rightarrow> bytes \<Rightarrow> LdnControl \<Rightarrow> LdnControl \<times> datagram list" where
  "HandleRelayBye running sip body c =
     (if length body \<noteq> sizeof_RelayHeartbeatPayload then (c, [])
      else
        (let bye = dec_Heartbeat body
         in if m_state c = CS_StationConnected then
              (if m_join_active c \<and> hb_bssid bye = m_join_target_bssid c \<and>
                  hb_ipv4 bye = ipv4Address (nodes (ldn (m_network_info c)) ! 0)
               then (SetState CS_Station (c\<lparr>m_disconnect_reason := 3, m_join_active := False,
                       m_relay_sync_seq_valid := False\<rparr>), [])
               else (c, []))
            else if m_state c = CS_AccessPointCreated then
              (if hb_bssid bye \<noteq> bssid (common (m_network_info c)) then (c, [])
               else case FindStationByIp sip c of
                   None \<Rightarrow> (c, [])
                 | Some nid \<Rightarrow>
                     UpdateNodes running (c\<lparr>m_stations := (m_stations c)[nid - 1 :=
                       reset_station (m_stations c ! (nid - 1))]\<rparr>))
            else (c, [])))"

definition OnControlFrame :: "bool \<Rightarrow> int \<Rightarrow> u32 \<Rightarrow> bytes \<Rightarrow> LdnControl \<Rightarrow> LdnControl \<times> datagram list" where
  "OnControlFrame running now sip payload c =
     (case parse_frame payload of
        None \<Rightarrow> (c, [])
      | Some (ty, seq, body) \<Rightarrow>
          if ty = LanPacket_Scan then HandleScan running now sip c
          else if ty = LanPacket_ScanResp then (HandleScanResp sip body c, [])
          else if ty = LanPacket_Connect then HandleConnect running now sip body c
          else if ty = LanPacket_SyncNetwork then (HandleSyncNetwork now body seq c, [])
          else if ty = LanPacket_RelayHeartbeat then (HandleRelayHeartbeat now sip body c, [])
          else if ty = LanPacket_RelayBye then HandleRelayBye running sip body c
          else (c, []))"

section \<open>Local network mode\<close>

text \<open>The answers of the console's network service: \<open>Some rc\<close> is a failure code, \<open>None\<close> success; the
  current profile is its MTU. The calls that change the service's state are recorded in order.\<close>

record nifm_answers =
  na_get_profile :: "u32 + u32"
  na_set_profile :: "u32 option"
  na_create :: "u32 option"
  na_set_mode :: "u32 option"
  na_submit :: "u32 option"

datatype NifmCall = NifmSetMtu u32 | NifmCreateRequest | NifmSetLocalMode | NifmSubmit | NifmCancel | NifmClose

definition EnterLocalNetworkMode :: "nifm_answers \<Rightarrow> LdnControl \<Rightarrow> u32 option \<times> LdnControl \<times> NifmCall list" where
  "EnterLocalNetworkMode na c =
     (if m_local_network_mode c then (None, c, [])
      else case na_get_profile na of
          Inl rc \<Rightarrow> (Some rc, c, [])
        | Inr mtu \<Rightarrow>
            (let c1 = c\<lparr>m_saved_mtu := mtu\<rparr>
             in case na_set_profile na of
                  Some rc \<Rightarrow> (Some rc, c1, [NifmSetMtu 1500])
                | None \<Rightarrow>
                    case na_create na of
                      Some rc \<Rightarrow> (Some rc, c1, [NifmSetMtu 1500, NifmCreateRequest])
                    | None \<Rightarrow>
                        case na_set_mode na of
                          Some rc \<Rightarrow> (Some rc, c1, [NifmSetMtu 1500, NifmCreateRequest, NifmSetLocalMode, NifmCancel])
                        | None \<Rightarrow>
                            case na_submit na of
                              Some rc \<Rightarrow> (Some rc, c1, [NifmSetMtu 1500, NifmCreateRequest, NifmSetLocalMode,
                                 NifmSubmit, NifmCancel])
                            | None \<Rightarrow> (None, c1\<lparr>m_local_network_mode := True\<rparr>,
                                 [NifmSetMtu 1500, NifmCreateRequest, NifmSetLocalMode, NifmSubmit])))"

definition ExitLocalNetworkMode :: "nifm_answers \<Rightarrow> LdnControl \<Rightarrow> LdnControl \<times> NifmCall list" where
  "ExitLocalNetworkMode na c =
     (c\<lparr>m_local_network_mode := False\<rparr>,
      [NifmCancel, NifmClose] @ (case na_get_profile na of Inl _ \<Rightarrow> [] | Inr _ \<Rightarrow> [NifmSetMtu (m_saved_mtu c)]))"

definition exit_if_entered :: "nifm_answers \<Rightarrow> LdnControl \<Rightarrow> LdnControl \<times> NifmCall list" where
  "exit_if_entered na c = (if m_local_network_mode c then ExitLocalNetworkMode na c else (c, []))"

definition enter_if_needed :: "nifm_answers \<Rightarrow> LdnControl \<Rightarrow> LdnControl \<times> NifmCall list" where
  "enter_if_needed na c = (if m_local_network_mode c then (c, []) else snd (EnterLocalNetworkMode na c))"

section \<open>Lifecycle\<close>

definition ldn_Initialize :: "string \<Rightarrow> nifm_answers \<Rightarrow> LdnControl \<Rightarrow> ldn_result \<times> LdnControl \<times> NifmCall list" where
  "ldn_Initialize virtual_ip na c =
     (let ip = ParseIp virtual_ip;
          c1 = c\<lparr>m_ipv4_address := (if ip = 0 then 0x0A0D2502 else ip), m_subnet_mask := 0xFFFF0000,
                 m_disconnect_reason := 0, m_scan_results := [], m_scan_filter_lcid := 0\<rparr>;
          (c2, calls) = exit_if_entered na (InitNodeStateChange (ResetStations c1))
      in (None, SetState CS_Initialized (c2\<lparr>m_state_event := False\<rparr>), calls))"

definition ldn_Finalize :: "nifm_answers \<Rightarrow> LdnControl \<Rightarrow> ldn_result \<times> LdnControl \<times> NifmCall list" where
  "ldn_Finalize na c =
     (let (c1, calls) = exit_if_entered na c;
          c2 = c1\<lparr>m_scan_results := [], m_scan_filter_lcid := 0, m_join_active := False,
                  m_relay_sync_seq_valid := False\<rparr>
      in (None, SetState CS_None (ResetStations c2), calls))"

definition OpenAccessPoint :: "nifm_answers \<Rightarrow> LdnControl \<Rightarrow> ldn_result \<times> LdnControl \<times> NifmCall list" where
  "OpenAccessPoint na c =
     (let c0 = c\<lparr>m_disconnect_reason := 0\<rparr>
      in if m_state c0 = CS_None then (BadState, c0, [])
         else (let (c1, calls) = enter_if_needed na c0
               in (None, SetState CS_AccessPoint (ResetStations c1), calls)))"

definition CloseAccessPoint :: "nifm_answers \<Rightarrow> LdnControl \<Rightarrow> ldn_result \<times> LdnControl \<times> NifmCall list" where
  "CloseAccessPoint na c =
     (if m_state c = CS_None then (BadState, c, [])
      else (let (c1, calls) = exit_if_entered na c
            in (None, SetState CS_Initialized (ResetStations c1), calls)))"

definition OpenStation :: "nifm_answers \<Rightarrow> LdnControl \<Rightarrow> ldn_result \<times> LdnControl \<times> NifmCall list" where
  "OpenStation na c =
     (let c0 = c\<lparr>m_disconnect_reason := 0\<rparr>
      in if m_state c0 = CS_None then (BadState, c0, [])
         else (let (c1, calls) = enter_if_needed na c0
               in (None, SetState CS_Station (ResetStations c1), calls)))"

definition CloseStation :: "nifm_answers \<Rightarrow> LdnControl \<Rightarrow> ldn_result \<times> LdnControl \<times> NifmCall list" where
  "CloseStation na c =
     (if m_state c = CS_None then (BadState, c, [])
      else (let (c1, calls) = exit_if_entered na c
            in (None, SetState CS_Initialized (ResetStations c1), calls)))"

section \<open>Host operations\<close>

record CreateNetworkConfig =
  cn_securityMode :: u16
  cn_userName :: bytes
  cn_networkConfig :: NetworkConfig

definition FakeSsid :: bytes where
  "FakeSsid = concat (replicate 4 [49, 50, 51, 52, 53, 54, 55, 56]) @ [0]"

text \<open>\<open>rnd_high\<close>, \<open>rnd_low\<close> and \<open>rnd16\<close> are the random session id and the 16 random bytes.\<close>

definition CreateNetwork :: "bool \<Rightarrow> u64 \<Rightarrow> u64 \<Rightarrow> bytes \<Rightarrow> CreateNetworkConfig \<Rightarrow> LdnControl \<Rightarrow>
    ldn_result \<times> LdnControl \<times> datagram list" where
  "CreateNetwork running rnd_high rnd_low rnd16 data c =
     (if m_state c \<noteq> CS_AccessPoint then (BadState, c, [])
      else
        (let nc = cn_networkConfig data;
             z = zero_NetworkInfo;
             info = z\<lparr>
               common := (common z)\<lparr>bssid := FakeMac (m_ipv4_address c), ssid_length := 32, ssid_raw := FakeSsid,
                 channel := (if nc_channel nc \<noteq> 0 then nc_channel nc else 6), linkLevel := 3, networkType := 2\<rparr>,
               networkId := \<lparr>localCommunicationId = nc_lcid nc, intent_unk1 = nc_unk1 nc, sceneId = nc_sceneId nc,
                 intent_unk2 = nc_unk2 nc, session_high = rnd_high, session_low = rnd_low\<rparr>,
               ldn := (ldn z)\<lparr>securityMode := cn_securityMode data, stationAcceptPolicy := 0,
                 nodeCountMax := nc_nodeCountMax nc, unkRandom := rnd16\<rparr>\<rparr>;
             c1 = c\<lparr>m_network_config := nc, m_station_accept_policy := 0, m_network_info := info,
                    m_self_name := strncpy (cn_userName data) UserNameBytesMax @ [0],
                    m_advertise_size := 0, m_advertise_data := replicate AdvertiseDataSizeMax 0\<rparr>;
             (c2, ds) = UpdateNodes running (SetState CS_AccessPointCreated (InitNodeStateChange (ResetStations c1)))
         in (None, c2, ds)))"

definition bye_body :: "MacAddress \<Rightarrow> u32 \<Rightarrow> bytes" where
  "bye_body mac ip = enc_Heartbeat \<lparr>hb_bssid = mac, hb_pad = [0, 0], hb_ipv4 = ip\<rparr>"

definition DestroyNetwork :: "bool \<Rightarrow> LdnControl \<Rightarrow> ldn_result \<times> LdnControl \<times> datagram list" where
  "DestroyNetwork running c =
     (let (c1, ds) = (if StationCount c > 0
             then SendFrame running (SubnetBroadcast c) LanPacket_RelayBye
                    (bye_body (bssid (common (m_network_info c))) (m_ipv4_address c)) c
             else (c, []))
      in (None, SetState CS_AccessPoint (ResetStations c1), ds))"

definition SetAdvertiseData :: "bool \<Rightarrow> bytes option \<Rightarrow> nat \<Rightarrow> LdnControl \<Rightarrow>
    ldn_result \<times> LdnControl \<times> datagram list" where
  "SetAdvertiseData running data sz c =
     (if sz > AdvertiseDataSizeMax then (MakeError ModuleID 10, c, [])
      else
        (let c1 = (case data of None \<Rightarrow> c
                   | Some d \<Rightarrow> c\<lparr>m_advertise_data := memcpy (m_advertise_data c) (take sz d)\<rparr>);
             c2 = c1\<lparr>m_advertise_size := of_nat sz,
                     m_network_info := (m_network_info c1)\<lparr>ldn :=
                        (ldn (m_network_info c1))\<lparr>advertiseDataSize := of_nat sz\<rparr>\<rparr>\<rparr>;
             (c3, ds) = UpdateNodes running c2
         in (None, c3, ds)))"

definition SetStationAcceptPolicy :: "u8 \<Rightarrow> LdnControl \<Rightarrow> ldn_result \<times> LdnControl" where
  "SetStationAcceptPolicy policy c =
     (None, c\<lparr>m_station_accept_policy := policy, m_network_info := (m_network_info c)\<lparr>ldn :=
        (ldn (m_network_info c))\<lparr>stationAcceptPolicy := policy\<rparr>\<rparr>\<rparr>)"

definition Reject :: "bool \<Rightarrow> u32 \<Rightarrow> LdnControl \<Rightarrow> ldn_result \<times> LdnControl \<times> datagram list" where
  "Reject running node_id c =
     (let nid = unat node_id
      in if nid < 1 \<or> nid \<ge> NodeCountMax then (None, c, [])
         else
           (let (c1, ds) = UpdateNodes running (c\<lparr>m_stations := (m_stations c)[nid - 1 :=
                  (m_stations c ! (nid - 1))\<lparr>active := False, connected := False\<rparr>]\<rparr>)
            in (None, c1, ds)))"

section \<open>Tick\<close>

definition reap :: "int \<Rightarrow> Station \<Rightarrow> Station" where
  "reap now s = (if active s \<and> connected s \<and> now - last_seen s \<ge> RelayPeerTimeoutTicks
     then reset_station s else s)"

definition beacon_host_ip :: "LdnControl \<Rightarrow> u32" where
  "beacon_host_ip c = (if m_state c = CS_StationConnected \<and> nodeCount (ldn (m_network_info c)) > 0
     then ipv4Address (nodes (ldn (m_network_info c)) ! 0) else 0)"

definition station_tick :: "bool \<Rightarrow> int \<Rightarrow> LdnControl \<Rightarrow> LdnControl \<times> datagram list" where
  "station_tick running now c =
     (let (c1, ds) = (if m_join_active c \<and> beacon_host_ip c \<noteq> 0
            then SendFrame running (beacon_host_ip c) LanPacket_RelayHeartbeat
                   (bye_body (m_join_target_bssid c) (m_ipv4_address c)) c
            else (c, []))
      in if m_state c1 = CS_StationConnected \<and> now - m_host_last_seen c1 \<ge> RelayPeerTimeoutTicks
         then (SetState CS_Station (c1\<lparr>m_disconnect_reason := 6, m_join_active := False,
                 m_relay_sync_seq_valid := False\<rparr>), ds)
         else (c1, ds))"

definition Tick :: "bool \<Rightarrow> int \<Rightarrow> LdnControl \<Rightarrow> LdnControl \<times> datagram list" where
  "Tick running now c =
     (if now - m_last_beacon c < RelayBeaconIntervalTicks then (c, [])
      else
        (let c0 = c\<lparr>m_last_beacon := now\<rparr>
         in if m_state c0 = CS_AccessPointCreated then
              UpdateNodes running (c0\<lparr>m_stations := map (reap now) (take StationCountMax (m_stations c0)) @
                drop StationCountMax (m_stations c0)\<rparr>)
            else if m_state c0 = CS_Station \<or> m_state c0 = CS_StationConnected then station_tick running now c0
            else (c0, [])))"

section \<open>Station operations\<close>

record ScanFilter =
  sf_networkId :: NetworkId
  sf_networkType :: u32
  sf_ssid_length :: u8
  sf_ssid_raw :: bytes
  sf_flag :: u32

definition scan_match :: "ScanFilter \<Rightarrow> NetworkInfo \<Rightarrow> bool" where
  "scan_match f info \<longleftrightarrow>
     (sf_flag f AND 1 \<noteq> 0 \<longrightarrow> localCommunicationId (sf_networkId f) = localCommunicationId (networkId info)) \<and>
     (sf_flag f AND 2 \<noteq> 0 \<longrightarrow> session_high (sf_networkId f) = session_high (networkId info) \<and>
        session_low (sf_networkId f) = session_low (networkId info)) \<and>
     (sf_flag f AND 4 \<noteq> 0 \<longrightarrow> sf_networkType f = ucast (networkType (common info))) \<and>
     (sf_flag f AND 16 \<noteq> 0 \<longrightarrow> sf_ssid_length f = ssid_length (common info) \<and>
        take (unat (sf_ssid_length f)) (sf_ssid_raw f) = take (unat (sf_ssid_length f)) (ssid_raw (common info))) \<and>
     (sf_flag f AND 32 \<noteq> 0 \<longrightarrow> sceneId (sf_networkId f) = sceneId (networkId info))"

text \<open>The polling loop of \<^verbatim>\<open>Scan\<close>, iteration \<open>i\<close> of 10: a repeated broadcast every third round, the
  sleep (\<open>env i\<close>), and the early exit once the number of results was seen unchanged twice.\<close>

function scan_loop :: "bool \<Rightarrow> (nat \<Rightarrow> LdnControl \<Rightarrow> LdnControl) \<Rightarrow> nat \<Rightarrow> nat \<Rightarrow> nat \<Rightarrow> LdnControl \<Rightarrow>
    LdnControl \<times> datagram list" where
  "scan_loop running env i last_count stable_n c =
     (if i \<ge> 10 then (c, [])
      else
        (let (c1, d1) = (if i \<noteq> 0 \<and> i mod 3 = 0
               then SendFrame running (SubnetBroadcast c) LanPacket_Scan [] c else (c, []));
             c2 = env i c1;
             cur = length (m_scan_results c2)
         in if cur > 0 \<and> cur = last_count then
              (if stable_n + 1 \<ge> 2 then (c2, d1)
               else let (c3, d2) = scan_loop running env (i + 1) cur (stable_n + 1) c2 in (c3, d1 @ d2))
            else let (c3, d2) = scan_loop running env (i + 1) cur 0 c2 in (c3, d1 @ d2)))"
  by pat_completeness auto
termination by (relation "measure (\<lambda>(_, _, i, _). 10 - i)") auto

declare scan_loop.simps [simp del]

definition scan_begin :: "ScanFilter \<Rightarrow> LdnControl \<Rightarrow> LdnControl" where
  "scan_begin f c = c\<lparr>m_scan_results := [], m_scan_filter_lcid :=
     (if sf_flag f AND 1 \<noteq> 0 then localCommunicationId (sf_networkId f) else 0)\<rparr>"

definition ldn_Scan :: "bool \<Rightarrow> (nat \<Rightarrow> LdnControl \<Rightarrow> LdnControl) \<Rightarrow> ScanFilter \<Rightarrow> nat \<Rightarrow> LdnControl \<Rightarrow>
    (ldn_result \<times> NetworkInfo list) \<times> LdnControl \<times> datagram list" where
  "ldn_Scan running env f out_capacity c =
     (if m_state c = CS_None \<or> m_state c = CS_Error then ((BadState, []), c, [])
      else
        (let c1 = scan_begin f c;
             (c2, d1) = SendFrame running (SubnetBroadcast c1) LanPacket_Scan [] c1;
             (c3, d2) = scan_loop running env 0 0 0 c2
         in ((None, take out_capacity (filter (scan_match f) (m_scan_results c3))), c3, d1 @ d2)))"

record ConnectNetworkData =
  cd_userName :: bytes
  cd_localCommunicationVersion :: u32

definition my_node :: "ConnectNetworkData \<Rightarrow> LdnControl \<Rightarrow> NodeInfo" where
  "my_node dat c = zero_NodeInfo\<lparr>ipv4Address := m_ipv4_address c, macAddress := FakeMac (m_ipv4_address c),
     nodeId := 0, isConnected := 1, userName := strncpy (cd_userName dat) UserNameBytesMax @ [0],
     localCommunicationVersion := ucast (cd_localCommunicationVersion dat)\<rparr>"

function connect_poll :: "bool \<Rightarrow> (nat \<Rightarrow> LdnControl \<Rightarrow> LdnControl) \<Rightarrow> u32 \<Rightarrow> bytes \<Rightarrow> nat \<Rightarrow> LdnControl \<Rightarrow>
    bool \<times> LdnControl \<times> datagram list" where
  "connect_poll running env host_ip my i c =
     (if i \<ge> 300 then (False, c, [])
      else if m_state c = CS_StationConnected then (True, c, [])
      else
        (let (c1, d1) = (if i mod 50 = 49 then SendFrame running host_ip LanPacket_Connect my c else (c, []));
             (ok, c2, d2) = connect_poll running env host_ip my (i + 1) (env i c1)
         in (ok, c2, d1 @ d2)))"
  by pat_completeness auto
termination by (relation "measure (\<lambda>(_, _, _, _, i, _). 300 - i)") auto

declare connect_poll.simps [simp del]

definition join_begin :: "NetworkInfo \<Rightarrow> LdnControl \<Rightarrow> LdnControl" where
  "join_begin data c = c\<lparr>m_scan_results := [], m_scan_filter_lcid := 0, m_join_active := True,
     m_join_target_bssid := bssid (common data)\<rparr>"

definition join_abort :: "LdnControl \<Rightarrow> LdnControl" where
  "join_abort c = c\<lparr>m_join_active := False, m_relay_sync_seq_valid := False\<rparr>"

definition ldn_Connect :: "bool \<Rightarrow> (nat \<Rightarrow> LdnControl \<Rightarrow> LdnControl) \<Rightarrow> ConnectNetworkData \<Rightarrow> NetworkInfo \<Rightarrow>
    LdnControl \<Rightarrow> ldn_result \<times> LdnControl \<times> datagram list" where
  "ldn_Connect running env dat data c =
     (if m_state c = CS_None then (BadState, c, [])
      else if nodeCount (ldn data) = 0 then (MakeError ModuleID 30, c, [])
      else
        (let host_ip = ipv4Address (nodes (ldn data) ! 0);
             c1 = join_begin data c;
             my = enc_NodeInfo (my_node dat c1);
             (c2, d1) = SendFrame running host_ip LanPacket_Connect my c1;
             (ok, c3, d2) = connect_poll running env host_ip my 0 c2
         in if ok then (None, c3, d1 @ d2)
            else (MakeError LdnModuleId 64, join_abort c3, d1 @ d2)))"

definition ldn_Disconnect :: "bool \<Rightarrow> LdnControl \<Rightarrow> ldn_result \<times> LdnControl \<times> datagram list" where
  "ldn_Disconnect running c =
     (let (c1, ds) = (if m_join_active c \<and> nodeCount (ldn (m_network_info c)) > 0
             then SendFrame running (ipv4Address (nodes (ldn (m_network_info c)) ! 0)) LanPacket_RelayBye
                    (bye_body (m_join_target_bssid c) (m_ipv4_address c)) c
             else (c, []))
      in (None, SetState CS_Station (ResetStations (c1\<lparr>m_join_active := False, m_relay_sync_seq_valid := False\<rparr>)), ds))"

section \<open>Queries\<close>

definition has_network :: "LdnControl \<Rightarrow> bool" where
  "has_network c \<longleftrightarrow> m_state c = CS_AccessPointCreated \<or> m_state c = CS_StationConnected"

definition ldn_GetNetworkInfo :: "LdnControl \<Rightarrow> ldn_result \<times> NetworkInfo option" where
  "ldn_GetNetworkInfo c = (if \<not> has_network c then (BadState, None) else (None, Some (m_network_info c)))"

definition GetNetworkInfoLatestUpdate :: "nat \<Rightarrow> LdnControl \<Rightarrow>
    (ldn_result \<times> (NetworkInfo \<times> u8 list) option) \<times> LdnControl" where
  "GetNetworkInfoLatestUpdate update_capacity c =
     (if update_capacity > NodeCountMax then ((MakeError ModuleID 50, None), c)
      else if \<not> has_network c then ((BadState, None), c)
      else ((None, Some (m_network_info c, take update_capacity (m_node_changes c))),
            c\<lparr>m_node_changes := replicate update_capacity 0 @ drop update_capacity (m_node_changes c)\<rparr>))"

definition GetSecurityParameter :: "LdnControl \<Rightarrow> ldn_result \<times> (bytes \<times> u64 \<times> u64) option" where
  "GetSecurityParameter c =
     (if \<not> has_network c then (BadState, None)
      else (None, Some (unkRandom (ldn (m_network_info c)), session_high (networkId (m_network_info c)),
              session_low (networkId (m_network_info c)))))"

definition GetNetworkConfig :: "LdnControl \<Rightarrow> ldn_result \<times> NetworkConfig option" where
  "GetNetworkConfig c =
     (if \<not> has_network c then (BadState, None)
      else
        (let i = m_network_info c
         in (None, Some \<lparr>nc_lcid = localCommunicationId (networkId i), nc_unk1 = intent_unk1 (networkId i),
               nc_sceneId = sceneId (networkId i), nc_unk2 = intent_unk2 (networkId i),
               nc_channel = channel (common i), nc_nodeCountMax = nodeCountMax (ldn i),
               nc_localCommunicationVersion = localCommunicationVersion (nodes (ldn i) ! 0)\<rparr>)))"

section \<open>Invariants\<close>

definition station_ok :: "Station \<Rightarrow> bool" where
  "station_ok s \<longleftrightarrow> NodeInfo_ok (st_node s) \<and> (active s \<longleftrightarrow> connected s) \<and>
     (active s \<longrightarrow> ipv4Address (st_node s) = src_ip s)"

definition stations_wf :: "Station list \<Rightarrow> bool" where
  "stations_wf ss \<longleftrightarrow> length ss = NodeCountMax \<and> (\<forall>s \<in> set ss. station_ok s) \<and>
     distinct (map src_ip (filter active ss)) \<and> \<not> active (ss ! 7)"

definition buffers_wf :: "LdnControl \<Rightarrow> bool" where
  "buffers_wf c \<longleftrightarrow> NetworkInfo_ok (m_network_info c) \<and> length (m_advertise_data c) = AdvertiseDataSizeMax \<and>
     unat (m_advertise_size c) \<le> AdvertiseDataSizeMax \<and>
     length (m_prev_node_connected c) = NodeCountMax \<and> length (m_node_changes c) = NodeCountMax \<and>
     length (m_recent_scanners c) = MaxRecentScanners \<and>
     length (nc_unk1 (m_network_config c)) = 2 \<and> length (nc_unk2 (m_network_config c)) = 4"

definition scans_wf :: "LdnControl \<Rightarrow> bool" where
  "scans_wf c \<longleftrightarrow> length (m_scan_results c) \<le> MaxScanResults \<and>
     distinct (map (\<lambda>r. bssid (common r)) (m_scan_results c)) \<and> (\<forall>r \<in> set (m_scan_results c). NetworkInfo_ok r)"

definition used_nodes :: "LdnControl \<Rightarrow> NodeInfo list" where
  "used_nodes c = host_node c # pack_stations 1 (take StationCountMax (m_stations c))"

definition roster_ok :: "LdnControl \<Rightarrow> bool" where
  "roster_ok c \<longleftrightarrow> (m_state c = CS_AccessPointCreated \<longrightarrow>
     bssid (common (m_network_info c)) = FakeMac (m_ipv4_address c) \<and>
     nodeCount (ldn (m_network_info c)) = of_nat (length (used_nodes c)) \<and>
     nodes (ldn (m_network_info c)) = used_nodes c @ replicate (NodeCountMax - length (used_nodes c)) zero_NodeInfo)"

definition ldn_wf :: "LdnControl \<Rightarrow> bool" where
  "ldn_wf c \<longleftrightarrow> stations_wf (m_stations c) \<and> buffers_wf c \<and> scans_wf c \<and> roster_ok c"

lemma zero_NodeInfo_ok: "NodeInfo_ok zero_NodeInfo"
  unfolding zero_NodeInfo_def by (rule node.dec_ok) simp

lemma zero_NetworkInfo_ok: "NetworkInfo_ok zero_NetworkInfo"
  unfolding zero_NetworkInfo_def by (rule info.dec_ok) simp

lemma zero_NodeInfo_fields [simp]: "isConnected zero_NodeInfo = 0" "ipv4Address zero_NodeInfo = 0"
  by (simp_all add: zero_NodeInfo_def dec_NodeInfo_def Rd32le_def Rd32be_def)

lemma length_FakeMac [simp]: "length (FakeMac ip) = 6"
  by (simp add: FakeMac_def)

lemma length_strncpy [simp]: "length (strncpy src n) = n"
proof -
  have "length (takeWhile (\<lambda>c. c \<noteq> 0) (take n src)) \<le> n"
    by (rule order_trans [OF length_takeWhile_le]) simp
  then show ?thesis by (simp add: strncpy_def Let_def)
qed

lemma host_node_ok: "NodeInfo_ok (host_node c)"
  using zero_NodeInfo_ok by (simp add: NodeInfo_ok_def host_node_def UserNameBytesMax_def)

lemma station_ok_reset: "station_ok (reset_station s)"
  by (simp add: station_ok_def reset_station_def zero_NodeInfo_ok)

lemma length_pack: "length (pack_stations k ss) = length (filter (\<lambda>s. active s \<and> connected s) ss)"
  by (induction ss arbitrary: k) auto

lemma pack_ok: "\<forall>s \<in> set ss. station_ok s \<Longrightarrow> \<forall>n \<in> set (pack_stations k ss). NodeInfo_ok n \<and> isConnected n = 1"
proof (induction ss arbitrary: k)
  case (Cons s ss)
  have "station_ok s" using Cons.prems by simp
  then have "NodeInfo_ok ((st_node s)\<lparr>nodeId := of_nat k, isConnected := 1\<rparr>)"
    by (simp add: station_ok_def NodeInfo_ok_def)
  moreover have "\<forall>n \<in> set (pack_stations (k + 1) ss). NodeInfo_ok n \<and> isConnected n = 1"
    using Cons.IH Cons.prems by simp
  ultimately show ?case by simp
qed simp

lemma pack_ips:
  "\<forall>s \<in> set ss. station_ok s \<Longrightarrow> map ipv4Address (pack_stations k ss) = map src_ip (filter active ss)"
  by (induction ss arbitrary: k) (auto simp: station_ok_def)

lemma stations_wf_take:
  assumes "stations_wf ss"
  shows "filter active (take StationCountMax ss) = filter active ss"
    and "filter (\<lambda>s. active s \<and> connected s) (take StationCountMax ss) = filter active ss"
    and "\<forall>s \<in> set (take StationCountMax ss). station_ok s"
    and "length (filter active ss) \<le> StationCountMax"
proof -
  have "ss = take 7 ss @ [ss ! 7]"
    using assms by (simp add: stations_wf_def NodeCountMax_def flip: take_Suc_conv_app_nth)
  then have "filter active ss = filter active (take 7 ss) @ filter active [ss ! 7]"
    by (metis filter_append)
  then show f: "filter active (take StationCountMax ss) = filter active ss"
    using assms by (simp add: stations_wf_def StationCountMax_def NodeCountMax_def)
  show ok: "\<forall>s \<in> set (take StationCountMax ss). station_ok s"
    using assms by (auto simp: stations_wf_def dest: in_set_takeD)
  then have "filter (\<lambda>s. active s \<and> connected s) (take StationCountMax ss) = filter active (take StationCountMax ss)"
    by (intro filter_cong) (auto simp: station_ok_def)
  with f show "filter (\<lambda>s. active s \<and> connected s) (take StationCountMax ss) = filter active ss" by simp
  have "length (filter active (take StationCountMax ss)) \<le> length (take StationCountMax ss)"
    by (rule length_filter_le)
  then show "length (filter active ss) \<le> StationCountMax" by (simp add: f)
qed

lemma StationCount_eq: "stations_wf (m_stations c) \<Longrightarrow> StationCount c = length (filter active (m_stations c))"
  by (simp add: StationCount_def stations_wf_take)

lemma length_used: "stations_wf (m_stations c) \<Longrightarrow> length (used_nodes c) = Suc (length (filter active (m_stations c)))"
  by (simp add: used_nodes_def length_pack stations_wf_take)

lemma length_used_le: "stations_wf (m_stations c) \<Longrightarrow> length (used_nodes c) \<le> NodeCountMax"
  using stations_wf_take(4) [of "m_stations c"] by (simp add: length_used StationCountMax_def NodeCountMax_def)

lemma BuildNetwork_used:
  "BuildNetwork c = (m_network_info c)\<lparr>ldn := (ldn (m_network_info c))
     \<lparr>nodes := used_nodes c @ replicate (NodeCountMax - length (used_nodes c)) zero_NodeInfo,
      nodeCount := of_nat (length (used_nodes c)), advertiseDataSize := m_advertise_size c,
      advertiseData := (if m_advertise_size c > 0
        then memcpy (advertiseData (ldn (m_network_info c))) (take (unat (m_advertise_size c)) (m_advertise_data c))
        else replicate AdvertiseDataSizeMax 0)\<rparr>\<rparr>"
  by (simp add: BuildNetwork_def used_nodes_def Let_def)

lemma used_ok: "stations_wf (m_stations c) \<Longrightarrow> \<forall>n \<in> set (used_nodes c). NodeInfo_ok n \<and> isConnected n = 1"
  using pack_ok [OF stations_wf_take(3), of "m_stations c" 1] host_node_ok [of c]
  by (simp only: used_nodes_def list.set ball_simps simp_thms) (simp add: host_node_def)

lemma NetworkInfo_ok_Build:
  assumes "stations_wf (m_stations c)" and "buffers_wf c"
  shows "NetworkInfo_ok (BuildNetwork c)"
proof -
  have "length (memcpy (advertiseData (ldn (m_network_info c)))
      (take (unat (m_advertise_size c)) (m_advertise_data c))) = 384"
    using assms(2) by (simp add: buffers_wf_def NetworkInfo_ok_def Ldn_ok_def AdvertiseDataSizeMax_def)
  with assms length_used_le [OF assms(1)] used_ok [OF assms(1)] zero_NodeInfo_ok show ?thesis
    by (auto simp: BuildNetwork_used NetworkInfo_ok_def Ldn_ok_def buffers_wf_def AdvertiseDataSizeMax_def)
qed

text \<open>Sending only advances the sequence counter.\<close>

lemma SendFrame_state: "\<exists>q. fst (SendFrame running dst ty body c) = c\<lparr>m_tx_seq := q\<rparr>"
  by (cases c) (auto simp: SendFrame_def Let_def)

lemma sync_loop_state: "\<exists>q. fst (sync_loop running ss c) = c\<lparr>m_tx_seq := q\<rparr>"
proof (induction ss arbitrary: c)
  case Nil
  then show ?case by (cases c) auto
next
  case (Cons s ss)
  obtain q where q: "fst (SendFrame running (src_ip s) LanPacket_SyncNetwork
      (enc_NetworkInfo (m_network_info c)) c) = c\<lparr>m_tx_seq := q\<rparr>"
    using SendFrame_state by blast
  show ?case using Cons.IH [of c] Cons.IH [of "c\<lparr>m_tx_seq := q\<rparr>"] q
    by (auto simp: split_beta Let_def)
qed

lemma UpdateNodes_state:
  obtains q where "fst (UpdateNodes running c) =
    OnNetworkInfoChanged (c\<lparr>m_network_info := BuildNetwork c, m_tx_seq := q\<rparr>)"
proof -
  let ?c = "c\<lparr>m_network_info := BuildNetwork c\<rparr>"
  obtain q where "fst (sync_loop running (take StationCountMax (m_stations ?c)) ?c) = ?c\<lparr>m_tx_seq := q\<rparr>"
    using sync_loop_state by blast
  with that [of q] show ?thesis by (simp add: UpdateNodes_def split_beta Let_def)
qed

section \<open>Preservation\<close>

definition pre_wf :: "LdnControl \<Rightarrow> bool" where
  "pre_wf c \<longleftrightarrow> stations_wf (m_stations c) \<and> buffers_wf c \<and> scans_wf c"

definition host_bssid :: "LdnControl \<Rightarrow> bool" where
  "host_bssid c \<longleftrightarrow> (m_state c = CS_AccessPointCreated \<longrightarrow>
     bssid (common (m_network_info c)) = FakeMac (m_ipv4_address c))"

lemma ldn_wf_pre: "ldn_wf c \<Longrightarrow> pre_wf c" "ldn_wf c \<Longrightarrow> host_bssid c"
  by (auto simp: ldn_wf_def pre_wf_def roster_ok_def host_bssid_def)

lemma pre_wf_cong:
  assumes "pre_wf c" "m_stations c' = m_stations c" "m_network_info c' = m_network_info c"
    "m_advertise_data c' = m_advertise_data c" "m_advertise_size c' = m_advertise_size c"
    "m_prev_node_connected c' = m_prev_node_connected c" "m_node_changes c' = m_node_changes c"
    "m_recent_scanners c' = m_recent_scanners c" "m_network_config c' = m_network_config c"
    "m_scan_results c' = m_scan_results c \<or> m_scan_results c' = []"
  shows "pre_wf c'"
  using assms unfolding pre_wf_def buffers_wf_def scans_wf_def by auto

lemma ldn_wf_cong:
  assumes "ldn_wf c" "m_stations c' = m_stations c" "m_network_info c' = m_network_info c"
    "m_advertise_data c' = m_advertise_data c" "m_advertise_size c' = m_advertise_size c"
    "m_prev_node_connected c' = m_prev_node_connected c" "m_node_changes c' = m_node_changes c"
    "m_recent_scanners c' = m_recent_scanners c" "m_network_config c' = m_network_config c"
    "m_scan_results c' = m_scan_results c \<or> m_scan_results c' = []"
    "m_state c' = m_state c" "m_ipv4_address c' = m_ipv4_address c" "m_self_name c' = m_self_name c"
  shows "ldn_wf c'"
proof -
  have "pre_wf c'" using pre_wf_cong [OF ldn_wf_pre(1) [OF assms(1)], of c'] assms by simp
  moreover have "used_nodes c' = used_nodes c" using assms by (simp add: used_nodes_def host_node_def)
  ultimately show ?thesis using assms by (simp add: ldn_wf_def pre_wf_def roster_ok_def)
qed

lemma ldn_wf_leave:
  assumes "pre_wf c" and "st \<noteq> CS_AccessPointCreated"
  shows "ldn_wf (SetState st c)"
proof -
  have "pre_wf (SetState st c)"
    by (rule pre_wf_cong [OF assms(1)]) (simp_all add: SetState_def SignalStateChange_def)
  moreover have "m_state (SetState st c) = st" by (simp add: SetState_def SignalStateChange_def)
  ultimately show ?thesis using assms(2) by (simp add: ldn_wf_def pre_wf_def roster_ok_def)
qed

lemma stations_wf_reset:
  assumes "stations_wf ss"
  shows "stations_wf (map reset_station (take StationCountMax ss) @ drop StationCountMax ss)"
proof -
  have l: "length ss = 8" using assms by (simp add: stations_wf_def NodeCountMax_def)
  have d: "drop 7 ss = [ss ! 7]" using l Cons_nth_drop_Suc [of 7 ss] by simp
  have "filter active (map reset_station xs) = []" for xs
    by (induction xs) (simp_all add: reset_station_def)
  then show ?thesis
    using assms l d
    by (auto simp: stations_wf_def NodeCountMax_def StationCountMax_def station_ok_reset nth_append)
qed

lemma pre_wf_stations:
  "pre_wf c \<Longrightarrow> stations_wf ss \<Longrightarrow> pre_wf (c\<lparr>m_stations := ss\<rparr>)"
  unfolding pre_wf_def buffers_wf_def scans_wf_def by simp

lemma pre_wf_ResetStations: "pre_wf c \<Longrightarrow> pre_wf (ResetStations c)"
  unfolding ResetStations_def by (intro pre_wf_stations stations_wf_reset) (simp_all add: pre_wf_def)

lemma pre_wf_network_info:
  "pre_wf c \<Longrightarrow> NetworkInfo_ok i \<Longrightarrow> pre_wf (c\<lparr>m_network_info := i\<rparr>)"
  unfolding pre_wf_def buffers_wf_def scans_wf_def by simp

lemma OnNetworkInfoChanged_fields [simp]:
  "m_state (OnNetworkInfoChanged c) = m_state c" "m_stations (OnNetworkInfoChanged c) = m_stations c"
  "m_network_info (OnNetworkInfoChanged c) = m_network_info c"
  "m_ipv4_address (OnNetworkInfoChanged c) = m_ipv4_address c"
  "m_join_active (OnNetworkInfoChanged c) = m_join_active c"
  "m_join_target_bssid (OnNetworkInfoChanged c) = m_join_target_bssid c"
  "m_recent_scanners (OnNetworkInfoChanged c) = m_recent_scanners c"
  "m_host_last_seen (OnNetworkInfoChanged c) = m_host_last_seen c"
  "m_self_name (OnNetworkInfoChanged c) = m_self_name c"
  "m_network_config (OnNetworkInfoChanged c) = m_network_config c"
  "m_advertise_data (OnNetworkInfoChanged c) = m_advertise_data c"
  "m_advertise_size (OnNetworkInfoChanged c) = m_advertise_size c"
  "m_scan_results (OnNetworkInfoChanged c) = m_scan_results c"
  "m_relay_sync_seq (OnNetworkInfoChanged c) = m_relay_sync_seq c"
  "m_relay_sync_seq_valid (OnNetworkInfoChanged c) = m_relay_sync_seq_valid c"
  by (simp_all add: OnNetworkInfoChanged_def SignalStateChange_def Let_def)

lemma used_nodes_cong:
  "m_stations c' = m_stations c \<Longrightarrow> m_ipv4_address c' = m_ipv4_address c \<Longrightarrow> m_self_name c' = m_self_name c \<Longrightarrow>
     m_network_config c' = m_network_config c \<Longrightarrow> used_nodes c' = used_nodes c"
  by (simp add: used_nodes_def host_node_def)

lemma pre_wf_OnNetworkInfoChanged:
  assumes "pre_wf c" shows "pre_wf (OnNetworkInfoChanged c)"
proof -
  have "length (nodes (ldn (m_network_info c))) = 8"
    using assms by (simp add: pre_wf_def buffers_wf_def NetworkInfo_ok_def Ldn_ok_def NodeCountMax_def)
  with assms show ?thesis
    by (simp add: pre_wf_def buffers_wf_def scans_wf_def)
      (simp add: OnNetworkInfoChanged_def SignalStateChange_def Let_def node_flags_def NodeCountMax_def)
qed

lemma ldn_wf_OnNetworkInfoChanged: "ldn_wf c \<Longrightarrow> ldn_wf (OnNetworkInfoChanged c)"
  using pre_wf_OnNetworkInfoChanged [of c] used_nodes_cong [of "OnNetworkInfoChanged c" c]
  by (simp add: ldn_wf_def pre_wf_def roster_ok_def)

text \<open>Rebuilding the network description restores the roster.\<close>

lemma ldn_wf_UpdateNodes:
  assumes "pre_wf c" and "host_bssid c"
  shows "ldn_wf (fst (UpdateNodes running c))"
proof (rule UpdateNodes_state [of running c])
  fix q assume u: "fst (UpdateNodes running c) =
    OnNetworkInfoChanged (c\<lparr>m_network_info := BuildNetwork c, m_tx_seq := q\<rparr>)"
  let ?c = "c\<lparr>m_network_info := BuildNetwork c, m_tx_seq := q\<rparr>"
  have "pre_wf (c\<lparr>m_network_info := BuildNetwork c\<rparr>)"
    using assms(1) by (intro pre_wf_network_info NetworkInfo_ok_Build) (simp_all add: pre_wf_def)
  then have "pre_wf ?c" by (rule pre_wf_cong) simp_all
  moreover have "used_nodes ?c = used_nodes c" by (rule used_nodes_cong) simp_all
  ultimately have "ldn_wf ?c"
    using assms(2) by (simp add: ldn_wf_def pre_wf_def roster_ok_def host_bssid_def BuildNetwork_used)
  then show ?thesis unfolding u by (rule ldn_wf_OnNetworkInfoChanged)
qed

lemma ldn_wf_SendFrame:
  assumes "ldn_wf c" shows "ldn_wf (fst (SendFrame running dst ty body c))"
proof -
  obtain q where "fst (SendFrame running dst ty body c) = c\<lparr>m_tx_seq := q\<rparr>" using SendFrame_state by blast
  with ldn_wf_cong [OF assms, of "c\<lparr>m_tx_seq := q\<rparr>"] show ?thesis by simp
qed

lemma pre_wf_SendFrame:
  assumes "pre_wf c" shows "pre_wf (fst (SendFrame running dst ty body c))"
proof -
  obtain q where "fst (SendFrame running dst ty body c) = c\<lparr>m_tx_seq := q\<rparr>" using SendFrame_state by blast
  with pre_wf_cong [OF assms, of "c\<lparr>m_tx_seq := q\<rparr>"] show ?thesis by simp
qed

lemma ldn_wf_new: "ldn_wf new_LdnControl"
proof -
  have "pre_wf new_LdnControl"
    using zero_NetworkInfo_ok zero_NodeInfo_ok
    by (simp add: pre_wf_def stations_wf_def buffers_wf_def scans_wf_def new_LdnControl_def zero_Station_def
        station_ok_def NodeCountMax_def zero_NetworkConfig_def)
  then show ?thesis by (simp add: ldn_wf_def pre_wf_def roster_ok_def) (simp add: new_LdnControl_def)
qed

lemma find_index_Some:
  "find_index P xs i = Some k \<Longrightarrow> i \<le> k \<and> k - i < length xs \<and> P (xs ! (k - i)) \<and> (\<forall>j < k - i. \<not> P (xs ! j))"
proof (induction xs arbitrary: i)
  case (Cons x xs)
  show ?case
  proof (cases "P x")
    case False
    with Cons.prems have "find_index P xs (i + 1) = Some k" by simp
    from Cons.IH [OF this] False show ?thesis
      by (auto simp: nth_Cons split: nat.splits) (metis Suc_diff_Suc Suc_le_lessD less_Suc_eq_0_disj nth_Cons_Suc)+
  qed (use Cons.prems in auto)
qed simp

lemma find_index_None: "find_index P xs i = None \<longleftrightarrow> (\<forall>x \<in> set xs. \<not> P x)"
  by (induction xs arbitrary: i) auto

lemma distinct_filter_nth:
  "distinct (map f (filter P xs)) \<longleftrightarrow>
     (\<forall>i j. i < j \<and> j < length xs \<and> P (xs ! i) \<and> P (xs ! j) \<longrightarrow> f (xs ! i) \<noteq> f (xs ! j))"
proof (induction xs)
  case (Cons x xs)
  let ?Q = "\<lambda>xs. \<forall>i j. i < j \<and> j < length xs \<and> P (xs ! i) \<and> P (xs ! j) \<longrightarrow> f (xs ! i) \<noteq> f (xs ! j)"
  have "?Q (x # xs) \<longleftrightarrow> (P x \<longrightarrow> (\<forall>j < length xs. P (xs ! j) \<longrightarrow> f (xs ! j) \<noteq> f x)) \<and> ?Q xs" (is "?L = ?R")
  proof
    assume L: ?L
    have "f (xs ! j) \<noteq> f x" if "P x" "j < length xs" "P (xs ! j)" for j
      using L [rule_format, of 0 "Suc j"] that by auto
    moreover have "f (xs ! i) \<noteq> f (xs ! j)" if "i < j" "j < length xs" "P (xs ! i)" "P (xs ! j)" for i j
      using L [rule_format, of "Suc i" "Suc j"] that by simp
    ultimately show ?R by blast
  next
    assume R: ?R
    show ?L
    proof (intro allI impI)
      fix i j assume "i < j \<and> j < length (x # xs) \<and> P ((x # xs) ! i) \<and> P ((x # xs) ! j)"
      then show "f ((x # xs) ! i) \<noteq> f ((x # xs) ! j)"
        using R by (cases i; cases j) (auto dest: not_sym)
    qed
  qed
  moreover have "distinct (map f (filter P (x # xs))) \<longleftrightarrow>
      (P x \<longrightarrow> (\<forall>j < length xs. P (xs ! j) \<longrightarrow> f (xs ! j) \<noteq> f x)) \<and> distinct (map f (filter P xs))"
    by (auto simp: image_iff in_set_conv_nth)
  ultimately show ?case using Cons.IH by blast
qed simp

lemma stations_wf_update:
  assumes "stations_wf ss" and "k < 7" and "station_ok s"
    and "\<And>i. i < 8 \<Longrightarrow> i \<noteq> k \<Longrightarrow> active (ss ! i) \<Longrightarrow> active s \<Longrightarrow> src_ip (ss ! i) \<noteq> src_ip s"
  shows "stations_wf (ss[k := s])"
proof -
  have l: "length ss = 8" using assms(1) by (simp add: stations_wf_def NodeCountMax_def)
  have "distinct (map src_ip (filter active (ss[k := s])))"
    unfolding distinct_filter_nth
  proof (intro allI impI)
    fix i j assume "i < j \<and> j < length (ss[k := s]) \<and> active (ss[k := s] ! i) \<and> active (ss[k := s] ! j)"
    moreover have "distinct (map src_ip (filter active ss))" using assms(1) by (simp add: stations_wf_def)
    ultimately show "src_ip (ss[k := s] ! i) \<noteq> src_ip (ss[k := s] ! j)"
      using assms(4) [of i] assms(4) [of j] l unfolding distinct_filter_nth
      by (cases "i = k"; cases "j = k") auto
  qed
  moreover have "\<forall>x \<in> set (ss[k := s]). station_ok x"
    using assms(1,3) set_update_subset_insert [of ss k s] by (auto simp: stations_wf_def)
  ultimately show ?thesis
    using assms(1,2) l by (simp add: stations_wf_def NodeCountMax_def)
qed

lemma connect_slot_free:
  assumes "stations_wf (m_stations c)" and "connect_slot sip c = Some nid"
  shows "1 \<le> nid \<and> nid \<le> 7 \<and>
     (\<forall>i < 8. i \<noteq> nid - 1 \<longrightarrow> active (m_stations c ! i) \<longrightarrow> src_ip (m_stations c ! i) \<noteq> sip)"
proof (cases "FindStationByIp sip c")
  case None
  have l: "length (m_stations c) = 8" using assms(1) by (simp add: stations_wf_def NodeCountMax_def)
  from None assms(2) have "FindFreeNodeId c = Some nid" by (auto simp: connect_slot_def split: if_splits)
  then have "1 \<le> nid" "nid - 1 < 7"
    using find_index_Some [of _ "take StationCountMax (m_stations c)" 1 nid] l
    by (auto simp: FindFreeNodeId_def StationCountMax_def NodeCountMax_def)
  moreover have "src_ip (m_stations c ! i) \<noteq> sip" if "i < 8" "active (m_stations c ! i)" for i
  proof (cases "i < 7")
    case True
    then have "m_stations c ! i \<in> set (take StationCountMax (m_stations c))"
      using l by (force simp: StationCountMax_def NodeCountMax_def in_set_conv_nth)
    with None that(2) show ?thesis by (auto simp: FindStationByIp_def find_index_None)
  next
    case False
    with that have "i = 7" by simp
    with that(2) assms(1) show ?thesis by (simp add: stations_wf_def)
  qed
  ultimately show ?thesis by auto
next
  case (Some k)
  have l: "length (m_stations c) = 8" using assms(1) by (simp add: stations_wf_def NodeCountMax_def)
  from Some assms(2) have k: "k = nid" by (simp add: connect_slot_def)
  with Some have n: "1 \<le> nid" "nid - 1 < 7" "active (m_stations c ! (nid - 1))" "src_ip (m_stations c ! (nid - 1)) = sip"
    using find_index_Some [of "\<lambda>s. active s \<and> src_ip s = sip" "take StationCountMax (m_stations c)" 1 nid] l
    by (auto simp: FindStationByIp_def StationCountMax_def NodeCountMax_def)
  have d: "distinct (map src_ip (filter active (m_stations c)))" using assms(1) by (simp add: stations_wf_def)
  have "src_ip (m_stations c ! i) \<noteq> sip" if "i < 8" "i \<noteq> nid - 1" "active (m_stations c ! i)" for i
    using d [unfolded distinct_filter_nth, rule_format, of i "nid - 1"]
      d [unfolded distinct_filter_nth, rule_format, of "nid - 1" i] that n l
    by (cases "i < nid - 1") auto
  with n show ?thesis by auto
qed

lemma connect_station_ok:
  "NodeInfo_ok node \<Longrightarrow> station_ok (connect_station now sip nid node s)"
  by (simp add: station_ok_def connect_station_def NodeInfo_ok_def)

lemma stations_wf_connect:
  assumes "stations_wf (m_stations c)" and "connect_slot sip c = Some nid" and "NodeInfo_ok node"
  shows "stations_wf ((m_stations c)[nid - 1 := connect_station now sip nid node (m_stations c ! (nid - 1))])"
  using connect_slot_free [OF assms(1,2)] assms(1)
  by (intro stations_wf_update connect_station_ok [OF assms(3)]) (auto simp: connect_station_def)

lemma FindStation_slot: "FindStationByIp sip c = Some nid \<Longrightarrow> connect_slot sip c = Some nid"
  by (simp add: connect_slot_def)

lemma ldn_wf_HandleConnect:
  assumes "ldn_wf c" shows "ldn_wf (fst (HandleConnect running now sip body c))"
proof -
  have ok: "NodeInfo_ok (dec_NodeInfo body)" if "length body = 64" using that by (simp add: node.dec_ok)
  have "ldn_wf (fst (UpdateNodes running (c\<lparr>m_stations := (m_stations c)[nid - 1 :=
      connect_station now sip nid (dec_NodeInfo body) (m_stations c ! (nid - 1))]\<rparr>)))"
    if "connect_slot sip c = Some nid" "length body = 64" for nid
    using stations_wf_connect [OF _ that(1) ok [OF that(2)]] assms
    by (intro ldn_wf_UpdateNodes pre_wf_stations) (auto simp: ldn_wf_pre pre_wf_def ldn_wf_def host_bssid_def roster_ok_def)
  with assms show ?thesis by (auto simp: HandleConnect_def sizeof_NodeInfo_def split: option.splits)
qed

lemma pre_wf_RecordScanner: "pre_wf c \<Longrightarrow> pre_wf (RecordScanner now sip c)"
  unfolding pre_wf_def buffers_wf_def scans_wf_def by (auto simp: RecordScanner_def Let_def split: option.splits)

lemma RecordScanner_fields [simp]:
  "m_state (RecordScanner now sip c) = m_state c" "m_stations (RecordScanner now sip c) = m_stations c"
  "m_network_info (RecordScanner now sip c) = m_network_info c"
  "m_ipv4_address (RecordScanner now sip c) = m_ipv4_address c"
  "m_self_name (RecordScanner now sip c) = m_self_name c"
  "m_network_config (RecordScanner now sip c) = m_network_config c"
  by (auto simp: RecordScanner_def Let_def split: option.splits)

lemma ldn_wf_RecordScanner: "ldn_wf c \<Longrightarrow> ldn_wf (RecordScanner now sip c)"
  using pre_wf_RecordScanner [OF ldn_wf_pre(1), of c now sip] used_nodes_cong [of "RecordScanner now sip c" c]
  by (simp add: ldn_wf_def pre_wf_def roster_ok_def)

lemma ldn_wf_HandleScan: "ldn_wf c \<Longrightarrow> ldn_wf (fst (HandleScan running now sip c))"
  by (simp add: HandleScan_def Let_def ldn_wf_RecordScanner ldn_wf_SendFrame)

lemma map_update_same: "i < length xs \<Longrightarrow> f y = f (xs ! i) \<Longrightarrow> map f (xs[i := y]) = map f xs"
  by (metis list_update_id map_update)

lemma ldn_wf_scan_results:
  assumes "ldn_wf c" "length rs \<le> MaxScanResults" "distinct (map (\<lambda>r. bssid (common r)) rs)"
    "\<forall>r \<in> set rs. NetworkInfo_ok r"
  shows "ldn_wf (c\<lparr>m_scan_results := rs\<rparr>)"
proof -
  have "used_nodes (c\<lparr>m_scan_results := rs\<rparr>) = used_nodes c" by (rule used_nodes_cong) simp_all
  then show ?thesis using assms unfolding ldn_wf_def buffers_wf_def scans_wf_def roster_ok_def by simp
qed

lemma ldn_wf_HandleScanResp:
  assumes "ldn_wf c" shows "ldn_wf (HandleScanResp sip body c)"
proof (cases "length body = 1152 \<and> sip \<noteq> m_ipv4_address c")
  case True
  let ?i = "dec_NetworkInfo body" and ?rs = "m_scan_results c" and ?b = "\<lambda>r. bssid (common r)"
  have ok: "NetworkInfo_ok ?i" using True by (simp add: info.dec_ok)
  have sw: "length ?rs \<le> MaxScanResults" "distinct (map ?b ?rs)" "\<forall>r \<in> set ?rs. NetworkInfo_ok r"
    using assms by (simp_all add: ldn_wf_def scans_wf_def)
  show ?thesis
  proof (cases "find_index (\<lambda>r. ?b r = ?b ?i) ?rs 0")
    case None
    then have "?b ?i \<notin> ?b ` set ?rs" by (auto simp: find_index_None)
    with None True ok sw assms show ?thesis
      by (auto simp: HandleScanResp_def sizeof_NetworkInfo_def Let_def intro!: ldn_wf_scan_results)
  next
    case (Some i)
    from find_index_Some [OF this] have i: "i < length ?rs" "?b (?rs ! i) = ?b ?i" by auto
    have "ldn_wf (c\<lparr>m_scan_results := ?rs[i := ?i]\<rparr>)"
      using assms sw ok i map_update_same [OF i(1), of ?b ?i] set_update_subset_insert [of ?rs i ?i]
      by (intro ldn_wf_scan_results) auto
    with Some True assms show ?thesis by (simp add: HandleScanResp_def sizeof_NetworkInfo_def Let_def)
  qed
qed (use assms in \<open>auto simp: HandleScanResp_def sizeof_NetworkInfo_def\<close>)

lemma ldn_wf_station_side: "pre_wf c \<Longrightarrow> m_state c \<noteq> CS_AccessPointCreated \<Longrightarrow> ldn_wf c"
  by (simp add: ldn_wf_def pre_wf_def roster_ok_def)

lemma ldn_wf_HandleSyncNetwork:
  assumes "ldn_wf c" shows "ldn_wf (HandleSyncNetwork now body relay_seq c)"
proof (cases "length body = 1152 \<and> (m_state c = CS_Station \<or> m_state c = CS_StationConnected)")
  case True
  let ?c1 = "if relay_seq \<noteq> 0 then c\<lparr>m_relay_sync_seq := relay_seq, m_relay_sync_seq_valid := True\<rparr> else c"
  let ?c2 = "?c1\<lparr>m_network_info := dec_NetworkInfo body, m_host_last_seen := now\<rparr>"
  have 1: "pre_wf ?c1" by (rule pre_wf_cong [OF ldn_wf_pre(1) [OF assms]]) simp_all
  have "pre_wf (?c1\<lparr>m_network_info := dec_NetworkInfo body\<rparr>)"
    using 1 True by (intro pre_wf_network_info) (auto simp: info.dec_ok)
  then have 2: "pre_wf ?c2" by (rule pre_wf_cong) simp_all
  have st: "m_state ?c1 = m_state c" "m_state ?c2 = m_state c" by simp_all
  have "ldn_wf ?c1" "ldn_wf ?c2" using 1 2 True st by (auto intro: ldn_wf_station_side)
  moreover have "ldn_wf (SetState CS_StationConnected ?c2)" using 2 by (rule ldn_wf_leave) simp
  ultimately show ?thesis
    using True assms
    unfolding HandleSyncNetwork_def Let_def sizeof_NetworkInfo_def
    by (simp only: if_split) (simp add: ldn_wf_OnNetworkInfoChanged)
qed (use assms in \<open>auto simp: HandleSyncNetwork_def sizeof_NetworkInfo_def\<close>)

lemma pack_last_seen:
  "k < length ss \<Longrightarrow> pack_stations n (ss[k := (ss ! k)\<lparr>last_seen := t\<rparr>]) = pack_stations n ss"
proof (induction ss arbitrary: n k)
  case (Cons s ss)
  then show ?case by (cases k) auto
qed simp

lemma stations_wf_slot:
  "stations_wf (m_stations c) \<Longrightarrow> FindStationByIp sip c = Some nid \<Longrightarrow> nid - 1 < 7 \<and>
     m_stations c ! (nid - 1) \<in> set (m_stations c) \<and> length (m_stations c) = 8 \<and>
     active (m_stations c ! (nid - 1)) \<and> src_ip (m_stations c ! (nid - 1)) = sip"
  using find_index_Some [of "\<lambda>s. active s \<and> src_ip s = sip" "take StationCountMax (m_stations c)" 1 nid]
  by (auto simp: FindStationByIp_def StationCountMax_def NodeCountMax_def stations_wf_def)

lemma ldn_wf_HandleRelayHeartbeat:
  assumes "ldn_wf c" shows "ldn_wf (HandleRelayHeartbeat now sip body c)"
proof (cases "FindStationByIp sip c")
  case (Some nid)
  let ?k = "nid - 1" and ?s = "(m_stations c ! (nid - 1))\<lparr>last_seen := now\<rparr>"
  let ?c = "c\<lparr>m_stations := (m_stations c)[?k := ?s]\<rparr>"
  have sw: "stations_wf (m_stations c)" using assms by (simp add: ldn_wf_def)
  note slot = stations_wf_slot [OF sw Some]
  have ok: "station_ok ?s" using sw slot by (auto simp: stations_wf_def station_ok_def)
  have "stations_wf ((m_stations c)[?k := ?s])"
    using connect_slot_free [OF sw FindStation_slot [OF Some]] slot sw ok by (intro stations_wf_update) auto
  then have "pre_wf ?c" using ldn_wf_pre(1) [OF assms] by (intro pre_wf_stations)
  moreover have "used_nodes ?c = used_nodes c"
    using slot by (simp add: used_nodes_def host_node_def take_update_swap StationCountMax_def NodeCountMax_def
        pack_last_seen [of ?k "take 7 (m_stations c)", simplified])
  ultimately have "ldn_wf ?c" using assms by (simp add: ldn_wf_def pre_wf_def roster_ok_def)
  with Some assms show ?thesis by (simp add: HandleRelayHeartbeat_def)
qed (use assms in \<open>simp add: HandleRelayHeartbeat_def\<close>)

lemma stations_wf_drop:
  assumes "stations_wf ss" and "k < 7" and "\<not> active s" and "station_ok s"
  shows "stations_wf (ss[k := s])"
  using assms by (intro stations_wf_update) auto

lemma ldn_wf_HandleRelayBye:
  assumes "ldn_wf c" shows "ldn_wf (fst (HandleRelayBye running sip body c))"
proof -
  have sw: "stations_wf (m_stations c)" using assms by (simp add: ldn_wf_def)
  have "ldn_wf (fst (UpdateNodes running (c\<lparr>m_stations := (m_stations c)[nid - 1 :=
      reset_station (m_stations c ! (nid - 1))]\<rparr>)))" if "FindStationByIp sip c = Some nid" for nid
    using stations_wf_slot [OF sw that] stations_wf_drop [OF sw, of "nid - 1"] station_ok_reset ldn_wf_pre [OF assms]
    by (intro ldn_wf_UpdateNodes pre_wf_stations) (simp_all add: reset_station_def host_bssid_def)
  moreover have "pre_wf (c\<lparr>m_disconnect_reason := 3, m_join_active := False, m_relay_sync_seq_valid := False\<rparr>)"
    by (rule pre_wf_cong [OF ldn_wf_pre(1) [OF assms]]) simp_all
  ultimately show ?thesis
    using assms by (auto simp: HandleRelayBye_def Let_def ldn_wf_leave split: option.splits)
qed

lemma ldn_wf_OnControlFrame: "ldn_wf c \<Longrightarrow> ldn_wf (fst (OnControlFrame running now sip payload c))"
  by (auto simp: OnControlFrame_def ldn_wf_HandleScan ldn_wf_HandleScanResp ldn_wf_HandleConnect
      ldn_wf_HandleSyncNetwork ldn_wf_HandleRelayHeartbeat ldn_wf_HandleRelayBye split: option.splits prod.splits)

lemma pre_wf_modes:
  assumes "pre_wf c"
  shows "pre_wf (fst (exit_if_entered na c))" "pre_wf (fst (enter_if_needed na c))"
proof -
  show "pre_wf (fst (exit_if_entered na c))"
    by (rule pre_wf_cong [OF assms]) (simp_all add: exit_if_entered_def ExitLocalNetworkMode_def)
  show "pre_wf (fst (enter_if_needed na c))"
    by (rule pre_wf_cong [OF assms])
      (auto simp: enter_if_needed_def EnterLocalNetworkMode_def Let_def split: sum.splits option.splits)
qed

lemma pre_wf_InitNodeStateChange: "pre_wf c \<Longrightarrow> pre_wf (InitNodeStateChange c)"
  unfolding pre_wf_def buffers_wf_def scans_wf_def by (simp add: InitNodeStateChange_def)

lemma pre_wf_clear_event: "pre_wf c \<Longrightarrow> pre_wf (c\<lparr>m_state_event := b\<rparr>)"
  by (erule pre_wf_cong) simp_all

lemma ldn_wf_Initialize:
  assumes "ldn_wf c" shows "ldn_wf (fst (snd (ldn_Initialize vip na c)))"
proof -
  have "pre_wf (c\<lparr>m_ipv4_address := ip, m_subnet_mask := 0xFFFF0000, m_disconnect_reason := 0,
      m_scan_results := [], m_scan_filter_lcid := 0\<rparr>)" for ip
    by (rule pre_wf_cong [OF ldn_wf_pre(1) [OF assms]]) simp_all
  then show ?thesis
    by (simp add: ldn_Initialize_def Let_def split_beta ldn_wf_leave pre_wf_clear_event pre_wf_modes
        pre_wf_InitNodeStateChange pre_wf_ResetStations)
qed

lemma ldn_wf_Finalize:
  assumes "ldn_wf c" shows "ldn_wf (fst (snd (ldn_Finalize na c)))"
proof -
  have "pre_wf ((fst (exit_if_entered na c))\<lparr>m_scan_results := [], m_scan_filter_lcid := 0,
      m_join_active := False, m_relay_sync_seq_valid := False\<rparr>)"
    by (rule pre_wf_cong [OF pre_wf_modes(1) [OF ldn_wf_pre(1) [OF assms]]]) simp_all
  then show ?thesis
    by (simp add: ldn_Finalize_def Let_def split_beta ldn_wf_leave pre_wf_ResetStations)
qed

lemma ldn_wf_reason: "ldn_wf c \<Longrightarrow> ldn_wf (c\<lparr>m_disconnect_reason := r\<rparr>)"
  by (erule ldn_wf_cong) simp_all

lemma ldn_wf_open_close:
  assumes "ldn_wf c"
  shows "ldn_wf (fst (snd (OpenAccessPoint na c)))" "ldn_wf (fst (snd (CloseAccessPoint na c)))"
    "ldn_wf (fst (snd (OpenStation na c)))" "ldn_wf (fst (snd (CloseStation na c)))"
  using assms ldn_wf_reason [OF assms, of 0] ldn_wf_pre(1) [OF assms] ldn_wf_pre(1) [OF ldn_wf_reason [OF assms, of 0]]
  by (simp_all add: OpenAccessPoint_def CloseAccessPoint_def OpenStation_def CloseStation_def Let_def split_beta
      ldn_wf_leave pre_wf_ResetStations pre_wf_modes)

lemma ldn_wf_CreateNetwork:
  assumes "ldn_wf c" and "length rnd16 = 16"
    and "length (nc_unk1 (cn_networkConfig data)) = 2" "length (nc_unk2 (cn_networkConfig data)) = 4"
  shows "ldn_wf (fst (snd (CreateNetwork running high low rnd16 data c)))"
proof (cases "m_state c = CS_AccessPoint")
  case True
  let ?nc = "cn_networkConfig data" and ?z = zero_NetworkInfo
  let ?info = "?z\<lparr>
     common := (common ?z)\<lparr>bssid := FakeMac (m_ipv4_address c), ssid_length := 32, ssid_raw := FakeSsid,
       channel := (if nc_channel ?nc \<noteq> 0 then nc_channel ?nc else 6), linkLevel := 3, networkType := 2\<rparr>,
     networkId := \<lparr>localCommunicationId = nc_lcid ?nc, intent_unk1 = nc_unk1 ?nc, sceneId = nc_sceneId ?nc,
       intent_unk2 = nc_unk2 ?nc, session_high = high, session_low = low\<rparr>,
     ldn := (ldn ?z)\<lparr>securityMode := cn_securityMode data, stationAcceptPolicy := 0,
       nodeCountMax := nc_nodeCountMax ?nc, unkRandom := rnd16\<rparr>\<rparr>"
  let ?c1 = "c\<lparr>m_network_config := ?nc, m_station_accept_policy := 0, m_network_info := ?info,
      m_self_name := strncpy (cn_userName data) UserNameBytesMax @ [0],
      m_advertise_size := 0, m_advertise_data := replicate AdvertiseDataSizeMax 0\<rparr>"
  have "length FakeSsid = 33" by (simp add: FakeSsid_def length_concat numeral_eq_Suc)
  then have "NetworkInfo_ok ?info"
    using zero_NetworkInfo_ok assms(2-4)
    by (simp add: NetworkInfo_ok_def Common_ok_def NetworkId_ok_def Ldn_ok_def)
  then have "pre_wf ?c1"
    using ldn_wf_pre(1) [OF assms(1)] assms(3,4) unfolding pre_wf_def buffers_wf_def scans_wf_def by simp
  then have "pre_wf (InitNodeStateChange (ResetStations ?c1))"
    by (intro pre_wf_InitNodeStateChange pre_wf_ResetStations)
  then have p: "pre_wf (SetState CS_AccessPointCreated (InitNodeStateChange (ResetStations ?c1)))"
    by (rule pre_wf_cong) (simp_all add: SetState_def SignalStateChange_def)
  have "host_bssid (SetState CS_AccessPointCreated (InitNodeStateChange (ResetStations ?c1)))"
    by (simp add: host_bssid_def SetState_def SignalStateChange_def InitNodeStateChange_def ResetStations_def)
  from ldn_wf_UpdateNodes [OF p this] True show ?thesis
    by (simp add: CreateNetwork_def Let_def split_beta)
qed (use assms(1) in \<open>simp add: CreateNetwork_def\<close>)

lemma ldn_wf_DestroyNetwork: "ldn_wf c \<Longrightarrow> ldn_wf (fst (snd (DestroyNetwork running c)))"
  by (auto simp: DestroyNetwork_def Let_def split_beta ldn_wf_leave pre_wf_ResetStations pre_wf_SendFrame ldn_wf_pre)

lemma ldn_wf_Disconnect:
  assumes "ldn_wf c" shows "ldn_wf (fst (snd (ldn_Disconnect running c)))"
proof -
  have "pre_wf (d\<lparr>m_join_active := False, m_relay_sync_seq_valid := False\<rparr>)" if "pre_wf d" for d
    by (rule pre_wf_cong [OF that]) simp_all
  with ldn_wf_pre(1) [OF assms] show ?thesis
    by (auto simp: ldn_Disconnect_def Let_def split_beta ldn_wf_leave pre_wf_ResetStations pre_wf_SendFrame)
qed

lemma ldn_wf_SetAdvertiseData:
  assumes "ldn_wf c" shows "ldn_wf (fst (snd (SetAdvertiseData running data sz c)))"
proof (cases "sz > AdvertiseDataSizeMax")
  case False
  let ?c1 = "case data of None \<Rightarrow> c | Some d \<Rightarrow> c\<lparr>m_advertise_data := memcpy (m_advertise_data c) (take sz d)\<rparr>"
  let ?c2 = "?c1\<lparr>m_advertise_size := of_nat sz, m_network_info := (m_network_info ?c1)\<lparr>ldn :=
      (ldn (m_network_info ?c1))\<lparr>advertiseDataSize := of_nat sz\<rparr>\<rparr>\<rparr>"
  have u: "unat (of_nat sz :: u16) = sz"
    using False by (simp add: AdvertiseDataSizeMax_def unat_of_nat take_bit_nat_eq_self)
  have "pre_wf ?c2"
    using ldn_wf_pre(1) [OF assms] False u
    unfolding pre_wf_def buffers_wf_def scans_wf_def NetworkInfo_ok_def Ldn_ok_def
    by (cases data) simp_all
  moreover have "host_bssid ?c2"
    using ldn_wf_pre(2) [OF assms] by (cases data) (simp_all add: host_bssid_def)
  ultimately show ?thesis
    using False ldn_wf_UpdateNodes [of ?c2] by (simp add: SetAdvertiseData_def Let_def split_beta)
qed (use assms in \<open>simp add: SetAdvertiseData_def\<close>)

lemma ldn_wf_SetStationAcceptPolicy:
  assumes "ldn_wf c" shows "ldn_wf (snd (SetStationAcceptPolicy policy c))"
proof -
  let ?c = "snd (SetStationAcceptPolicy policy c)"
  have "used_nodes ?c = used_nodes c" by (rule used_nodes_cong) (simp_all add: SetStationAcceptPolicy_def)
  then show ?thesis
    using assms unfolding ldn_wf_def roster_ok_def buffers_wf_def scans_wf_def
    by (simp add: SetStationAcceptPolicy_def NetworkInfo_ok_def Ldn_ok_def)
qed

lemma ldn_wf_Reject:
  assumes "ldn_wf c" shows "ldn_wf (fst (snd (Reject running node_id c)))"
proof -
  have sw: "stations_wf (m_stations c)" using assms by (simp add: ldn_wf_def)
  have "ldn_wf (fst (UpdateNodes running (c\<lparr>m_stations := (m_stations c)[n - 1 :=
      (m_stations c ! (n - 1))\<lparr>active := False, connected := False\<rparr>]\<rparr>)))" if "1 \<le> n" "n < NodeCountMax" for n
  proof -
    have k: "n - 1 < 7" using that by (auto simp: NodeCountMax_def)
    have "m_stations c ! (n - 1) \<in> set (m_stations c)" using sw that by (auto simp: stations_wf_def)
    then have "station_ok ((m_stations c ! (n - 1))\<lparr>active := False, connected := False\<rparr>)"
      using sw by (auto simp: stations_wf_def station_ok_def)
    with stations_wf_drop [OF sw k] ldn_wf_pre [OF assms] show ?thesis
      by (intro ldn_wf_UpdateNodes pre_wf_stations) (simp_all add: host_bssid_def)
  qed
  with assms show ?thesis by (auto simp: Reject_def Let_def split_beta)
qed

lemma stations_wf_reap:
  assumes "stations_wf ss"
  shows "stations_wf (map (reap now) (take StationCountMax ss) @ drop StationCountMax ss)"
proof -
  have l: "length ss = 8" using assms by (simp add: stations_wf_def NodeCountMax_def)
  have d: "drop 7 ss = [ss ! 7]" using l Cons_nth_drop_Suc [of 7 ss] by simp
  have "station_ok (reap now s)" if "station_ok s" for s
    using that by (simp add: reap_def station_ok_reset)
  moreover have "distinct (map src_ip (filter active (map (reap now) xs)))"
    if "distinct (map src_ip (filter active xs))" for xs
  proof -
    have sub: "set (map src_ip (filter active (map (reap now) xs))) \<subseteq> set (map src_ip (filter active xs))" for xs
      by (auto simp: reap_def reset_station_def split: if_splits)
    show ?thesis using that
    proof (induction xs)
      case (Cons x xs)
      then show ?case using sub [of xs] by (auto simp: reap_def reset_station_def)
    qed simp
  qed
  ultimately show ?thesis
    using assms l d stations_wf_take(1) [OF assms]
    by (auto simp: stations_wf_def NodeCountMax_def StationCountMax_def nth_append dest: in_set_takeD)
qed

lemma ldn_wf_station_tick:
  assumes "ldn_wf c" shows "ldn_wf (fst (station_tick running now c))"
proof -
  have cut: "ldn_wf (SetState CS_Station (d\<lparr>m_disconnect_reason := 6, m_join_active := False, m_relay_sync_seq_valid := False\<rparr>))"
    if "ldn_wf d" for d
  proof -
    have "pre_wf (d\<lparr>m_disconnect_reason := 6, m_join_active := False, m_relay_sync_seq_valid := False\<rparr>)"
      by (rule pre_wf_cong [OF ldn_wf_pre(1) [OF that]]) simp_all
    then show ?thesis by (rule ldn_wf_leave) simp
  qed
  show ?thesis
    using assms ldn_wf_SendFrame [OF assms] by (auto simp: station_tick_def Let_def split_beta cut)
qed

lemma ldn_wf_Tick:
  assumes "ldn_wf c" shows "ldn_wf (fst (Tick running now c))"
proof -
  let ?c0 = "c\<lparr>m_last_beacon := now\<rparr>"
  have w0: "ldn_wf ?c0" by (rule ldn_wf_cong [OF assms]) simp_all
  have "ldn_wf (fst (UpdateNodes running (?c0\<lparr>m_stations := map (reap now) (take StationCountMax (m_stations ?c0)) @
      drop StationCountMax (m_stations ?c0)\<rparr>)))"
    using ldn_wf_pre [OF w0] stations_wf_reap [of "m_stations ?c0" now]
    by (intro ldn_wf_UpdateNodes pre_wf_stations) (auto simp: host_bssid_def pre_wf_def)
  with assms w0 show ?thesis by (simp add: Tick_def Let_def ldn_wf_station_tick)
qed

lemma ldn_wf_begin:
  assumes "ldn_wf c"
  shows "ldn_wf (scan_begin f c)" "ldn_wf (join_begin data c)" "ldn_wf (join_abort c)"
  by (rule ldn_wf_cong [OF assms]; simp add: scan_begin_def join_begin_def join_abort_def)+

lemma ldn_wf_LatestUpdate:
  assumes "ldn_wf c" shows "ldn_wf (snd (GetNetworkInfoLatestUpdate n c))"
proof -
  let ?c = "snd (GetNetworkInfoLatestUpdate n c)"
  have u: "used_nodes ?c = used_nodes c" by (rule used_nodes_cong) (simp_all add: GetNetworkInfoLatestUpdate_def)
  show ?thesis
    using assms u unfolding ldn_wf_def roster_ok_def buffers_wf_def scans_wf_def
    by (simp add: GetNetworkInfoLatestUpdate_def)
qed

section \<open>Runs\<close>

text \<open>Each rule is one critical section of the source: a frame handler, an IPC operation, a tick, or
  one of the locked sections (and sends) that \<^verbatim>\<open>Scan\<close> and \<^verbatim>\<open>Connect\<close> are made of, so that a run
  covers every interleaving of the threads.\<close>

inductive ldn_run :: "LdnControl \<Rightarrow> bool" where
  start: "ldn_run new_LdnControl"
| frame: "ldn_run c \<Longrightarrow> ldn_run (fst (OnControlFrame running now sip payload c))"
| tick: "ldn_run c \<Longrightarrow> ldn_run (fst (Tick running now c))"
| initialize: "ldn_run c \<Longrightarrow> ldn_run (fst (snd (ldn_Initialize vip na c)))"
| finalize: "ldn_run c \<Longrightarrow> ldn_run (fst (snd (ldn_Finalize na c)))"
| open_ap: "ldn_run c \<Longrightarrow> ldn_run (fst (snd (OpenAccessPoint na c)))"
| close_ap: "ldn_run c \<Longrightarrow> ldn_run (fst (snd (CloseAccessPoint na c)))"
| open_sta: "ldn_run c \<Longrightarrow> ldn_run (fst (snd (OpenStation na c)))"
| close_sta: "ldn_run c \<Longrightarrow> ldn_run (fst (snd (CloseStation na c)))"
| create: "ldn_run c \<Longrightarrow> length rnd16 = 16 \<Longrightarrow> length (nc_unk1 (cn_networkConfig data)) = 2 \<Longrightarrow>
     length (nc_unk2 (cn_networkConfig data)) = 4 \<Longrightarrow>
     ldn_run (fst (snd (CreateNetwork running high low rnd16 data c)))"
| destroy: "ldn_run c \<Longrightarrow> ldn_run (fst (snd (DestroyNetwork running c)))"
| advertise: "ldn_run c \<Longrightarrow> ldn_run (fst (snd (SetAdvertiseData running adv sz c)))"
| policy: "ldn_run c \<Longrightarrow> ldn_run (snd (SetStationAcceptPolicy pol c))"
| reject: "ldn_run c \<Longrightarrow> ldn_run (fst (snd (Reject running node_id c)))"
| scan: "ldn_run c \<Longrightarrow> ldn_run (scan_begin f c)"
| send: "ldn_run c \<Longrightarrow> ldn_run (fst (SendFrame running dst ty body c))"
| join: "ldn_run c \<Longrightarrow> ldn_run (join_begin target c)"
| join_fail: "ldn_run c \<Longrightarrow> ldn_run (join_abort c)"
| disconnect: "ldn_run c \<Longrightarrow> ldn_run (fst (snd (ldn_Disconnect running c)))"
| latest: "ldn_run c \<Longrightarrow> ldn_run (snd (GetNetworkInfoLatestUpdate n c))"
| mode_on: "ldn_run c \<Longrightarrow> ldn_run (fst (snd (EnterLocalNetworkMode na c)))"
| mode_off: "ldn_run c \<Longrightarrow> ldn_run (fst (exit_if_entered na c))"

lemma ldn_wf_mode:
  assumes "ldn_wf c" shows "ldn_wf (fst (snd (EnterLocalNetworkMode na c)))" "ldn_wf (fst (exit_if_entered na c))"
  by (rule ldn_wf_cong [OF assms]; simp add: EnterLocalNetworkMode_def exit_if_entered_def ExitLocalNetworkMode_def Let_def
      split: sum.split option.split)+

lemma ldn_run_wf: "ldn_run c \<Longrightarrow> ldn_wf c"
  by (induction rule: ldn_run.induct)
    (simp_all add: ldn_wf_new ldn_wf_OnControlFrame ldn_wf_Tick ldn_wf_Initialize ldn_wf_Finalize
      ldn_wf_open_close ldn_wf_CreateNetwork ldn_wf_DestroyNetwork ldn_wf_SetAdvertiseData
      ldn_wf_SetStationAcceptPolicy ldn_wf_Reject ldn_wf_begin ldn_wf_SendFrame ldn_wf_Disconnect
      ldn_wf_LatestUpdate ldn_wf_mode)

lemma nodeCount_used:
  assumes "ldn_wf c" and "m_state c = CS_AccessPointCreated"
  shows "unat (nodeCount (ldn (m_network_info c))) = length (used_nodes c)"
  using assms length_used_le [of c]
  by (simp add: ldn_wf_def roster_ok_def NodeCountMax_def unat_of_nat take_bit_nat_eq_self)

lemma used_ips:
  "stations_wf (m_stations c) \<Longrightarrow>
     map ipv4Address (used_nodes c) = m_ipv4_address c # map src_ip (filter active (m_stations c))"
  using pack_ips [OF stations_wf_take(3), of "m_stations c" 1] stations_wf_take(1) [of "m_stations c"]
  by (simp add: used_nodes_def host_node_def)

lemma listed_host:
  assumes "ldn_wf c" and "m_state c = CS_AccessPointCreated"
  shows "listed_node ip c \<longleftrightarrow> ip = m_ipv4_address c \<or> (\<exists>s \<in> set (m_stations c). active s \<and> src_ip s = ip)"
proof -
  have sw: "stations_wf (m_stations c)" using assms(1) by (simp add: ldn_wf_def)
  have "take (unat (nodeCount (ldn (m_network_info c)))) (nodes (ldn (m_network_info c))) = used_nodes c"
    unfolding nodeCount_used [OF assms] using assms by (simp add: ldn_wf_def roster_ok_def)
  then have "listed_node ip c \<longleftrightarrow> ip \<in> set (map ipv4Address (used_nodes c))"
    using used_ok [OF sw] by (auto simp: listed_node_def list_ex_iff)
  then show ?thesis unfolding used_ips [OF sw] by auto
qed

lemma UpdateNodes_fields [simp]:
  "m_state (fst (UpdateNodes running c)) = m_state c" "m_stations (fst (UpdateNodes running c)) = m_stations c"
  "m_network_info (fst (UpdateNodes running c)) = BuildNetwork c"
  "m_ipv4_address (fst (UpdateNodes running c)) = m_ipv4_address c"
  "m_recent_scanners (fst (UpdateNodes running c)) = m_recent_scanners c"
  by (rule UpdateNodes_state [of running c]; simp)+

lemma filter_length_update:
  assumes "k < length xs"
  shows "length (filter P (xs[k := y])) + (if P (xs ! k) then 1 else 0) =
     length (filter P xs) + (if P y then 1 else 0)"
proof -
  have "length (filter P xs) = length (filter P (take k xs)) + (if P (xs ! k) then 1 else 0) +
      length (filter P (drop (Suc k) xs))"
    by (subst id_take_nth_drop [OF assms]) simp
  then show ?thesis using assms by (simp add: upd_conv_take_nth_drop)
qed

definition is_sync :: "u32 \<Rightarrow> NetworkInfo \<Rightarrow> datagram \<Rightarrow> bool" where
  "is_sync ip i d \<longleftrightarrow> (\<exists>q dst. q \<noteq> 0 \<and> d = (ip, ControlPort, dst, ControlPort, Proto_Udp,
     build_frame q LanPacket_SyncNetwork (enc_NetworkInfo i)))"

definition dg_dst :: "datagram \<Rightarrow> u32" where "dg_dst d = (case d of (_, _, dst, _) \<Rightarrow> dst)"

lemma sync_loop_out:
  assumes "running"
  shows "map dg_dst (snd (sync_loop running ss c)) = map src_ip (filter (\<lambda>s. active s \<and> connected s) ss) \<and>
    (\<forall>d \<in> set (snd (sync_loop running ss c)). is_sync (m_ipv4_address c) (m_network_info c) d)"
proof (induction ss arbitrary: c)
  case (Cons s ss)
  define q where "q = (if m_tx_seq c + 1 = 0 then 1 else m_tx_seq c + 1)"
  define d where "d = (m_ipv4_address c, ControlPort, src_ip s, ControlPort, Proto_Udp,
     build_frame q LanPacket_SyncNetwork (enc_NetworkInfo (m_network_info c)))"
  have "q \<noteq> 0" by (simp add: q_def)
  then have "is_sync (m_ipv4_address c) (m_network_info c) d"
    unfolding is_sync_def d_def by blast
  moreover have "dg_dst d = src_ip s" by (simp add: d_def dg_dst_def)
  moreover have "SendFrame running (src_ip s) LanPacket_SyncNetwork (enc_NetworkInfo (m_network_info c)) c =
      (c\<lparr>m_tx_seq := q\<rparr>, [d])"
    using assms by (simp add: SendFrame_def q_def d_def Let_def)
  ultimately show ?case
    using Cons.IH [of c] Cons.IH [of "c\<lparr>m_tx_seq := q\<rparr>"]
    by (cases "active s \<and> connected s") (simp_all add: split_beta Let_def)
qed simp

lemma UpdateNodes_out:
  assumes "stations_wf (m_stations c)" and "running"
  shows "map dg_dst (snd (UpdateNodes running c)) = map src_ip (filter active (m_stations c)) \<and>
    (\<forall>d \<in> set (snd (UpdateNodes running c)). is_sync (m_ipv4_address c) (BuildNetwork c) d)"
  using sync_loop_out [OF assms(2), of "take StationCountMax (m_stations c)" "c\<lparr>m_network_info := BuildNetwork c\<rparr>"]
  by (simp add: UpdateNodes_def Let_def split_beta stations_wf_take(2) [OF assms(1)])

text \<open>What an admitted connect does to the host.\<close>

lemma connect_slot_active:
  assumes "stations_wf (m_stations c)" and "connect_slot sip c = Some nid"
  shows "active (m_stations c ! (nid - 1)) \<longleftrightarrow> FindStationByIp sip c \<noteq> None"
proof (cases "FindStationByIp sip c")
  case None
  then have "FindFreeNodeId c = Some nid" using assms(2) by (auto simp: connect_slot_def split: if_splits)
  moreover have "length (m_stations c) = 8" using assms(1) by (simp add: stations_wf_def NodeCountMax_def)
  ultimately show ?thesis
    using None find_index_Some [of "\<lambda>s. \<not> active s" "take StationCountMax (m_stations c)" 1 nid]
    by (auto simp: FindFreeNodeId_def StationCountMax_def NodeCountMax_def)
next
  case (Some k)
  then have "k = nid" using assms(2) by (simp add: connect_slot_def)
  with Some stations_wf_slot [OF assms(1)] show ?thesis by auto
qed

text \<open>The station in its slot is the one found under its address.\<close>

lemma FindStationByIp_slot:
  assumes "stations_wf (m_stations c)" and "i < 7" and "active (m_stations c ! i)" and "src_ip (m_stations c ! i) = sip"
    and "\<And>j. j \<noteq> i \<Longrightarrow> j < 7 \<Longrightarrow> active (m_stations c ! j) \<Longrightarrow> src_ip (m_stations c ! j) \<noteq> sip"
  shows "FindStationByIp sip c = Some (i + 1)"
proof -
  have l: "length (m_stations c) = 8" using assms(1) by (simp add: stations_wf_def NodeCountMax_def)
  then have "m_stations c ! i \<in> set (take 7 (m_stations c))" using assms(2) by (auto simp: in_set_conv_nth)
  then have "FindStationByIp sip c \<noteq> None"
    using assms(3,4) by (auto simp: FindStationByIp_def find_index_None StationCountMax_def NodeCountMax_def)
  then obtain k where k: "FindStationByIp sip c = Some k" by auto
  have "1 \<le> k" using k find_index_Some unfolding FindStationByIp_def by blast
  moreover have "k - 1 = i" using stations_wf_slot [OF assms(1) k] assms(5) [of "k - 1"] by auto
  ultimately show ?thesis using k by simp
qed

lemma HandleConnect_admitted:
  assumes "ldn_wf c" and "m_state c = CS_AccessPointCreated" and "length body = sizeof_NodeInfo"
    and "WasRecentScanner now sip c \<or> FindStationByIp sip c \<noteq> None" and "connect_slot sip c = Some nid"
    and "running" and "HandleConnect running now sip body c = (c', ds)"
  shows "ldn_wf c' \<and> m_state c' = CS_AccessPointCreated \<and> m_ipv4_address c' = m_ipv4_address c \<and>
     StationCount c' = (if FindStationByIp sip c = None then StationCount c + 1 else StationCount c) \<and>
     FindStationByIp sip c' = Some nid \<and> listed_node sip c' \<and>
     (\<exists>d \<in> set ds. dg_dst d = sip \<and> is_sync (m_ipv4_address c) (m_network_info c') d)"
proof -
  let ?k = "nid - 1" and ?st = "connect_station now sip nid (dec_NodeInfo body) (m_stations c ! (nid - 1))"
  let ?c = "c\<lparr>m_stations := (m_stations c)[?k := ?st]\<rparr>"
  have u: "UpdateNodes running ?c = (c', ds)"
    using assms by (auto simp: HandleConnect_def)
  have sw: "stations_wf (m_stations c)" using assms(1) by (simp add: ldn_wf_def)
  have l: "length (m_stations c) = 8" using sw by (simp add: stations_wf_def NodeCountMax_def)
  note slot = connect_slot_free [OF sw assms(5)]
  have wf': "ldn_wf c'" using ldn_wf_HandleConnect [OF assms(1), of running now sip body] assms(7) by simp
  have c': "c' = fst (UpdateNodes running ?c)" using u by simp
  have f: "m_state c' = m_state c" "m_stations c' = (m_stations c)[?k := ?st]" "m_ipv4_address c' = m_ipv4_address c"
    "m_network_info c' = BuildNetwork ?c"
    unfolding c' by simp_all
  have sw': "stations_wf (m_stations c')" using wf' by (simp add: ldn_wf_def)
  have st: "active ?st" "src_ip ?st = sip" by (simp_all add: connect_station_def)
  have k8: "?k < length (m_stations c)" using slot l by auto
  have mem: "?st \<in> set (m_stations c')" unfolding f by (rule set_update_memI [OF k8])
  note act = connect_slot_active [OF sw assms(5)]
  have "length (filter active (m_stations c')) + (if active (m_stations c ! ?k) then 1 else 0) =
      length (filter active (m_stations c)) + 1"
    using filter_length_update [OF k8, of active ?st] st(1) unfolding f(2) by auto
  then have cnt: "StationCount c' = (if FindStationByIp sip c = None then StationCount c + 1 else StationCount c)"
    using act by (auto simp: StationCount_eq [OF sw] StationCount_eq [OF sw'] split: if_splits)
  have "FindStationByIp sip c' = Some (?k + 1)"
    using slot l st by (intro FindStationByIp_slot [OF sw']) (auto simp: f(2))
  then have "FindStationByIp sip c' = Some nid" using slot by simp
  moreover have "listed_node sip c'"
    using listed_host [OF wf'] assms(2) f(1) mem st by auto
  moreover have "\<exists>d \<in> set ds. dg_dst d = sip \<and> is_sync (m_ipv4_address c) (m_network_info c') d"
  proof -
    have o: "map dg_dst ds = map src_ip (filter active (m_stations c'))"
      "\<forall>d \<in> set ds. is_sync (m_ipv4_address c) (BuildNetwork ?c) d"
      using UpdateNodes_out [of ?c running] sw' assms(6) u by (simp_all add: f)
    have "sip \<in> set (map src_ip (filter active (m_stations c')))" using mem st by force
    then have "sip \<in> dg_dst ` set ds" unfolding o(1) [symmetric] by simp
    with o(2) f(4) show ?thesis by auto
  qed
  ultimately show ?thesis using wf' f assms(2) cnt by simp
qed

lemma FindFree_room:
  assumes "stations_wf (m_stations c)" and "StationCount c < StationCountMax"
  shows "\<exists>nid. FindFreeNodeId c = Some nid"
proof (rule ccontr)
  assume "\<not> ?thesis"
  then have "\<forall>s \<in> set (take StationCountMax (m_stations c)). active s"
    by (auto simp: FindFreeNodeId_def find_index_None)
  then have "filter active (take StationCountMax (m_stations c)) = take StationCountMax (m_stations c)" by simp
  then have "length (filter active (take StationCountMax (m_stations c))) = StationCountMax"
    using assms(1) by (simp add: stations_wf_def NodeCountMax_def StationCountMax_def)
  with assms(2) show False
    by (simp add: StationCount_eq [OF assms(1)] stations_wf_take(1) [OF assms(1)])
qed

lemma RecordScanner_recent:
  assumes "length (m_recent_scanners c) = MaxRecentScanners" and "now - t \<le> ScannerTimeoutTicks"
  shows "WasRecentScanner now sip (RecordScanner t sip c)"
proof (cases "find_index (\<lambda>e. sc_used e \<and> sc_ip e = sip) (m_recent_scanners c) 0")
  case None
  let ?i = "case find_index (stale t) (m_recent_scanners c) 0 of None \<Rightarrow> 0 | Some i \<Rightarrow> i"
  have "?i < length (m_recent_scanners c)"
    using assms(1) find_index_Some [of "stale t" "m_recent_scanners c" 0]
    by (auto simp: MaxRecentScanners_def split: option.splits)
  from set_update_memI [OF this] None assms(2) show ?thesis
    by (auto simp: WasRecentScanner_def RecordScanner_def Let_def list_ex_iff intro!: bexI
        [where x = "\<lparr>sc_ip = sip, sc_last_tick = t, sc_used = True\<rparr>"])
next
  case (Some i)
  from find_index_Some [OF this] have i: "i < length (m_recent_scanners c)"
    "sc_used (m_recent_scanners c ! i)" "sc_ip (m_recent_scanners c ! i) = sip" by auto
  from set_update_memI [OF i(1)] Some i assms(2) show ?thesis
    by (auto simp: WasRecentScanner_def RecordScanner_def list_ex_iff intro!: bexI
        [where x = "(m_recent_scanners c ! i)\<lparr>sc_last_tick := t\<rparr>"])
qed

lemma parse_sync:
  assumes "NetworkInfo_ok i" and "is_sync ip i (a, b, dst, e, pr, payload)"
  shows "\<exists>q. q \<noteq> 0 \<and> parse_frame payload = Some (LanPacket_SyncNetwork, q, enc_NetworkInfo i)"
  using assms by (auto simp: is_sync_def info.enc_length sizeof_NetworkInfo_def intro!: parse_build)

lemma listed_node_cong:
  "m_network_info c = m_network_info d \<Longrightarrow> listed_node ip c = listed_node ip d"
  by (simp add: listed_node_def)

text \<open>A station that has sent its connect and receives a sync of the network it targets, listing it.\<close>

lemma sync_confirms:
  assumes "m_state s = CS_Station" and "\<not> m_relay_sync_seq_valid s"
    and "m_join_target_bssid s = bssid (common i)" and "NetworkInfo_ok i"
    and "parse_frame payload = Some (LanPacket_SyncNetwork, q, enc_NetworkInfo i)"
    and "m_network_info h = i" and "listed_node (m_ipv4_address s) h"
  shows "m_state (fst (OnControlFrame running now sip payload s)) = CS_StationConnected \<and>
     m_network_info (fst (OnControlFrame running now sip payload s)) = i \<and>
     m_ipv4_address (fst (OnControlFrame running now sip payload s)) = m_ipv4_address s"
proof -
  let ?s1 = "if q \<noteq> 0 then s\<lparr>m_relay_sync_seq := q, m_relay_sync_seq_valid := True\<rparr> else s"
  let ?s2 = "?s1\<lparr>m_network_info := i, m_host_last_seen := now\<rparr>"
  have l: "listed_node (m_ipv4_address s) ?s2"
    using listed_node_cong [of ?s2 h] assms(6,7) by simp
  have d: "dec_NetworkInfo (enc_NetworkInfo i) = i" "length (enc_NetworkInfo i) = sizeof_NetworkInfo"
    using assms(4) by (simp_all add: info.dec_enc_Nil info.enc_length sizeof_NetworkInfo_def)
  have "fst (OnControlFrame running now sip payload s) = HandleSyncNetwork now (enc_NetworkInfo i) q s"
    using assms(5) by (simp add: OnControlFrame_def LanPacket_Scan_def LanPacket_ScanResp_def
        LanPacket_Connect_def LanPacket_SyncNetwork_def)
  also have "\<dots> = OnNetworkInfoChanged (SetState CS_StationConnected ?s2)"
    using assms(1,2,3) l d by (auto simp: HandleSyncNetwork_def Let_def seq_stale_def)
  finally show ?thesis by (simp add: SetState_def SignalStateChange_def)
qed

section \<open>Properties\<close>

text \<open>C20: In every reachable state the control plane is consistent: at most seven stations are
  active, no two with the same address, each either fully connected or free and registered under
  the address it is reached at; all buffers have their sizes; and the scan list has at most eight
  entries with pairwise different network identifiers. While hosting, the published network
  description lists exactly this console followed by the connected stations, with the matching node
  count of at most eight.\<close>

theorem ldn_invariant:
  assumes "ldn_run c"
  shows "ldn_wf c \<and> StationCount c \<le> 7 \<and>
     (m_state c = CS_AccessPointCreated \<longrightarrow>
        unat (nodeCount (ldn (m_network_info c))) = 1 + StationCount c \<and>
        map ipv4Address (take (1 + StationCount c) (nodes (ldn (m_network_info c)))) =
          m_ipv4_address c # map src_ip (filter active (m_stations c)))"
proof (intro conjI impI)
  show wf: "ldn_wf c" using ldn_run_wf [OF assms] .
  then have sw: "stations_wf (m_stations c)" by (simp add: ldn_wf_def)
  show "StationCount c \<le> 7"
    using stations_wf_take(4) [OF sw] by (simp add: StationCount_eq [OF sw] StationCountMax_def NodeCountMax_def)
  assume host: "m_state c = CS_AccessPointCreated"
  have n: "length (used_nodes c) = 1 + StationCount c" by (simp add: length_used [OF sw] StationCount_eq [OF sw])
  then show "unat (nodeCount (ldn (m_network_info c))) = 1 + StationCount c"
    using nodeCount_used [OF wf host] by simp
  have "take (1 + StationCount c) (nodes (ldn (m_network_info c))) = used_nodes c"
    using wf host n by (simp add: ldn_wf_def roster_ok_def)
  then show "map ipv4Address (take (1 + StationCount c) (nodes (ldn (m_network_info c)))) =
      m_ipv4_address c # map src_ip (filter active (m_stations c))"
    by (simp add: used_ips [OF sw])
qed

theorem ldn_invariant_witness:
  "StationCount (fst (OnControlFrame True 5 7 [1, 2, 3] new_LdnControl)) \<le> 7"
  using ldn_invariant [OF ldn_run.frame [OF ldn_run.start]] by blast

end
