(* ===== verification/Proxy_Socket.thy ===== *)
theory Proxy_Socket
  imports Ip_Addr
begin

text \<open>
  A proxy socket (\<^verbatim>\<open>bsd/proxy_socket.hpp\<close> and \<^verbatim>\<open>.cpp\<close>): its state, its BSD operations with every
  error branch, the inline receive ring, and the TCP connect and accept bookkeeping.

  Each operation takes the socket and returns the changed socket. Calls into the socket manager
  singleton (\<^verbatim>\<open>SendProxyData\<close>, \<^verbatim>\<open>SendProxyConnect\<close>, \<^verbatim>\<open>SendProxyConnectReply\<close>, \<^verbatim>\<open>SendProxyDisconnect\<close>)
  are function arguments that thread the state \<open>'w\<close> of the rest of the program. A bounded wait on an
  event is an argument \<open>wait\<close> that maps the socket before the wait to the answer of \<^verbatim>\<open>TimedWait\<close> and
  the socket after it, since other threads may run operations of the same socket meanwhile.
\<close>

section \<open>State\<close>

definition PROXY_SOCKET_MAX_QUEUE_SIZE :: nat where "PROXY_SOCKET_MAX_QUEUE_SIZE = 32"
definition PROXY_SOCKET_MAX_PAYLOAD :: nat where "PROXY_SOCKET_MAX_PAYLOAD = 2000"

datatype ProxySocketState = Created | Bound | Connecting | Connected | Listening | Closed

record ReceivedPacket =
  rp_from :: SockAddrIn
  rp_len :: u16
  rp_data :: bytes

record ProxyConnectInfo =
  source_ipv4 :: u32
  source_port :: u16
  dest_ipv4 :: u32
  dest_port :: u16
  ci_protocol :: ProtocolType

text \<open>The deque of accepted sockets holds sockets nobody else can touch before \<^verbatim>\<open>Accept\<close> hands them
  out, so the model keeps the two addresses they are made of; \<open>accepted_socket\<close> below rebuilds the
  socket from them.\<close>

record ProxySocket =
  m_type :: SocketType
  m_protocol :: ProtocolType
  m_state :: ProxySocketState
  m_non_blocking :: bool
  m_shutdown_read :: bool
  m_shutdown_write :: bool
  m_local_addr :: SockAddrIn
  m_remote_addr :: SockAddrIn
  m_rx_ring :: "ReceivedPacket list"
  m_rx_head :: nat
  m_rx_tail :: nat
  m_rx_count :: nat
  m_receive_event :: bool
  m_accept_queue :: "(SockAddrIn \<times> SockAddrIn) list"
  m_accept_event :: bool
  m_connect_response_received :: bool
  m_connect_response :: ProxyConnectInfo
  m_connect_event :: bool
  m_broadcast :: bool
  m_broadcast_address :: u32

type_synonym 'a sock_result = "BsdErrno + 'a"
type_synonym 'w connect_call = "u32 \<Rightarrow> u16 \<Rightarrow> u32 \<Rightarrow> u16 \<Rightarrow> ProtocolType \<Rightarrow> 'w \<Rightarrow> bool \<times> 'w"
type_synonym 'w data_call =
  "u32 \<Rightarrow> u16 \<Rightarrow> u32 \<Rightarrow> u16 \<Rightarrow> ProtocolType \<Rightarrow> bytes \<Rightarrow> 'w \<Rightarrow> bool \<times> 'w"
type_synonym sock_wait = "ProxySocket \<Rightarrow> bool \<times> ProxySocket"

definition inet_any :: SockAddrIn where
  "inet_any = zero_SockAddrIn\<lparr>sin_family := family_val AF_Inet, sin_len := 16\<rparr>"

definition zero_packet :: ReceivedPacket where
  "zero_packet = \<lparr>rp_from = zero_SockAddrIn, rp_len = 0,
     rp_data = replicate PROXY_SOCKET_MAX_PAYLOAD 0\<rparr>"

definition zero_ConnectInfo :: ProxyConnectInfo where
  "zero_ConnectInfo = \<lparr>source_ipv4 = 0, source_port = 0, dest_ipv4 = 0, dest_port = 0,
     ci_protocol = Proto_Unspecified\<rparr>"

definition new_ProxySocket :: "SocketType \<Rightarrow> ProtocolType \<Rightarrow> ProxySocket" where
  "new_ProxySocket ty pr =
     \<lparr>m_type = ty, m_protocol = pr, m_state = Created, m_non_blocking = False,
      m_shutdown_read = False, m_shutdown_write = False,
      m_local_addr = inet_any, m_remote_addr = inet_any,
      m_rx_ring = replicate PROXY_SOCKET_MAX_QUEUE_SIZE zero_packet,
      m_rx_head = 0, m_rx_tail = 0, m_rx_count = 0, m_receive_event = False,
      m_accept_queue = [], m_accept_event = False,
      m_connect_response_received = False, m_connect_response = zero_ConnectInfo,
      m_connect_event = False, m_broadcast = False, m_broadcast_address = 0\<rparr>"

definition SetNonBlocking :: "bool \<Rightarrow> ProxySocket \<Rightarrow> ProxySocket" where
  "SetNonBlocking b s = s\<lparr>m_non_blocking := b\<rparr>"

definition SetBroadcastEnabled :: "bool \<Rightarrow> ProxySocket \<Rightarrow> ProxySocket" where
  "SetBroadcastEnabled b s = s\<lparr>m_broadcast := b\<rparr>"

definition SetBroadcastAddress :: "u32 \<Rightarrow> ProxySocket \<Rightarrow> ProxySocket" where
  "SetBroadcastAddress a s = s\<lparr>m_broadcast_address := a\<rparr>"

section \<open>Address management\<close>

definition sock_Bind :: "SockAddrIn \<Rightarrow> ProxySocket \<Rightarrow> unit sock_result \<times> ProxySocket" where
  "sock_Bind addr s =
     (if m_state s \<noteq> Created then (Inl E_Inval, s)
      else if sin_family addr \<noteq> family_val AF_Inet then (Inl E_AfNoSupport, s)
      else (Inr (), s\<lparr>m_local_addr := addr, m_state := Bound\<rparr>))"

definition connect_start :: "SockAddrIn \<Rightarrow> ProxySocket \<Rightarrow> ProxySocket" where
  "connect_start addr s = s\<lparr>m_remote_addr := addr, m_state := Connecting,
     m_connect_response_received := False, m_connect_event := False\<rparr>"

definition connect_finish :: "bool \<Rightarrow> ProxySocket \<Rightarrow> unit sock_result \<times> ProxySocket" where
  "connect_finish got_response s =
     (if \<not> got_response \<or> \<not> m_connect_response_received s
      then (Inl E_TimedOut, s\<lparr>m_state := Bound\<rparr>)
      else if ci_protocol (m_connect_response s) \<noteq> Proto_Unspecified
      then (Inl E_ConnRefused, s\<lparr>m_state := Bound\<rparr>)
      else (Inr (), s\<lparr>m_state := Connected\<rparr>))"

definition sock_Connect :: "'w connect_call \<Rightarrow> sock_wait \<Rightarrow> SockAddrIn \<Rightarrow> ProxySocket \<Rightarrow> 'w \<Rightarrow>
    (unit sock_result \<times> ProxySocket) \<times> 'w" where
  "sock_Connect send_connect wait addr s w =
     (if m_state s = Closed then ((Inl E_BadF, s), w)
      else if sin_family addr \<noteq> family_val AF_Inet then ((Inl E_AfNoSupport, s), w)
      else if m_type s = Stream then
        (let s1 = connect_start addr s;
             (sent, w1) = send_connect (GetAddr (m_local_addr s1)) (GetPort (m_local_addr s1))
                (GetAddr addr) (GetPort addr) (m_protocol s1) w
         in if \<not> sent then ((Inl E_NetUnreach, s1\<lparr>m_state := Bound\<rparr>), w1)
            else if \<not> m_non_blocking s1 then
              (let (got_response, s2) = wait s1 in (connect_finish got_response s2, w1))
            else ((Inl E_InProgress, s1), w1))
      else ((Inr (), s\<lparr>m_remote_addr := addr, m_state := Connected\<rparr>), w))"

definition sock_GetSockName :: "bool \<Rightarrow> ProxySocket \<Rightarrow> SockAddrIn sock_result" where
  "sock_GetSockName has_out s =
     (if \<not> has_out then Inl E_Fault
      else if m_state s = Created then Inr inet_any
      else Inr (m_local_addr s))"

definition sock_GetPeerName :: "bool \<Rightarrow> ProxySocket \<Rightarrow> SockAddrIn sock_result" where
  "sock_GetPeerName has_out s =
     (if \<not> has_out then Inl E_Fault
      else if m_state s \<noteq> Connected then Inl E_NotConn
      else Inr (m_remote_addr s))"

section \<open>Data transfer\<close>

definition payload_of :: "bytes option \<Rightarrow> nat \<Rightarrow> bytes" where
  "payload_of data len = (case data of None \<Rightarrow> [] | Some d \<Rightarrow> take len d)"

definition send_dest_ip :: "netmap \<Rightarrow> ProxySocket \<Rightarrow> SockAddrIn \<Rightarrow> u32" where
  "send_dest_ip g s dest =
     (if IsLanModePort (GetPort (m_local_addr s)) \<or> IsLanModePort (GetPort dest)
      then GameToVirtual g (GetAddr dest) else GetAddr dest)"

definition sock_SendTo :: "'w data_call \<Rightarrow> netmap \<Rightarrow> bytes option \<Rightarrow> nat \<Rightarrow> SockAddrIn \<Rightarrow>
    ProxySocket \<Rightarrow> 'w \<Rightarrow> int \<times> 'w" where
  "sock_SendTo send g data len dest s w =
     (if m_shutdown_write s then (- errno_val E_Inval, w)
      else if m_state s = Closed then (- errno_val E_BadF, w)
      else if m_state s = Created then (- errno_val E_DestAddrReq, w)
      else if data = None \<and> len > 0 then (- errno_val E_Fault, w)
      else if len > PROXY_SOCKET_MAX_PAYLOAD then (- errno_val E_MsgSize, w)
      else
        (let (sent, w1) = send (Numeric (Addr (m_local_addr s))) (GetPort (m_local_addr s))
               (send_dest_ip g s dest) (GetPort dest) (m_protocol s) (payload_of data len) w
         in if \<not> sent then (- errno_val E_NetUnreach, w1) else (int len, w1)))"

definition sock_Send :: "'w data_call \<Rightarrow> netmap \<Rightarrow> bytes option \<Rightarrow> nat \<Rightarrow> ProxySocket \<Rightarrow> 'w \<Rightarrow>
    int \<times> 'w" where
  "sock_Send send g data len s w =
     (if m_state s \<noteq> Connected then (- errno_val E_NotConn, w)
      else sock_SendTo send g data len (m_remote_addr s) s w)"

text \<open>What a receive call hands back: the return value, the bytes written to the caller's buffer
  and the source address written through \<open>from\<close>, when one was.\<close>

record recv_out =
  ro_ret :: int
  ro_bytes :: bytes
  ro_from :: "SockAddrIn option"

definition recv_ret :: "int \<Rightarrow> recv_out" where
  "recv_ret r = \<lparr>ro_ret = r, ro_bytes = [], ro_from = None\<rparr>"

definition consume_front :: "nat \<Rightarrow> bool \<Rightarrow> bool \<Rightarrow> ProxySocket \<Rightarrow> recv_out \<times> ProxySocket" where
  "consume_front out_len want_from peek s =
     (let slot = m_rx_ring s ! m_rx_head s;
          copy_len = min out_len (unat (rp_len slot));
          s1 = (if \<not> peek
                then s\<lparr>m_rx_head := (m_rx_head s + 1) mod PROXY_SOCKET_MAX_QUEUE_SIZE,
                       m_rx_count := m_rx_count s - 1\<rparr>
                else s);
          s2 = (if m_rx_count s1 = 0 then s1\<lparr>m_receive_event := False\<rparr> else s1)
      in (\<lparr>ro_ret = int copy_len, ro_bytes = take copy_len (rp_data slot),
           ro_from = (if want_from then Some (rp_from slot) else None)\<rparr>, s2))"

definition MSG_PEEK :: u32 where "MSG_PEEK = 0x2"
definition MSG_DONTWAIT :: u32 where "MSG_DONTWAIT = 0x80"

definition sock_RecvFrom :: "sock_wait \<Rightarrow> bool \<Rightarrow> nat \<Rightarrow> u32 \<Rightarrow> bool \<Rightarrow> ProxySocket \<Rightarrow>
    recv_out \<times> ProxySocket" where
  "sock_RecvFrom wait has_buffer len flags want_from s =
     (if m_shutdown_read s then (recv_ret 0, s)
      else if m_state s = Closed then (recv_ret (- errno_val E_BadF), s)
      else if \<not> has_buffer \<and> len > 0 then (recv_ret (- errno_val E_Fault), s)
      else
        (let peek = (flags AND MSG_PEEK \<noteq> 0);
             dontwait = (flags AND MSG_DONTWAIT \<noteq> 0 \<or> m_non_blocking s)
         in if m_rx_count s = 0 then
              (if dontwait then (recv_ret (- errno_val E_Again), s)
               else (let (woken, s1) = wait s
                     in if woken \<and> m_rx_count s1 > 0 then consume_front len want_from peek s1
                        else (recv_ret (- errno_val E_Again), s1)))
            else consume_front len want_from peek s))"

definition sock_Recv :: "sock_wait \<Rightarrow> bool \<Rightarrow> nat \<Rightarrow> u32 \<Rightarrow> ProxySocket \<Rightarrow> recv_out \<times> ProxySocket" where
  "sock_Recv wait has_buffer len flags s =
     (if m_state s = Connected then sock_RecvFrom wait has_buffer len flags False s
      else (recv_ret (- errno_val E_NotConn), s))"

definition fill_packet :: "bytes option \<Rightarrow> nat \<Rightarrow> SockAddrIn \<Rightarrow> ReceivedPacket \<Rightarrow> ReceivedPacket" where
  "fill_packet data len frm slot =
     (let copy_len = min len PROXY_SOCKET_MAX_PAYLOAD
      in \<lparr>rp_from = frm, rp_len = of_nat copy_len,
          rp_data = (case data of None \<Rightarrow> rp_data slot
            | Some d \<Rightarrow> memcpy (rp_data slot) (take copy_len d))\<rparr>)"

definition sock_IncomingData :: "bytes option \<Rightarrow> nat \<Rightarrow> SockAddrIn \<Rightarrow> ProxySocket \<Rightarrow> ProxySocket" where
  "sock_IncomingData data len frm s =
     (let s1 = (if m_rx_count s \<ge> PROXY_SOCKET_MAX_QUEUE_SIZE
                then s\<lparr>m_rx_head := (m_rx_head s + 1) mod PROXY_SOCKET_MAX_QUEUE_SIZE,
                       m_rx_count := m_rx_count s - 1\<rparr>
                else s)
      in s1\<lparr>m_rx_ring := (m_rx_ring s1)[m_rx_tail s1 :=
                fill_packet data len frm (m_rx_ring s1 ! m_rx_tail s1)],
            m_rx_tail := (m_rx_tail s1 + 1) mod PROXY_SOCKET_MAX_QUEUE_SIZE,
            m_rx_count := m_rx_count s1 + 1,
            m_receive_event := True\<rparr>)"

definition sock_PopFrontPacket :: "bool \<Rightarrow> ProxySocket \<Rightarrow> ReceivedPacket \<times> ProxySocket" where
  "sock_PopFrontPacket peek s =
     (if m_rx_count s = 0 then (zero_packet, s)
      else (m_rx_ring s ! m_rx_head s,
            if \<not> peek then s\<lparr>m_rx_head := (m_rx_head s + 1) mod PROXY_SOCKET_MAX_QUEUE_SIZE,
                             m_rx_count := m_rx_count s - 1\<rparr> else s))"

section \<open>Socket options\<close>

definition SOL_SOCKET :: int where "SOL_SOCKET = 0xFFFF"
definition SO_BROADCAST :: int where "SO_BROADCAST = 0x20"
definition SO_ERROR :: int where "SO_ERROR = 0x1007"
definition SO_TYPE :: int where "SO_TYPE = 0x1008"

text \<open>The option value is the byte array the caller passed (\<open>None\<close> for a null pointer), read as a
  little-endian 32-bit integer. Every option other than \<^verbatim>\<open>SO_BROADCAST\<close> is accepted and ignored,
  whether it is one of the listed ones or unknown.\<close>

definition sock_SetSockOpt :: "int \<Rightarrow> int \<Rightarrow> bytes option \<Rightarrow> nat \<Rightarrow> ProxySocket \<Rightarrow>
    unit sock_result \<times> ProxySocket" where
  "sock_SetSockOpt level optname optval optlen s =
     (if level = SOL_SOCKET \<and> optname = SO_BROADCAST then
        (case optval of
           Some v \<Rightarrow> if optlen \<ge> 4
             then (Inr (), s\<lparr>m_broadcast := (Rd32be (rev (take 4 v)) \<noteq> 0)\<rparr>)
             else (Inl E_Inval, s)
         | None \<Rightarrow> (Inl E_Inval, s))
      else (Inr (), s))"

definition sock_GetSockOpt :: "int \<Rightarrow> int \<Rightarrow> bool \<Rightarrow> nat option \<Rightarrow> ProxySocket \<Rightarrow>
    (int \<times> nat) sock_result" where
  "sock_GetSockOpt level optname has_optval optlen s =
     (case optlen of None \<Rightarrow> Inl E_Fault
      | Some n \<Rightarrow>
          if \<not> has_optval then Inl E_Fault
          else if level = SOL_SOCKET \<and> n \<ge> 4 then
            (if optname = SO_TYPE then Inr (socket_type_val (m_type s), 4)
             else if optname = SO_ERROR then Inr (0, 4)
             else if optname = SO_BROADCAST then Inr (if m_broadcast s then 1 else 0, 4)
             else Inl E_NoProtoOpt)
          else Inl E_NoProtoOpt)"

section \<open>TCP operations\<close>

definition sock_Listen :: "ProxySocket \<Rightarrow> unit sock_result \<times> ProxySocket" where
  "sock_Listen s =
     (if m_type s \<noteq> Stream then (Inl E_OpNotSupp, s)
      else if m_state s = Created then (Inl E_Inval, s)
      else (Inr (), s\<lparr>m_state := Listening\<rparr>))"

definition accepted_socket :: "SocketType \<Rightarrow> ProtocolType \<Rightarrow> SockAddrIn \<times> SockAddrIn \<Rightarrow> ProxySocket" where
  "accepted_socket ty pr la = (new_ProxySocket ty pr)\<lparr>m_local_addr := fst la,
     m_remote_addr := snd la, m_state := Connected\<rparr>"

definition accept_front :: "ProxySocket \<Rightarrow> ProxySocket \<times> ProxySocket" where
  "accept_front s =
     (let s1 = s\<lparr>m_accept_queue := tl (m_accept_queue s)\<rparr>
      in (accepted_socket (m_type s) (m_protocol s) (hd (m_accept_queue s)),
          if m_accept_queue s1 = [] then s1\<lparr>m_accept_event := False\<rparr> else s1))"

text \<open>\<open>sock_Accept\<close> returns the new socket (the source writes its remote address to \<open>out_addr\<close>) or
  \<open>None\<close> for the null pointer, and the listening socket.\<close>

definition sock_Accept :: "sock_wait \<Rightarrow> ProxySocket \<Rightarrow> ProxySocket option \<times> ProxySocket" where
  "sock_Accept wait s =
     (if m_state s \<noteq> Listening then (None, s)
      else if m_accept_queue s = [] then
        (if m_non_blocking s then (None, s)
         else (let (_, s1) = wait s
               in if m_accept_queue s1 \<noteq> []
                  then (let (a, s2) = accept_front s1 in (Some a, s2)) else (None, s1)))
      else (let (a, s2) = accept_front s in (Some a, s2)))"

definition request_remote_addr :: "ProxyConnectInfo \<Rightarrow> SockAddrIn" where
  "request_remote_addr r = (SetAddr (FromNumeric (source_ipv4 r)) inet_any)
     \<lparr>sin_port := bswap16 (source_port r)\<rparr>"

definition sock_IncomingConnection :: "'w connect_call \<Rightarrow> ProxyConnectInfo \<Rightarrow> ProxySocket \<Rightarrow> 'w \<Rightarrow>
    ProxySocket \<times> 'w" where
  "sock_IncomingConnection send_reply r s w =
     (if m_state s \<noteq> Listening then (s, w)
      else (s\<lparr>m_accept_queue := m_accept_queue s @ [(m_local_addr s, request_remote_addr r)],
              m_accept_event := True\<rparr>,
            snd (send_reply (Numeric (Addr (m_local_addr s))) (GetPort (m_local_addr s))
                   (source_ipv4 r) (source_port r) Proto_Tcp w)))"

definition sock_HandleConnectResponse :: "ProxyConnectInfo \<Rightarrow> ProxySocket \<Rightarrow> ProxySocket" where
  "sock_HandleConnectResponse r s = s\<lparr>m_connect_response := r,
     m_connect_response_received := True, m_connect_event := True\<rparr>"

definition sock_HasPendingConnections :: "ProxySocket \<Rightarrow> bool" where
  "sock_HasPendingConnections s \<longleftrightarrow> m_accept_queue s \<noteq> []"

section \<open>Shutdown, close and events\<close>

definition sock_Shutdown :: "int \<Rightarrow> ProxySocket \<Rightarrow> unit sock_result \<times> ProxySocket" where
  "sock_Shutdown how s =
     (if how = 0 then (Inr (), s\<lparr>m_shutdown_read := True, m_receive_event := True\<rparr>)
      else if how = 1 then (Inr (), s\<lparr>m_shutdown_write := True, m_receive_event := True\<rparr>)
      else if how = 2 then (Inr (), s\<lparr>m_shutdown_read := True, m_shutdown_write := True,
        m_receive_event := True\<rparr>)
      else (Inl E_Inval, s))"

definition sock_Close :: "'w connect_call \<Rightarrow> ProxySocket \<Rightarrow> 'w \<Rightarrow> ProxySocket \<times> 'w" where
  "sock_Close send_disconnect s w =
     (s\<lparr>m_state := Closed, m_shutdown_read := True, m_shutdown_write := True,
        m_receive_event := True, m_rx_head := 0, m_rx_tail := 0, m_rx_count := 0\<rparr>,
      if m_protocol s = Proto_Tcp \<and> GetPort (m_remote_addr s) \<noteq> 0
      then snd (send_disconnect (GetAddr (m_local_addr s)) (GetPort (m_local_addr s))
             (GetAddr (m_remote_addr s)) (GetPort (m_remote_addr s)) Proto_Tcp w)
      else w)"

definition sock_HasPendingData :: "ProxySocket \<Rightarrow> bool" where
  "sock_HasPendingData s \<longleftrightarrow> m_rx_count s > 0"

fun pending_size_loop :: "ReceivedPacket list \<Rightarrow> nat \<Rightarrow> nat \<Rightarrow> nat \<Rightarrow> nat" where
  "pending_size_loop slots idx 0 acc = acc"
| "pending_size_loop slots idx (Suc n) acc =
     pending_size_loop slots ((idx + 1) mod PROXY_SOCKET_MAX_QUEUE_SIZE) n
       (acc + unat (rp_len (slots ! idx)))"

definition sock_GetPendingDataSize :: "ProxySocket \<Rightarrow> nat" where
  "sock_GetPendingDataSize s = pending_size_loop (m_rx_ring s) (m_rx_head s) (m_rx_count s) 0"

definition sock_WaitForData :: "sock_wait \<Rightarrow> nat \<Rightarrow> ProxySocket \<Rightarrow> bool \<times> ProxySocket" where
  "sock_WaitForData wait timeout_ms s =
     (if sock_HasPendingData s then (True, s)
      else if timeout_ms = 0 then (True, snd (wait s))
      else wait s)"

section \<open>The receive ring\<close>

text \<open>What a reader sees of a slot, and the two ring operations in the shape of the locale
  \<open>ring_fifo\<close>: a datagram arriving (a non-null buffer and its length) and a consuming read.\<close>

definition pkt_view :: "ReceivedPacket \<Rightarrow> SockAddrIn \<times> bytes" where
  "pkt_view p = (rp_from p, take (unat (rp_len p)) (rp_data p))"

definition pkt_seen :: "bytes \<times> SockAddrIn \<Rightarrow> SockAddrIn \<times> bytes" where
  "pkt_seen m = (snd m, take PROXY_SOCKET_MAX_PAYLOAD (fst m))"

definition rx_push :: "bytes \<times> SockAddrIn \<Rightarrow> ProxySocket \<Rightarrow> ProxySocket" where
  "rx_push m s = sock_IncomingData (Some (fst m)) (length (fst m)) (snd m) s"

definition rx_pop :: "ProxySocket \<Rightarrow> ProxySocket" where
  "rx_pop s = snd (consume_front 0 False False s)"

lemma unat_clamp: "unat (of_nat (min n PROXY_SOCKET_MAX_PAYLOAD) :: u16) = min n PROXY_SOCKET_MAX_PAYLOAD"
proof -
  have "min n PROXY_SOCKET_MAX_PAYLOAD < 2 ^ 16"
    by (simp add: PROXY_SOCKET_MAX_PAYLOAD_def min_less_iff_disj)
  then show ?thesis by (simp add: unat_of_nat take_bit_nat_eq_self)
qed

lemma view_fill_packet:
  "pkt_view (fill_packet (Some d) (length d) frm e) = (frm, take PROXY_SOCKET_MAX_PAYLOAD d)"
proof -
  have "take (min (length d) n) d = take n d" for n by (cases "length d \<le> n") auto
  then show ?thesis
    unfolding pkt_view_def fill_packet_def Let_def by (simp add: unat_clamp memcpy_def)
qed

interpretation rx: ring_fifo PROXY_SOCKET_MAX_QUEUE_SIZE m_rx_ring m_rx_head m_rx_tail m_rx_count
  "\<lambda>m. fill_packet (Some (fst m)) (length (fst m)) (snd m)" pkt_view pkt_seen rx_push rx_pop
  by unfold_locales
    (auto simp: view_fill_packet pkt_seen_def rx_push_def rx_pop_def sock_IncomingData_def
      consume_front_def Let_def PROXY_SOCKET_MAX_QUEUE_SIZE_def)

abbreviation rx_queue :: "ProxySocket \<Rightarrow> (SockAddrIn \<times> bytes) list" where
  "rx_queue \<equiv> rx.contents"

section \<open>Well-formed sockets\<close>

text \<open>The ring indices are consistent and every slot has its full buffer and a length inside it.
  A non-empty receive or accept queue has its event signalled, so a waiter does not sleep past
  data that is already there.\<close>

definition slot_wf :: "ReceivedPacket \<Rightarrow> bool" where
  "slot_wf p \<longleftrightarrow> length (rp_data p) = PROXY_SOCKET_MAX_PAYLOAD \<and>
     unat (rp_len p) \<le> PROXY_SOCKET_MAX_PAYLOAD"

definition sock_wf :: "ProxySocket \<Rightarrow> bool" where
  "sock_wf s \<longleftrightarrow> rx.wf s \<and> (\<forall>p \<in> set (m_rx_ring s). slot_wf p) \<and>
     (m_rx_count s > 0 \<longrightarrow> m_receive_event s) \<and>
     (m_accept_queue s \<noteq> [] \<longrightarrow> m_accept_event s)"

lemma sock_wfD:
  assumes "sock_wf s"
  shows "rx.wf s" and "length (m_rx_ring s) = PROXY_SOCKET_MAX_QUEUE_SIZE"
    and "m_rx_head s < PROXY_SOCKET_MAX_QUEUE_SIZE" and "m_rx_count s \<le> PROXY_SOCKET_MAX_QUEUE_SIZE"
  using assms by (auto simp: sock_wf_def rx.wf_def ring_wf_def)

lemma head_slot_wf: "sock_wf s \<Longrightarrow> slot_wf (m_rx_ring s ! m_rx_head s)"
  using sock_wfD [of s] by (auto simp: sock_wf_def)

lemma slot_wf_fill: "slot_wf p \<Longrightarrow> slot_wf (fill_packet data len frm p)"
  unfolding slot_wf_def fill_packet_def Let_def
  by (auto simp: unat_clamp split: option.splits)

lemma rx_wf_cong:
  "m_rx_ring t = m_rx_ring s \<Longrightarrow> m_rx_head t = m_rx_head s \<Longrightarrow> m_rx_tail t = m_rx_tail s \<Longrightarrow>
     m_rx_count t = m_rx_count s \<Longrightarrow> rx.wf t = rx.wf s \<and> rx_queue t = rx_queue s"
  by (simp add: rx.wf_def rx.contents_def)

lemma sock_wf_new: "sock_wf (new_ProxySocket ty pr)"
  by (simp add: sock_wf_def rx.wf_def ring_wf_def new_ProxySocket_def slot_wf_def zero_packet_def
      rx.cap_pos)

text \<open>Every update that leaves the rings and events alone keeps well-formedness.\<close>

lemma sock_wf_frame:
  assumes "sock_wf s" and "m_rx_ring t = m_rx_ring s" "m_rx_head t = m_rx_head s"
    "m_rx_tail t = m_rx_tail s" "m_rx_count t = m_rx_count s"
    "m_receive_event s \<longrightarrow> m_receive_event t" "m_accept_queue t = m_accept_queue s"
    "m_accept_event t = m_accept_event s"
  shows "sock_wf t"
  using assms rx_wf_cong [of t s] by (simp add: sock_wf_def)

lemma sock_wf_Bind: "sock_wf s \<Longrightarrow> sock_wf (snd (sock_Bind addr s))"
  by (auto simp: sock_Bind_def intro: sock_wf_frame)

lemma sock_wf_connect_start: "sock_wf s \<Longrightarrow> sock_wf (connect_start addr s)"
  by (rule sock_wf_frame) (simp_all add: connect_start_def)

lemma sock_wf_set_state: "sock_wf s \<Longrightarrow> sock_wf (s\<lparr>m_state := st\<rparr>)"
  by (rule sock_wf_frame) simp_all

lemma sock_wf_connect_finish: "sock_wf s \<Longrightarrow> sock_wf (snd (connect_finish b s))"
  by (auto simp: connect_finish_def sock_wf_set_state)

lemma sock_wf_Connect:
  assumes "sock_wf s" and "sock_wf (snd (wait (connect_start addr s)))"
  shows "sock_wf (snd (fst (sock_Connect send_connect wait addr s w)))"
  using assms sock_wf_connect_start [OF assms(1), of addr] sock_wf_frame [OF assms(1)]
  by (auto simp: sock_Connect_def Let_def split_beta sock_wf_connect_finish sock_wf_set_state)

lemma sock_wf_IncomingData:
  assumes "sock_wf s" shows "sock_wf (sock_IncomingData data len frm s)"
proof -
  let ?t = "sock_IncomingData data len frm s"
  have "rx.wf ?t"
    using rx.wf_push [of s "([], frm)"] assms
    unfolding rx.wf_def sock_wf_def rx_push_def sock_IncomingData_def Let_def ring_wf_def by simp
  moreover have "\<forall>p \<in> set (m_rx_ring ?t). slot_wf p"
  proof -
    have "m_rx_tail s < length (m_rx_ring s)"
      using assms rx.cap_pos by (auto simp: sock_wf_def rx.wf_def ring_wf_def)
    then have "slot_wf (fill_packet data len frm (m_rx_ring s ! m_rx_tail s))"
      using assms by (intro slot_wf_fill) (auto simp: sock_wf_def)
    moreover have "set (m_rx_ring ?t) \<subseteq>
        insert (fill_packet data len frm (m_rx_ring s ! m_rx_tail s)) (set (m_rx_ring s))"
      by (simp add: sock_IncomingData_def Let_def set_update_subset_insert)
    ultimately show ?thesis using assms by (auto simp: sock_wf_def)
  qed
  ultimately show ?thesis
    using assms by (simp add: sock_wf_def) (simp add: sock_IncomingData_def Let_def)
qed

lemma consume_front_pop:
  "\<not> peek \<Longrightarrow> snd (consume_front n want peek s) = rx_pop s"
  by (simp add: rx_pop_def consume_front_def Let_def)

lemma sock_wf_consume_front:
  assumes "sock_wf s" and "m_rx_count s > 0"
  shows "sock_wf (snd (consume_front n want peek s))"
proof (cases peek)
  case True
  with assms show ?thesis by (simp add: consume_front_def Let_def)
next
  case False
  have "rx.wf (rx_pop s)" using assms by (intro rx.wf_pop) (auto simp: sock_wf_def)
  then show ?thesis
    using assms False unfolding consume_front_pop [OF False] sock_wf_def
    by (auto simp: rx_pop_def consume_front_def Let_def)
qed

lemma sock_wf_RecvFrom:
  assumes "sock_wf s" and "sock_wf (snd (wait s))"
  shows "sock_wf (snd (sock_RecvFrom wait hb len flags want s))"
  using assms by (auto simp: sock_RecvFrom_def Let_def split_beta intro: sock_wf_consume_front)

lemma sock_wf_Shutdown: "sock_wf s \<Longrightarrow> sock_wf (snd (sock_Shutdown how s))"
  by (auto simp: sock_Shutdown_def intro: sock_wf_frame)

lemma sock_wf_Close: "sock_wf s \<Longrightarrow> sock_wf (fst (sock_Close send_disconnect s w))"
  by (auto simp: sock_Close_def sock_wf_def rx.wf_def ring_wf_def)

lemma sock_wf_accept_front: "sock_wf s \<Longrightarrow> sock_wf (snd (accept_front s))"
  by (auto simp: accept_front_def Let_def sock_wf_def rx.wf_def)

lemma sock_wf_Accept:
  assumes "sock_wf s" and "sock_wf (snd (wait s))"
  shows "sock_wf (snd (sock_Accept wait s))"
  using assms by (auto simp: sock_Accept_def split_beta Let_def intro: sock_wf_accept_front)

lemma sock_wf_IncomingConnection:
  "sock_wf s \<Longrightarrow> sock_wf (fst (sock_IncomingConnection send_reply r s w))"
  by (auto simp: sock_IncomingConnection_def sock_wf_def rx.wf_def)

lemma sock_wf_HandleConnectResponse: "sock_wf s \<Longrightarrow> sock_wf (sock_HandleConnectResponse r s)"
  by (rule sock_wf_frame) (simp_all add: sock_HandleConnectResponse_def)

lemma sock_wf_misc:
  assumes "sock_wf s"
  shows "sock_wf (SetNonBlocking b s)" "sock_wf (SetBroadcastEnabled b s)"
    "sock_wf (SetBroadcastAddress a s)" "sock_wf (snd (sock_Listen s))"
    "sock_wf (snd (sock_SetSockOpt level optname optval optlen s))"
  using assms sock_wf_frame [OF assms]
  by (auto simp: SetNonBlocking_def SetBroadcastEnabled_def SetBroadcastAddress_def
      sock_Listen_def sock_SetSockOpt_def split: option.splits)

section \<open>Runs of a socket\<close>

text \<open>The states a socket passes through from \<open>s0\<close> on, under any interleaving of its operations;
  a blocking call runs against a wait that is itself such a run. The rest of the program shows here
  only through its answers, so its state is the unit type.\<close>

inductive sock_run :: "ProxySocket \<Rightarrow> ProxySocket \<Rightarrow> bool" for s0 :: ProxySocket where
  start: "sock_run s0 s0"
| bind: "sock_run s0 s \<Longrightarrow> sock_run s0 (snd (sock_Bind addr s))"
| connect: "sock_run s0 s \<Longrightarrow> sock_run s0 (snd (wait (connect_start addr s))) \<Longrightarrow>
     sock_run s0 (snd (fst (sock_Connect (send_connect :: unit connect_call) wait addr s w)))"
| recv: "sock_run s0 s \<Longrightarrow> sock_run s0 (snd (wait s)) \<Longrightarrow>
     sock_run s0 (snd (sock_RecvFrom wait hb len flags want s))"
| data: "sock_run s0 s \<Longrightarrow> sock_run s0 (sock_IncomingData data len frm s)"
| setopt: "sock_run s0 s \<Longrightarrow> sock_run s0 (snd (sock_SetSockOpt level optname optval optlen s))"
| nonblock: "sock_run s0 s \<Longrightarrow> sock_run s0 (SetNonBlocking b s)"
| listen: "sock_run s0 s \<Longrightarrow> sock_run s0 (snd (sock_Listen s))"
| accept: "sock_run s0 s \<Longrightarrow> sock_run s0 (snd (wait s)) \<Longrightarrow> sock_run s0 (snd (sock_Accept wait s))"
| request: "sock_run s0 s \<Longrightarrow> sock_run s0 (fst (sock_IncomingConnection (send_reply :: unit connect_call) r s w))"
| response: "sock_run s0 s \<Longrightarrow> sock_run s0 (sock_HandleConnectResponse r s)"
| shutdown: "sock_run s0 s \<Longrightarrow> sock_run s0 (snd (sock_Shutdown how s))"
| close: "sock_run s0 s \<Longrightarrow> sock_run s0 (fst (sock_Close (send_disconnect :: unit connect_call) s w))"

lemmas sock_wf_ops = sock_wf_Bind sock_wf_Connect sock_wf_RecvFrom sock_wf_IncomingData
  sock_wf_misc sock_wf_Accept sock_wf_IncomingConnection sock_wf_HandleConnectResponse
  sock_wf_Shutdown sock_wf_Close

lemma sock_run_wf: "sock_run s0 s \<Longrightarrow> sock_wf s0 \<Longrightarrow> sock_wf s"
  by (induction rule: sock_run.induct) (simp_all add: sock_wf_ops)

lemmas sock_op_defs = sock_Bind_def sock_Connect_def connect_start_def connect_finish_def
  sock_RecvFrom_def consume_front_def sock_IncomingData_def sock_SetSockOpt_def SetNonBlocking_def
  sock_Listen_def sock_Accept_def accept_front_def sock_IncomingConnection_def
  sock_HandleConnectResponse_def sock_Shutdown_def sock_Close_def Let_def split_beta

text \<open>Facts that are stable under every single operation are stable along runs.\<close>

lemma sock_run_type: "sock_run s0 s \<Longrightarrow> m_type s = m_type s0 \<and> m_protocol s = m_protocol s0"
  by (induction rule: sock_run.induct) (auto simp: sock_op_defs split: option.splits)

lemma sock_run_shutdown:
  "sock_run s0 s \<Longrightarrow> (m_shutdown_read s0 \<longrightarrow> m_shutdown_read s) \<and> (m_shutdown_write s0 \<longrightarrow> m_shutdown_write s)"
  by (induction rule: sock_run.induct) (auto simp: sock_op_defs split: option.splits)

definition sock_state_ok :: "ProxySocket \<Rightarrow> bool" where
  "sock_state_ok s \<longleftrightarrow>
     (m_type s \<noteq> Stream \<longrightarrow> m_state s \<noteq> Connecting \<and> m_state s \<noteq> Listening \<and> m_accept_queue s = []) \<and>
     (m_state s = Created \<longrightarrow> m_local_addr s = inet_any \<and> m_remote_addr s = inet_any)"

lemma sock_run_state: "sock_run s0 s \<Longrightarrow> sock_state_ok s0 \<Longrightarrow> sock_state_ok s"
  by (induction rule: sock_run.induct)
    (auto simp: sock_state_ok_def sock_op_defs split: option.splits)

lemma sock_state_ok_new: "sock_state_ok (new_ProxySocket ty pr)"
  by (simp add: sock_state_ok_def new_ProxySocket_def)

section \<open>Properties\<close>

text \<open>Every state a proxy socket can reach from its constructor, under any interleaving of
  operations, is well formed: the receive ring's indices agree, each slot's length fits its 2000-byte
  buffer, a non-empty receive or accept queue has its event signalled (a reader never sleeps over
  data that is there), a datagram socket is never connecting or listening, an unbound socket
  still has the zero addresses \<^verbatim>\<open>GetSockName\<close> reports, and type and protocol never change.\<close>

theorem socket_invariant:
  assumes "sock_run (new_ProxySocket ty pr) s"
  shows "sock_wf s \<and> sock_state_ok s \<and> m_type s = ty \<and> m_protocol s = pr"
  using sock_run_wf [OF assms sock_wf_new] sock_run_state [OF assms sock_state_ok_new]
    sock_run_type [OF assms] by (simp add: new_ProxySocket_def)

theorem socket_invariant_witness:
  "sock_wf (sock_IncomingData (Some [1, 2]) 2 inet_any (snd (sock_Bind inet_any (new_ProxySocket Dgram Proto_Udp))))"
proof -
  have "sock_run (new_ProxySocket Dgram Proto_Udp)
      (sock_IncomingData (Some [1, 2]) 2 inet_any (snd (sock_Bind inet_any (new_ProxySocket Dgram Proto_Udp))))"
    by (intro sock_run.intros)
  from socket_invariant [OF this] show ?thesis by blast
qed

text \<open>C3: The receive ring implements a bounded first-in first-out queue that drops its oldest
  entry: after any sequence of datagrams the queue holds the last 32 of what it held before
  followed by the new ones, in arrival order, each with its source address and its payload cut to
  2000 bytes.\<close>

theorem receive_queue_keeps_last_32:
  assumes "sock_wf s"
  shows "rx_queue (fold (\<lambda>(d, frm). sock_IncomingData (Some d) (length d) frm) ms s) =
     drop (length (rx_queue s) + length ms - 32)
       (rx_queue s @ map (\<lambda>(d, frm). (frm, take 2000 d)) ms)"
proof -
  have "(\<lambda>(d, frm). sock_IncomingData (Some d) (length d) frm) = rx_push"
    by (simp add: fun_eq_iff split_beta rx_push_def)
  moreover have "(\<lambda>(d, frm). (frm, take 2000 d)) = pkt_seen"
    by (simp add: fun_eq_iff split_beta pkt_seen_def PROXY_SOCKET_MAX_PAYLOAD_def)
  ultimately show ?thesis
    using rx.contents_push_many [of s ms] sock_wfD(1) [OF assms]
    by (simp add: PROXY_SOCKET_MAX_QUEUE_SIZE_def)
qed

theorem receive_queue_keeps_last_32_witness:
  "sock_wf (new_ProxySocket Dgram Proto_Udp) \<and>
   rx_queue (fold (\<lambda>(d, frm). sock_IncomingData (Some d) (length d) frm)
      [([1, 2], inet_any), ([3], inet_any)] (new_ProxySocket Dgram Proto_Udp)) =
    [(inet_any, [1, 2]), (inet_any, [3])]"
proof -
  have "rx_queue (new_ProxySocket Dgram Proto_Udp) = []"
    by (simp add: rx.contents_def new_ProxySocket_def)
  then show ?thesis
    using sock_wf_new receive_queue_keeps_last_32 [OF sock_wf_new, of "[([1, 2], inet_any), ([3], inet_any)]"]
    by simp
qed

lemma consume_front_spec:
  assumes "sock_wf s" and "rx_queue s = (frm, d) # q"
  shows "fst (consume_front len want peek s) =
     \<lparr>ro_ret = int (min len (length d)), ro_bytes = take len d,
      ro_from = (if want then Some frm else None)\<rparr>"
    and "rx_queue (snd (consume_front len want peek s)) = (if peek then (frm, d) # q else q)"
proof -
  let ?slot = "m_rx_ring s ! m_rx_head s"
  have n: "0 < m_rx_count s" using assms(2) rx.length_contents [of s] by simp
  have c: "pkt_view ?slot # rx_queue (rx_pop s) = (frm, d) # q"
    using rx.contents_pop [OF sock_wfD(1) [OF assms(1)] n] assms(2) by simp
  then have f: "frm = rp_from ?slot" "d = take (unat (rp_len ?slot)) (rp_data ?slot)"
    by (auto simp: pkt_view_def)
  have "length d = unat (rp_len ?slot)"
    using head_slot_wf [OF assms(1)] by (simp add: f(2) slot_wf_def)
  then show "fst (consume_front len want peek s) =
     \<lparr>ro_ret = int (min len (length d)), ro_bytes = take len d,
      ro_from = (if want then Some frm else None)\<rparr>"
    by (simp add: consume_front_def Let_def f min.commute)
  show "rx_queue (snd (consume_front len want peek s)) = (if peek then (frm, d) # q else q)"
  proof (cases peek)
    case True
    with n have "snd (consume_front len want peek s) = s" by (simp add: consume_front_def Let_def)
    with True assms(2) show ?thesis by simp
  qed (use c in \<open>simp add: consume_front_pop\<close>)
qed

text \<open>C4: A receive on an open socket whose queue is not empty returns the oldest datagram: the
  return value is the number of bytes copied, the bytes are the first ones that fit the caller's
  buffer, the source address is that datagram's, and exactly that datagram leaves the queue,
  unless the caller peeks, and then the queue is unchanged.\<close>

theorem RecvFrom_returns_oldest:
  assumes "sock_wf s" and "\<not> m_shutdown_read s" and "m_state s \<noteq> Closed"
    and "has_buffer \<or> len = 0" and "rx_queue s = (frm, d) # q"
  shows "\<exists>s'. sock_RecvFrom wait has_buffer len flags want s =
       (\<lparr>ro_ret = int (min len (length d)), ro_bytes = take len d,
         ro_from = (if want then Some frm else None)\<rparr>, s') \<and>
     rx_queue s' = (if flags AND MSG_PEEK \<noteq> 0 then (frm, d) # q else q) \<and> sock_wf s'"
proof -
  have n: "0 < m_rx_count s" using assms(5) rx.length_contents [of s] by simp
  let ?r = "consume_front len want (flags AND MSG_PEEK \<noteq> 0) s"
  have "sock_RecvFrom wait has_buffer len flags want s = (fst ?r, snd ?r)"
    using assms n by (auto simp: sock_RecvFrom_def Let_def)
  then show ?thesis
    using consume_front_spec [OF assms(1, 5), of len want "flags AND MSG_PEEK \<noteq> 0"]
      sock_wf_consume_front [OF assms(1) n]
    by (intro exI [of _ "snd ?r"]) (simp only: simp_thms)
qed

lemma new_sock_queue: "rx_queue (new_ProxySocket ty pr) = []"
  by (simp add: rx.contents_def new_ProxySocket_def)

theorem RecvFrom_returns_oldest_witness:
  "\<exists>s'. sock_RecvFrom (\<lambda>s. (False, s)) True 2 0 True
      (sock_IncomingData (Some [7, 8, 9]) 3 inet_any (new_ProxySocket Dgram Proto_Udp)) =
     (\<lparr>ro_ret = 2, ro_bytes = [7, 8], ro_from = Some inet_any\<rparr>, s') \<and> rx_queue s' = []"
proof -
  let ?s = "sock_IncomingData (Some [7, 8, 9]) 3 inet_any (new_ProxySocket Dgram Proto_Udp)"
  have q: "rx_queue ?s = [(inet_any, [7, 8, 9])]"
    using rx.contents_push [OF sock_wfD(1) [OF sock_wf_new], of "([7, 8, 9], inet_any)" Dgram Proto_Udp]
    by (simp add: rx_push_def new_sock_queue bounded_push_def pkt_seen_def
        PROXY_SOCKET_MAX_PAYLOAD_def PROXY_SOCKET_MAX_QUEUE_SIZE_def eval_nat_numeral)
  have "sock_wf ?s" "\<not> m_shutdown_read ?s" "m_state ?s \<noteq> Closed"
    by (simp_all add: sock_wf_IncomingData sock_wf_new)
      (simp_all add: sock_IncomingData_def new_ProxySocket_def Let_def)
  from RecvFrom_returns_oldest [OF this _ q, of True 2 "\<lambda>s. (False, s)" 0 True]
  show ?thesis by (auto simp: MSG_PEEK_def)
qed

text \<open>A receive on an empty queue never invents data. Non-blocking (by mode or flag), it
  returns \<^verbatim>\<open>-EAGAIN\<close> and changes nothing. Blocking, it waits once: if datagrams arrived during
  the wait it returns the oldest one still queued, and otherwise \<^verbatim>\<open>-EAGAIN\<close>.\<close>

theorem RecvFrom_empty_queue:
  assumes "sock_wf s" and "\<not> m_shutdown_read s" and "m_state s \<noteq> Closed"
    and "has_buffer \<or> len = 0" and "rx_queue s = []"
    and "\<And>t. wait t = (let t' = fold rx_push arriving t in (m_receive_event t', t'))"
  shows "(flags AND MSG_DONTWAIT \<noteq> 0 \<or> m_non_blocking s \<or> arriving = [] \<longrightarrow>
       sock_RecvFrom wait has_buffer len flags want s = (recv_ret (- 11), s)) \<and>
     (flags AND MSG_DONTWAIT = 0 \<and> \<not> m_non_blocking s \<and> arriving \<noteq> [] \<longrightarrow>
       fst (sock_RecvFrom wait has_buffer len flags want s) =
         (case pkt_seen (arriving ! (length arriving - 32)) of (frm, d) \<Rightarrow>
           \<lparr>ro_ret = int (min len (length d)), ro_bytes = take len d,
            ro_from = (if want then Some frm else None)\<rparr>))"
proof (intro conjI impI; (elim conjE)?)
  have n: "m_rx_count s = 0" using assms(5) rx.length_contents [of s] by simp
  let ?t = "fold rx_push arriving s"
  show "sock_RecvFrom wait has_buffer len flags want s = (recv_ret (- 11), s)"
    if "flags AND MSG_DONTWAIT \<noteq> 0 \<or> m_non_blocking s \<or> arriving = []"
    using that assms n by (auto simp: sock_RecvFrom_def Let_def)
  show "fst (sock_RecvFrom wait has_buffer len flags want s) =
         (case pkt_seen (arriving ! (length arriving - 32)) of (frm, d) \<Rightarrow>
           \<lparr>ro_ret = int (min len (length d)), ro_bytes = take len d,
            ro_from = (if want then Some frm else None)\<rparr>)"
    if nb: "flags AND MSG_DONTWAIT = 0" "\<not> m_non_blocking s" and ne: "arriving \<noteq> []"
  proof -
    have wf: "sock_wf ?t" using assms(1)
      by (induction arriving arbitrary: s) (simp_all add: rx_push_def sock_wf_IncomingData)
    have q: "rx_queue ?t = drop (length arriving - 32) (map pkt_seen arriving)"
      using rx.contents_push_many [OF sock_wfD(1) [OF assms(1)], of arriving] assms(5)
      by (simp add: PROXY_SOCKET_MAX_QUEUE_SIZE_def)
    have lt: "length arriving - 32 < length arriving" using ne by simp
    obtain frm d where fd: "pkt_seen (arriving ! (length arriving - 32)) = (frm, d)" by fastforce
    have c: "rx_queue ?t = (frm, d) # drop (Suc (length arriving - 32)) (map pkt_seen arriving)"
      using q lt fd Cons_nth_drop_Suc [of "length arriving - 32" "map pkt_seen arriving"] by simp
    then have n': "0 < m_rx_count ?t" using rx.length_contents [of ?t] by simp
    with wf have "m_receive_event ?t" by (simp add: sock_wf_def)
    then have "sock_RecvFrom wait has_buffer len flags want s =
        consume_front len want (flags AND MSG_PEEK \<noteq> 0) ?t"
      using assms nb n n' by (auto simp: sock_RecvFrom_def Let_def)
    then show ?thesis using consume_front_spec(1) [OF wf c] fd by simp
  qed
qed

theorem RecvFrom_empty_queue_witness:
  "fst (sock_RecvFrom (\<lambda>t. let t' = fold rx_push [([5, 6], inet_any)] t in (m_receive_event t', t'))
      True 100 0 False (new_ProxySocket Dgram Proto_Udp)) =
    \<lparr>ro_ret = 2, ro_bytes = [5, 6], ro_from = None\<rparr>"
proof -
  let ?s = "new_ProxySocket Dgram Proto_Udp"
  have "\<not> m_shutdown_read ?s" "m_state ?s \<noteq> Closed" "\<not> m_non_blocking ?s"
    by (simp_all add: new_ProxySocket_def)
  then show ?thesis
    using RecvFrom_empty_queue [where arriving = "[([5, 6], inet_any)]" and s = ?s and flags = 0
        and has_buffer = True and len = 100 and want = False, OF sock_wf_new _ _ _ new_sock_queue refl]
    by (simp add: pkt_seen_def PROXY_SOCKET_MAX_PAYLOAD_def)
qed

text \<open>Closing a socket is final for data: after \<^verbatim>\<open>Close\<close>, and after any further operations on the
  socket, the buffered datagrams are gone, every receive reports end of file without touching the
  socket, and every send fails with \<^verbatim>\<open>EINVAL\<close> without reaching the network.\<close>

lemma closed_socket_is_silent:
  assumes "sock_run (fst (sock_Close send_disconnect s0 w0)) s"
  shows "rx_queue (fst (sock_Close send_disconnect s0 w0)) = [] \<and>
     sock_RecvFrom wait hb len flags want s = (recv_ret 0, s) \<and>
     sock_SendTo send g data n dest s w = (- 22, w)"
proof -
  have "m_shutdown_read s" "m_shutdown_write s"
    using sock_run_shutdown [OF assms] by (simp_all add: sock_Close_def)
  then show ?thesis
    by (simp add: sock_RecvFrom_def sock_SendTo_def rx.contents_def) (simp add: sock_Close_def)
qed

text \<open>A blocking TCP connect succeeds exactly when the request could be sent and an answer with
  protocol \<^verbatim>\<open>Unspecified\<close> came during the wait, and then the socket is connected to the requested
  peer. It reports \<^verbatim>\<open>ENETUNREACH\<close> when nothing could be sent, \<^verbatim>\<open>ETIMEDOUT\<close> when no answer came,
  even if an earlier connect had been answered, and \<^verbatim>\<open>ECONNREFUSED\<close> on any other answer; every
  failure leaves the socket bound.\<close>

lemma blocking_connect_outcome:
  assumes "m_type s = Stream" and "m_state s \<noteq> Closed" and "\<not> m_non_blocking s"
    and "sin_family addr = family_val AF_Inet"
    and "\<And>t. wait t = (case answer of None \<Rightarrow> (m_connect_event t, t)
          | Some r \<Rightarrow> (True, sock_HandleConnectResponse r t))"
  shows "case sock_Connect send_connect wait addr s w of ((res, s'), w') \<Rightarrow>
     (let call = send_connect (GetAddr (m_local_addr s)) (GetPort (m_local_addr s))
                   (GetAddr addr) (GetPort addr) (m_protocol s) w
      in w' = snd call \<and> m_remote_addr s' = addr \<and>
         res = (if \<not> fst call then Inl E_NetUnreach
                else case answer of None \<Rightarrow> Inl E_TimedOut
                  | Some r \<Rightarrow> if ci_protocol r = Proto_Unspecified then Inr () else Inl E_ConnRefused) \<and>
         m_state s' = (if res = Inr () then Connected else Bound))"
  using assms
  by (auto simp: sock_Connect_def connect_start_def connect_finish_def sock_HandleConnectResponse_def
      Let_def split_beta split: option.splits)

text \<open>A non-blocking TCP connect that was sent reports \<^verbatim>\<open>EINPROGRESS\<close>, and the socket then stays
  in the connecting state whatever answers arrive: the answer is stored but nothing moves the socket
  on, so a later send still fails with \<^verbatim>\<open>ENOTCONN\<close>.\<close>

lemma nonblocking_connect_never_completes:
  assumes "m_type s = Stream" and "m_state s \<noteq> Closed" and "m_non_blocking s"
    and "sin_family addr = family_val AF_Inet"
    and "fst (send_connect (GetAddr (m_local_addr s)) (GetPort (m_local_addr s))
           (GetAddr addr) (GetPort addr) (m_protocol s) w)"
  shows "case sock_Connect send_connect wait addr s w of ((res, s'), w') \<Rightarrow>
     res = Inl E_InProgress \<and>
     (let s2 = fold sock_HandleConnectResponse answers s'
      in m_state s2 = Connecting \<and> sock_Send send g data len s2 w2 = (- 128, w2))"
proof -
  have "m_state (fold sock_HandleConnectResponse answers t) = m_state t" for t
    by (induction answers arbitrary: t) (simp_all add: sock_HandleConnectResponse_def)
  then show ?thesis
    using assms by (simp add: sock_Connect_def connect_start_def sock_Send_def Let_def split_beta)
qed

text \<open>A listening socket hands out its connection requests in arrival order, one new connected
  socket per request, whose local address is the listener's, whose peer is the requester's numeric
  address and port, and whose receive queue is empty; each request is answered from the listener's
  address.\<close>

theorem accept_in_order:
  assumes "m_state s = Listening" and "m_accept_queue s = []"
  shows "case sock_IncomingConnection send_reply r1 s w of (s1, w1) \<Rightarrow>
     case sock_IncomingConnection send_reply r2 s1 w1 of (s2, w2) \<Rightarrow>
     case sock_Accept wait s2 of (a1, s3) \<Rightarrow>
     case sock_Accept wait s3 of (a2, s4) \<Rightarrow>
       (\<exists>x1 x2. a1 = Some x1 \<and> a2 = Some x2 \<and> rx_queue x1 = [] \<and>
          m_state x1 = Connected \<and> m_local_addr x1 = m_local_addr s \<and>
          GetAddr (m_remote_addr x1) = source_ipv4 r1 \<and> GetPort (m_remote_addr x1) = source_port r1 \<and>
          GetAddr (m_remote_addr x2) = source_ipv4 r2 \<and> GetPort (m_remote_addr x2) = source_port r2) \<and>
       m_accept_queue s4 = [] \<and> \<not> m_accept_event s4 \<and>
       w1 = snd (send_reply (GetAddr (m_local_addr s)) (GetPort (m_local_addr s))
              (source_ipv4 r1) (source_port r1) Proto_Tcp w)"
proof -
  have "GetPort (x\<lparr>sin_port := bswap16 p\<rparr>) = p" "GetAddr (x\<lparr>sin_port := q\<rparr>) = GetAddr x" for x p q
    by (simp_all add: GetPort_def GetAddr_def)
  then show ?thesis
    using assms
    by (simp add: sock_IncomingConnection_def sock_Accept_def accept_front_def Let_def
        accepted_socket_def request_remote_addr_def GetAddr_Addr rx.contents_def new_ProxySocket_def)
qed

theorem accept_in_order_witness:
  "\<exists>x. fst (sock_Accept (\<lambda>s. (False, s)) (fst (sock_IncomingConnection (\<lambda>_ _ _ _ _ w. (True, w))
      zero_ConnectInfo (fst (sock_IncomingConnection (\<lambda>_ _ _ _ _ w. (True, w))
        (zero_ConnectInfo\<lparr>source_port := 7\<rparr>) ((new_ProxySocket Stream Proto_Tcp)\<lparr>m_state := Listening\<rparr>) ())) ()))) =
     Some x \<and> GetPort (m_remote_addr x) = 7"
  using accept_in_order [where s = "(new_ProxySocket Stream Proto_Tcp)\<lparr>m_state := Listening\<rparr>"
      and ?r1.0 = "zero_ConnectInfo\<lparr>source_port := 7\<rparr>" and ?r2.0 = zero_ConnectInfo and w = "()"
      and send_reply = "\<lambda>_ _ _ _ _ w. (True, w)" and wait = "\<lambda>s. (False, s)"]
  by (auto simp: new_ProxySocket_def split_beta)

end
