(* ===== verification/Port_Pool.thy ===== *)
theory Port_Pool
  imports Ip_Addr
begin

text \<open>
  The ephemeral port pool (\<^verbatim>\<open>bsd/ephemeral_port_pool.hpp\<close> and \<^verbatim>\<open>.cpp\<close>). A \<^verbatim>\<open>std::bitset\<close> is the set of
  its set bits; the round-robin search of \<^verbatim>\<open>AllocatePort\<close> is the recursive loop \<open>alloc_scan\<close>. The
  contract a client relies on (a fresh port, marked, nothing else touched) is the locale
  \<open>port_allocator\<close>, interpreted on the pool for each protocol.
\<close>

section \<open>State and operations\<close>

definition EPHEMERAL_PORT_MIN :: nat where "EPHEMERAL_PORT_MIN = 49152"
definition EPHEMERAL_PORT_MAX :: nat where "EPHEMERAL_PORT_MAX = 65535"
definition EPHEMERAL_PORT_COUNT :: nat where
  "EPHEMERAL_PORT_COUNT = EPHEMERAL_PORT_MAX - EPHEMERAL_PORT_MIN + 1"

lemma EPHEMERAL_PORT_COUNT_eq: "EPHEMERAL_PORT_COUNT = 16384"
  by (simp add: EPHEMERAL_PORT_COUNT_def EPHEMERAL_PORT_MAX_def EPHEMERAL_PORT_MIN_def)

record EphemeralPortPool =
  m_udp_ports :: "nat set"
  m_tcp_ports :: "nat set"
  m_udp_hint :: nat
  m_tcp_hint :: nat

definition pool_init :: EphemeralPortPool where
  "pool_init = \<lparr>m_udp_ports = {}, m_tcp_ports = {}, m_udp_hint = 0, m_tcp_hint = 0\<rparr>"

definition PortToIndex :: "u16 \<Rightarrow> nat" where
  "PortToIndex port =
     (if unat port < EPHEMERAL_PORT_MIN then EPHEMERAL_PORT_COUNT
      else unat port - EPHEMERAL_PORT_MIN)"

definition IndexToPort :: "nat \<Rightarrow> u16" where
  "IndexToPort index = of_nat (EPHEMERAL_PORT_MIN + index)"

definition GetBitset :: "ProtocolType \<Rightarrow> EphemeralPortPool \<Rightarrow> nat set" where
  "GetBitset pr p = (case pr of Proto_Udp \<Rightarrow> m_udp_ports p | Proto_Tcp \<Rightarrow> m_tcp_ports p
     | _ \<Rightarrow> m_udp_ports p)"

definition put_bitset :: "ProtocolType \<Rightarrow> nat set \<Rightarrow> EphemeralPortPool \<Rightarrow> EphemeralPortPool" where
  "put_bitset pr b p = (case pr of Proto_Udp \<Rightarrow> p\<lparr>m_udp_ports := b\<rparr> | Proto_Tcp \<Rightarrow> p\<lparr>m_tcp_ports := b\<rparr>
     | _ \<Rightarrow> p\<lparr>m_udp_ports := b\<rparr>)"

definition get_hint :: "ProtocolType \<Rightarrow> EphemeralPortPool \<Rightarrow> nat" where
  "get_hint pr p = (if pr = Proto_Tcp then m_tcp_hint p else m_udp_hint p)"

definition put_hint :: "ProtocolType \<Rightarrow> nat \<Rightarrow> EphemeralPortPool \<Rightarrow> EphemeralPortPool" where
  "put_hint pr h p = (if pr = Proto_Tcp then p\<lparr>m_tcp_hint := h\<rparr> else p\<lparr>m_udp_hint := h\<rparr>)"

function alloc_scan :: "nat set \<Rightarrow> nat \<Rightarrow> nat \<Rightarrow> nat option" where
  "alloc_scan bits hint i =
     (if i < EPHEMERAL_PORT_COUNT then
        (let index = (hint + i) mod EPHEMERAL_PORT_COUNT
         in if index \<notin> bits then Some index else alloc_scan bits hint (Suc i))
      else None)"
  by pat_completeness auto
termination
  by (relation "measure (\<lambda>(bits, hint, i). EPHEMERAL_PORT_COUNT - i)") auto

declare alloc_scan.simps [simp del]

definition AllocatePort :: "ProtocolType \<Rightarrow> EphemeralPortPool \<Rightarrow> u16 \<times> EphemeralPortPool" where
  "AllocatePort pr p =
     (case alloc_scan (GetBitset pr p) (get_hint pr p) 0 of
        Some index \<Rightarrow>
          (IndexToPort index,
           put_hint pr ((index + 1) mod EPHEMERAL_PORT_COUNT)
             (put_bitset pr (insert index (GetBitset pr p)) p))
      | None \<Rightarrow> (0, p))"

definition AllocateSpecificPort :: "u16 \<Rightarrow> ProtocolType \<Rightarrow> EphemeralPortPool \<Rightarrow> bool \<times> EphemeralPortPool" where
  "AllocateSpecificPort port pr p =
     (let index = PortToIndex port in
      if index \<ge> EPHEMERAL_PORT_COUNT then (True, p)
      else if index \<in> GetBitset pr p then (False, p)
      else (True, put_bitset pr (insert index (GetBitset pr p)) p))"

definition ReleasePort :: "u16 \<Rightarrow> ProtocolType \<Rightarrow> EphemeralPortPool \<Rightarrow> EphemeralPortPool" where
  "ReleasePort port pr p =
     (let index = PortToIndex port in
      if index \<ge> EPHEMERAL_PORT_COUNT then p
      else put_bitset pr (GetBitset pr p - {index}) p)"

definition IsPortAllocated :: "u16 \<Rightarrow> ProtocolType \<Rightarrow> EphemeralPortPool \<Rightarrow> bool" where
  "IsPortAllocated port pr p =
     (let index = PortToIndex port in
      if index \<ge> EPHEMERAL_PORT_COUNT then False else index \<in> GetBitset pr p)"

definition GetAvailableCount :: "ProtocolType \<Rightarrow> EphemeralPortPool \<Rightarrow> nat" where
  "GetAvailableCount pr p = EPHEMERAL_PORT_COUNT - card (GetBitset pr p)"

definition ReleaseAll :: "EphemeralPortPool \<Rightarrow> EphemeralPortPool" where
  "ReleaseAll p = p\<lparr>m_udp_ports := {}, m_tcp_ports := {}, m_udp_hint := 0, m_tcp_hint := 0\<rparr>"

section \<open>Invariant and loop lemmas\<close>

definition pool_inv :: "EphemeralPortPool \<Rightarrow> bool" where
  "pool_inv p \<longleftrightarrow> m_udp_ports p \<subseteq> {..<EPHEMERAL_PORT_COUNT} \<and>
     m_tcp_ports p \<subseteq> {..<EPHEMERAL_PORT_COUNT} \<and>
     m_udp_hint p < EPHEMERAL_PORT_COUNT \<and> m_tcp_hint p < EPHEMERAL_PORT_COUNT"

lemma get_put_bitset [simp]:
  "GetBitset pr (put_bitset pr b p) = b" "GetBitset pr (put_hint pr' h p) = GetBitset pr p"
  by (auto simp: GetBitset_def put_bitset_def put_hint_def split: ProtocolType.splits)

lemma get_bitset_frame:
  "(pr = Proto_Tcp) \<noteq> (pr' = Proto_Tcp) \<Longrightarrow> GetBitset pr' (put_bitset pr b p) = GetBitset pr' p"
  by (auto simp: GetBitset_def put_bitset_def split: ProtocolType.splits)

lemma pool_inv_bitset: "pool_inv p \<Longrightarrow> GetBitset pr p \<subseteq> {..<EPHEMERAL_PORT_COUNT}"
  by (auto simp: pool_inv_def GetBitset_def split: ProtocolType.splits)

lemma pool_inv_put:
  "pool_inv p \<Longrightarrow> b \<subseteq> {..<EPHEMERAL_PORT_COUNT} \<Longrightarrow> pool_inv (put_bitset pr b p)"
  "pool_inv p \<Longrightarrow> h < EPHEMERAL_PORT_COUNT \<Longrightarrow> pool_inv (put_hint pr h p)"
  by (auto simp: pool_inv_def put_bitset_def put_hint_def split: ProtocolType.splits)

lemma alloc_scan_Some:
  "alloc_scan bits hint i = Some index \<Longrightarrow>
     index < EPHEMERAL_PORT_COUNT \<and> index \<notin> bits \<and>
     (\<exists>k. i \<le> k \<and> k < EPHEMERAL_PORT_COUNT \<and> index = (hint + k) mod EPHEMERAL_PORT_COUNT \<and>
        (\<forall>j. i \<le> j \<and> j < k \<longrightarrow> (hint + j) mod EPHEMERAL_PORT_COUNT \<in> bits))"
proof (induction bits hint i rule: alloc_scan.induct)
  case (1 bits hint i)
  let ?x = "(hint + i) mod EPHEMERAL_PORT_COUNT"
  from "1.prems" have i: "i < EPHEMERAL_PORT_COUNT"
    by (simp add: alloc_scan.simps [of bits hint i] split: if_splits)
  show ?case
  proof (cases "?x \<in> bits")
    case True
    with "1.prems" i have "alloc_scan bits hint (Suc i) = Some index"
      by (simp add: alloc_scan.simps [of bits hint i])
    from "1.IH" [OF i refl _ this] True show ?thesis
      by (metis Suc_leD le_neq_implies_less not_less_eq_eq linorder_not_less)
  next
    case False
    with "1.prems" i have "index = ?x"
      by (simp add: alloc_scan.simps [of bits hint i])
    with False i show ?thesis
      by (metis linorder_not_less mod_less_divisor order.strict_trans1 order_refl zero_le)
  qed
qed

lemma alloc_scan_None:
  "alloc_scan bits hint i = None \<Longrightarrow> i \<le> j \<Longrightarrow> j < EPHEMERAL_PORT_COUNT \<Longrightarrow>
     (hint + j) mod EPHEMERAL_PORT_COUNT \<in> bits"
proof (induction bits hint i rule: alloc_scan.induct)
  case (1 bits hint i)
  then have i: "i < EPHEMERAL_PORT_COUNT" by simp
  with "1.prems"(1) have x: "(hint + i) mod EPHEMERAL_PORT_COUNT \<in> bits"
    and rest: "alloc_scan bits hint (Suc i) = None"
    by (auto simp: alloc_scan.simps [of bits hint i] Let_def split: if_splits)
  show ?case
  proof (cases "j = i")
    case False
    with "1.IH" [OF i refl _ rest] x "1.prems" show ?thesis by simp
  qed (simp add: x)
qed

lemma rotate_cover:
  assumes "hint < n" and "index < (n::nat)"
  shows "\<exists>j < n. (hint + j) mod n = index"
proof (cases "hint \<le> index")
  case True
  with assms show ?thesis by (intro exI [of _ "index - hint"]) auto
next
  case False
  with assms have "hint + (index + n - hint) = index + n" by simp
  with assms False show ?thesis by (intro exI [of _ "index + n - hint"]) auto
qed

lemma get_hint_bound: "pool_inv p \<Longrightarrow> get_hint pr p < EPHEMERAL_PORT_COUNT"
  by (simp add: pool_inv_def get_hint_def)

lemma alloc_scan_full:
  assumes "pool_inv p"
  shows "alloc_scan (GetBitset pr p) (get_hint pr p) 0 = None \<longleftrightarrow>
     GetBitset pr p = {..<EPHEMERAL_PORT_COUNT}"
proof
  assume "alloc_scan (GetBitset pr p) (get_hint pr p) 0 = None"
  then have "index \<in> GetBitset pr p" if "index < EPHEMERAL_PORT_COUNT" for index
    using rotate_cover [OF get_hint_bound [OF assms] that] alloc_scan_None by (metis le0)
  with pool_inv_bitset [OF assms] show "GetBitset pr p = {..<EPHEMERAL_PORT_COUNT}" by auto
next
  assume full: "GetBitset pr p = {..<EPHEMERAL_PORT_COUNT}"
  show "alloc_scan (GetBitset pr p) (get_hint pr p) 0 = None"
  proof (rule ccontr)
    assume "alloc_scan (GetBitset pr p) (get_hint pr p) 0 \<noteq> None"
    then obtain index where "alloc_scan (GetBitset pr p) (get_hint pr p) 0 = Some index" by auto
    from alloc_scan_Some [OF this] full show False by auto
  qed
qed

lemma unat_IndexToPort:
  "index < EPHEMERAL_PORT_COUNT \<Longrightarrow> unat (IndexToPort index) = EPHEMERAL_PORT_MIN + index"
  unfolding IndexToPort_def EPHEMERAL_PORT_COUNT_eq
  by (simp add: unat_of_nat EPHEMERAL_PORT_MIN_def take_bit_eq_mod del: of_nat_add)

lemma PortToIndex_IndexToPort [simp]:
  "index < EPHEMERAL_PORT_COUNT \<Longrightarrow> PortToIndex (IndexToPort index) = index"
  by (simp add: PortToIndex_def unat_IndexToPort)

lemma IndexToPort_nonzero: "index < EPHEMERAL_PORT_COUNT \<Longrightarrow> IndexToPort index \<noteq> 0"
  using unat_IndexToPort [of index] by (auto simp: EPHEMERAL_PORT_MIN_def)

lemma PortToIndex_inject:
  "PortToIndex a = PortToIndex b \<Longrightarrow> PortToIndex a < EPHEMERAL_PORT_COUNT \<Longrightarrow> a = b"
  by (auto simp: PortToIndex_def word_unat_eq_iff split: if_splits)

section \<open>The allocator contract\<close>

locale port_allocator =
  fixes alloc :: "'p \<Rightarrow> u16 \<times> 'p"
    and release :: "u16 \<Rightarrow> 'p \<Rightarrow> 'p"
    and taken :: "u16 \<Rightarrow> 'p \<Rightarrow> bool"
    and ok :: "'p \<Rightarrow> bool"
  assumes alloc_ok: "ok p \<Longrightarrow> ok (snd (alloc p))"
    and release_ok: "ok p \<Longrightarrow> ok (release q p)"
    and alloc_fresh: "ok p \<Longrightarrow> fst (alloc p) \<noteq> 0 \<Longrightarrow> \<not> taken (fst (alloc p)) p"
    and alloc_marks: "ok p \<Longrightarrow> taken q (snd (alloc p)) \<longleftrightarrow>
          (fst (alloc p) \<noteq> 0 \<and> q = fst (alloc p)) \<or> taken q p"
    and release_marks: "ok p \<Longrightarrow> taken q (release r p) \<longleftrightarrow> q \<noteq> r \<and> taken q p"
begin

fun alloc_many :: "nat \<Rightarrow> 'p \<Rightarrow> u16 list \<times> 'p" where
  "alloc_many 0 p = ([], p)"
| "alloc_many (Suc n) p =
     (let (q, p1) = alloc p; (qs, p2) = alloc_many n p1 in (q # qs, p2))"

lemma alloc_many_ok: "ok p \<Longrightarrow> ok (snd (alloc_many n p))"
  by (induction n arbitrary: p) (auto simp: split_beta Let_def alloc_ok)

lemma alloc_many_fresh:
  "ok p \<Longrightarrow> taken q p \<Longrightarrow> q \<noteq> 0 \<Longrightarrow> q \<notin> set (fst (alloc_many n p))"
proof (induction n arbitrary: p)
  case (Suc n)
  then have "taken q (snd (alloc p))" and "q \<noteq> fst (alloc p)"
    using alloc_marks alloc_fresh by auto
  with Suc show ?case by (simp add: split_beta Let_def alloc_ok)
qed simp

theorem alloc_many_distinct:
  "ok p \<Longrightarrow> distinct (filter (\<lambda>q. q \<noteq> 0) (fst (alloc_many n p)))"
proof (induction n arbitrary: p)
  case (Suc n)
  show ?case
  proof (cases "fst (alloc p) = 0")
    case False
    then have "taken (fst (alloc p)) (snd (alloc p))" using Suc.prems by (simp add: alloc_marks)
    with False Suc show ?thesis
      using alloc_many_fresh [OF alloc_ok [OF Suc.prems]] by (simp add: split_beta Let_def alloc_ok)
  qed (use Suc in \<open>simp add: split_beta Let_def alloc_ok\<close>)
qed simp

lemma release_frees: "ok p \<Longrightarrow> \<not> taken (fst (alloc p)) (release (fst (alloc p)) (snd (alloc p)))"
  by (simp add: release_marks alloc_ok)

end

section \<open>The pool meets the contract\<close>

lemma AllocatePort_cases:
  assumes "pool_inv p"
  obtains (full) "GetBitset pr p = {..<EPHEMERAL_PORT_COUNT}" "AllocatePort pr p = (0, p)"
  | (port) index where "index < EPHEMERAL_PORT_COUNT" "index \<notin> GetBitset pr p"
      "alloc_scan (GetBitset pr p) (get_hint pr p) 0 = Some index"
      "AllocatePort pr p = (IndexToPort index,
         put_hint pr ((index + 1) mod EPHEMERAL_PORT_COUNT)
           (put_bitset pr (insert index (GetBitset pr p)) p))"
proof (cases "alloc_scan (GetBitset pr p) (get_hint pr p) 0")
  case None
  then have "AllocatePort pr p = (0, p)" by (simp add: AllocatePort_def)
  moreover from None have "GetBitset pr p = {..<EPHEMERAL_PORT_COUNT}"
    using alloc_scan_full [OF assms] by blast
  ultimately show ?thesis using full by blast
next
  case (Some index)
  then show ?thesis using port [of index] alloc_scan_Some [OF Some] by (simp add: AllocatePort_def)
qed

lemma pool_inv_init: "pool_inv pool_init"
  by (simp add: pool_inv_def pool_init_def EPHEMERAL_PORT_COUNT_eq)

lemma pool_inv_AllocatePort:
  assumes "pool_inv p" shows "pool_inv (snd (AllocatePort pr p))"
  using assms
proof (cases rule: AllocatePort_cases [of p pr])
  case (port index)
  then show ?thesis
    using assms pool_inv_bitset [OF assms, of pr] by (simp add: pool_inv_put EPHEMERAL_PORT_COUNT_eq)
qed (use assms in simp)

lemma pool_inv_AllocateSpecificPort: "pool_inv p \<Longrightarrow> pool_inv (snd (AllocateSpecificPort port pr p))"
  by (auto simp: AllocateSpecificPort_def Let_def intro!: pool_inv_put dest: pool_inv_bitset)

lemma pool_inv_ReleasePort: "pool_inv p \<Longrightarrow> pool_inv (ReleasePort port pr p)"
  by (auto simp: ReleasePort_def Let_def intro!: pool_inv_put dest: pool_inv_bitset)

lemma pool_inv_ReleaseAll: "pool_inv p \<Longrightarrow> pool_inv (ReleaseAll p)"
  by (simp add: pool_inv_def ReleaseAll_def EPHEMERAL_PORT_COUNT_eq)

lemma IsPortAllocated_AllocatePort:
  assumes "pool_inv p"
  shows "IsPortAllocated q pr (snd (AllocatePort pr p)) \<longleftrightarrow>
     (fst (AllocatePort pr p) \<noteq> 0 \<and> q = fst (AllocatePort pr p)) \<or> IsPortAllocated q pr p"
  using assms
proof (cases rule: AllocatePort_cases [of p pr])
  case (port index)
  then have "PortToIndex q = index \<longleftrightarrow> q = IndexToPort index"
    using PortToIndex_inject [of q "IndexToPort index"] by auto
  with port show ?thesis by (auto simp: IsPortAllocated_def Let_def IndexToPort_nonzero)
qed simp

interpretation pool: port_allocator "AllocatePort pr" "\<lambda>q. ReleasePort q pr"
  "\<lambda>q. IsPortAllocated q pr" pool_inv for pr :: ProtocolType
proof unfold_locales
  fix p :: EphemeralPortPool and q r :: u16
  assume ok: "pool_inv p"
  show "pool_inv (snd (AllocatePort pr p))" using ok by (rule pool_inv_AllocatePort)
  show "pool_inv (ReleasePort q pr p)" using ok by (rule pool_inv_ReleasePort)
  show "IsPortAllocated q pr (snd (AllocatePort pr p)) \<longleftrightarrow>
     (fst (AllocatePort pr p) \<noteq> 0 \<and> q = fst (AllocatePort pr p)) \<or> IsPortAllocated q pr p"
    using ok by (rule IsPortAllocated_AllocatePort)
  show "IsPortAllocated q pr (ReleasePort r pr p) \<longleftrightarrow> q \<noteq> r \<and> IsPortAllocated q pr p"
    using PortToIndex_inject [of q r] by (auto simp: IsPortAllocated_def ReleasePort_def Let_def)
  show "\<not> IsPortAllocated (fst (AllocatePort pr p)) pr p" if "fst (AllocatePort pr p) \<noteq> 0"
    using ok
  proof (cases rule: AllocatePort_cases [of p pr])
    case (port index)
    then show ?thesis by (simp add: IsPortAllocated_def)
  qed (use that in simp)
qed

section \<open>Properties\<close>

text \<open>C14: Allocating a port either reports exhaustion (0), and then every one of the 16384
  ephemeral ports of that protocol is taken and the pool is unchanged, or returns a port of
  49152..65535 that was free, is now taken, and is the first free one in round-robin order from
  the hint; no other port of this protocol and no port of the other pool changes.\<close>

theorem AllocatePort_spec:
  assumes "pool_inv p" and "AllocatePort pr p = (port, p')"
  shows "(port = 0 \<and> p' = p \<and> GetBitset pr p = {..<EPHEMERAL_PORT_COUNT}) \<or>
     (49152 \<le> unat port \<and> \<not> IsPortAllocated port pr p \<and>
      (\<forall>q. IsPortAllocated q pr p' \<longleftrightarrow> q = port \<or> IsPortAllocated q pr p) \<and>
      (\<forall>q pr'. (pr' = Proto_Tcp) \<noteq> (pr = Proto_Tcp) \<longrightarrow>
          IsPortAllocated q pr' p' = IsPortAllocated q pr' p) \<and>
      (\<exists>k < EPHEMERAL_PORT_COUNT. PortToIndex port = (get_hint pr p + k) mod EPHEMERAL_PORT_COUNT \<and>
          (\<forall>j < k. (get_hint pr p + j) mod EPHEMERAL_PORT_COUNT \<in> GetBitset pr p)))"
  using assms(1)
proof (cases rule: AllocatePort_cases [of p pr])
  case (port index)
  from port(4) assms(2) have q: "port = IndexToPort index"
    and p': "p' = put_hint pr ((index + 1) mod EPHEMERAL_PORT_COUNT)
      (put_bitset pr (insert index (GetBitset pr p)) p)" by auto
  have nz: "port \<noteq> 0" using port(1) by (simp add: q IndexToPort_nonzero)
  have fst_snd: "fst (AllocatePort pr p) = port" "snd (AllocatePort pr p) = p'"
    using assms(2) by simp_all
  have "IsPortAllocated r pr p' \<longleftrightarrow> r = port \<or> IsPortAllocated r pr p" for r
    using pool.alloc_marks [OF assms(1), of r pr] nz by (simp add: fst_snd)
  moreover have "\<not> IsPortAllocated port pr p"
    using pool.alloc_fresh [OF assms(1), of pr] nz by (simp add: fst_snd)
  moreover have "IsPortAllocated r pr' p' = IsPortAllocated r pr' p"
    if "(pr' = Proto_Tcp) \<noteq> (pr = Proto_Tcp)" for r pr'
    using that by (simp add: IsPortAllocated_def p' get_bitset_frame)
  moreover have "49152 \<le> unat port"
    using port(1) by (simp add: q unat_IndexToPort EPHEMERAL_PORT_MIN_def)
  moreover have "\<exists>k < EPHEMERAL_PORT_COUNT. PortToIndex port = (get_hint pr p + k) mod EPHEMERAL_PORT_COUNT \<and>
          (\<forall>j < k. (get_hint pr p + j) mod EPHEMERAL_PORT_COUNT \<in> GetBitset pr p)"
    using alloc_scan_Some [OF port(3)] port(1) by (auto simp: q)
  ultimately show ?thesis by blast
qed (use assms(2) in auto)

theorem AllocatePort_spec_witness:
  "pool_inv pool_init \<and> AllocatePort Proto_Udp pool_init = (49152, snd (AllocatePort Proto_Udp pool_init)) \<and>
   IsPortAllocated 49152 Proto_Udp (snd (AllocatePort Proto_Udp pool_init))"
proof -
  have a: "AllocatePort Proto_Udp pool_init = (49152, snd (AllocatePort Proto_Udp pool_init))"
    by (simp add: AllocatePort_def alloc_scan.simps pool_init_def GetBitset_def get_hint_def
        EPHEMERAL_PORT_COUNT_eq IndexToPort_def EPHEMERAL_PORT_MIN_def)
  from AllocatePort_spec [OF pool_inv_init a] a pool_inv_init show ?thesis by auto
qed

text \<open>Any number of successive allocations without a release hands out pairwise different
  ports.\<close>

theorem AllocatePort_never_repeats:
  "pool_inv p \<Longrightarrow>
   distinct (filter (\<lambda>q. q \<noteq> 0) (fst (pool.alloc_many pr n p)))"
  by (rule pool.alloc_many_distinct)

theorem AllocatePort_never_repeats_witness:
  "distinct (filter (\<lambda>q. q \<noteq> 0) (fst (pool.alloc_many Proto_Tcp 100 pool_init)))"
  by (rule AllocatePort_never_repeats [OF pool_inv_init])

text \<open>The pool's operations keep its invariant (bits and hints inside the range), releasing an
  allocated ephemeral port makes exactly that port free again, and reserving a specific port
  succeeds exactly when it is outside the range or free.\<close>

theorem pool_release_reserve:
  assumes "pool_inv p"
  shows "pool_inv (ReleasePort port pr p) \<and> pool_inv (snd (AllocateSpecificPort port pr p)) \<and>
     (IsPortAllocated q pr (ReleasePort port pr p) \<longleftrightarrow> q \<noteq> port \<and> IsPortAllocated q pr p) \<and>
     (fst (AllocateSpecificPort port pr p) \<longleftrightarrow> \<not> IsPortAllocated port pr p) \<and>
     (IsPortAllocated q pr (snd (AllocateSpecificPort port pr p)) \<longleftrightarrow>
        (q = port \<and> 49152 \<le> unat port) \<or> IsPortAllocated q pr p)"
proof (intro conjI)
  show "fst (AllocateSpecificPort port pr p) \<longleftrightarrow> \<not> IsPortAllocated port pr p"
    by (auto simp: AllocateSpecificPort_def IsPortAllocated_def Let_def)
  have "PortToIndex port < EPHEMERAL_PORT_COUNT \<longleftrightarrow> 49152 \<le> unat port"
    using unsigned_less [of port, where ?'a = nat]
    by (auto simp: PortToIndex_def EPHEMERAL_PORT_COUNT_eq EPHEMERAL_PORT_MIN_def)
  then show "IsPortAllocated q pr (snd (AllocateSpecificPort port pr p)) \<longleftrightarrow>
        (q = port \<and> 49152 \<le> unat port) \<or> IsPortAllocated q pr p"
    using PortToIndex_inject [of q port]
    by (auto simp: AllocateSpecificPort_def IsPortAllocated_def Let_def)
qed (use assms pool_inv_ReleasePort pool_inv_AllocateSpecificPort pool.release_marks in auto)

theorem pool_release_reserve_witness:
  "pool_inv pool_init \<and>
   IsPortAllocated 50000 Proto_Udp (snd (AllocateSpecificPort 50000 Proto_Udp pool_init))"
  using pool_release_reserve [OF pool_inv_init, of 50000 Proto_Udp 50000] pool_inv_init by simp

end
