(* ===== verification/Socket_Manager.thy ===== *)
theory Socket_Manager
  imports Proxy_Socket Port_Pool
begin

text \<open>
  The proxy socket manager (\<^verbatim>\<open>bsd/proxy_socket_manager.hpp\<close> and \<^verbatim>\<open>.cpp\<close>): the registry of proxy
  sockets by file descriptor, the port pool, the callbacks towards the tunnel, the routing of incoming
  datagrams and connects, and the ring of datagrams that arrived before their socket was bound.

  The hash map \<^verbatim>\<open>m_sockets\<close> is an association list whose order stands for the iteration order of the
  map; the properties hold for every order. A pointer to a registered socket is its descriptor. A
  callback is a function on the state \<open>'w\<close> of the rest of the program, or \<open>None\<close> for a null pointer.
  The test whether an address belongs to the current session (\<^verbatim>\<open>LdnControl::IsKnownSessionPeerPublic\<close>)
  is the argument \<open>known\<close> of the routing function.
\<close>

section \<open>State\<close>

definition MaxPendingPackets :: nat where "MaxPendingPackets = 16"
definition PendingPayloadMax :: nat where "PendingPayloadMax = 1400"
definition kMaxSockets :: nat where "kMaxSockets = 8"

record PendingPacket =
  pp_source_ip :: u32
  pp_source_port :: u16
  pp_dest_ip :: u32
  pp_dest_port :: u16
  pp_len :: u16
  pp_protocol :: ProtocolType
  pp_data :: bytes

record 'w ProxySocketManager =
  m_sockets :: "(int \<times> ProxySocket) list"
  m_port_pool :: EphemeralPortPool
  m_local_ip :: u32
  m_send_callback :: "'w data_call option"
  m_proxy_connect_callback :: "'w connect_call option"
  m_proxy_connect_reply_callback :: "'w connect_call option"
  m_proxy_disconnect_callback :: "'w connect_call option"
  m_pending_ring :: "PendingPacket list"
  m_pending_head :: nat
  m_pending_tail :: nat
  m_pending_count :: nat

definition zero_PendingPacket :: PendingPacket where
  "zero_PendingPacket = \<lparr>pp_source_ip = 0, pp_source_port = 0, pp_dest_ip = 0, pp_dest_port = 0,
     pp_len = 0, pp_protocol = Proto_Unspecified, pp_data = replicate PendingPayloadMax 0\<rparr>"

definition new_manager :: "'w ProxySocketManager" where
  "new_manager = \<lparr>m_sockets = [], m_port_pool = pool_init, m_local_ip = 0,
     m_send_callback = None, m_proxy_connect_callback = None,
     m_proxy_connect_reply_callback = None, m_proxy_disconnect_callback = None,
     m_pending_ring = replicate MaxPendingPackets zero_PendingPacket,
     m_pending_head = 0, m_pending_tail = 0, m_pending_count = 0\<rparr>"

text \<open>Applying an operation to the socket a pointer refers to.\<close>

definition update_socket :: "int \<Rightarrow> (ProxySocket \<Rightarrow> ProxySocket) \<Rightarrow> (int \<times> ProxySocket) list \<Rightarrow>
    (int \<times> ProxySocket) list" where
  "update_socket fd f = map (\<lambda>(k, s). (k, if k = fd then f s else s))"

definition on_socket :: "int \<Rightarrow> (ProxySocket \<Rightarrow> ProxySocket) \<Rightarrow> 'w ProxySocketManager \<Rightarrow>
    'w ProxySocketManager" where
  "on_socket fd f m = m\<lparr>m_sockets := update_socket fd f (m_sockets m)\<rparr>"

section \<open>Callbacks and outgoing traffic\<close>

definition SetSendCallback :: "'w data_call option \<Rightarrow> 'w ProxySocketManager \<Rightarrow> 'w ProxySocketManager" where
  "SetSendCallback cb m = m\<lparr>m_send_callback := cb\<rparr>"

definition SetProxyConnectCallback ::
    "'w connect_call option \<Rightarrow> 'w ProxySocketManager \<Rightarrow> 'w ProxySocketManager" where
  "SetProxyConnectCallback cb m = m\<lparr>m_proxy_connect_callback := cb\<rparr>"

definition SetProxyConnectReplyCallback ::
    "'w connect_call option \<Rightarrow> 'w ProxySocketManager \<Rightarrow> 'w ProxySocketManager" where
  "SetProxyConnectReplyCallback cb m = m\<lparr>m_proxy_connect_reply_callback := cb\<rparr>"

definition SetProxyDisconnectCallback ::
    "'w connect_call option \<Rightarrow> 'w ProxySocketManager \<Rightarrow> 'w ProxySocketManager" where
  "SetProxyDisconnectCallback cb m = m\<lparr>m_proxy_disconnect_callback := cb\<rparr>"

definition SendProxyData :: "'w ProxySocketManager \<Rightarrow> 'w data_call" where
  "SendProxyData m source_ip sport dest_ip dport pr data w =
     (case m_send_callback m of None \<Rightarrow> (False, w)
      | Some callback \<Rightarrow> callback source_ip sport dest_ip dport pr data w)"

definition SendProxyConnect :: "'w ProxySocketManager \<Rightarrow> 'w connect_call" where
  "SendProxyConnect m source_ip sport dest_ip dport pr w =
     (case m_proxy_connect_callback m of None \<Rightarrow> (False, w)
      | Some callback \<Rightarrow> callback source_ip sport dest_ip dport pr w)"

definition SendProxyConnectReply :: "'w ProxySocketManager \<Rightarrow> 'w connect_call" where
  "SendProxyConnectReply m source_ip sport dest_ip dport pr w =
     (case m_proxy_connect_reply_callback m of None \<Rightarrow> (False, w)
      | Some callback \<Rightarrow> callback source_ip sport dest_ip dport pr w)"

definition SendProxyDisconnect :: "'w ProxySocketManager \<Rightarrow> 'w connect_call" where
  "SendProxyDisconnect m source_ip sport dest_ip dport pr w =
     (case m_proxy_disconnect_callback m of None \<Rightarrow> (False, w)
      | Some callback \<Rightarrow> callback source_ip sport dest_ip dport pr w)"

section \<open>Socket registry\<close>

definition CreateProxySocket :: "int \<Rightarrow> SocketType \<Rightarrow> ProtocolType \<Rightarrow> 'w ProxySocketManager \<Rightarrow>
    int option \<times> 'w ProxySocketManager" where
  "CreateProxySocket fd ty pr m =
     (if map_of (m_sockets m) fd \<noteq> None then (Some fd, m)
      else if length (m_sockets m) \<ge> MAX_PROXY_SOCKETS then (None, m)
      else (Some fd, m\<lparr>m_sockets := m_sockets m @ [(fd, new_ProxySocket ty pr)]\<rparr>))"

definition GetProxySocket :: "int \<Rightarrow> 'w ProxySocketManager \<Rightarrow> ProxySocket option" where
  "GetProxySocket fd m = map_of (m_sockets m) fd"

definition IsProxySocket :: "int \<Rightarrow> 'w ProxySocketManager \<Rightarrow> bool" where
  "IsProxySocket fd m \<longleftrightarrow> map_of (m_sockets m) fd \<noteq> None"

definition CloseProxySocket :: "int \<Rightarrow> 'w ProxySocketManager \<Rightarrow> 'w \<Rightarrow>
    bool \<times> 'w ProxySocketManager \<times> 'w" where
  "CloseProxySocket fd m w =
     (case map_of (m_sockets m) fd of
        None \<Rightarrow> (False, m, w)
      | Some s \<Rightarrow>
          (let port = GetPort (m_local_addr s);
               m1 = (if port \<noteq> 0
                     then m\<lparr>m_port_pool := ReleasePort port (m_protocol s) (m_port_pool m)\<rparr> else m);
               m2 = m1\<lparr>m_sockets := filter (\<lambda>(k, _). k \<noteq> fd) (m_sockets m1)\<rparr>
           in (True, m2, snd (sock_Close (SendProxyDisconnect m2) s w))))"

fun close_each :: "'w connect_call \<Rightarrow> ProxySocket list \<Rightarrow> 'w \<Rightarrow> 'w" where
  "close_each disc [] w = w"
| "close_each disc (s # rest) w = close_each disc rest (snd (sock_Close disc s w))"

definition CloseAllProxySockets :: "'w ProxySocketManager \<Rightarrow> 'w \<Rightarrow> 'w ProxySocketManager \<times> 'w" where
  "CloseAllProxySockets m w =
     (let m1 = m\<lparr>m_sockets := []\<rparr>;
          w1 = close_each (SendProxyDisconnect m1) (map snd (m_sockets m)) w
      in (m1\<lparr>m_port_pool := ReleaseAll (m_port_pool m1)\<rparr>, w1))"

definition Reset :: "'w ProxySocketManager \<Rightarrow> 'w \<Rightarrow> 'w ProxySocketManager \<times> 'w" where
  "Reset m w =
     (let m1 = m\<lparr>m_sockets := []\<rparr>;
          w1 = close_each (SendProxyDisconnect m1) (map snd (m_sockets m)) w
      in (m1\<lparr>m_port_pool := ReleaseAll (m_port_pool m1),
             m_pending_head := 0, m_pending_tail := 0, m_pending_count := 0,
             m_local_ip := 0,
             m_send_callback := None, m_proxy_connect_callback := None,
             m_proxy_connect_reply_callback := None, m_proxy_disconnect_callback := None\<rparr>, w1))"

definition mgr_AllocatePort :: "ProtocolType \<Rightarrow> 'w ProxySocketManager \<Rightarrow> u16 \<times> 'w ProxySocketManager" where
  "mgr_AllocatePort pr m =
     (let (port, p) = AllocatePort pr (m_port_pool m) in (port, m\<lparr>m_port_pool := p\<rparr>))"

definition ReservePort :: "u16 \<Rightarrow> ProtocolType \<Rightarrow> 'w ProxySocketManager \<Rightarrow> bool \<times> 'w ProxySocketManager" where
  "ReservePort port pr m =
     (let (ok, p) = AllocateSpecificPort port pr (m_port_pool m) in (ok, m\<lparr>m_port_pool := p\<rparr>))"

definition mgr_ReleasePort :: "u16 \<Rightarrow> ProtocolType \<Rightarrow> 'w ProxySocketManager \<Rightarrow> 'w ProxySocketManager" where
  "mgr_ReleasePort port pr m = m\<lparr>m_port_pool := ReleasePort port pr (m_port_pool m)\<rparr>"

definition SetLocalIp :: "u32 \<Rightarrow> 'w ProxySocketManager \<Rightarrow> 'w ProxySocketManager" where
  "SetLocalIp ip m = m\<lparr>m_local_ip := ip\<rparr>"

definition GetLocalIp :: "'w ProxySocketManager \<Rightarrow> u32" where
  "GetLocalIp m = m_local_ip m"

definition GetActiveSocketCount :: "'w ProxySocketManager \<Rightarrow> nat" where
  "GetActiveSocketCount m = length (m_sockets m)"

definition GetAvailablePortCount :: "ProtocolType \<Rightarrow> 'w ProxySocketManager \<Rightarrow> nat" where
  "GetAvailablePortCount pr m = GetAvailableCount pr (m_port_pool m)"

section \<open>Connection routing\<close>

definition response_matches :: "ProxyConnectInfo \<Rightarrow> ProxySocket \<Rightarrow> bool" where
  "response_matches r s \<longleftrightarrow> m_state s = Connecting \<and>
     GetAddr (m_local_addr s) = source_ipv4 r \<and> GetPort (m_local_addr s) = source_port r"

definition RouteConnectResponse :: "ProxyConnectInfo \<Rightarrow> 'w ProxySocketManager \<Rightarrow>
    bool \<times> 'w ProxySocketManager" where
  "RouteConnectResponse r m =
     (case find (\<lambda>(_, s). response_matches r s) (m_sockets m) of
        None \<Rightarrow> (False, m)
      | Some (fd, _) \<Rightarrow> (True, on_socket fd (sock_HandleConnectResponse r) m))"

definition request_matches :: "ProxyConnectInfo \<Rightarrow> ProxySocket \<Rightarrow> bool" where
  "request_matches r s \<longleftrightarrow> m_state s = Listening \<and> m_protocol s = Proto_Tcp \<and>
     GetPort (m_local_addr s) = dest_port r \<and>
     (GetAddr (m_local_addr s) = 0 \<or> GetAddr (m_local_addr s) = dest_ipv4 r)"

definition RouteConnectRequest :: "ProxyConnectInfo \<Rightarrow> 'w ProxySocketManager \<Rightarrow> 'w \<Rightarrow>
    bool \<times> 'w ProxySocketManager \<times> 'w" where
  "RouteConnectRequest r m w =
     (case find (\<lambda>(_, s). request_matches r s) (m_sockets m) of
        None \<Rightarrow> (False, m, w)
      | Some (fd, s) \<Rightarrow>
          (let (s', w') = sock_IncomingConnection (SendProxyConnectReply m) r s w
           in (True, on_socket fd (\<lambda>_. s') m, w')))"

section \<open>Data routing\<close>

definition is_broadcast :: "u32 \<Rightarrow> bool" where
  "is_broadcast dest_ip \<longleftrightarrow> dest_ip AND 0x000000FF = 0x000000FF \<or> dest_ip AND 0x0000FFFF = 0x0000FFFF"

definition dest_matches :: "u32 \<Rightarrow> u16 \<Rightarrow> ProtocolType \<Rightarrow> ProxySocket \<Rightarrow> bool" where
  "dest_matches dest_ip dport pr s \<longleftrightarrow> m_protocol s = pr \<and> GetPort (m_local_addr s) = dport \<and>
     (let local_ip = Numeric (Addr (m_local_addr s))
      in local_ip = 0 \<or> local_ip = dest_ip \<or> is_broadcast dest_ip)"

definition FindSocketByDestination :: "u32 \<Rightarrow> u16 \<Rightarrow> ProtocolType \<Rightarrow> 'w ProxySocketManager \<Rightarrow> int option" where
  "FindSocketByDestination dest_ip dport pr m =
     map_option fst (find (\<lambda>(_, s). dest_matches dest_ip dport pr s) (m_sockets m))"

fun find_all_loop :: "(ProxySocket \<Rightarrow> bool) \<Rightarrow> nat \<Rightarrow> (int \<times> ProxySocket) list \<Rightarrow> int list \<Rightarrow> int list" where
  "find_all_loop matches max_sockets [] out_sockets = out_sockets"
| "find_all_loop matches max_sockets ((fd, s) # rest) out_sockets =
     (if length out_sockets \<ge> max_sockets then out_sockets
      else if matches s then find_all_loop matches max_sockets rest (out_sockets @ [fd])
      else find_all_loop matches max_sockets rest out_sockets)"

definition FindAllSocketsByDestination :: "u32 \<Rightarrow> u16 \<Rightarrow> ProtocolType \<Rightarrow> nat \<Rightarrow>
    'w ProxySocketManager \<Rightarrow> int list" where
  "FindAllSocketsByDestination dest_ip dport pr max_sockets m =
     find_all_loop (dest_matches dest_ip dport pr) max_sockets (m_sockets m) []"

definition route_from_addr :: "netmap \<Rightarrow> u32 \<Rightarrow> u16 \<Rightarrow> SockAddrIn" where
  "route_from_addr g source_ip sport =
     (let vis = (if IsLanModePort sport then VirtualToGame g source_ip else source_ip)
      in SetAddr (FromNumeric vis) (inet_any\<lparr>sin_port := bswap16 sport\<rparr>))"

definition fill_pending :: "u32 \<Rightarrow> u16 \<Rightarrow> u32 \<Rightarrow> u16 \<Rightarrow> ProtocolType \<Rightarrow> bytes option \<Rightarrow> nat \<Rightarrow>
    PendingPacket \<Rightarrow> PendingPacket" where
  "fill_pending source_ip sport dest_ip dport pr data data_len slot =
     (let copy_len = min data_len PendingPayloadMax
      in \<lparr>pp_source_ip = source_ip, pp_source_port = sport, pp_dest_ip = dest_ip,
          pp_dest_port = dport, pp_len = of_nat copy_len, pp_protocol = pr,
          pp_data = (case data of None \<Rightarrow> pp_data slot
            | Some d \<Rightarrow> memcpy (pp_data slot) (take copy_len d))\<rparr>)"

definition buffer_pending :: "u32 \<Rightarrow> u16 \<Rightarrow> u32 \<Rightarrow> u16 \<Rightarrow> ProtocolType \<Rightarrow> bytes option \<Rightarrow> nat \<Rightarrow>
    'w ProxySocketManager \<Rightarrow> 'w ProxySocketManager" where
  "buffer_pending source_ip sport dest_ip dport pr data data_len m =
     (let m1 = (if m_pending_count m \<ge> MaxPendingPackets
                then m\<lparr>m_pending_head := (m_pending_head m + 1) mod MaxPendingPackets,
                       m_pending_count := m_pending_count m - 1\<rparr>
                else m)
      in m1\<lparr>m_pending_ring := (m_pending_ring m1)[m_pending_tail m1 :=
                fill_pending source_ip sport dest_ip dport pr data data_len
                  (m_pending_ring m1 ! m_pending_tail m1)],
            m_pending_tail := (m_pending_tail m1 + 1) mod MaxPendingPackets,
            m_pending_count := m_pending_count m1 + 1\<rparr>)"

definition RouteIncomingData :: "(u32 \<Rightarrow> bool) \<Rightarrow> netmap \<Rightarrow> u32 \<Rightarrow> u16 \<Rightarrow> u32 \<Rightarrow> u16 \<Rightarrow> ProtocolType \<Rightarrow>
    bytes option \<Rightarrow> nat \<Rightarrow> 'w ProxySocketManager \<Rightarrow> bool \<times> 'w ProxySocketManager" where
  "RouteIncomingData known g source_ip sport dest_ip dport pr data data_len m =
     (if \<not> IsLanModePort dport \<and> \<not> known source_ip then (False, m)
      else
        (let targets = FindAllSocketsByDestination dest_ip dport pr kMaxSockets m
         in if targets = [] then
              (False, buffer_pending source_ip sport dest_ip dport pr data data_len m)
            else
              (True, fold (\<lambda>fd. on_socket fd
                 (sock_IncomingData data data_len (route_from_addr g source_ip sport))) targets m)))"

section \<open>Pending packets\<close>

definition pending_matches :: "u16 \<Rightarrow> ProtocolType \<Rightarrow> PendingPacket \<Rightarrow> bool" where
  "pending_matches port pr pkt \<longleftrightarrow> pp_protocol pkt = pr \<and> pp_dest_port pkt = port"

definition deliver_pending :: "netmap \<Rightarrow> PendingPacket \<Rightarrow> ProxySocket \<Rightarrow> ProxySocket" where
  "deliver_pending g pkt =
     sock_IncomingData (Some (pp_data pkt)) (unat (pp_len pkt))
       (route_from_addr g (pp_source_ip pkt) (pp_source_port pkt))"

fun deliver_loop :: "netmap \<Rightarrow> u16 \<Rightarrow> ProtocolType \<Rightarrow> PendingPacket list \<Rightarrow> nat \<Rightarrow> nat \<Rightarrow> nat \<Rightarrow> nat \<Rightarrow>
    ProxySocket \<Rightarrow> PendingPacket list \<times> nat \<times> nat \<times> ProxySocket" where
  "deliver_loop g port pr slots read_idx write_idx 0 kept s = (slots, write_idx, kept, s)"
| "deliver_loop g port pr slots read_idx write_idx (Suc remaining) kept s =
     (let pkt = slots ! read_idx;
          read_idx' = (read_idx + 1) mod MaxPendingPackets
      in if pending_matches port pr pkt
         then deliver_loop g port pr slots read_idx' write_idx remaining kept (deliver_pending g pkt s)
         else deliver_loop g port pr
                (if write_idx \<noteq> read_idx then slots[write_idx := pkt] else slots)
                read_idx' ((write_idx + 1) mod MaxPendingPackets) remaining (kept + 1) s)"

definition DeliverPendingPackets :: "netmap \<Rightarrow> int option \<Rightarrow> u16 \<Rightarrow> ProtocolType \<Rightarrow>
    'w ProxySocketManager \<Rightarrow> 'w ProxySocketManager" where
  "DeliverPendingPackets g sock port pr m =
     (case Option.bind sock (\<lambda>fd. map_option (Pair fd) (map_of (m_sockets m) fd)) of
        None \<Rightarrow> m
      | Some (fd, s) \<Rightarrow>
          if m_pending_count m = 0 then m
          else (let (slots, write_idx, kept, s') = deliver_loop g port pr (m_pending_ring m)
                      (m_pending_head m) (m_pending_head m) (m_pending_count m) 0 s
                in (on_socket fd (\<lambda>_. s') m)\<lparr>m_pending_ring := slots,
                     m_pending_tail := write_idx, m_pending_count := kept\<rparr>))"

section \<open>The pending ring\<close>

type_synonym pending_view = "u32 \<times> u16 \<times> u32 \<times> u16 \<times> ProtocolType \<times> bytes"

definition pend_view :: "PendingPacket \<Rightarrow> pending_view" where
  "pend_view p = (pp_source_ip p, pp_source_port p, pp_dest_ip p, pp_dest_port p, pp_protocol p,
     take (unat (pp_len p)) (pp_data p))"

definition pend_seen :: "pending_view \<Rightarrow> pending_view" where
  "pend_seen m = (case m of (sip, sport, dip, dport, pr, d) \<Rightarrow>
     (sip, sport, dip, dport, pr, take PendingPayloadMax d))"

definition pend_store :: "pending_view \<Rightarrow> PendingPacket \<Rightarrow> PendingPacket" where
  "pend_store m e = (case m of (sip, sport, dip, dport, pr, d) \<Rightarrow>
     fill_pending sip sport dip dport pr (Some d) (length d) e)"

definition pend_push :: "pending_view \<Rightarrow> 'w ProxySocketManager \<Rightarrow> 'w ProxySocketManager" where
  "pend_push m s = (case m of (sip, sport, dip, dport, pr, d) \<Rightarrow>
     buffer_pending sip sport dip dport pr (Some d) (length d) s)"

lemma unat_pending_clamp: "unat (of_nat (min n PendingPayloadMax) :: u16) = min n PendingPayloadMax"
proof -
  have "min n PendingPayloadMax < 2 ^ 16" by (simp add: PendingPayloadMax_def min_less_iff_disj)
  then show ?thesis by (simp add: unat_of_nat take_bit_nat_eq_self)
qed

lemma take_min_length: "take (min (length d) n) d = take n d"
  by (cases "length d \<le> n") auto

lemma view_pend_store: "pend_view (pend_store m e) = pend_seen m"
  by (cases m) (simp add: pend_view_def pend_store_def pend_seen_def fill_pending_def Let_def
      unat_pending_clamp memcpy_def take_min_length)

interpretation pend: ring MaxPendingPackets m_pending_ring m_pending_head m_pending_tail m_pending_count
  pend_store pend_view pend_seen pend_push
  by unfold_locales
    (simp_all add: view_pend_store MaxPendingPackets_def,
      auto simp: pend_push_def pend_store_def buffer_pending_def Let_def MaxPendingPackets_def
        split: prod.splits)

abbreviation pend_queue :: "'w ProxySocketManager \<Rightarrow> pending_view list" where
  "pend_queue \<equiv> pend.contents"

lemma ring_contents_behind:
  assumes "length slots = N" and "kept \<le> i" and "i + Suc n \<le> N"
  shows "ring_contents v (slots[(head + kept) mod N := x]) ((head + Suc i) mod N) n = ring_contents v slots ((head + Suc i) mod N) n"
proof (rule ring_contents_frame)
  fix j assume "j < n"
  then have "kept < Suc i + j" "Suc i + j < N" using assms(2,3) by simp_all
  from mod_add_neq [OF this, of head]
  show "((head + Suc i) mod N + j) mod length slots \<noteq> (head + kept) mod N"
    by (metis assms(1) mod_add_left_eq add.assoc)
qed

lemma deliver_loop_spec:
  assumes "length slots = MaxPendingPackets" and "kept \<le> i" and "i + remaining \<le> MaxPendingPackets"
    and "deliver_loop g port pr slots ((head + i) mod MaxPendingPackets)
      ((head + kept) mod MaxPendingPackets) remaining kept s = (slots', wr', kept', s')"
  shows "length slots' = MaxPendingPackets \<and> kept' \<le> kept + remaining \<and>
     wr' = (head + kept') mod MaxPendingPackets \<and>
     (set slots \<subseteq> A \<longrightarrow> set slots' \<subseteq> A) \<and>
     ring_contents (\<lambda>x. x) slots' head kept' = ring_contents (\<lambda>x. x) slots head kept @
       filter (\<lambda>p. \<not> pending_matches port pr p)
         (ring_contents (\<lambda>x. x) slots ((head + i) mod MaxPendingPackets) remaining) \<and>
     s' = fold (deliver_pending g) (filter (pending_matches port pr)
         (ring_contents (\<lambda>x. x) slots ((head + i) mod MaxPendingPackets) remaining)) s"
  using assms
proof (induction remaining arbitrary: slots i kept s)
  case 0
  then show ?case by auto
next
  case (Suc n)
  let ?rd = "(head + i) mod MaxPendingPackets" and ?wr = "(head + kept) mod MaxPendingPackets"
  let ?pkt = "slots ! ?rd"
  have len: "length slots = MaxPendingPackets" and pos: "0 < MaxPendingPackets"
    using Suc.prems by simp_all
  have rd: "(?rd + 1) mod MaxPendingPackets = (head + Suc i) mod MaxPendingPackets"
    by (simp add: mod_Suc_eq)
  have split: "ring_contents (\<lambda>x. x) slots ?rd (Suc n) =
      ?pkt # ring_contents (\<lambda>x. x) slots ((head + Suc i) mod MaxPendingPackets) n"
    using ring_contents_Suc [of "\<lambda>x. x" slots ?rd n] by (simp add: len mod_Suc_eq)
  show ?case
  proof (cases "pending_matches port pr ?pkt")
    case True
    have "deliver_loop g port pr slots ((head + Suc i) mod MaxPendingPackets) ?wr n kept
        (deliver_pending g ?pkt s) = (slots', wr', kept', s')"
      using Suc.prems(4) True rd by (simp add: Let_def)
    from Suc.IH [OF len _ _ this] Suc.prems(2,3) True show ?thesis
      by (auto simp: split)
  next
    case False
    let ?sl = "slots[?wr := ?pkt]"
    have upd: "(if ?wr \<noteq> ?rd then ?sl else slots) = ?sl" by simp
    have "?rd < length slots" using len pos by simp
    then have sub: "set slots \<subseteq> A \<Longrightarrow> set ?sl \<subseteq> A"
      using set_update_subset_insert [of slots ?wr ?pkt] nth_mem [of ?rd slots] by blast
    have wr: "(?wr + 1) mod MaxPendingPackets = (head + Suc kept) mod MaxPendingPackets"
      by (simp add: mod_Suc_eq)
    have run: "deliver_loop g port pr ?sl ((head + Suc i) mod MaxPendingPackets)
        ((head + Suc kept) mod MaxPendingPackets) n (Suc kept) s = (slots', wr', kept', s')"
      using Suc.prems(4) False rd wr unfolding deliver_loop.simps Let_def upd by simp
    have kept_part: "ring_contents (\<lambda>x. x) ?sl head (Suc kept) = ring_contents (\<lambda>x. x) slots head kept @ [?pkt]"
      using ring_contents_write [of kept slots "\<lambda>x. x" head ?pkt] Suc.prems(2,3) len by simp
    note rest = ring_contents_behind [OF len Suc.prems(2,3), of "\<lambda>x. x" head ?pkt]
    have "length ?sl = MaxPendingPackets" "Suc kept \<le> Suc i" "Suc i + n \<le> MaxPendingPackets"
      using Suc.prems(2,3) len by simp_all
    from Suc.IH [OF this run] show ?thesis
      using False sub unfolding kept_part rest split by auto
  qed
qed

section \<open>Well-formed managers\<close>

definition pslot_wf :: "PendingPacket \<Rightarrow> bool" where
  "pslot_wf p \<longleftrightarrow> length (pp_data p) = PendingPayloadMax \<and> unat (pp_len p) \<le> PendingPayloadMax"

definition mgr_wf :: "'w ProxySocketManager \<Rightarrow> bool" where
  "mgr_wf m \<longleftrightarrow> distinct (map fst (m_sockets m)) \<and> length (m_sockets m) \<le> MAX_PROXY_SOCKETS \<and>
     (\<forall>s \<in> snd ` set (m_sockets m). sock_wf s) \<and> pool_inv (m_port_pool m) \<and>
     pend.wf m \<and> (\<forall>p \<in> set (m_pending_ring m). pslot_wf p)"

lemma fst_update_socket [simp]: "map fst (update_socket fd f xs) = map fst xs"
  by (induction xs) (auto simp: update_socket_def)

lemma length_update_socket [simp]: "length (update_socket fd f xs) = length xs"
  by (simp add: update_socket_def)

lemma map_of_update_socket:
  "map_of (update_socket fd f xs) k = (if k = fd then map_option f (map_of xs k) else map_of xs k)"
  by (induction xs) (auto simp: update_socket_def)

lemma pend_frame:
  "m_pending_ring m' = m_pending_ring m \<Longrightarrow> m_pending_head m' = m_pending_head m \<Longrightarrow>
   m_pending_tail m' = m_pending_tail m \<Longrightarrow> m_pending_count m' = m_pending_count m \<Longrightarrow>
     pend.wf m' = pend.wf m \<and> pend_queue m' = pend_queue m"
  by (simp add: pend.wf_def pend.contents_def)

lemma pend_on_socket [simp]:
  "pend.wf (on_socket fd f m) = pend.wf m" "pend_queue (on_socket fd f m) = pend_queue m"
  using pend_frame [of "on_socket fd f m" m] by (simp_all add: on_socket_def)

lemma mgr_wf_new: "mgr_wf new_manager"
  by (simp add: mgr_wf_def new_manager_def pool_inv_init pend.wf_def ring_wf_def pend.cap_pos
      pslot_wf_def zero_PendingPacket_def)

lemma mgr_wf_on_socket:
  assumes "mgr_wf m" and "\<And>s. sock_wf s \<Longrightarrow> sock_wf (f s)"
  shows "mgr_wf (on_socket fd f m)"
proof -
  have "\<forall>s \<in> snd ` set (update_socket fd f (m_sockets m)). sock_wf s"
    using assms by (auto simp: mgr_wf_def update_socket_def)
  moreover have "pend.wf (on_socket fd f m)" using assms(1) by (simp add: mgr_wf_def)
  ultimately show ?thesis using assms(1) by (simp add: mgr_wf_def) (simp add: on_socket_def)
qed

lemma mgr_wf_lookup: "mgr_wf m \<Longrightarrow> map_of (m_sockets m) fd = Some s \<Longrightarrow> sock_wf s"
  by (force simp: mgr_wf_def dest: map_of_SomeD)

lemma mgr_wf_frame:
  assumes "mgr_wf m" and "m_sockets m' = m_sockets m" and "pool_inv (m_port_pool m')"
    and "m_pending_ring m' = m_pending_ring m" "m_pending_head m' = m_pending_head m"
    "m_pending_tail m' = m_pending_tail m" "m_pending_count m' = m_pending_count m"
  shows "mgr_wf m'"
  using assms pend_frame [of m' m] by (simp add: mgr_wf_def)

lemma mgr_wf_pool: "mgr_wf m \<Longrightarrow> pool_inv (m_port_pool m)"
  by (simp add: mgr_wf_def)

lemma mgr_wf_pend: "mgr_wf m \<Longrightarrow> pend.wf m"
  by (simp add: mgr_wf_def)

lemma mgr_wf_Create: "mgr_wf m \<Longrightarrow> mgr_wf (snd (CreateProxySocket fd ty pr m))"
  using pend_frame [of "m\<lparr>m_sockets := m_sockets m @ [(fd, new_ProxySocket ty pr)]\<rparr>" m]
  by (auto simp: CreateProxySocket_def mgr_wf_def sock_wf_new map_of_eq_None_iff)

lemma mgr_wf_clear_sockets:
  assumes "mgr_wf m" and "set xs \<subseteq> set (m_sockets m)" "distinct (map fst xs)" "length xs \<le> length (m_sockets m)"
    and "pool_inv p"
  shows "mgr_wf (m\<lparr>m_port_pool := p, m_sockets := xs\<rparr>)"
  using assms pend_frame [of "m\<lparr>m_port_pool := p, m_sockets := xs\<rparr>" m]
  by (auto simp: mgr_wf_def)

lemma mgr_wf_Close:
  assumes "mgr_wf m" shows "mgr_wf (fst (snd (CloseProxySocket fd m w)))"
proof (cases "map_of (m_sockets m) fd")
  case (Some s)
  let ?xs = "filter (\<lambda>(k, _). k \<noteq> fd) (m_sockets m)"
  let ?p = "if GetPort (m_local_addr s) \<noteq> 0
    then ReleasePort (GetPort (m_local_addr s)) (m_protocol s) (m_port_pool m) else m_port_pool m"
  have "fst (snd (CloseProxySocket fd m w)) = m\<lparr>m_port_pool := ?p, m_sockets := ?xs\<rparr>"
    using Some by (simp add: CloseProxySocket_def Let_def)
  moreover have "mgr_wf (m\<lparr>m_port_pool := ?p, m_sockets := ?xs\<rparr>)"
    using assms
    by (intro mgr_wf_clear_sockets)
      (auto simp: mgr_wf_def pool_inv_ReleasePort distinct_map_filter)
  ultimately show ?thesis by simp
qed (use assms in \<open>simp add: CloseProxySocket_def\<close>)

lemma mgr_wf_CloseAll: "mgr_wf m \<Longrightarrow> mgr_wf (fst (CloseAllProxySockets m w))"
  using pend_frame [of "m\<lparr>m_sockets := [], m_port_pool := ReleaseAll (m_port_pool m)\<rparr>" m]
  by (simp add: CloseAllProxySockets_def Let_def mgr_wf_def pool_inv_ReleaseAll)

lemma mgr_wf_Reset: "mgr_wf m \<Longrightarrow> mgr_wf (fst (Reset m w))"
  by (auto simp: Reset_def Let_def mgr_wf_def pend.wf_def ring_wf_def pool_inv_ReleaseAll)

lemma mgr_wf_set_pool: "mgr_wf m \<Longrightarrow> pool_inv p \<Longrightarrow> mgr_wf (m\<lparr>m_port_pool := p\<rparr>)"
  by (rule mgr_wf_frame) simp_all

lemma mgr_wf_ports:
  assumes "mgr_wf m"
  shows "mgr_wf (snd (mgr_AllocatePort pr m))" "mgr_wf (snd (ReservePort port pr m))"
    "mgr_wf (mgr_ReleasePort port pr m)"
  using assms mgr_wf_pool [OF assms]
  by (auto simp: mgr_AllocatePort_def ReservePort_def mgr_ReleasePort_def split_beta
      pool_inv_AllocatePort pool_inv_AllocateSpecificPort pool_inv_ReleasePort mgr_wf_set_pool)

lemma mgr_wf_RouteConnectResponse: "mgr_wf m \<Longrightarrow> mgr_wf (snd (RouteConnectResponse r m))"
  by (auto simp: RouteConnectResponse_def intro: mgr_wf_on_socket sock_wf_HandleConnectResponse
      split: option.splits)

lemma find_socket_lookup:
  assumes "distinct (map fst xs)" and "find (\<lambda>(_, s). P s) xs = Some (fd, s)"
  shows "map_of xs fd = Some s \<and> P s"
proof -
  from assms(2) have "(fd, s) \<in> set xs" "P s" by (auto simp: find_Some_iff in_set_conv_nth)
  with assms(1) show ?thesis by (simp add: map_of_eq_Some_iff)
qed

lemma mgr_wf_RouteConnectRequest:
  assumes "mgr_wf m" shows "mgr_wf (fst (snd (RouteConnectRequest r m w)))"
proof (cases "find (\<lambda>(_, s). request_matches r s) (m_sockets m)")
  case (Some fs)
  obtain fd s where fs: "fs = (fd, s)" by (cases fs)
  then have "sock_wf s"
    using Some assms find_socket_lookup [of "m_sockets m" "request_matches r" fd s] mgr_wf_lookup
    by (auto simp: mgr_wf_def)
  then show ?thesis
    using Some fs assms
    by (auto simp: RouteConnectRequest_def split_beta Let_def sock_wf_IncomingConnection
        intro: mgr_wf_on_socket)
qed (use assms in \<open>simp add: RouteConnectRequest_def\<close>)

lemma pslot_wf_fill: "pslot_wf p \<Longrightarrow> pslot_wf (fill_pending sip sport dip dport pr data n p)"
  by (auto simp: pslot_wf_def fill_pending_def Let_def unat_pending_clamp split: option.splits)

lemma mgr_wf_buffer:
  assumes "mgr_wf m" shows "mgr_wf (buffer_pending sip sport dip dport pr data n m)"
proof -
  let ?m = "buffer_pending sip sport dip dport pr data n m"
  have wf: "pend.wf ?m"
    using pend.wf_push [of m "(sip, sport, dip, dport, pr, [])"] assms
    unfolding pend.wf_def mgr_wf_def pend_push_def buffer_pending_def Let_def ring_wf_def by simp
  have "m_pending_tail m < length (m_pending_ring m)"
    using assms pend.cap_pos by (auto simp: mgr_wf_def pend.wf_def ring_wf_def)
  then have "pslot_wf (fill_pending sip sport dip dport pr data n (m_pending_ring m ! m_pending_tail m))"
    using assms by (intro pslot_wf_fill) (auto simp: mgr_wf_def)
  moreover have "set (m_pending_ring ?m) \<subseteq> insert (fill_pending sip sport dip dport pr data n
      (m_pending_ring m ! m_pending_tail m)) (set (m_pending_ring m))"
    by (simp add: buffer_pending_def Let_def set_update_subset_insert)
  ultimately have "\<forall>p \<in> set (m_pending_ring ?m). pslot_wf p" using assms by (auto simp: mgr_wf_def)
  with wf assms show ?thesis by (simp add: mgr_wf_def) (simp add: buffer_pending_def Let_def)
qed

lemma mgr_wf_fold_sockets:
  assumes "mgr_wf m" and "\<And>s. sock_wf s \<Longrightarrow> sock_wf (f s)"
  shows "mgr_wf (fold (\<lambda>fd. on_socket fd f) targets m)"
  using assms(1) by (induction targets arbitrary: m) (auto intro: mgr_wf_on_socket assms(2))

lemma mgr_wf_RouteIncomingData:
  "mgr_wf m \<Longrightarrow> mgr_wf (snd (RouteIncomingData known g sip sport dip dport pr data n m))"
  by (auto simp: RouteIncomingData_def Let_def mgr_wf_buffer
      intro: mgr_wf_fold_sockets sock_wf_IncomingData)

lemma sock_wf_fold_deliver: "sock_wf s \<Longrightarrow> sock_wf (fold (deliver_pending g) ps s)"
  by (induction ps arbitrary: s) (auto simp: deliver_pending_def sock_wf_IncomingData)

lemma update_socket_same:
  assumes "mgr_wf m" and "map_of (m_sockets m) fd = Some s"
  shows "update_socket fd (\<lambda>_. s) (m_sockets m) = m_sockets m"
proof -
  have "(k, t) \<in> set (m_sockets m) \<Longrightarrow> k = fd \<Longrightarrow> t = s" for k t
    using assms by (auto simp: mgr_wf_def dest: map_of_is_SomeI)
  then show ?thesis unfolding update_socket_def by (intro map_idI) auto
qed

lemma deliver_state:
  assumes "mgr_wf m" and "map_of (m_sockets m) fd = Some s"
    and "DeliverPendingPackets g (Some fd) port pr m = m'"
  defines "raw \<equiv> ring_contents (\<lambda>x. x) (m_pending_ring m) (m_pending_head m) (m_pending_count m)"
  shows "m_sockets m' = update_socket fd
       (\<lambda>_. fold (deliver_pending g) (filter (pending_matches port pr) raw) s) (m_sockets m)"
    and "pend_queue m' = map pend_view (filter (\<lambda>p. \<not> pending_matches port pr p) raw)"
    and "pend.wf m' \<and> (\<forall>p \<in> set (m_pending_ring m'). pslot_wf p) \<and> m_port_pool m' = m_port_pool m"
proof -
  note upd_same = update_socket_same [OF assms(1,2)]
  have wf: "ring_wf MaxPendingPackets (m_pending_ring m) (m_pending_head m) (m_pending_tail m) (m_pending_count m)"
    using assms(1) by (simp add: mgr_wf_def pend.wf_def)
  have "m_sockets m' = update_socket fd
       (\<lambda>_. fold (deliver_pending g) (filter (pending_matches port pr) raw) s) (m_sockets m) \<and>
     pend_queue m' = map pend_view (filter (\<lambda>p. \<not> pending_matches port pr p) raw) \<and>
     pend.wf m' \<and> (\<forall>p \<in> set (m_pending_ring m'). pslot_wf p) \<and> m_port_pool m' = m_port_pool m"
  proof (cases "m_pending_count m = 0")
    case True
    then have eq: "m' = m" and nil: "raw = []" "pend_queue m = []"
      using assms(2,3) by (auto simp: DeliverPendingPackets_def raw_def pend.contents_def)
    show ?thesis unfolding eq nil using assms(1) by (simp add: upd_same mgr_wf_def)
  next
    case False
    obtain slots wr kept s' where dl: "deliver_loop g port pr (m_pending_ring m) (m_pending_head m)
        (m_pending_head m) (m_pending_count m) 0 s = (slots, wr, kept, s')"
      by (metis prod_cases4)
    have "(m_pending_head m + 0) mod MaxPendingPackets = m_pending_head m"
      using wf by (simp add: ring_wf_def)
    then have dl0: "deliver_loop g port pr (m_pending_ring m) ((m_pending_head m + 0) mod MaxPendingPackets)
        ((m_pending_head m + 0) mod MaxPendingPackets) (m_pending_count m) 0 s = (slots, wr, kept, s')"
      using dl by presburger
    have "length (m_pending_ring m) = MaxPendingPackets" "(0::nat) \<le> 0" "0 + m_pending_count m \<le> MaxPendingPackets"
      using wf by (simp_all add: ring_wf_def)
    from deliver_loop_spec [OF this dl0, of "Collect pslot_wf"]
    have spec: "length slots = MaxPendingPackets" "kept \<le> m_pending_count m"
      "wr = (m_pending_head m + kept) mod MaxPendingPackets"
      "set (m_pending_ring m) \<subseteq> Collect pslot_wf \<longrightarrow> set slots \<subseteq> Collect pslot_wf"
      "ring_contents (\<lambda>x. x) slots (m_pending_head m) kept = filter (\<lambda>p. \<not> pending_matches port pr p) raw"
      "s' = fold (deliver_pending g) (filter (pending_matches port pr) raw) s"
      using wf by (simp_all add: raw_def ring_wf_def)
    have m': "m' = (on_socket fd (\<lambda>_. s') m)\<lparr>m_pending_ring := slots, m_pending_tail := wr,
        m_pending_count := kept\<rparr>"
      using assms(2,3) False dl by (simp add: DeliverPendingPackets_def)
    show ?thesis
      using spec wf assms(1)
      by (auto simp: m' on_socket_def pend.contents_def pend.wf_def ring_wf_def mgr_wf_def
          ring_contents_map [of pend_view])
  qed
  then show "m_sockets m' = update_socket fd
       (\<lambda>_. fold (deliver_pending g) (filter (pending_matches port pr) raw) s) (m_sockets m)"
    and "pend_queue m' = map pend_view (filter (\<lambda>p. \<not> pending_matches port pr p) raw)"
    and "pend.wf m' \<and> (\<forall>p \<in> set (m_pending_ring m'). pslot_wf p) \<and> m_port_pool m' = m_port_pool m"
    by blast+
qed

lemma mgr_wf_Deliver:
  assumes "mgr_wf m" shows "mgr_wf (DeliverPendingPackets g sock port pr m)"
proof (cases "Option.bind sock (\<lambda>fd. map_option (Pair fd) (map_of (m_sockets m) fd))")
  case None
  with assms show ?thesis by (simp add: DeliverPendingPackets_def)
next
  case (Some fs)
  then obtain fd s where fd: "sock = Some fd" "map_of (m_sockets m) fd = Some s"
    by (auto simp: bind_eq_Some_conv)
  note d = deliver_state [OF assms fd(2) refl, of g port pr]
  have "sock_wf s" using mgr_wf_lookup [OF assms fd(2)] .
  then have "\<forall>t \<in> snd ` set (m_sockets (DeliverPendingPackets g sock port pr m)). sock_wf t"
    using assms unfolding fd(1) d(1)
    by (auto simp: update_socket_def mgr_wf_def sock_wf_fold_deliver)
  with d(1,3) assms show ?thesis by (simp add: mgr_wf_def fd(1))
qed

section \<open>Runs of the manager\<close>

inductive mgr_run :: "'w ProxySocketManager \<Rightarrow> bool" where
  start: "mgr_run new_manager"
| create: "mgr_run m \<Longrightarrow> mgr_run (snd (CreateProxySocket fd ty pr m))"
| socket: "mgr_run m \<Longrightarrow> map_of (m_sockets m) fd = Some s \<Longrightarrow> sock_run s s' \<Longrightarrow>
     mgr_run (on_socket fd (\<lambda>_. s') m)"
| close: "mgr_run m \<Longrightarrow> mgr_run (fst (snd (CloseProxySocket fd m w)))"
| close_all: "mgr_run m \<Longrightarrow> mgr_run (fst (CloseAllProxySockets m w))"
| reset: "mgr_run m \<Longrightarrow> mgr_run (fst (Reset m w))"
| alloc: "mgr_run m \<Longrightarrow> mgr_run (snd (mgr_AllocatePort pr m))"
| reserve: "mgr_run m \<Longrightarrow> mgr_run (snd (ReservePort port pr m))"
| release: "mgr_run m \<Longrightarrow> mgr_run (mgr_ReleasePort port pr m)"
| local_ip: "mgr_run m \<Longrightarrow> mgr_run (SetLocalIp ip m)"
| send_cb: "mgr_run m \<Longrightarrow> mgr_run (SetSendCallback cb m)"
| connect_cb: "mgr_run m \<Longrightarrow> mgr_run (SetProxyConnectCallback ccb m)"
| reply_cb: "mgr_run m \<Longrightarrow> mgr_run (SetProxyConnectReplyCallback ccb m)"
| disconnect_cb: "mgr_run m \<Longrightarrow> mgr_run (SetProxyDisconnectCallback ccb m)"
| response: "mgr_run m \<Longrightarrow> mgr_run (snd (RouteConnectResponse r m))"
| request: "mgr_run m \<Longrightarrow> mgr_run (fst (snd (RouteConnectRequest r m w)))"
| route: "mgr_run m \<Longrightarrow> mgr_run (snd (RouteIncomingData known g sip sport dip dport pr data n m))"
| deliver: "mgr_run m \<Longrightarrow> mgr_run (DeliverPendingPackets g sock port pr m)"

lemmas setter_defs = SetLocalIp_def SetSendCallback_def SetProxyConnectCallback_def SetProxyConnectReplyCallback_def
  SetProxyDisconnectCallback_def

lemma mgr_wf_setters:
  "mgr_wf m \<Longrightarrow> mgr_wf (SetLocalIp ip m)" "mgr_wf m \<Longrightarrow> mgr_wf (SetSendCallback cb m)"
  "mgr_wf m \<Longrightarrow> mgr_wf (SetProxyConnectCallback ccb m)" "mgr_wf m \<Longrightarrow> mgr_wf (SetProxyConnectReplyCallback ccb m)"
  "mgr_wf m \<Longrightarrow> mgr_wf (SetProxyDisconnectCallback ccb m)"
  by (rule mgr_wf_frame; simp add: setter_defs mgr_wf_pool)+

lemma mgr_run_wf: "mgr_run m \<Longrightarrow> mgr_wf m"
proof (induction rule: mgr_run.induct)
  case (socket m fd s s')
  then show ?case using mgr_wf_lookup sock_run_wf by (blast intro: mgr_wf_on_socket)
qed (simp_all add: mgr_wf_new mgr_wf_Create mgr_wf_Close mgr_wf_CloseAll mgr_wf_Reset mgr_wf_ports
    mgr_wf_setters mgr_wf_RouteConnectResponse mgr_wf_RouteConnectRequest mgr_wf_RouteIncomingData
    mgr_wf_Deliver)

section \<open>Matching sockets\<close>

lemma find_all_loop_eq:
  "length acc \<le> n \<Longrightarrow> find_all_loop P n xs acc =
     acc @ take (n - length acc) (map fst (filter (P \<circ> snd) xs))"
  by (induction P n xs acc rule: find_all_loop.induct) (auto simp: Suc_diff_le diff_Suc split: nat.splits)

lemma FindAll_eq:
  "FindAllSocketsByDestination dip dport pr n m =
     take n (map fst (filter (dest_matches dip dport pr \<circ> snd) (m_sockets m)))"
  by (simp add: FindAllSocketsByDestination_def find_all_loop_eq)

lemma fold_on_socket_lookup:
  "distinct targets \<Longrightarrow> map_of (m_sockets (fold (\<lambda>fd. on_socket fd f) targets m)) k =
     map_option (if k \<in> set targets then f else id) (map_of (m_sockets m) k)"
proof (induction targets arbitrary: m)
  case (Cons fd targets)
  then show ?case
    by (auto simp: on_socket_def map_of_update_socket option.map_comp)
qed (simp add: option.map_id)

lemma fold_on_socket_frame:
  "pend_queue (fold (\<lambda>fd. on_socket fd f) targets m) = pend_queue m"
  "m_port_pool (fold (\<lambda>fd. on_socket fd f) targets m) = m_port_pool m"
  by (induction targets arbitrary: m) (auto simp: on_socket_def pend.contents_def)

lemma fold_on_socket_only:
  "fold (\<lambda>fd. on_socket fd f) targets m = m\<lparr>m_sockets := m_sockets (fold (\<lambda>fd. on_socket fd f) targets m)\<rparr>"
  "map fst (m_sockets (fold (\<lambda>fd. on_socket fd f) targets m)) = map fst (m_sockets m)"
proof (induction targets arbitrary: m)
  case (Cons fd targets)
  case 1
  show ?case using Cons(1) [of "on_socket fd f m"] by (simp add: on_socket_def)
  case 2
  show ?case using Cons(2) [of "on_socket fd f m"] by (simp add: on_socket_def update_socket_def split_beta comp_def)
qed simp_all

text \<open>Two sockets that differ at most in their receive queue and its event.\<close>

definition rx_only :: "ProxySocket \<Rightarrow> ProxySocket \<Rightarrow> bool" where
  "rx_only s s' \<longleftrightarrow> s' = s\<lparr>m_rx_ring := m_rx_ring s', m_rx_head := m_rx_head s', m_rx_tail := m_rx_tail s',
     m_rx_count := m_rx_count s', m_receive_event := True\<rparr>"

lemma IncomingData_rx_only: "rx_only s (sock_IncomingData d n a s)"
  by (simp add: rx_only_def sock_IncomingData_def Let_def)

lemma from_addr_decode:
  "\<not> HasRealAddress g \<Longrightarrow> GetAddr (route_from_addr g ip port) = ip \<and> GetPort (route_from_addr g ip port) = port"
  by (simp add: route_from_addr_def Let_def GetPort_def)

section \<open>Properties\<close>

text \<open>C6: In every state the manager can reach from its construction, by any sequence of its operations, the
  registration of the four callbacks and the setting of the local address included, descriptors are unique, at
  most 64 sockets are registered, every socket is well formed, the port pool is consistent and the pending
  ring's indices and slot lengths are in range.\<close>

theorem manager_invariant: "mgr_run m \<Longrightarrow> mgr_wf m"
  by (rule mgr_run_wf)

theorem manager_invariant_witness:
  "mgr_wf (snd (RouteIncomingData (\<lambda>_. True) netmap_init 1 2 3 4 Proto_Udp (Some [5]) 1
     (snd (CreateProxySocket 7 Dgram Proto_Udp (SetProxyDisconnectCallback (Some (\<lambda>_ _ _ _ _ w. (False, w)))
       (SetProxyConnectReplyCallback (Some (\<lambda>_ _ _ _ _ w. (False, w))) (SetProxyConnectCallback (Some (\<lambda>_ _ _ _ _ w. (False, w)))
       (SetSendCallback (Some (\<lambda>_ _ _ _ _ _ w. (True, w))) (SetLocalIp 5 (new_manager :: unit ProxySocketManager))))))))))"
  by (rule manager_invariant, intro mgr_run.route mgr_run.create mgr_run.disconnect_cb mgr_run.reply_cb mgr_run.connect_cb
      mgr_run.send_cb mgr_run.local_ip mgr_run.start)

text \<open>C2: Routing one incoming datagram. From an address outside the current session to a port
  that is not a LAN-mode port it is dropped and nothing changes. Otherwise, if some registered socket
  has its protocol and port and is bound to any address, to the destination, or the destination is a
  broadcast address, it is appended, cut to 2000 bytes and with the sender's address, to the receive queue of each
  such socket, but of at most the first eight in map order (the comment there says all of them). Of those sockets
  only the receive queue and its event change, no other socket changes and nothing else of the manager does. And if
  no socket matches, it is kept in the 16-entry pending ring, cut to 1400 bytes, and nothing but that ring
  changes.\<close>

theorem RouteIncomingData_spec:
  assumes "mgr_wf m"
    and "RouteIncomingData known g sip sport dip dport pr (Some d) (length d) m = (delivered, m')"
  defines "hits \<equiv> map fst (filter (dest_matches dip dport pr \<circ> snd) (m_sockets m))"
  shows "(\<not> IsLanModePort dport \<and> \<not> known sip \<longrightarrow> \<not> delivered \<and> m' = m) \<and>
     ((IsLanModePort dport \<or> known sip) \<and> hits = [] \<longrightarrow> \<not> delivered \<and>
        m' = m\<lparr>m_pending_ring := m_pending_ring m', m_pending_head := m_pending_head m', m_pending_tail := m_pending_tail m',
          m_pending_count := m_pending_count m'\<rparr> \<and>
        pend_queue m' = bounded_push 16 (sip, sport, dip, dport, pr, take 1400 d) (pend_queue m)) \<and>
     ((IsLanModePort dport \<or> known sip) \<and> hits \<noteq> [] \<longrightarrow> delivered \<and> m' = m\<lparr>m_sockets := m_sockets m'\<rparr> \<and>
        map fst (m_sockets m') = map fst (m_sockets m) \<and>
        (\<forall>fd. fd \<notin> set (take 8 hits) \<longrightarrow> GetProxySocket fd m' = GetProxySocket fd m) \<and>
        (\<forall>fd \<in> set (take 8 hits). \<exists>s s'. GetProxySocket fd m = Some s \<and> GetProxySocket fd m' = Some s' \<and> rx_only s s' \<and>
           rx_queue s' = bounded_push 32 (route_from_addr g sip sport, take 2000 d) (rx_queue s)))"
proof (intro conjI impI; (elim conjE)?)
  have targets: "FindAllSocketsByDestination dip dport pr kMaxSockets m = take 8 hits"
    by (simp add: FindAll_eq hits_def kMaxSockets_def)
  have dist: "distinct (take 8 hits)"
    using assms(1) by (auto simp: hits_def mgr_wf_def distinct_map_filter intro: distinct_take)
  show "\<not> delivered" "m' = m" if "\<not> IsLanModePort dport" "\<not> known sip"
    using that assms(2) by (auto simp: RouteIncomingData_def)
  {
    assume adm: "IsLanModePort dport \<or> known sip" and none: "hits = []"
    then have r: "\<not> delivered" "m' = pend_push (sip, sport, dip, dport, pr, d) m"
      using assms(2) targets by (auto simp: RouteIncomingData_def Let_def pend_push_def)
    then show "\<not> delivered" by simp
    show "m' = m\<lparr>m_pending_ring := m_pending_ring m', m_pending_head := m_pending_head m', m_pending_tail := m_pending_tail m',
          m_pending_count := m_pending_count m'\<rparr>"
      by (simp add: r pend_push_def buffer_pending_def Let_def)
    show "pend_queue m' = bounded_push 16 (sip, sport, dip, dport, pr, take 1400 d) (pend_queue m)"
      using pend.contents_push [of m "(sip, sport, dip, dport, pr, d)"] assms(1)
      by (simp add: r mgr_wf_pend pend_seen_def PendingPayloadMax_def) (simp add: MaxPendingPackets_def)
  }
  assume adm: "IsLanModePort dport \<or> known sip" and some: "hits \<noteq> []"
  let ?f = "sock_IncomingData (Some d) (length d) (route_from_addr g sip sport)"
  have r: "delivered" "m' = fold (\<lambda>fd. on_socket fd ?f) (take 8 hits) m"
    using adm some assms(2) targets by (auto simp: RouteIncomingData_def Let_def)
  show "delivered" by (rule r(1))
  show "m' = m\<lparr>m_sockets := m_sockets m'\<rparr>" "map fst (m_sockets m') = map fst (m_sockets m)"
    unfolding r(2) by (rule fold_on_socket_only)+
  have look: "GetProxySocket fd m' = map_option (if fd \<in> set (take 8 hits) then ?f else id) (GetProxySocket fd m)" for fd
    unfolding r(2) GetProxySocket_def by (rule fold_on_socket_lookup [OF dist])
  then show "\<forall>fd. fd \<notin> set (take 8 hits) \<longrightarrow> GetProxySocket fd m' = GetProxySocket fd m"
    by (simp add: option.map_id)
  have push: "rx_queue (?f s) = bounded_push 32 (route_from_addr g sip sport, take 2000 d) (rx_queue s)"
    if "sock_wf s" for s
    using rx.contents_push [OF sock_wfD(1) [OF that], of "(d, route_from_addr g sip sport)"]
    by (simp add: rx_push_def pkt_seen_def PROXY_SOCKET_MAX_PAYLOAD_def PROXY_SOCKET_MAX_QUEUE_SIZE_def)
  show "\<forall>fd \<in> set (take 8 hits). \<exists>s s'. GetProxySocket fd m = Some s \<and> GetProxySocket fd m' = Some s' \<and> rx_only s s' \<and>
           rx_queue s' = bounded_push 32 (route_from_addr g sip sport, take 2000 d) (rx_queue s)"
  proof
    fix fd assume fd: "fd \<in> set (take 8 hits)"
    then have "fd \<in> set hits" by (rule in_set_takeD)
    then have "fd \<in> fst ` set (m_sockets m)" by (auto simp: hits_def)
    then obtain s where s: "GetProxySocket fd m = Some s"
      unfolding GetProxySocket_def by (metis map_of_eq_None_iff not_None_eq)
    with fd look [of fd] mgr_wf_lookup [OF assms(1), of fd]
    show "\<exists>s s'. GetProxySocket fd m = Some s \<and> GetProxySocket fd m' = Some s' \<and> rx_only s s' \<and>
           rx_queue s' = bounded_push 32 (route_from_addr g sip sport, take 2000 d) (rx_queue s)"
      by (auto simp: push IncomingData_rx_only GetProxySocket_def)
  qed
qed

theorem RouteIncomingData_spec_witness:
  "\<not> fst (RouteIncomingData (\<lambda>_. True) netmap_init 1 2 3 4 Proto_Udp (Some [5]) 1
     (new_manager :: unit ProxySocketManager)) \<and>
   pend_queue (snd (RouteIncomingData (\<lambda>_. True) netmap_init 1 2 3 4 Proto_Udp (Some [5]) 1
     (new_manager :: unit ProxySocketManager))) = [(1, 2, 3, 4, Proto_Udp, [5])]"
proof -
  have "m_sockets (new_manager :: unit ProxySocketManager) = []"
    "pend_queue (new_manager :: unit ProxySocketManager) = []"
    by (simp_all add: new_manager_def pend.contents_def)
  then show ?thesis
    using RouteIncomingData_spec [where m = "new_manager :: unit ProxySocketManager" and known = "\<lambda>_. True"
        and g = netmap_init and sip = 1 and sport = 2 and dip = 3 and dport = 4 and pr = Proto_Udp
        and d = "[5]", OF mgr_wf_new surjective_pairing]
    by (simp add: bounded_push_def)
qed

text \<open>C5: Datagrams that arrived before their socket was bound are not lost: when the socket is
  announced, every pending datagram for its port and protocol is appended to its receive queue in
  arrival order with the original sender's address and payload, and leaves the pending ring; the
  in-place compaction keeps all other pending datagrams in order, and every other socket is
  untouched.\<close>

theorem pending_delivered_in_order:
  assumes "mgr_wf m" and "GetProxySocket fd m = Some s"
    and "m' = DeliverPendingPackets g (Some fd) port pr m"
  shows "pend_queue m' = filter (\<lambda>(_, _, _, dport, pr', _). \<not> (pr' = pr \<and> dport = port)) (pend_queue m) \<and>
     map_option rx_queue (GetProxySocket fd m') =
       Some (fold (bounded_push 32)
         (map (\<lambda>(sip, sport, _, _, _, d). (route_from_addr g sip sport, d))
            (filter (\<lambda>(_, _, _, dport, pr', _). pr' = pr \<and> dport = port) (pend_queue m))) (rx_queue s)) \<and>
     (\<forall>k. k \<noteq> fd \<longrightarrow> GetProxySocket k m' = GetProxySocket k m)"
proof -
  define raw where "raw = ring_contents (\<lambda>x. x) (m_pending_ring m) (m_pending_head m) (m_pending_count m)"
  have s: "map_of (m_sockets m) fd = Some s" using assms(2) by (simp add: GetProxySocket_def)
  note d = deliver_state [OF assms(1) s assms(3) [symmetric], folded raw_def]
  have q: "pend_queue m = map pend_view raw"
    by (simp add: pend.contents_def raw_def ring_contents_map [of pend_view])
  have wf_raw: "\<forall>p \<in> set raw. pslot_wf p"
    using assms(1) pend.cap_pos by (auto simp: raw_def ring_contents_def mgr_wf_def pend.wf_def ring_wf_def)
  have m: "pending_matches port pr = (\<lambda>(_, _, _, dport, pr', _). pr' = pr \<and> dport = port) \<circ> pend_view"
    and nm: "(\<lambda>p. \<not> pending_matches port pr p) =
      (\<lambda>(_, _, _, dport, pr', _). \<not> (pr' = pr \<and> dport = port)) \<circ> pend_view"
    by (simp_all add: fun_eq_iff pending_matches_def pend_view_def)
  let ?deliver = "\<lambda>(sip, sport, _, _, _, d). (route_from_addr g sip sport, d)"
  have fold: "rx_queue (fold (deliver_pending g) ps t) =
      fold (bounded_push 32) (map ?deliver (map pend_view ps)) (rx_queue t)"
    if "sock_wf t" "\<forall>p \<in> set ps. pslot_wf p" for ps t
    using that
  proof (induction ps arbitrary: t)
    case (Cons p ps)
    let ?frm = "route_from_addr g (pp_source_ip p) (pp_source_port p)"
      and ?d = "take (unat (pp_len p)) (pp_data p)"
    have len: "length ?d = unat (pp_len p)" "unat (pp_len p) \<le> 1400"
      using Cons.prems(2) by (simp_all add: pslot_wf_def PendingPayloadMax_def)
    have "deliver_pending g p t = rx_push (?d, ?frm) t"
      using len
      by (simp add: deliver_pending_def rx_push_def sock_IncomingData_def fill_packet_def
          PROXY_SOCKET_MAX_PAYLOAD_def min_def Let_def)
    then have "rx_queue (deliver_pending g p t) = bounded_push 32 (?frm, ?d) (rx_queue t)"
      using rx.contents_push [OF sock_wfD(1) [OF Cons.prems(1)], of "(?d, ?frm)"] len
      by (simp add: pkt_seen_def PROXY_SOCKET_MAX_PAYLOAD_def PROXY_SOCKET_MAX_QUEUE_SIZE_def)
    moreover have "sock_wf (deliver_pending g p t)"
      using Cons.prems(1) by (simp add: deliver_pending_def sock_wf_IncomingData)
    ultimately show ?case using Cons.IH [of "deliver_pending g p t"] Cons.prems(2)
      by (simp add: pend_view_def)
  qed simp
  have "sock_wf s" using mgr_wf_lookup [OF assms(1) s] .
  with wf_raw fold [of s "filter (pending_matches port pr) raw"] have "rx_queue (fold (deliver_pending g) (filter (pending_matches port pr) raw) s) =
      fold (bounded_push 32) (map ?deliver (filter (\<lambda>(_, _, _, dport, pr', _). pr' = pr \<and> dport = port)
        (pend_queue m))) (rx_queue s)"
    unfolding q filter_map m by auto
  moreover have "pend_queue m' = filter (\<lambda>(_, _, _, dport, pr', _). \<not> (pr' = pr \<and> dport = port)) (pend_queue m)"
    unfolding d(2) q filter_map nm by simp
  ultimately show ?thesis
    using d(1) s by (simp add: GetProxySocket_def map_of_update_socket)
qed

theorem pending_delivered_in_order_witness:
  "\<exists>m :: unit ProxySocketManager. mgr_wf m \<and> pend_queue m = [(1, 2, 3, 30000, Proto_Udp, [5])] \<and>
     map_option rx_queue (GetProxySocket 7 (DeliverPendingPackets netmap_init (Some 7) 30000 Proto_Udp m)) =
       Some [(route_from_addr netmap_init 1 2, [5])]"
proof -
  let ?m0 = "new_manager :: unit ProxySocketManager"
  define m1 where "m1 = snd (RouteIncomingData (\<lambda>_. False) netmap_init 1 2 3 30000 Proto_Udp (Some [5]) 1 ?m0)"
  let ?m2 = "snd (CreateProxySocket 7 Dgram Proto_Udp m1)"
  have 1: "m1 = pend_push (1, 2, 3, 30000, Proto_Udp, [5]) ?m0"
    by (simp add: m1_def RouteIncomingData_def IsLanModePort_def Let_def FindAll_eq new_manager_def pend_push_def)
  have "pend_queue ?m0 = []" by (simp add: new_manager_def pend.contents_def)
  then have q1: "pend_queue m1 = [(1, 2, 3, 30000, Proto_Udp, [5])]"
    using pend.contents_push [of ?m0 "(1, 2, 3, 30000, Proto_Udp, [5])"] mgr_wf_pend [OF mgr_wf_new]
    unfolding 1 by (simp add: bounded_push_def pend_seen_def PendingPayloadMax_def pend.cap_pos [THEN less_imp_neq, THEN not_sym])
  have s1: "m_sockets m1 = []"
    unfolding 1 by (simp add: pend_push_def buffer_pending_def Let_def new_manager_def)
  have m2: "?m2 = m1\<lparr>m_sockets := [(7, new_ProxySocket Dgram Proto_Udp)]\<rparr>"
    by (simp add: CreateProxySocket_def s1 MAX_PROXY_SOCKETS_def)
  have wf: "mgr_wf ?m2" unfolding m1_def by (intro mgr_wf_Create mgr_wf_RouteIncomingData mgr_wf_new)
  have q2: "pend_queue ?m2 = [(1, 2, 3, 30000, Proto_Udp, [5])]"
    using q1 pend_frame [of ?m2 m1] by (simp add: m2)
  have s2: "GetProxySocket 7 ?m2 = Some (new_ProxySocket Dgram Proto_Udp)"
    by (simp add: GetProxySocket_def m2)
  show ?thesis
    using pending_delivered_in_order [OF wf s2 refl, of netmap_init 30000 Proto_Udp] wf q2
    by (intro exI [of _ ?m2]) (simp add: new_sock_queue bounded_push_def)
qed

text \<open>Closing a registered descriptor removes exactly that socket, gives its bound port back to
  the pool and no other port of either protocol, leaves the pending ring alone, and tells a
  connected TCP peer; closing an unknown descriptor changes nothing.\<close>

theorem CloseProxySocket_spec:
  assumes "mgr_wf m" and "CloseProxySocket fd m w = (ok, m', w')"
  shows "(ok \<longleftrightarrow> IsProxySocket fd m) \<and> \<not> IsProxySocket fd m' \<and>
     (\<forall>k. k \<noteq> fd \<longrightarrow> GetProxySocket k m' = GetProxySocket k m) \<and> pend_queue m' = pend_queue m \<and>
     (case GetProxySocket fd m of None \<Rightarrow> m' = m \<and> w' = w
      | Some s \<Rightarrow>
         (\<forall>q. IsPortAllocated q (m_protocol s) (m_port_pool m') \<longleftrightarrow>
            \<not> (q = GetPort (m_local_addr s) \<and> q \<noteq> 0) \<and> IsPortAllocated q (m_protocol s) (m_port_pool m)) \<and>
         (m_protocol s \<noteq> Proto_Tcp \<longrightarrow> w' = w) \<and>
         (m_protocol s = Proto_Tcp \<and> GetPort (m_remote_addr s) \<noteq> 0 \<longrightarrow>
            w' = snd (SendProxyDisconnect m (GetAddr (m_local_addr s)) (GetPort (m_local_addr s))
                  (GetAddr (m_remote_addr s)) (GetPort (m_remote_addr s)) Proto_Tcp w)))"
proof (cases "map_of (m_sockets m) fd")
  case None
  with assms(2) show ?thesis by (simp add: CloseProxySocket_def IsProxySocket_def GetProxySocket_def)
next
  case (Some s)
  let ?p = "if GetPort (m_local_addr s) \<noteq> 0
    then ReleasePort (GetPort (m_local_addr s)) (m_protocol s) (m_port_pool m) else m_port_pool m"
  let ?m = "m\<lparr>m_port_pool := ?p, m_sockets := filter (\<lambda>(k, _). k \<noteq> fd) (m_sockets m)\<rparr>"
  have r: "ok" "m' = ?m" "w' = snd (sock_Close (SendProxyDisconnect ?m) s w)"
    using assms(2) Some by (auto simp: CloseProxySocket_def Let_def split: if_splits)
  have look: "map_of (filter (\<lambda>(k, _). k \<noteq> fd) xs) k = (if k = fd then None else map_of xs k)"
    for xs :: "(int \<times> ProxySocket) list" and k
    by (induction xs) auto
  have port: "IsPortAllocated q (m_protocol s) ?p \<longleftrightarrow>
      \<not> (q = GetPort (m_local_addr s) \<and> q \<noteq> 0) \<and> IsPortAllocated q (m_protocol s) (m_port_pool m)" for q
    using pool.release_marks [OF mgr_wf_pool [OF assms(1)], of q "m_protocol s"] by auto
  have "SendProxyDisconnect ?m = SendProxyDisconnect m"
    by (intro ext) (simp add: SendProxyDisconnect_def)
  moreover have "pend_queue ?m = pend_queue m" using pend_frame [of ?m m] by simp
  ultimately show ?thesis
    using Some port
    by (simp add: r IsProxySocket_def GetProxySocket_def look sock_Close_def)
qed

theorem CloseProxySocket_spec_witness:
  "\<not> IsProxySocket 7 (fst (snd (CloseProxySocket 7
      (snd (CreateProxySocket 7 Dgram Proto_Udp (new_manager :: unit ProxySocketManager))) ())))"
  using CloseProxySocket_spec [OF mgr_wf_Create [OF mgr_wf_new]] by (metis prod.collapse)

end
