(* ===== verification/Tunnel.thy ===== *)
theory Tunnel
  imports Slp_Frame Ldn_Control Socket_Manager
begin

text \<open>
  The tunnel (\<^verbatim>\<open>tunnel/slp_tunnel.hpp\<close> and \<^verbatim>\<open>.cpp\<close>): outbound, a game's datagram becomes an IPv4/UDP packet
  in relay frames; inbound, a relay frame is reassembled, parsed and handed to the LDN control plane
  (control port) or to the proxy sockets.

  The state of the three singletons that meet here (the tunnel's globals, \<^verbatim>\<open>LdnControl\<close>,
  \<^verbatim>\<open>ProxySocketManager\<close>) is one record \<open>Console\<close>; what the runtime answers (\<^verbatim>\<open>GetState\<close>, \<^verbatim>\<open>GetSlpClient\<close>),
  the system tick, the address map of the socket layer and the answers of \<open>sendto\<close> are the record
  \<open>tun_env\<close>. A send yields relay datagrams, or a loopback delivery to the socket manager.
\<close>

section \<open>State\<close>

definition MaxFragEntries :: nat where "MaxFragEntries = 4"
definition MaxTotalParts :: nat where "MaxTotalParts = 4"
definition FragTimeoutTicks :: int where "FragTimeoutTicks = 19200000"
definition FragDataSize :: nat where "FragDataSize = MaxTotalParts * SLP_MTU"

record FragEntry =
  fe_active :: bool
  fe_src :: u32
  fe_id :: u16
  fe_total :: u8
  fe_seen :: u8
  fe_lens :: "u16 list"
  fe_pmtu :: u16
  fe_total_parts :: u8
  fe_last_tick :: int
  fe_data :: bytes

definition zero_FragEntry :: FragEntry where
  "zero_FragEntry = \<lparr>fe_active = False, fe_src = 0, fe_id = 0, fe_total = 0, fe_seen = 0,
     fe_lens = replicate MaxTotalParts 0, fe_pmtu = 0, fe_total_parts = 0, fe_last_tick = 0,
     fe_data = replicate FragDataSize 0\<rparr>"

record Tunnel =
  g_local_ip :: u32
  g_ip_id :: u16
  g_frags :: "FragEntry list"

definition new_Tunnel :: Tunnel where
  "new_Tunnel = \<lparr>g_local_ip = 0, g_ip_id = 0, g_frags = replicate MaxFragEntries zero_FragEntry\<rparr>"

record 'w Console =
  con_tun :: Tunnel
  con_ldn :: LdnControl
  con_mgr :: "'w ProxySocketManager"

record tun_env =
  te_now :: int
  te_running :: bool
  te_client :: SlpClient
  te_sendto :: "int \<Rightarrow> bytes \<Rightarrow> bool"
  te_netmap :: netmap

section \<open>Outbound\<close>

text \<open>The one's-complement sum of the header (RFC 1071).\<close>

fun ip_sum :: "bytes \<Rightarrow> u32 \<Rightarrow> u32" where
  "ip_sum (a # b # p) acc = ip_sum p (acc + ucast (Rd16be a b))"
| "ip_sum [a] acc = acc + ucast (push_bit 8 (ucast a :: u16))"
| "ip_sum [] acc = acc"

function fold_carry :: "u32 \<Rightarrow> u32" where
  "fold_carry acc = (if drop_bit 16 acc \<noteq> 0 then fold_carry ((acc AND 0xFFFF) + drop_bit 16 acc) else acc)"
  by pat_completeness auto
termination
proof (relation "measure unat")
  fix acc :: u32 assume "drop_bit 16 acc \<noteq> 0"
  then have "unat (drop_bit 16 acc) \<noteq> 0" by (simp add: unat_eq_0)
  then have hi': "unat acc div 65536 > 0" by (simp add: drop_bit_eq_div unat_div_distrib)
  have "unat ((acc AND 0xFFFF) + drop_bit 16 acc) \<le> unat (acc AND 0xFFFF) + unat (drop_bit 16 acc)"
    by (simp add: unat_word_ariths)
  also have "\<dots> = unat acc mod 65536 + unat acc div 65536"
    by (simp add: and_65535 unsigned_take_bit_eq unsigned_drop_bit_eq take_bit_eq_mod drop_bit_eq_div unat_mod_distrib unat_div_distrib)
  also have "\<dots> < unat acc"
    using hi' div_mult_mod_eq [of "unat acc" 65536] by linarith
  finally show "((acc AND 0xFFFF) + drop_bit 16 acc, acc) \<in> measure unat" by simp
qed auto

declare fold_carry.simps [simp del]

definition IpChecksum :: "bytes \<Rightarrow> u16" where
  "IpChecksum p = ucast (NOT (fold_carry (ip_sum p 0)))"

datatype tun_out = Relay relay_out | Loopback u32 u16 u16 bytes

definition udp_packet :: "u32 \<Rightarrow> u16 \<Rightarrow> u32 \<Rightarrow> u16 \<Rightarrow> u16 \<Rightarrow> bytes \<Rightarrow> bytes" where
  "udp_packet sip src_port dip dst_port ip_id data =
     (let ip_total = of_nat (20 + 8 + length data);
          udp_len = of_nat (8 + length data);
          hdr = \<lambda>hi lo. [0x45, 0x00] @ Wr16be ip_total @ Wr16be ip_id @ [0x40, 0x00, 64, 17, hi, lo] @
                  Wr32be sip @ Wr32be dip;
          acc = IpChecksum (hdr 0 0)
      in hdr (ucast (drop_bit 8 acc)) (ucast (acc AND 0xFF)) @ Wr16be src_port @ Wr16be dst_port @ Wr16be udp_len @
         [0, 0] @ data)"

definition tun_Send :: "tun_env \<Rightarrow> u32 \<Rightarrow> u16 \<Rightarrow> u32 \<Rightarrow> u16 \<Rightarrow> ProtocolType \<Rightarrow> bytes option \<Rightarrow> nat \<Rightarrow> Tunnel \<Rightarrow>
    bool \<times> Tunnel \<times> tun_out list" where
  "tun_Send e sip src_port dip dst_port pr data len t =
     (if data = None \<and> len > 0 then (False, t, [])
      else if len > 2000 then (False, t, [])
      else if \<not> te_running e then (False, t, [])
      else if cl_fd (te_client e) < 0 then (False, t, [])
      else
        (let d = take len (case data of None \<Rightarrow> [] | Some d \<Rightarrow> d)
         in if dip AND 0xFF000000 = 0x7F000000 then (True, t, [Loopback dip src_port dst_port d])
            else
              (let src = (if sip = 0 then g_local_ip t else sip);
                   (ok, ds) = slpClientSendIpv4 (te_sendto e) (te_client e)
                      (udp_packet src src_port dip dst_port (g_ip_id t) d)
               in (ok, t\<lparr>g_ip_id := g_ip_id t + 1\<rparr>, map Relay ds))))"

section \<open>Inbound: reassembly\<close>

definition expire :: "int \<Rightarrow> FragEntry \<Rightarrow> FragEntry" where
  "expire now e = (if fe_active e \<and> now - fe_last_tick e > FragTimeoutTicks then e\<lparr>fe_active := False\<rparr> else e)"

definition frag_key :: "u32 \<Rightarrow> u16 \<Rightarrow> FragEntry \<Rightarrow> bool" where
  "frag_key src ident e \<longleftrightarrow> fe_active e \<and> fe_src e = src \<and> fe_id e = ident"

text \<open>The slot to reuse: the first free one, else the one with the smallest tick (None is
  \<^verbatim>\<open>MaxFragEntries\<close>; \<open>oldest\<close> starts at \<^verbatim>\<open>INT64_MAX\<close>).\<close>

fun find_reuse :: "FragEntry list \<Rightarrow> nat \<Rightarrow> int \<Rightarrow> nat option \<Rightarrow> nat option" where
  "find_reuse [] i oldest reuse = reuse"
| "find_reuse (e # es) i oldest reuse =
     (if \<not> fe_active e then Some i
      else if fe_last_tick e < oldest then find_reuse es (i + 1) (fe_last_tick e) (Some i)
      else find_reuse es (i + 1) oldest reuse)"

definition INT64_MAX :: int where "INT64_MAX = 2 ^ 63 - 1"

definition FindFragEntry :: "int \<Rightarrow> u32 \<Rightarrow> u16 \<Rightarrow> FragEntry list \<Rightarrow> nat option \<times> FragEntry list" where
  "FindFragEntry now src ident g =
     (let g1 = map (expire now) g
      in case find_index (frag_key src ident) g1 0 of
           Some i \<Rightarrow> (Some i, g1)
         | None \<Rightarrow>
             (case find_reuse g1 0 INT64_MAX None of
                None \<Rightarrow> (None, g1)
              | Some i \<Rightarrow> (Some i, g1[i := zero_FragEntry\<lparr>fe_active := True, fe_src := src, fe_id := ident,
                   fe_last_tick := now\<rparr>])))"

definition write_at :: "bytes \<Rightarrow> nat \<Rightarrow> bytes \<Rightarrow> bytes" where
  "write_at data off chunk = take off data @ chunk @ drop (off + length chunk) data"

text \<open>What \<^verbatim>\<open>OnFrag\<close> does to the entry that was found, and the packet it passes to \<^verbatim>\<open>ProcessIpv4\<close> when that
  part was the last one missing. The log lines are left out.\<close>

definition frag_part :: "int \<Rightarrow> u8 \<Rightarrow> u8 \<Rightarrow> u16 \<Rightarrow> u16 \<Rightarrow> bytes \<Rightarrow> FragEntry \<Rightarrow> FragEntry \<times> bytes option" where
  "frag_part now part total_p clen pmtu chunk e =
     (if fe_seen e \<noteq> 0 \<and> (fe_pmtu e \<noteq> pmtu \<or> fe_total_parts e \<noteq> total_p) then (e, None)
      else
        (let e1 = (if fe_seen e = 0 then e\<lparr>fe_pmtu := pmtu, fe_total_parts := total_p\<rparr> else e);
             bits = (push_bit (unat part) 1 :: u32)
         in if ucast (fe_seen e1) AND bits \<noteq> 0 then (e1, None)
            else
              (let e2 = e1\<lparr>fe_data := write_at (fe_data e1) (unat part * unat pmtu) chunk,
                           fe_lens := (fe_lens e1)[unat part := clen],
                           fe_seen := fe_seen e1 OR ucast bits, fe_last_tick := now\<rparr>;
                   want = (push_bit (unat total_p) 1 - 1 :: u32)
               in if fe_seen e2 = ucast want then
                    (let rebuilt = (unat total_p - 1) * unat pmtu + unat (fe_lens e2 ! (unat total_p - 1));
                         e3 = e2\<lparr>fe_active := False\<rparr>
                     in (e3, if rebuilt \<le> FragDataSize then Some (take rebuilt (fe_data e3)) else None))
                  else (e2, None))))"

definition OnFrag :: "int \<Rightarrow> bytes \<Rightarrow> FragEntry list \<Rightarrow> FragEntry list \<times> bytes option" where
  "OnFrag now payload g =
     (if length payload < 16 then (g, None)
      else
        (let src = Rd32be payload;
             ident = Rd16be (payload ! 8) (payload ! 9);
             part = payload ! 10;
             total_p = payload ! 11;
             clen = Rd16be (payload ! 12) (payload ! 13);
             pmtu = Rd16be (payload ! 14) (payload ! 15)
         in if total_p = 0 \<or> part \<ge> total_p \<or> unat total_p > MaxTotalParts then (g, None)
            else if pmtu = 0 \<or> unat pmtu > SLP_MTU then (g, None)
            else if clen > pmtu \<or> length payload < 16 + unat clen then (g, None)
            else case FindFragEntry now src ident g of
                (None, g1) \<Rightarrow> (g1, None)
              | (Some i, g1) \<Rightarrow>
                  (let (e, out) = frag_part now part total_p clen pmtu (take (unat clen) (drop 16 payload)) (g1 ! i)
                   in (g1[i := e], out))))"

section \<open>Inbound: delivery\<close>

text \<open>The effect of a send on the console: relay datagrams leave, a loopback datagram comes back through
  \<^verbatim>\<open>RouteIncomingData\<close>.\<close>

definition peer_known :: "'w Console \<Rightarrow> u32 \<Rightarrow> bool" where
  "peer_known con ip = IsKnownSessionPeer ip (con_ldn con)"

definition route_to_sockets :: "tun_env \<Rightarrow> u32 \<Rightarrow> u16 \<Rightarrow> u32 \<Rightarrow> u16 \<Rightarrow> bytes \<Rightarrow> 'w Console \<Rightarrow> 'w Console" where
  "route_to_sockets e src sport dst dport data con =
     con\<lparr>con_mgr := snd (RouteIncomingData (peer_known con) (te_netmap e) src sport dst dport Proto_Udp
       (Some data) (length data) (con_mgr con))\<rparr>"

fun apply_outs :: "tun_env \<Rightarrow> tun_out list \<Rightarrow> 'w Console \<Rightarrow> 'w Console \<times> relay_out list" where
  "apply_outs e [] con = (con, [])"
| "apply_outs e (Relay d # os) con = (let (con', ds) = apply_outs e os con in (con', d # ds))"
| "apply_outs e (Loopback ip sport dport data # os) con =
     apply_outs e os (route_to_sockets e ip sport ip dport data con)"

fun send_all :: "tun_env \<Rightarrow> datagram list \<Rightarrow> 'w Console \<Rightarrow> 'w Console \<times> relay_out list" where
  "send_all e [] con = (con, [])"
| "send_all e ((src, sport, dst, dport, pr, data) # ds) con =
     (let (ok, t, outs) = tun_Send e src sport dst dport pr (Some data) (length data) (con_tun con);
          (con1, r1) = apply_outs e outs (con\<lparr>con_tun := t\<rparr>);
          (con2, r2) = send_all e ds con1
      in (con2, r1 @ r2))"

definition ProcessIpv4 :: "tun_env \<Rightarrow> bytes \<Rightarrow> 'w Console \<Rightarrow> 'w Console \<times> relay_out list" where
  "ProcessIpv4 e pkt con =
     (if \<not> slpIpv4Valid pkt then (con, [])
      else
        (let ihl = unat (pkt ! 0 AND 0x0F) * 4
         in if length pkt < ihl + 8 then (con, [])
            else
              (let total_p = slpIpv4TotalLen pkt
               in if total_p < ihl + 8 then (con, [])
                  else if pkt ! 9 \<noteq> 17 then (con, [])
                  else
                    (let uoff = ihl;
                         sport = Rd16be (pkt ! uoff) (pkt ! (uoff + 1));
                         dport = Rd16be (pkt ! (uoff + 2)) (pkt ! (uoff + 3));
                         ulen = Rd16be (pkt ! (uoff + 4)) (pkt ! (uoff + 5))
                     in if ulen < 8 \<or> uoff + unat ulen > total_p then (con, [])
                        else
                          (let src = Rd32be (drop 12 pkt); dst = Rd32be (drop 16 pkt);
                               data = take (unat ulen - 8) (drop (uoff + 8) pkt)
                           in if dport = ControlPort then
                                (let (l, ds) = OnControlFrame (te_running e) (te_now e) src data (con_ldn con)
                                 in send_all e ds (con\<lparr>con_ldn := l\<rparr>))
                              else (route_to_sockets e src sport dst dport data con, []))))))"

definition OnFrame :: "tun_env \<Rightarrow> u8 \<Rightarrow> bytes \<Rightarrow> 'w Console \<Rightarrow> 'w Console \<times> relay_out list" where
  "OnFrame e ty payload con =
     (if ty = SLP_TYPE_IPV4 then ProcessIpv4 e payload con
      else if ty = SLP_TYPE_IPV4_FRAG then
        (let (g, out) = OnFrag (te_now e) payload (g_frags (con_tun con));
             con1 = con\<lparr>con_tun := (con_tun con)\<lparr>g_frags := g\<rparr>\<rparr>
         in case out of None \<Rightarrow> (con1, []) | Some pkt \<Rightarrow> ProcessIpv4 e pkt con1)
      else (con, []))"

section \<open>Start and stop\<close>

definition tun_Init :: "string \<Rightarrow> 'w data_call \<Rightarrow> 'w Console \<Rightarrow> 'w Console" where
  "tun_Init virtual_ip send con =
     (let ip = (if ParseIp virtual_ip = 0 then 0x0A0D2502 else ParseIp virtual_ip)
      in con\<lparr>con_tun := (con_tun con)\<lparr>g_local_ip := ip\<rparr>,
             con_mgr := SetSendCallback (Some send) (SetLocalIp ip (con_mgr con))\<rparr>)"

definition RefreshLocalIp :: "string \<Rightarrow> 'w Console \<Rightarrow> 'w Console" where
  "RefreshLocalIp virtual_ip con =
     (let ip = ParseIp virtual_ip
      in if ip = 0 \<or> ip = g_local_ip (con_tun con) then con
         else con\<lparr>con_tun := (con_tun con)\<lparr>g_local_ip := ip\<rparr>, con_mgr := SetLocalIp ip (con_mgr con)\<rparr>)"

definition OnStop :: "Tunnel \<Rightarrow> Tunnel" where
  "OnStop t = t\<lparr>g_frags := map (\<lambda>e. e\<lparr>fe_active := False\<rparr>) (g_frags t)\<rparr>"

section \<open>Reassembly\<close>

text \<open>The state of an entry that has taken the parts \<open>S\<close> of the packet \<open>pkt\<close>.\<close>

definition holds_parts :: "bytes \<Rightarrow> nat set \<Rightarrow> FragEntry \<Rightarrow> bool" where
  "holds_parts pkt S e \<longleftrightarrow> (\<forall>i < 8. bit (fe_seen e) i \<longleftrightarrow> i \<in> S) \<and> S \<subseteq> {..<parts pkt} \<and>
     (S \<noteq> {} \<longrightarrow> fe_pmtu e = of_nat SLP_MTU \<and> fe_total_parts e = of_nat (parts pkt)) \<and>
     length (fe_data e) = FragDataSize \<and> length (fe_lens e) = MaxTotalParts \<and>
     (\<forall>i \<in> S. fe_lens e ! i = of_nat (length (chunk_of pkt i)) \<and>
        take (length (chunk_of pkt i)) (drop (i * SLP_MTU) (fe_data e)) = chunk_of pkt i)"

lemma length_write_at: "off + length chunk \<le> length data \<Longrightarrow> length (write_at data off chunk) = length data"
  by (simp add: write_at_def)

lemma write_at_same: "off \<le> length data \<Longrightarrow> take (length chunk) (drop off (write_at data off chunk)) = chunk"
  by (simp add: write_at_def)

lemma write_at_before:
  "off2 + n \<le> off \<Longrightarrow> off \<le> length data \<Longrightarrow> take n (drop off2 (write_at data off chunk)) = take n (drop off2 data)"
  by (rule nth_equalityI) (auto simp: write_at_def nth_append)

lemma write_at_behind:
  "off + length chunk \<le> off2 \<Longrightarrow> off \<le> length data \<Longrightarrow> take n (drop off2 (write_at data off chunk)) = take n (drop off2 data)"
  by (simp add: write_at_def)

lemma parts_small:
  assumes "length pkt \<le> FragDataSize" shows "parts pkt \<le> 4"
  using assms by (simp add: parts_def FragDataSize_def MaxTotalParts_def SLP_MTU_def)

lemma chunk_fits:
  assumes "length pkt \<le> FragDataSize" and "i < parts pkt"
  shows "i * SLP_MTU + length (chunk_of pkt i) \<le> length pkt" "length (chunk_of pkt i) > 0"
    "length (chunk_of pkt i) \<le> SLP_MTU"
  using assms parts_less [of i pkt] by (auto simp: length_chunk_of SLP_MTU_def)

lemma chunks_apart:
  assumes "i \<noteq> j" and "i < parts pkt" and "j < parts pkt"
  shows "i * SLP_MTU + length (chunk_of pkt i) \<le> j * SLP_MTU \<or> j * SLP_MTU + length (chunk_of pkt j) \<le> i * SLP_MTU"
proof -
  have l: "length (chunk_of pkt k) \<le> SLP_MTU" for k by (simp add: length_chunk_of)
  have "(i + 1) * SLP_MTU \<le> j * SLP_MTU \<or> (j + 1) * SLP_MTU \<le> i * SLP_MTU"
    using assms(1) mult_le_mono1 [of "i + 1" j SLP_MTU] mult_le_mono1 [of "j + 1" i SLP_MTU] by linarith
  then show ?thesis using l [of i] l [of j] by (auto simp: add_mult_distrib)
qed

lemma bit_single: "bit (push_bit k 1 :: u32) i \<longleftrightarrow> i = k \<and> k < 32"
  by (auto simp: bit_simps)

lemma seen_bit:
  "k < 8 \<Longrightarrow> (ucast (x :: u8) AND (push_bit k 1 :: u32) \<noteq> 0) \<longleftrightarrow> bit x k"
proof -
  assume k: "k < 8"
  have "ucast x AND (push_bit k 1 :: u32) = (if bit x k then push_bit k 1 else 0)"
    by (rule bit_word_eqI) (auto simp: bit_simps)
  moreover have "(push_bit k 1 :: u32) \<noteq> 0"
    using k bit_single [of k k] by auto
  ultimately show ?thesis by simp
qed

lemma seen_full:
  assumes "n \<le> 8" and "\<forall>i < 8. bit (x :: u8) i \<longleftrightarrow> i \<in> S" and "S \<subseteq> {..<n}"
  shows "x = ucast (push_bit n 1 - 1 :: u32) \<longleftrightarrow> S = {..<n}"
proof -
  have m: "(push_bit n 1 - 1 :: u32) = mask n" by (simp add: mask_eq_exp_minus_1 push_bit_eq_mult)
  have "x = ucast (push_bit n 1 - 1 :: u32) \<longleftrightarrow> (\<forall>i < 8. bit x i \<longleftrightarrow> i < n)"
    unfolding m by (auto simp: bit_eq_iff bit_simps dest: bit_imp_le_length)
  also have "\<dots> \<longleftrightarrow> S = {..<n}" using assms by (auto simp: subset_iff)
  finally show ?thesis .
qed

lemma last_chunk:
  assumes "parts pkt > 0"
  shows "(parts pkt - 1) * SLP_MTU + length (chunk_of pkt (parts pkt - 1)) = length pkt"
proof -
  have "(parts pkt - 1) * SLP_MTU < length pkt" "\<not> parts pkt * SLP_MTU < length pkt"
    using assms parts_less [of "parts pkt - 1" pkt] parts_less [of "parts pkt" pkt] by auto
  moreover have "parts pkt * SLP_MTU = (parts pkt - 1) * SLP_MTU + SLP_MTU" using assms by (cases "parts pkt") auto
  ultimately show ?thesis by (simp add: length_chunk_of)
qed

lemma rebuild:
  assumes "length pkt \<le> length data"
    and "\<And>j. j < parts pkt \<Longrightarrow> take (length (chunk_of pkt j)) (drop (j * SLP_MTU) data) = chunk_of pkt j"
  shows "take (length pkt) data = pkt"
proof (rule nth_equalityI)
  fix k assume "k < length (take (length pkt) data)"
  then have k: "k < length pkt" by simp
  define j r where "j = k div SLP_MTU" and "r = k mod SLP_MTU"
  have kr: "k = j * SLP_MTU + r" "r < SLP_MTU" by (simp_all add: j_def r_def SLP_MTU_def)
  then have j: "j < parts pkt" using k parts_less [of j pkt] by simp
  have r: "r < length (chunk_of pkt j)" using kr k by (simp add: length_chunk_of)
  have "data ! k = take (length (chunk_of pkt j)) (drop (j * SLP_MTU) data) ! r" using r kr k assms(1) by simp
  also have "\<dots> = chunk_of pkt j ! r" using assms(2) [OF j] by simp
  also have "\<dots> = pkt ! k" using r kr k by (simp add: chunk_of_def)
  finally show "take (length pkt) data ! k = pkt ! k" using k by simp
qed (use assms(1) in simp)

text \<open>Taking one more part.\<close>

lemma part_words:
  assumes "length pkt \<le> FragDataSize" and "i < parts pkt"
  shows "unat (of_nat i :: u8) = i" "unat (of_nat (parts pkt) :: u8) = parts pkt" "unat (of_nat SLP_MTU :: u16) = SLP_MTU"
    "unat (of_nat (length (chunk_of pkt k)) :: u16) = length (chunk_of pkt k)"
  using assms(2) parts_small [OF assms(1)]
  by (simp_all add: unat_of_nat take_bit_nat_eq_self length_chunk_of SLP_MTU_def)

lemma holds_none:
  assumes "length pkt \<le> FragDataSize" and "holds_parts pkt S e"
  shows "fe_seen e = 0 \<longleftrightarrow> S = {}"
proof
  assume "fe_seen e = 0"
  with assms parts_small [OF assms(1)] show "S = {}" by (force simp: holds_parts_def)
next
  assume "S = {}"
  with assms(2) have "\<forall>i < 8. \<not> bit (fe_seen e) i" by (simp add: holds_parts_def)
  then show "fe_seen e = 0" by (auto simp: bit_eq_iff dest: bit_imp_le_length)
qed

text \<open>The entry after taking part \<open>i\<close>.\<close>

definition with_part :: "bytes \<Rightarrow> nat \<Rightarrow> int \<Rightarrow> FragEntry \<Rightarrow> FragEntry" where
  "with_part pkt i now e = e\<lparr>fe_pmtu := of_nat SLP_MTU, fe_total_parts := of_nat (parts pkt),
     fe_data := write_at (fe_data e) (i * SLP_MTU) (chunk_of pkt i), fe_lens := (fe_lens e)[i := of_nat (length (chunk_of pkt i))],
     fe_seen := fe_seen e OR ucast (push_bit i 1 :: u32), fe_last_tick := now\<rparr>"

lemma holds_with_part:
  assumes len: "length pkt \<le> FragDataSize" and i: "i < parts pkt" "i \<notin> S" and h: "holds_parts pkt S e"
  shows "holds_parts pkt (insert i S) (with_part pkt i now e)"
proof -
  let ?c = "chunk_of pkt i" and ?e = "with_part pkt i now e"
  have i8: "i < 8" "i < 4" using i parts_small [OF len] by auto
  have off: "i * SLP_MTU + length ?c \<le> length (fe_data e)" "i * SLP_MTU \<le> length (fe_data e)"
    using chunk_fits(1) [OF len i(1)] len h by (auto simp: holds_parts_def)
  have old: "take (length (chunk_of pkt k)) (drop (k * SLP_MTU) (write_at (fe_data e) (i * SLP_MTU) ?c)) = chunk_of pkt k"
    if k: "k \<in> S" for k
  proof -
    have kp: "k \<noteq> i" "k < parts pkt" using k i(2) h by (auto simp: holds_parts_def)
    have "take (length (chunk_of pkt k)) (drop (k * SLP_MTU) (fe_data e)) = chunk_of pkt k"
      using h k by (simp add: holds_parts_def)
    with chunks_apart [OF kp(1,2) i(1)] off(2) show ?thesis
      by (auto simp: write_at_before write_at_behind)
  qed
  have "bit (fe_seen ?e) k \<longleftrightarrow> k \<in> insert i S" if "k < 8" for k
    using h that by (auto simp: with_part_def holds_parts_def bit_simps)
  then show ?thesis
    using h i i8 old off write_at_same [OF off(2), of ?c]
    by (auto simp: holds_parts_def length_write_at with_part_def MaxTotalParts_def nth_list_update)
qed

lemma frag_part_step:
  fixes now :: int
  assumes len: "length pkt \<le> FragDataSize" and i: "i < parts pkt" "i \<notin> S" and h: "holds_parts pkt S e"
  defines "e' \<equiv> with_part pkt i now e"
  shows "frag_part now (of_nat i) (of_nat (parts pkt)) (of_nat (length (chunk_of pkt i))) (of_nat SLP_MTU) (chunk_of pkt i) e =
     (if fe_seen e' = ucast (push_bit (parts pkt) 1 - 1 :: u32)
      then (e'\<lparr>fe_active := False\<rparr>,
        if (parts pkt - 1) * SLP_MTU + unat (fe_lens e' ! (parts pkt - 1)) \<le> FragDataSize
        then Some (take ((parts pkt - 1) * SLP_MTU + unat (fe_lens e' ! (parts pkt - 1))) (fe_data e')) else None)
      else (e', None))"
proof -
  have i8: "i < 8" using i parts_small [OF len] by auto
  then have dup: "ucast (fe_seen e) AND (push_bit i 1 :: u32) = 0"
    using seen_bit [OF i8, of "fe_seen e"] h i by (simp add: holds_parts_def)
  have geo: "fe_seen e \<noteq> 0 \<Longrightarrow> fe_pmtu e = of_nat SLP_MTU \<and> fe_total_parts e = of_nat (parts pkt)"
    using h holds_none [OF len h] by (simp add: holds_parts_def)
  then have gf: "\<not> (fe_seen e \<noteq> 0 \<and> (fe_pmtu e \<noteq> of_nat SLP_MTU \<or> fe_total_parts e \<noteq> of_nat (parts pkt)))" by blast
  have e1: "(if fe_seen e = 0 then e\<lparr>fe_pmtu := of_nat SLP_MTU, fe_total_parts := of_nat (parts pkt)\<rparr> else e) =
      e\<lparr>fe_pmtu := of_nat SLP_MTU, fe_total_parts := of_nat (parts pkt)\<rparr>"
    using geo by (cases e) auto
  show ?thesis
    unfolding frag_part_def Let_def e1 part_words [OF len i(1)] if_not_P [OF gf] using dup by (simp add: e'_def with_part_def)
qed

lemma frag_part_new:
  assumes len: "length pkt \<le> FragDataSize" and i: "i < parts pkt" "i \<notin> S" and h: "holds_parts pkt S e"
  shows "\<exists>e'. holds_parts pkt (insert i S) e' \<and> fe_src e' = fe_src e \<and> fe_id e' = fe_id e \<and> fe_last_tick e' = now \<and>
     fe_active e' = fe_active e \<and>
     frag_part now (of_nat i) (of_nat (parts pkt)) (of_nat (length (chunk_of pkt i))) (of_nat SLP_MTU) (chunk_of pkt i) e =
       (if insert i S = {..<parts pkt} then (e'\<lparr>fe_active := False\<rparr>, Some pkt) else (e', None))"
proof -
  let ?e = "with_part pkt i now e"
  have hp: "holds_parts pkt (insert i S) ?e" by (rule holds_with_part [OF assms])
  have full: "fe_seen ?e = ucast (push_bit (parts pkt) 1 - 1 :: u32) \<longleftrightarrow> insert i S = {..<parts pkt}"
    by (rule seen_full) (use hp parts_small [OF len] in \<open>auto simp: holds_parts_def\<close>)
  have reb: "unat (fe_lens ?e ! (parts pkt - 1)) = length (chunk_of pkt (parts pkt - 1)) \<and> take (length pkt) (fe_data ?e) = pkt"
    if "insert i S = {..<parts pkt}"
  proof
    have "parts pkt - 1 \<in> insert i S" using that i(1) by auto
    then show "unat (fe_lens ?e ! (parts pkt - 1)) = length (chunk_of pkt (parts pkt - 1))"
      using hp part_words(4) [OF len i(1)] unfolding holds_parts_def by metis
    show "take (length pkt) (fe_data ?e) = pkt"
      by (rule rebuild) (use hp len that in \<open>auto simp: holds_parts_def\<close>)
  qed
  have "parts pkt > 0" using i by simp
  from last_chunk [OF this] have "frag_part now (of_nat i) (of_nat (parts pkt)) (of_nat (length (chunk_of pkt i))) (of_nat SLP_MTU)
      (chunk_of pkt i) e = (if insert i S = {..<parts pkt} then (?e\<lparr>fe_active := False\<rparr>, Some pkt) else (?e, None))"
    unfolding frag_part_step [OF assms] full using reb len by simp
  with hp show ?thesis by (intro exI [of _ ?e]) (simp add: with_part_def)
qed

lemma frag_part_dup:
  assumes "length pkt \<le> FragDataSize" and "i \<in> S" and "holds_parts pkt S e"
  shows "frag_part now (of_nat i) (of_nat (parts pkt)) clen (of_nat SLP_MTU) chunk e = (e, None)"
proof -
  have i: "i < parts pkt" "i < 8" "bit (fe_seen e) i"
    using assms parts_small [OF assms(1)] by (auto simp: holds_parts_def)
  have u: "unat (of_nat i :: u8) = i" using i by (simp add: unat_of_nat take_bit_nat_eq_self)
  have "fe_seen e \<noteq> 0" using i(3) by auto
  moreover have "ucast (fe_seen e) AND (push_bit i 1 :: u32) \<noteq> 0" using seen_bit [OF i(2), of "fe_seen e"] i(3) by simp
  ultimately show ?thesis
    using assms(2,3) unfolding frag_part_def Let_def u by (auto simp: holds_parts_def simp del: push_bit_of_1)
qed

definition pkt_id :: "bytes \<Rightarrow> u16" where "pkt_id pkt = Rd16be (pkt ! 4) (pkt ! 5)"

definition pkt_key :: "bytes \<Rightarrow> FragEntry \<Rightarrow> bool" where
  "pkt_key pkt = frag_key (slpIpv4Src pkt) (pkt_id pkt)"

lemma OnFrag_frame:
  assumes "length pkt \<le> FragDataSize" and "i < parts pkt"
  shows "OnFrag now (tl (frag_frame pkt i)) g =
     (case FindFragEntry now (slpIpv4Src pkt) (pkt_id pkt) g of
        (None, g1) \<Rightarrow> (g1, None)
      | (Some j, g1) \<Rightarrow>
          (let (e, out) = frag_part now (of_nat i) (of_nat (parts pkt)) (of_nat (length (chunk_of pkt i))) (of_nat SLP_MTU)
                (chunk_of pkt i) (g1 ! j)
           in (g1[j := e], out)))"
proof -
  have p4: "parts pkt \<le> 4" by (rule parts_small [OF assms(1)])
  have u: "unat (of_nat i :: u8) = i" "unat (of_nat (parts pkt) :: u8) = parts pkt" "unat (of_nat SLP_MTU :: u16) = SLP_MTU"
    "unat (of_nat (length (chunk_of pkt i)) :: u16) = length (chunk_of pkt i)"
    using assms p4 by (simp_all add: unat_of_nat take_bit_nat_eq_self SLP_MTU_def length_chunk_of)
  have g: "(of_nat (parts pkt) :: u8) \<noteq> 0" "\<not> (of_nat i :: u8) \<ge> of_nat (parts pkt)"
    "\<not> unat (of_nat (parts pkt) :: u8) > MaxTotalParts" "(of_nat SLP_MTU :: u16) \<noteq> 0"
    "\<not> unat (of_nat SLP_MTU :: u16) > SLP_MTU" "\<not> (of_nat (length (chunk_of pkt i)) :: u16) > of_nat SLP_MTU"
    using assms p4 u chunk_fits(3) [OF assms]
    by (auto simp: word_le_nat_alt word_less_nat_alt MaxTotalParts_def SLP_MTU_def simp flip: unat_eq_0)
  have l: "length (tl (frag_frame pkt i)) = 16 + length (chunk_of pkt i)" by (simp add: length_frag_frame)
  show ?thesis
    unfolding OnFrag_def Let_def frag_frame_fields u(4) take_all [OF order_refl] using l g by (simp add: pkt_id_def)
qed

text \<open>The packet \<open>pkt\<close> is being put together in exactly one entry, which has the parts \<open>S\<close> and was last
  touched in the window that starts at \<open>t0\<close>.\<close>

definition collecting :: "bytes \<Rightarrow> int \<Rightarrow> nat set \<Rightarrow> FragEntry list \<Rightarrow> bool" where
  "collecting pkt t0 S g \<longleftrightarrow> length g = MaxFragEntries \<and>
     (\<exists>j < MaxFragEntries. pkt_key pkt (g ! j) \<and> holds_parts pkt S (g ! j) \<and>
        t0 \<le> fe_last_tick (g ! j) \<and> fe_last_tick (g ! j) \<le> t0 + FragTimeoutTicks \<and>
        (\<forall>k < MaxFragEntries. k \<noteq> j \<longrightarrow> \<not> pkt_key pkt (g ! k)))"

definition untouched :: "bytes \<Rightarrow> FragEntry list \<Rightarrow> bool" where
  "untouched pkt g \<longleftrightarrow> length g = MaxFragEntries \<and> (\<forall>e \<in> set g. \<not> pkt_key pkt e)"

lemma expire_key: "pkt_key pkt (expire now e) \<longleftrightarrow> pkt_key pkt e \<and> now - fe_last_tick e \<le> FragTimeoutTicks"
  by (auto simp: expire_def pkt_key_def frag_key_def)

lemma find_index_unique:
  assumes "j < length xs" and "P (xs ! j)" and "\<And>k. k < length xs \<Longrightarrow> k \<noteq> j \<Longrightarrow> \<not> P (xs ! k)"
  shows "find_index P xs i = Some (i + j)"
proof -
  have "find_index P xs i \<noteq> None" using assms(1,2) by (auto simp: find_index_None)
  then obtain m where m: "find_index P xs i = Some m" by auto
  from find_index_Some [OF m] have "m - i = j" "i \<le> m" using assms(3) by blast+
  with m show ?thesis by simp
qed

lemma FindFragEntry_collecting:
  assumes "collecting pkt t0 S g" and "t0 \<le> now" and "now \<le> t0 + FragTimeoutTicks"
  obtains j g1 where "FindFragEntry now (slpIpv4Src pkt) (pkt_id pkt) g = (Some j, g1)" "j < MaxFragEntries"
    "length g1 = MaxFragEntries" "pkt_key pkt (g1 ! j)" "holds_parts pkt S (g1 ! j)"
    "t0 \<le> fe_last_tick (g1 ! j)" "fe_last_tick (g1 ! j) \<le> t0 + FragTimeoutTicks"
    "\<forall>k < MaxFragEntries. k \<noteq> j \<longrightarrow> \<not> pkt_key pkt (g1 ! k)"
proof -
  from assms(1) obtain j where l: "length g = MaxFragEntries" and j: "j < MaxFragEntries" "pkt_key pkt (g ! j)"
    "holds_parts pkt S (g ! j)" "t0 \<le> fe_last_tick (g ! j)" "fe_last_tick (g ! j) \<le> t0 + FragTimeoutTicks"
    "\<And>k. k < MaxFragEntries \<Longrightarrow> k \<noteq> j \<Longrightarrow> \<not> pkt_key pkt (g ! k)"
    unfolding collecting_def by blast
  let ?g = "map (expire now) g"
  have e: "expire now (g ! j) = g ! j" using j(4) assms(3) by (simp add: expire_def)
  have o: "\<not> pkt_key pkt (?g ! k)" if "k < MaxFragEntries" "k \<noteq> j" for k
    using j(6) [OF that] that l by (simp add: expire_key)
  have "find_index (frag_key (slpIpv4Src pkt) (pkt_id pkt)) ?g 0 = Some (0 + j)"
    by (rule find_index_unique) (use j l e o in \<open>auto simp: pkt_key_def\<close>)
  then have "FindFragEntry now (slpIpv4Src pkt) (pkt_id pkt) g = (Some j, ?g)" by (simp add: FindFragEntry_def)
  then show ?thesis by (rule that) (use j l e o in auto)
qed

lemma OnFrag_collecting:
  assumes len: "length pkt \<le> FragDataSize" and i: "i < parts pkt" and c: "collecting pkt t0 S g" and S: "S \<subset> {..<parts pkt}"
    and t: "t0 \<le> now" "now \<le> t0 + FragTimeoutTicks"
  shows "\<exists>g'. OnFrag now (tl (frag_frame pkt i)) g = (g', if insert i S = {..<parts pkt} then Some pkt else None) \<and>
     (if insert i S = {..<parts pkt} then untouched pkt g' else collecting pkt t0 (insert i S) g')"
proof -
  obtain j g1 where f: "FindFragEntry now (slpIpv4Src pkt) (pkt_id pkt) g = (Some j, g1)" and j: "j < MaxFragEntries"
    "length g1 = MaxFragEntries" "pkt_key pkt (g1 ! j)" "holds_parts pkt S (g1 ! j)"
    "t0 \<le> fe_last_tick (g1 ! j)" "fe_last_tick (g1 ! j) \<le> t0 + FragTimeoutTicks"
    "\<forall>k < MaxFragEntries. k \<noteq> j \<longrightarrow> \<not> pkt_key pkt (g1 ! k)"
    by (rule FindFragEntry_collecting [OF c t])
  show ?thesis
  proof (cases "i \<in> S")
    case True
    then have "insert i S = S" "S \<noteq> {..<parts pkt}" using S by auto
    moreover have "OnFrag now (tl (frag_frame pkt i)) g = (g1, None)"
      using OnFrag_frame [OF len i] f frag_part_dup [OF len True j(4)] by (simp add: j)
    moreover have "collecting pkt t0 S g1" using j by (auto simp: collecting_def)
    ultimately show ?thesis by simp
  next
    case False
    from frag_part_new [OF len i False j(4), of now] obtain e' where
      e': "holds_parts pkt (insert i S) e'" "fe_src e' = fe_src (g1 ! j)" "fe_id e' = fe_id (g1 ! j)" "fe_last_tick e' = now"
      "fe_active e' = fe_active (g1 ! j)"
      "frag_part now (of_nat i) (of_nat (parts pkt)) (of_nat (length (chunk_of pkt i))) (of_nat SLP_MTU) (chunk_of pkt i) (g1 ! j) =
         (if insert i S = {..<parts pkt} then (e'\<lparr>fe_active := False\<rparr>, Some pkt) else (e', None))" by blast
    have key: "pkt_key pkt e'" using e' j(3) by (simp add: pkt_key_def frag_key_def)
    show ?thesis
    proof (cases "insert i S = {..<parts pkt}")
      case True
      have "\<not> pkt_key pkt (g1[j := e'\<lparr>fe_active := False\<rparr>] ! k)" if "k < MaxFragEntries" for k
        using j that by (cases "k = j") (simp_all add: pkt_key_def frag_key_def)
      then have "untouched pkt (g1[j := e'\<lparr>fe_active := False\<rparr>])"
        using j(2) by (auto simp: untouched_def in_set_conv_nth)
      with True show ?thesis using OnFrag_frame [OF len i] f e'(6) by simp
    next
      case False
      have "collecting pkt t0 (insert i S) (g1[j := e'])"
        using j e'(1,4) key t by (auto simp: collecting_def nth_list_update intro!: exI [of _ j])
      with False show ?thesis using OnFrag_frame [OF len i] f e'(6) by simp
    qed
  qed
qed

text \<open>The first part takes a free entry, or the least recently used one.\<close>

lemma find_reuse_bound: "find_reuse es i oldest reuse = Some k \<Longrightarrow> k < i + length es \<or> reuse = Some k"
  by (induction es i oldest reuse rule: find_reuse.induct) (auto split: if_splits)

lemma find_reuse_exists:
  "es \<noteq> [] \<Longrightarrow> \<forall>e \<in> set es. fe_last_tick e < oldest \<Longrightarrow> find_reuse es i oldest reuse \<noteq> None"
proof (induction es arbitrary: i oldest reuse)
  case (Cons e es)
  have keep: "find_reuse xs n b (Some k) \<noteq> None" for xs n b k
    by (induction xs n b "Some k" arbitrary: k rule: find_reuse.induct) auto
  show ?case using Cons.prems keep by simp
qed simp

lemma holds_zero: "holds_parts pkt {} (zero_FragEntry\<lparr>fe_active := a, fe_src := s, fe_id := n, fe_last_tick := t\<rparr>)"
  by (simp add: holds_parts_def zero_FragEntry_def)

lemma OnFrag_first:
  assumes len: "length pkt \<le> FragDataSize" and i: "i < parts pkt" and p2: "parts pkt > 1" and u: "untouched pkt g"
    and tick: "\<forall>e \<in> set g. fe_last_tick e < INT64_MAX" and t: "t0 \<le> now" "now \<le> t0 + FragTimeoutTicks"
  shows "\<exists>g'. OnFrag now (tl (frag_frame pkt i)) g = (g', None) \<and> collecting pkt t0 {i} g'"
proof -
  let ?g = "map (expire now) g"
  have l: "length g = MaxFragEntries" "MaxFragEntries > 0" using u by (auto simp: untouched_def MaxFragEntries_def)
  have no: "\<not> pkt_key pkt (?g ! k)" if "k < MaxFragEntries" for k
    using u that by (auto simp: untouched_def expire_key)
  have "find_index (frag_key (slpIpv4Src pkt) (pkt_id pkt)) ?g 0 = None"
    using u by (auto simp: find_index_None untouched_def expire_key pkt_key_def [symmetric])
  moreover have "find_reuse ?g 0 INT64_MAX None \<noteq> None"
    by (rule find_reuse_exists) (use l tick in \<open>auto simp: expire_def\<close>)
  then obtain j where r: "find_reuse ?g 0 INT64_MAX None = Some j" by auto
  then have j: "j < MaxFragEntries" using find_reuse_bound [OF r] l by simp
  let ?z = "zero_FragEntry\<lparr>fe_active := True, fe_src := slpIpv4Src pkt, fe_id := pkt_id pkt, fe_last_tick := now\<rparr>"
  have f: "FindFragEntry now (slpIpv4Src pkt) (pkt_id pkt) g = (Some j, ?g[j := ?z])"
    using r calculation by (simp add: FindFragEntry_def)
  from frag_part_new [OF len i _ holds_zero, of now] obtain e' where
    e': "holds_parts pkt {i} e'" "fe_src e' = fe_src ?z" "fe_id e' = fe_id ?z" "fe_last_tick e' = now" "fe_active e' = fe_active ?z"
    "frag_part now (of_nat i) (of_nat (parts pkt)) (of_nat (length (chunk_of pkt i))) (of_nat SLP_MTU) (chunk_of pkt i) ?z =
       (if {i} = {..<parts pkt} then (e'\<lparr>fe_active := False\<rparr>, Some pkt) else (e', None))" by blast
  have "{i} \<noteq> {..<parts pkt}" using p2 by (metis card_lessThan card_1_singleton_iff One_nat_def less_irrefl)
  then have "OnFrag now (tl (frag_frame pkt i)) g = (?g[j := e'], None)"
    using OnFrag_frame [OF len i] f e'(6) j l by simp
  moreover have "collecting pkt t0 {i} (?g[j := e'])"
    using j l e' t no by (auto simp: collecting_def nth_list_update pkt_key_def frag_key_def intro!: exI [of _ j])
  ultimately show ?thesis by blast
qed

text \<open>A sequence of arriving fragments of one packet, each with its arrival time.\<close>

fun on_frags :: "bytes \<Rightarrow> (int \<times> nat) list \<Rightarrow> FragEntry list \<Rightarrow> FragEntry list \<times> bytes option list" where
  "on_frags pkt [] g = (g, [])"
| "on_frags pkt ((t, i) # as) g =
     (let (g1, out) = OnFrag t (tl (frag_frame pkt i)) g; (g2, outs) = on_frags pkt as g1 in (g2, out # outs))"

definition in_window :: "bytes \<Rightarrow> int \<Rightarrow> int \<times> nat \<Rightarrow> bool" where
  "in_window pkt t0 a \<longleftrightarrow> t0 \<le> fst a \<and> fst a \<le> t0 + FragTimeoutTicks \<and> snd a < parts pkt"

lemma on_frags_collecting:
  assumes len: "length pkt \<le> FragDataSize" and k: "k < parts pkt"
  shows "list_all (in_window pkt t0) as \<Longrightarrow> k \<notin> snd ` set as \<Longrightarrow> k \<notin> S \<Longrightarrow> S \<subseteq> {..<parts pkt} \<Longrightarrow> collecting pkt t0 S g \<Longrightarrow>
     \<exists>g'. on_frags pkt as g = (g', replicate (length as) None) \<and> collecting pkt t0 (S \<union> snd ` set as) g'"
proof (induction as arbitrary: S g)
  case (Cons a as)
  obtain t i where a: "a = (t, i)" by (rule prod.exhaust)
  have w: "i < parts pkt" "t0 \<le> t" "t \<le> t0 + FragTimeoutTicks" "i \<noteq> k" using Cons.prems a by (auto simp: in_window_def)
  have S: "S \<subset> {..<parts pkt}" "insert i S \<noteq> {..<parts pkt}" using Cons.prems(3,4) k w(4) by auto
  obtain g1 where g1: "OnFrag t (tl (frag_frame pkt i)) g = (g1, None)" "collecting pkt t0 (insert i S) g1"
    using OnFrag_collecting [OF len w(1) Cons.prems(5) S(1) w(2,3)] S(2) by auto
  obtain g' where "on_frags pkt as g1 = (g', replicate (length as) None)"
    "collecting pkt t0 (insert i S \<union> snd ` set as) g'"
    using Cons.IH [OF _ _ _ _ g1(2)] Cons.prems w by auto
  then show ?case using g1(1) a by simp
qed simp

lemma reassembly_steps:
  assumes "1400 < length pkt" and "length pkt \<le> 5600" and "untouched pkt g"
    and "\<forall>e \<in> set g. fe_last_tick e < INT64_MAX"
    and "list_all (in_window pkt t0) (as @ [(t, k)])" and "k \<notin> snd ` set as"
    and "insert k (snd ` set as) = {..<parts pkt}"
  shows "\<exists>g'. on_frags pkt (as @ [(t, k)]) g = (g', replicate (length as) None @ [Some pkt]) \<and> untouched pkt g'"
proof -
  have len: "length pkt \<le> FragDataSize" using assms(2) by (simp add: FragDataSize_def MaxTotalParts_def SLP_MTU_def)
  have p2: "parts pkt > 1" using assms(1) parts_less [of 1 pkt] by (simp add: SLP_MTU_def)
  then have "as \<noteq> []" using assms(7) by (metis card_lessThan card_1_singleton_iff One_nat_def less_irrefl
        empty_set image_empty)
  then obtain t1 i bs where as: "as = (t1, i) # bs" by (metis list.exhaust prod.exhaust)
  have w: "i < parts pkt" "t0 \<le> t1" "t1 \<le> t0 + FragTimeoutTicks" "list_all (in_window pkt t0) bs" "k < parts pkt"
    "t0 \<le> t" "t \<le> t0 + FragTimeoutTicks" "i \<noteq> k" "k \<notin> snd ` set bs"
    using assms(5,6) as by (auto simp: in_window_def)
  obtain g1 where g1: "OnFrag t1 (tl (frag_frame pkt i)) g = (g1, None)" "collecting pkt t0 {i} g1"
    using OnFrag_first [OF len w(1) p2 assms(3,4) w(2,3)] by blast
  obtain g2 where g2: "on_frags pkt bs g1 = (g2, replicate (length bs) None)" "collecting pkt t0 ({i} \<union> snd ` set bs) g2"
    using on_frags_collecting [OF len w(5,4,9) _ _ g1(2)] w(1,8) by auto
  have all: "insert k ({i} \<union> snd ` set bs) = {..<parts pkt}" "{i} \<union> snd ` set bs \<subset> {..<parts pkt}"
    using assms(6,7) as by auto
  obtain g3 where g3: "OnFrag t (tl (frag_frame pkt k)) g2 = (g3, Some pkt)" "untouched pkt g3"
    using OnFrag_collecting [OF len w(5) g2(2) all(2) w(6,7)] all(1) by auto
  have app: "on_frags pkt (xs @ [(t, k)]) h = (let (h1, o1) = on_frags pkt xs h; (h2, o2) = OnFrag t (tl (frag_frame pkt k)) h1
      in (h2, o1 @ [o2]))" for xs h
    by (induction xs arbitrary: h) (auto simp: split_beta Let_def)
  show ?thesis unfolding app using g1 g2 g3 as by simp
qed

section \<open>Properties\<close>

text \<open>C16: Fragments may arrive in any order and repeated. When no fragment of a packet of 1401 to 5600
  bytes is stored yet and all its fragments arrive within one second of the first, nothing is passed on
  until the last missing one, and that one passes on exactly the packet that was sent, leaving nothing of
  it behind.\<close>

theorem reassembly_any_order:
  assumes "1400 < length pkt" and "length pkt \<le> 5600" and "untouched pkt g"
    and "\<forall>e \<in> set g. fe_last_tick e < INT64_MAX"
    and "list_all (in_window pkt t0) (as @ [(t, k)])" and "k \<notin> snd ` set as"
    and "insert k (snd ` set as) = {..<parts pkt}"
  shows "\<exists>g'. on_frags pkt (as @ [(t, k)]) g = (g', replicate (length as) None @ [Some pkt]) \<and> untouched pkt g'"
  using assms by (rule reassembly_steps)

theorem reassembly_any_order_witness:
  "\<exists>g'. on_frags (replicate 3000 7) [(5, 2), (6, 0), (6, 2), (9, 1)] (g_frags new_Tunnel) =
     (g', [None, None, None, Some (replicate 3000 7)])"
proof -
  define pkt :: bytes where "pkt = replicate 3000 7"
  have l: "1400 < length pkt" "length pkt \<le> 5600" by (simp_all add: pkt_def)
  have p: "parts pkt = 3" by (simp add: parts_def SLP_MTU_def pkt_def)
  let ?as = "[(5::int, 2::nat), (6, 0), (6, 2)]"
  have u: "untouched pkt (g_frags new_Tunnel)"
    by (simp add: untouched_def new_Tunnel_def pkt_key_def frag_key_def zero_FragEntry_def)
  have y: "\<forall>e \<in> set (g_frags new_Tunnel). fe_last_tick e < INT64_MAX"
    by (simp add: new_Tunnel_def zero_FragEntry_def INT64_MAX_def)
  have w: "list_all (in_window pkt 5) (?as @ [(9, 1)])" by (simp add: in_window_def p FragTimeoutTicks_def)
  have k: "1 \<notin> snd ` set ?as" "insert 1 (snd ` set ?as) = {..<parts pkt}" unfolding p by auto
  have n: "replicate (length ?as) None @ [Some pkt] = [None, None, None, Some pkt]" by simp
  from reassembly_any_order [OF l u y w k] show ?thesis
    unfolding n pkt_def [symmetric] by (simp only: append.simps) blast
qed

end
