(* ===== verification/Bsd_Session.thy ===== *)
theory Bsd_Session
  imports Tunnel "HOL-Library.AList"
begin

text \<open>
  Sessions of the socket service (\<^verbatim>\<open>bsd/bsd_mitm_service.cpp\<close>, first part): the global tables, construction
  and destruction of a session object, and \<^verbatim>\<open>ShouldMitm\<close>, which decides whether a session is intercepted and
  lets the first session of every burst of a process through.

  The globals of the file, the singletons it calls (socket manager, LDN control, address map) and the
  rest of the program \<open>'w\<close> are the record \<open>bsd\<close>; a session object is the record \<open>BsdMitmService\<close>. The hash
  map \<^verbatim>\<open>g_socket_info\<close> is an association list whose order stands for the iteration order. The calls made to
  the console's network service are logged in \<open>b_nifm\<close>. Logging is left out.
\<close>

section \<open>State\<close>

record SocketInfo =
  si_type :: SocketType
  si_protocol :: ProtocolType
  si_is_proxy :: bool
  si_broadcast :: bool
  si_session_id :: u32

record 'w bsd =
  g_socket_info :: "(int \<times> SocketInfo) list"
  g_mitm_pid_live :: "u64 \<rightharpoonup> u32"
  g_mitm_pid_skipped :: "u64 \<rightharpoonup> bool"
  g_abandoned_forward_services :: "u32 list"
  s_next_session_id :: u32
  b_mgr :: "'w ProxySocketManager"
  b_ldn :: LdnControl
  b_netmap :: netmap
  b_nifm :: "NifmCall list"
  b_world :: 'w

record BsdMitmService =
  m_client_pid :: u64
  m_command_count :: u32
  m_session_id :: u32
  m_registered :: bool
  m_mode :: int
  m_entered_local_network_mode :: bool

definition new_bsd :: "'w ProxySocketManager \<Rightarrow> LdnControl \<Rightarrow> 'w \<Rightarrow> 'w bsd" where
  "new_bsd mgr ctl w = \<lparr>g_socket_info = [], g_mitm_pid_live = Map.empty, g_mitm_pid_skipped = Map.empty,
     g_abandoned_forward_services = [], s_next_session_id = 0, b_mgr = mgr, b_ldn = ctl, b_netmap = netmap_init,
     b_nifm = [], b_world = w\<rparr>"

section \<open>Construction and destruction\<close>

definition BsdMitmService_new :: "u64 \<Rightarrow> 'w bsd \<Rightarrow> BsdMitmService \<times> 'w bsd" where
  "BsdMitmService_new pid b =
     (let sid = s_next_session_id b + 1
      in (\<lparr>m_client_pid = pid, m_command_count = 0, m_session_id = sid, m_registered = False, m_mode = 0,
           m_entered_local_network_mode = False\<rparr>,
          b\<lparr>s_next_session_id := sid\<rparr>))"

fun close_fds :: "int list \<Rightarrow> 'w bsd \<Rightarrow> 'w bsd" where
  "close_fds [] b = b"
| "close_fds (fd # fds) b =
     (let (_, m, w) = CloseProxySocket fd (b_mgr b) (b_world b) in close_fds fds (b\<lparr>b_mgr := m, b_world := w\<rparr>))"

definition ExitLocalNetworkModePublic :: "nifm_answers \<Rightarrow> 'w bsd \<Rightarrow> 'w bsd" where
  "ExitLocalNetworkModePublic na b =
     (let (l, calls) = exit_if_entered na (b_ldn b) in b\<lparr>b_ldn := l, b_nifm := b_nifm b @ calls\<rparr>)"

definition EnterLocalNetworkModePublic :: "nifm_answers \<Rightarrow> 'w bsd \<Rightarrow> bool \<times> 'w bsd" where
  "EnterLocalNetworkModePublic na b =
     (let (rc, l, calls) = EnterLocalNetworkMode na (b_ldn b) in (rc = None, b\<lparr>b_ldn := l, b_nifm := b_nifm b @ calls\<rparr>))"

definition drop_live :: "u64 \<Rightarrow> 'w bsd \<Rightarrow> 'w bsd" where
  "drop_live pid b =
     (if pid = 0 then b
      else case g_mitm_pid_live b pid of
          None \<Rightarrow> b
        | Some n \<Rightarrow>
            if n \<le> 1 then b\<lparr>g_mitm_pid_live := (g_mitm_pid_live b)(pid := None),
              g_mitm_pid_skipped := (g_mitm_pid_skipped b)(pid := None)\<rparr>
            else b\<lparr>g_mitm_pid_live := (g_mitm_pid_live b)(pid \<mapsto> n - 1)\<rparr>)"

definition BsdMitmService_delete :: "nifm_answers \<Rightarrow> BsdMitmService \<Rightarrow> 'w bsd \<Rightarrow> 'w bsd" where
  "BsdMitmService_delete na svc b =
     (let mine = \<lambda>(_, i). si_session_id i = m_session_id svc;
          proxy_fds = map fst (filter (\<lambda>x. mine x \<and> si_is_proxy (snd x)) (g_socket_info b));
          b1 = close_fds proxy_fds (b\<lparr>g_socket_info := filter (\<lambda>x. \<not> mine x) (g_socket_info b)\<rparr>);
          b2 = (if m_entered_local_network_mode svc then ExitLocalNetworkModePublic na b1 else b1);
          b3 = (if m_registered svc then b2
                else b2\<lparr>g_abandoned_forward_services := g_abandoned_forward_services b2 @ [m_session_id svc]\<rparr>)
      in drop_live (m_client_pid svc) b3)"

definition CleanupAbandonedServices :: "'w bsd \<Rightarrow> 'w bsd" where
  "CleanupAbandonedServices b = b\<lparr>g_abandoned_forward_services := []\<rparr>"

section \<open>ShouldMitm\<close>

definition OUR_PROGRAM_ID :: u64 where "OUR_PROGRAM_ID = 0x4200000000000011"

text \<open>\<open>running\<close> is the state of the relay runtime; \<open>is_application\<close> is the system's classification of program
  ids (\<^verbatim>\<open>ams::ncm::IsApplicationId\<close>).\<close>

definition ShouldMitm :: "bool \<Rightarrow> (u64 \<Rightarrow> bool) \<Rightarrow> u64 \<Rightarrow> u64 \<Rightarrow> 'w bsd \<Rightarrow> bool \<times> 'w bsd" where
  "ShouldMitm running is_application pid program_id b =
     (if \<not> running then (False, b)
      else if program_id = OUR_PROGRAM_ID then (False, b)
      else if \<not> is_application program_id then (False, b)
      else if g_mitm_pid_skipped b pid \<noteq> Some True then
        (False, b\<lparr>g_mitm_pid_skipped := (g_mitm_pid_skipped b)(pid \<mapsto> True)\<rparr>)
      else (True, b\<lparr>g_mitm_pid_live := (g_mitm_pid_live b)(pid \<mapsto>
             (case g_mitm_pid_live b pid of None \<Rightarrow> 0 | Some n \<Rightarrow> n) + 1)\<rparr>))"

section \<open>Bursts of sessions\<close>

text \<open>The life of one process: it opens a session (which is answered by \<^verbatim>\<open>ShouldMitm\<close> and, when intercepted,
  constructs a session object) or closes one of its intercepted sessions.\<close>

datatype session_event = Session_Open | Session_Close

fun burst_step :: "(u64 \<Rightarrow> bool) \<Rightarrow> u64 \<Rightarrow> u64 \<Rightarrow> session_event \<Rightarrow> 'w bsd \<Rightarrow> bool \<times> 'w bsd" where
  "burst_step app pid prog Session_Open b = ShouldMitm True app pid prog b"
| "burst_step app pid prog Session_Close b = (False, drop_live pid b)"

fun burst_run :: "(u64 \<Rightarrow> bool) \<Rightarrow> u64 \<Rightarrow> u64 \<Rightarrow> session_event list \<Rightarrow> 'w bsd \<Rightarrow> bool list" where
  "burst_run app pid prog [] b = []"
| "burst_run app pid prog (e # es) b = (let (r, b') = burst_step app pid prog e b in r # burst_run app pid prog es b')"

text \<open>The specification: a flag that tells whether the first session of the current burst has been let
  through, and the number of live intercepted sessions.\<close>

fun burst_spec :: "bool \<Rightarrow> nat \<Rightarrow> session_event list \<Rightarrow> bool list" where
  "burst_spec skipped n [] = []"
| "burst_spec False n (Session_Open # es) = False # burst_spec True n es"
| "burst_spec True n (Session_Open # es) = True # burst_spec True (n + 1) es"
| "burst_spec skipped 0 (Session_Close # es) = False # burst_spec skipped 0 es"
| "burst_spec skipped (Suc 0) (Session_Close # es) = False # burst_spec False 0 es"
| "burst_spec skipped (Suc (Suc n)) (Session_Close # es) = False # burst_spec skipped (Suc n) es"

definition burst_abs :: "u64 \<Rightarrow> 'w bsd \<Rightarrow> bool \<Rightarrow> nat \<Rightarrow> bool" where
  "burst_abs pid b skipped n \<longleftrightarrow> (g_mitm_pid_skipped b pid = Some True) = skipped \<and>
     g_mitm_pid_live b pid = (if n = 0 then None else Some (of_nat n)) \<and> (n \<noteq> 0 \<longrightarrow> skipped)"

lemma burst_refines:
  assumes "burst_abs pid b skipped n" and "n + length es < 2 ^ 32" and "app prog" "prog \<noteq> OUR_PROGRAM_ID" "pid \<noteq> 0"
  shows "burst_run app pid prog es b = burst_spec skipped n es"
  using assms(1,2)
proof (induction skipped n es arbitrary: b rule: burst_spec.induct)
  case (1 skipped n)
  then show ?case by simp
next
  case (2 n es)
  have "burst_abs pid (snd (ShouldMitm True app pid prog b)) True n"
    using 2(2) assms(3,4) by (auto simp: burst_abs_def ShouldMitm_def)
  then show ?case using 2 assms(3,4) by (auto simp: burst_abs_def ShouldMitm_def split_beta Let_def)
next
  case (3 n es)
  have "burst_abs pid (snd (ShouldMitm True app pid prog b)) True (n + 1)"
    using 3(2) assms(3,4) by (auto simp: burst_abs_def ShouldMitm_def add.commute)
  then show ?case using 3 assms(3,4) by (auto simp: burst_abs_def ShouldMitm_def split_beta Let_def)
next
  case (4 skipped es)
  then show ?case using assms(5) by (simp add: burst_abs_def drop_live_def)
next
  case (5 skipped es)
  have "burst_abs pid (drop_live pid b) False 0" using 5(2) assms(5) by (simp add: burst_abs_def drop_live_def)
  then show ?case using 5 by simp
next
  case (6 skipped n es)
  have small: "unat (of_nat (Suc (Suc n)) :: u32) = Suc (Suc n)"
    using 6(3) by (simp only: unat_of_nat) (simp add: take_bit_nat_eq_self)
  then have "\<not> (of_nat (Suc (Suc n)) :: u32) \<le> 1" by (simp only: word_le_nat_alt) simp
  then have "burst_abs pid (drop_live pid b) skipped (Suc n)"
    using 6(2) assms(5) by (simp add: burst_abs_def drop_live_def)
  then show ?case using 6 by simp
qed

lemma burst_spec_opens:
  "burst_spec True n (replicate k Session_Open @ es) = replicate k True @ burst_spec True (n + k) es"
  by (induction k arbitrary: n) auto

lemma burst_spec_closes: "burst_spec True (Suc n) (replicate n Session_Close @ es) = replicate n False @ burst_spec True (Suc 0) es"
  by (induction n) auto

lemma burst_spec_all_close:
  "burst_spec True (Suc n) (replicate (Suc n) Session_Close @ es) = replicate (Suc n) False @ burst_spec False 0 es"
proof -
  have "replicate (Suc n) Session_Close = replicate n Session_Close @ [Session_Close]"
    by (simp only: replicate_append_same replicate_Suc)
  then show ?thesis
    using burst_spec_closes [of n "Session_Close # es"] by (simp add: replicate_append_same [symmetric])
qed

definition burst :: "nat \<Rightarrow> session_event list" where
  "burst k = Session_Open # replicate k Session_Open @ replicate k Session_Close"

definition burst_answers :: "nat \<Rightarrow> bool list" where
  "burst_answers k = False # replicate k True @ replicate k False"

lemma burst_spec_bursts:
  "\<forall>k \<in> set ks. 0 < k \<Longrightarrow> burst_spec False 0 (concat (map burst ks)) = concat (map burst_answers ks)"
proof (induction ks)
  case (Cons k ks)
  then obtain j where "k = Suc j" by (cases k) auto
  with Cons show ?case
    using burst_spec_opens [of 0 k "replicate k Session_Close @ concat (map burst ks)"]
      burst_spec_all_close [of j "concat (map burst ks)"]
    by (simp add: burst_def [of "Suc j"] burst_answers_def [of "Suc j"] del: replicate_Suc)
qed simp

section \<open>Teardown\<close>

lemma close_fds_fields [simp]:
  "g_socket_info (close_fds fds b) = g_socket_info b" "b_ldn (close_fds fds b) = b_ldn b"
  "g_abandoned_forward_services (close_fds fds b) = g_abandoned_forward_services b"
  "b_netmap (close_fds fds b) = b_netmap b" "s_next_session_id (close_fds fds b) = s_next_session_id b"
  by (induction fds arbitrary: b) (simp_all add: split_beta Let_def)

lemma CloseProxySocket_sockets:
  "m_sockets (fst (snd (CloseProxySocket fd m w))) = filter (\<lambda>(k, _). k \<noteq> fd) (m_sockets m)"
proof (cases "map_of (m_sockets m) fd")
  case None
  then have "filter (\<lambda>(k, _). k \<noteq> fd) (m_sockets m) = m_sockets m"
    by (force simp: map_of_eq_None_iff filter_id_conv)
  with None show ?thesis by (simp add: CloseProxySocket_def)
qed (simp add: CloseProxySocket_def Let_def)

lemma close_fds_sockets:
  "m_sockets (b_mgr (close_fds fds b)) = filter (\<lambda>(k, _). k \<notin> set fds) (m_sockets (b_mgr b))"
proof (induction fds arbitrary: b)
  case Nil
  then show ?case by (simp add: filter_id_conv)
next
  case (Cons fd fds)
  then show ?case
    by (auto simp: split_beta Let_def CloseProxySocket_sockets intro!: filter_cong)
qed

lemma map_of_filter_key: "map_of (filter (\<lambda>(k, _). P k) xs) k = (if P k then map_of xs k else None)"
  by (induction xs) auto

lemma drop_live_fields [simp]:
  "g_socket_info (drop_live pid b) = g_socket_info b" "b_mgr (drop_live pid b) = b_mgr b"
  "g_abandoned_forward_services (drop_live pid b) = g_abandoned_forward_services b" "b_ldn (drop_live pid b) = b_ldn b"
  by (auto simp: drop_live_def split: option.splits)

lemma Exit_fields [simp]:
  "g_socket_info (ExitLocalNetworkModePublic na b) = g_socket_info b" "b_mgr (ExitLocalNetworkModePublic na b) = b_mgr b"
  "g_abandoned_forward_services (ExitLocalNetworkModePublic na b) = g_abandoned_forward_services b"
  by (auto simp: ExitLocalNetworkModePublic_def split_beta Let_def)

lemma Exit_mode [simp]: "\<not> m_local_network_mode (b_ldn (ExitLocalNetworkModePublic na b))"
  by (auto simp: ExitLocalNetworkModePublic_def exit_if_entered_def ExitLocalNetworkMode_def split_beta Let_def)

section \<open>Properties\<close>


definition sample_bsd :: "unit bsd" where
  "sample_bsd = new_bsd new_manager new_LdnControl ()"


text \<open>A process that opens its first session and then no other before it closes it leaves no trace of
  the close, so the first session of its next burst is intercepted.\<close>

lemma lone_first_session_not_forgotten:
  assumes "app prog" and "prog \<noteq> OUR_PROGRAM_ID" and "g_mitm_pid_skipped b pid = None"
  shows "burst_run app pid prog [Session_Open, Session_Open] b = [False, True]"
  using assms by (simp add: ShouldMitm_def)

text \<open>C28: Destroying a session removes every descriptor it tracked and closes the proxy sockets of those that the
  tracking table marks as proxies (one that a failed \<^verbatim>\<open>Bind\<close> left behind is not marked and stays registered), leaves the
  descriptors of other sessions and all other proxy sockets as they were, leaves local network mode if this
  session had entered it, and keeps the forwarded handle of a session that never registered instead of closing
  it.\<close>

theorem session_teardown:
  "let b' = BsdMitmService_delete na svc b; mine = \<lambda>i. si_session_id i = m_session_id svc
   in set (g_socket_info b') = {(fd, i) \<in> set (g_socket_info b). \<not> mine i} \<and>
      (\<forall>fd. GetProxySocket fd (b_mgr b') =
         (if \<exists>i. (fd, i) \<in> set (g_socket_info b) \<and> mine i \<and> si_is_proxy i then None else GetProxySocket fd (b_mgr b))) \<and>
      m_local_network_mode (b_ldn b') = (m_local_network_mode (b_ldn b) \<and> \<not> m_entered_local_network_mode svc) \<and>
      g_abandoned_forward_services b' =
        g_abandoned_forward_services b @ (if m_registered svc then [] else [m_session_id svc])"
proof -
  define mine where "mine i \<longleftrightarrow> si_session_id i = m_session_id svc" for i :: SocketInfo
  define b' where "b' = BsdMitmService_delete na svc b"
  define fds where "fds = map fst (filter (\<lambda>x. (case x of (_, i) \<Rightarrow> si_session_id i = m_session_id svc) \<and>
     si_is_proxy (snd x)) (g_socket_info b))"
  have "m_sockets (b_mgr b') = filter (\<lambda>(k, _). k \<notin> set fds) (m_sockets (b_mgr b))"
    by (simp add: b'_def BsdMitmService_delete_def Let_def close_fds_sockets fds_def)
  then have "GetProxySocket fd (b_mgr b') = (if fd \<notin> set fds then GetProxySocket fd (b_mgr b) else None)" for fd
    by (simp only: GetProxySocket_def map_of_filter_key)
  moreover have "fd \<in> set fds \<longleftrightarrow> (\<exists>i. (fd, i) \<in> set (g_socket_info b) \<and> mine i \<and> si_is_proxy i)" for fd
    by (force simp: mine_def fds_def)
  moreover have "set (g_socket_info b') = {(fd, i) \<in> set (g_socket_info b). \<not> mine i}"
    by (auto simp: b'_def BsdMitmService_delete_def Let_def mine_def)
  moreover have "m_local_network_mode (b_ldn b') = (m_local_network_mode (b_ldn b) \<and> \<not> m_entered_local_network_mode svc)"
    by (simp add: b'_def BsdMitmService_delete_def Let_def)
  moreover have "g_abandoned_forward_services b' =
      g_abandoned_forward_services b @ (if m_registered svc then [] else [m_session_id svc])"
    by (simp add: b'_def BsdMitmService_delete_def Let_def)
  ultimately have "set (g_socket_info b') = {(fd, i) \<in> set (g_socket_info b). \<not> mine i} \<and>
      (\<forall>fd. GetProxySocket fd (b_mgr b') =
         (if \<exists>i. (fd, i) \<in> set (g_socket_info b) \<and> mine i \<and> si_is_proxy i then None else GetProxySocket fd (b_mgr b))) \<and>
      m_local_network_mode (b_ldn b') = (m_local_network_mode (b_ldn b) \<and> \<not> m_entered_local_network_mode svc) \<and>
      g_abandoned_forward_services b' =
        g_abandoned_forward_services b @ (if m_registered svc then [] else [m_session_id svc])" by auto
  then show ?thesis unfolding Let_def b'_def mine_def .
qed

end
