(* ===== verification/Bsd_Service.thy ===== *)
theory Bsd_Service
  imports Bsd_Session
begin

text \<open>
  The commands of the socket service (\<^verbatim>\<open>bsd/bsd_mitm_service.cpp\<close>, second part): all 34 commands of the
  interface (\<^verbatim>\<open>bsd/interfaces/ibsd_mitm_service.hpp\<close>), each a function from the session object and the globals
  to the reply and their new values.

  A reply is the result code, the out-words in the order the interface declares them, and what was
  written to each out-buffer. The real socket service is the argument \<open>be_fwd\<close>; when its result code is a
  failure the out-words keep their initial value 0. An input buffer is \<open>None\<close> for a null pointer. An errno
  carried by a \<open>Result\<close> of a proxy socket is its \<open>errno_val\<close>.
\<close>

section \<open>The real service and replies\<close>

type_synonym in_buf = "bytes option"

definition buf_size :: "in_buf \<Rightarrow> nat" where
  "buf_size d = (case d of None \<Rightarrow> 0 | Some x \<Rightarrow> length x)"

record fwd_request =
  fq_cmd :: nat
  fq_words :: "int list"
  fq_in :: "in_buf list"
  fq_out :: "nat list"
  fq_handles :: "u32 list"
  fq_pid :: "u64 option"

record fwd_reply =
  fr_rc :: u32
  fr_words :: "int list"
  fr_bufs :: "bytes list"

record 'w bsd_env =
  be_fwd :: "fwd_request \<Rightarrow> 'w \<Rightarrow> fwd_reply \<times> 'w"
  be_wait :: sock_wait
  be_nifm :: nifm_answers
  be_ip_config :: "(u32 \<times> u32) option"

record bsd_out =
  bo_rc :: u32
  bo_words :: "int list"
  bo_bufs :: "bytes list"

definition reply_word :: "nat \<Rightarrow> fwd_reply \<Rightarrow> int" where
  "reply_word i r = (if fr_rc r = 0 \<and> i < length (fr_words r) then fr_words r ! i else 0)"

definition dispatch_full :: "'w bsd_env \<Rightarrow> fwd_request \<Rightarrow> 'w bsd \<Rightarrow> fwd_reply \<times> 'w bsd" where
  "dispatch_full e q b = (let (r, w) = be_fwd e q (b_world b) in (r, b\<lparr>b_world := w\<rparr>))"

definition serviceMitmDispatch :: "'w bsd_env \<Rightarrow> nat \<Rightarrow> int list \<Rightarrow> in_buf list \<Rightarrow> nat list \<Rightarrow> 'w bsd \<Rightarrow>
    fwd_reply \<times> 'w bsd" where
  "serviceMitmDispatch e cmd ws ins outs b =
     dispatch_full e \<lparr>fq_cmd = cmd, fq_words = ws, fq_in = ins, fq_out = outs, fq_handles = [], fq_pid = None\<rparr> b"

definition out_of :: "nat list \<Rightarrow> fwd_reply \<Rightarrow> bsd_out" where
  "out_of idx r = \<lparr>bo_rc = fr_rc r, bo_words = map (\<lambda>i. reply_word i r) idx, bo_bufs = fr_bufs r\<rparr>"

definition answer :: "int list \<Rightarrow> bytes list \<Rightarrow> bsd_out" where
  "answer ws bufs = \<lparr>bo_rc = 0, bo_words = ws, bo_bufs = bufs\<rparr>"

definition counted :: "BsdMitmService \<Rightarrow> BsdMitmService" where
  "counted svc = svc\<lparr>m_command_count := m_command_count svc + 1\<rparr>"

text \<open>A command that is only forwarded; \<open>idx\<close> tells which word of the real reply goes into which out-word.\<close>

definition forward_only :: "nat \<Rightarrow> nat list \<Rightarrow> 'w bsd_env \<Rightarrow> int list \<Rightarrow> in_buf list \<Rightarrow> nat list \<Rightarrow>
    BsdMitmService \<Rightarrow> 'w bsd \<Rightarrow> bsd_out \<times> BsdMitmService \<times> 'w bsd" where
  "forward_only cmd idx e ws ins outs svc b =
     (let (r, b1) = serviceMitmDispatch e cmd ws ins outs b in (out_of idx r, counted svc, b1))"

section \<open>Socket addresses in buffers\<close>

definition enc_SockAddrIn :: "SockAddrIn \<Rightarrow> bytes" where
  "enc_SockAddrIn a = [sin_len a, sin_family a] @ Wr16le (sin_port a) @ Wr32le (sin_addr a) @ sin_zero a"

definition dec_SockAddrIn :: "bytes \<Rightarrow> SockAddrIn" where
  "dec_SockAddrIn d = \<lparr>sin_len = d ! 0, sin_family = d ! 1, sin_port = Rd16le (drop 2 d), sin_addr = Rd32le (drop 4 d),
     sin_zero = take 8 (drop 8 d)\<rparr>"

definition SockAddrIn_ok :: "SockAddrIn \<Rightarrow> bool" where
  "SockAddrIn_ok a \<longleftrightarrow> length (sin_zero a) = 8"

text \<open>The address in an input buffer: \<open>Some\<close> when the buffer holds a whole \<^verbatim>\<open>SockAddrIn\<close> of the IPv4 family.\<close>

definition addr_in :: "in_buf \<Rightarrow> SockAddrIn option" where
  "addr_in d = (case d of None \<Rightarrow> None | Some x \<Rightarrow> if length x \<ge> 16 then Some (dec_SockAddrIn x) else None)"

definition inet_in :: "in_buf \<Rightarrow> SockAddrIn option" where
  "inet_in d = (case addr_in d of None \<Rightarrow> None
     | Some a \<Rightarrow> if sin_family a = family_val AF_Inet then Some a else None)"

section \<open>Tracking table\<close>

definition info_of :: "int \<Rightarrow> 'w bsd \<Rightarrow> SocketInfo option" where
  "info_of fd b = map_of (g_socket_info b) fd"

definition tracked_proxy :: "int \<Rightarrow> 'w bsd \<Rightarrow> bool" where
  "tracked_proxy fd b = (case info_of fd b of None \<Rightarrow> False | Some i \<Rightarrow> si_is_proxy i)"

definition mark_proxy :: "int \<Rightarrow> 'w bsd \<Rightarrow> 'w bsd" where
  "mark_proxy fd b = b\<lparr>g_socket_info := AList.map_entry fd (\<lambda>i. i\<lparr>si_is_proxy := True\<rparr>) (g_socket_info b)\<rparr>"

definition copy_info :: "int \<Rightarrow> int \<Rightarrow> 'w bsd \<Rightarrow> 'w bsd" where
  "copy_info fd new_fd b =
     (case info_of fd b of None \<Rightarrow> b
      | Some i \<Rightarrow> b\<lparr>g_socket_info := AList.update new_fd i (g_socket_info b)\<rparr>)"

section \<open>Session management\<close>

definition INVALID_HANDLE :: u32 where "INVALID_HANDLE = 0"

text \<open>\<open>RegisterClient\<close> closes its copy of the transfer-memory handle after the call; the closed handles are
  the last component of the result.\<close>

definition RegisterClient :: "'w bsd_env \<Rightarrow> int list \<Rightarrow> u64 \<Rightarrow> u32 \<Rightarrow> BsdMitmService \<Rightarrow> 'w bsd \<Rightarrow>
    bsd_out \<times> BsdMitmService \<times> 'w bsd \<times> u32 list" where
  "RegisterClient e config tmem_size handle svc b =
     (let (r, b1) = dispatch_full e \<lparr>fq_cmd = 0, fq_words = config @ [0, uint tmem_size], fq_in = [], fq_out = [],
            fq_handles = [handle], fq_pid = Some (m_client_pid svc)\<rparr> b;
          svc1 = counted svc
      in (out_of [0] r, if fr_rc r = 0 then svc1\<lparr>m_registered := True\<rparr> else svc1, b1,
          if handle \<noteq> INVALID_HANDLE then [handle] else []))"

definition RegisterClientShared :: "'w bsd_env \<Rightarrow> int list \<Rightarrow> u64 \<Rightarrow> BsdMitmService \<Rightarrow> 'w bsd \<Rightarrow>
    bsd_out \<times> BsdMitmService \<times> 'w bsd" where
  "RegisterClientShared e config tmem_size svc b =
     (let (r, b1) = dispatch_full e \<lparr>fq_cmd = 33, fq_words = config @ [0, uint tmem_size], fq_in = [], fq_out = [],
            fq_handles = [], fq_pid = Some (m_client_pid svc)\<rparr> b;
          svc1 = counted svc
      in (out_of [0] r, if fr_rc r = 0 then svc1\<lparr>m_registered := True\<rparr> else svc1, b1))"

definition StartMonitoring :: "'w bsd_env \<Rightarrow> u64 \<Rightarrow> BsdMitmService \<Rightarrow> 'w bsd \<Rightarrow> bsd_out \<times> BsdMitmService \<times> 'w bsd" where
  "StartMonitoring e pid = forward_only 1 [0] e [uint pid] [] []"

section \<open>Socket lifecycle\<close>

definition default_protocol :: "int \<Rightarrow> int \<Rightarrow> ProtocolType" where
  "default_protocol ty protocol =
     (if protocol = 0 then
        (if ty = socket_type_val Stream then Proto_Tcp
         else if ty = socket_type_val Dgram then Proto_Udp
         else to_ProtocolType protocol)
      else to_ProtocolType protocol)"

definition create_socket :: "nat \<Rightarrow> 'w bsd_env \<Rightarrow> int \<Rightarrow> int \<Rightarrow> int \<Rightarrow> BsdMitmService \<Rightarrow> 'w bsd \<Rightarrow>
    bsd_out \<times> BsdMitmService \<times> 'w bsd" where
  "create_socket cmd e domain ty protocol svc b =
     (let (r, b1) = serviceMitmDispatch e cmd [domain, ty, protocol] [] [] b;
          fd = reply_word 0 r;
          b2 = (if fr_rc r = 0 \<and> fd \<ge> 0 then
                  b1\<lparr>g_socket_info := AList.update fd \<lparr>si_type = to_SocketType ty, si_protocol = default_protocol ty protocol,
                       si_is_proxy = False, si_broadcast = False, si_session_id = m_session_id svc\<rparr> (g_socket_info b1)\<rparr>
                else b1)
      in (out_of [0, 1] r, counted svc, b2))"

definition Socket :: "'w bsd_env \<Rightarrow> int \<Rightarrow> int \<Rightarrow> int \<Rightarrow> BsdMitmService \<Rightarrow> 'w bsd \<Rightarrow> bsd_out \<times> BsdMitmService \<times> 'w bsd" where
  "Socket = create_socket 2"

definition SocketExempt :: "'w bsd_env \<Rightarrow> int \<Rightarrow> int \<Rightarrow> int \<Rightarrow> BsdMitmService \<Rightarrow> 'w bsd \<Rightarrow>
    bsd_out \<times> BsdMitmService \<times> 'w bsd" where
  "SocketExempt = create_socket 3"

definition bsd_Open :: "'w bsd_env \<Rightarrow> in_buf \<Rightarrow> BsdMitmService \<Rightarrow> 'w bsd \<Rightarrow> bsd_out \<times> BsdMitmService \<times> 'w bsd" where
  "bsd_Open e path = forward_only 4 [0, 1] e [] [path] []"

definition forget_fd :: "int \<Rightarrow> 'w bsd \<Rightarrow> 'w bsd" where
  "forget_fd fd b =
     (case info_of fd b of
        None \<Rightarrow> b
      | Some i \<Rightarrow>
          (let b1 = (if si_is_proxy i then close_fds [fd] b else b)
           in b1\<lparr>g_socket_info := AList.delete fd (g_socket_info b1)\<rparr>))"

definition Close :: "'w bsd_env \<Rightarrow> int \<Rightarrow> BsdMitmService \<Rightarrow> 'w bsd \<Rightarrow> bsd_out \<times> BsdMitmService \<times> 'w bsd" where
  "Close e fd svc b =
     (let (r, b1) = serviceMitmDispatch e 26 [fd] [] [] (forget_fd fd b) in (out_of [0] r, counted svc, b1))"

definition DuplicateSocket :: "'w bsd_env \<Rightarrow> int \<Rightarrow> u64 \<Rightarrow> BsdMitmService \<Rightarrow> 'w bsd \<Rightarrow>
    bsd_out \<times> BsdMitmService \<times> 'w bsd" where
  "DuplicateSocket e fd target_pid svc b =
     (let (r, b1) = serviceMitmDispatch e 27 [fd, 0, uint target_pid] [] [] b;
          new_fd = reply_word 0 r; err = reply_word 1 r
      in (out_of [1, 0] r, counted svc, if fr_rc r = 0 \<and> err = 0 \<and> new_fd \<ge> 0 then copy_info fd new_fd b1 else b1))"

definition GetResourceStatistics :: "'w bsd_env \<Rightarrow> nat \<Rightarrow> u64 \<Rightarrow> BsdMitmService \<Rightarrow> 'w bsd \<Rightarrow>
    bsd_out \<times> BsdMitmService \<times> 'w bsd" where
  "GetResourceStatistics e out_size pid = forward_only 28 [0] e [uint pid] [] [out_size]"

definition RecvMMsg :: "'w bsd_env \<Rightarrow> int \<Rightarrow> int \<Rightarrow> int \<Rightarrow> int \<Rightarrow> nat \<Rightarrow> BsdMitmService \<Rightarrow> 'w bsd \<Rightarrow>
    bsd_out \<times> BsdMitmService \<times> 'w bsd" where
  "RecvMMsg e fd vlen flags timeout out_size svc b =
     (if tracked_proxy fd b then (answer [errno_val E_OpNotSupp, -1] [], counted svc, b)
      else forward_only 29 [0, 1] e [fd, vlen, flags, timeout] [] [out_size] svc b)"

definition SendMMsg :: "'w bsd_env \<Rightarrow> int \<Rightarrow> int \<Rightarrow> int \<Rightarrow> in_buf \<Rightarrow> BsdMitmService \<Rightarrow> 'w bsd \<Rightarrow>
    bsd_out \<times> BsdMitmService \<times> 'w bsd" where
  "SendMMsg e fd vlen flags data svc b =
     (if tracked_proxy fd b then (answer [errno_val E_OpNotSupp, -1] [], counted svc, b)
      else forward_only 30 [0, 1] e [fd, vlen, flags] [data] [] svc b)"

definition EventFd :: "'w bsd_env \<Rightarrow> u64 \<Rightarrow> int \<Rightarrow> BsdMitmService \<Rightarrow> 'w bsd \<Rightarrow> bsd_out \<times> BsdMitmService \<times> 'w bsd" where
  "EventFd e initval flags = forward_only 31 [0, 1] e [uint initval, flags, 0] [] []"

definition RegisterResourceStatisticsName :: "'w bsd_env \<Rightarrow> u64 \<Rightarrow> in_buf \<Rightarrow> BsdMitmService \<Rightarrow> 'w bsd \<Rightarrow>
    bsd_out \<times> BsdMitmService \<times> 'w bsd" where
  "RegisterResourceStatisticsName e pid name = forward_only 32 [0] e [uint pid] [name] []"

section \<open>Bind\<close>

definition lan_signature_port :: "u16 \<Rightarrow> bool" where
  "lan_signature_port port \<longleftrightarrow> port = 30000 \<or> port = 35000 \<or> port = 11452 \<or> (49152 \<le> port \<and> port \<le> 49155)"

definition promotes :: "SockAddrIn \<Rightarrow> SocketInfo \<Rightarrow> bool" where
  "promotes a i \<longleftrightarrow> SockAddrIn_IsLanAddress a \<or> (IsAny (Addr a) \<and> (si_broadcast i \<or> lan_signature_port (GetPort a)))"

text \<open>An operation on the registered socket behind a descriptor (the pointer is never null where the code
  uses it).\<close>

definition bind_socket :: "int \<Rightarrow> SockAddrIn \<Rightarrow> 'w bsd \<Rightarrow> unit sock_result \<times> 'w bsd" where
  "bind_socket fd a b =
     (case GetProxySocket fd (b_mgr b) of
        None \<Rightarrow> (Inl E_BadF, b)
      | Some s \<Rightarrow> (let (res, s') = sock_Bind a s in (res, b\<lparr>b_mgr := on_socket fd (\<lambda>_. s') (b_mgr b)\<rparr>)))"

definition bind_target :: "SockAddrIn \<Rightarrow> 'w bsd \<Rightarrow> SockAddrIn" where
  "bind_target a b =
     (if IsAny (Addr a) \<and> SockAddrIn_IsLanAddress a then
        (let local_ip = GetLocalIp (b_mgr b) in if local_ip = 0 then a else SetAddr (FromNumeric local_ip) a)
      else a)"

text \<open>The port of the address: an ephemeral one for port 0, else the port itself, reserved. \<open>None\<close> is the
  error \<^verbatim>\<open>AddrInUse\<close>.\<close>

definition claim_port :: "SockAddrIn \<Rightarrow> ProtocolType \<Rightarrow> 'w bsd \<Rightarrow> SockAddrIn option \<times> 'w bsd" where
  "claim_port a pr b =
     (if GetPort a = 0 then
        (let (eph, m) = mgr_AllocatePort pr (b_mgr b); b1 = b\<lparr>b_mgr := m\<rparr>
         in (if eph = 0 then None else Some (a\<lparr>sin_port := bswap16 eph\<rparr>), b1))
      else
        (let (ok, m) = ReservePort (GetPort a) pr (b_mgr b); b1 = b\<lparr>b_mgr := m\<rparr>
         in (if ok then Some a else None, b1)))"

definition session_mode :: "u16 \<Rightarrow> BsdMitmService \<Rightarrow> BsdMitmService" where
  "session_mode bp svc =
     (if m_mode svc = 0 then
        (if bp = 12345 then svc\<lparr>m_mode := 1\<rparr> else if bp = 30000 then svc\<lparr>m_mode := 2\<rparr> else svc)
      else svc)"

definition browse_bound :: "'w bsd_env \<Rightarrow> BsdMitmService \<Rightarrow> 'w bsd \<Rightarrow> BsdMitmService \<times> 'w bsd" where
  "browse_bound e svc b =
     (let b1 = (if TranslationEnabled \<and> \<not> HasRealAddress (b_netmap b) then
                  (case be_ip_config e of None \<Rightarrow> b
                   | Some (ra, rm) \<Rightarrow> b\<lparr>b_netmap := SetRealAddress (bswap32 ra) (bswap32 rm) (b_netmap b)\<rparr>)
                else b)
      in if m_entered_local_network_mode svc then (svc, b1)
         else (let (ok, b2) = EnterLocalNetworkModePublic (be_nifm e) b1
               in (if ok then svc\<lparr>m_entered_local_network_mode := True\<rparr> else svc, b2)))"

definition bind_proxy :: "'w bsd_env \<Rightarrow> int \<Rightarrow> SockAddrIn \<Rightarrow> SocketInfo \<Rightarrow> BsdMitmService \<Rightarrow> 'w bsd \<Rightarrow>
    int \<times> BsdMitmService \<times> 'w bsd" where
  "bind_proxy e fd a i svc b =
     (case CreateProxySocket fd (si_type i) (si_protocol i) (b_mgr b) of
        (None, m) \<Rightarrow> (errno_val E_NoMem, svc, b\<lparr>b_mgr := m\<rparr>)
      | (Some _, m) \<Rightarrow>
          (let b1 = b\<lparr>b_mgr := (if si_broadcast i then on_socket fd (SetBroadcastEnabled True) m else m)\<rparr>
           in case claim_port (bind_target a b1) (si_protocol i) b1 of
                (None, b2) \<Rightarrow> (errno_val E_AddrInUse, svc, b2)
              | (Some a', b2) \<Rightarrow>
                  (case bind_socket fd a' b2 of
                     (Inl err, b3) \<Rightarrow> (errno_val err, svc, b3)
                   | (Inr _, b3) \<Rightarrow>
                       (let bp = GetPort a';
                            svc1 = session_mode bp svc;
                            b4 = mark_proxy fd b3;
                            (svc2, b5) = (if bp = 30000 then browse_bound e svc1 b4 else (svc1, b4))
                        in (0, svc2, b5\<lparr>b_mgr := DeliverPendingPackets (b_netmap b5) (Some fd) bp (si_protocol i) (b_mgr b5)\<rparr>)))))"

definition Bind :: "'w bsd_env \<Rightarrow> int \<Rightarrow> in_buf \<Rightarrow> BsdMitmService \<Rightarrow> 'w bsd \<Rightarrow> bsd_out \<times> BsdMitmService \<times> 'w bsd" where
  "Bind e fd addr svc0 b =
     (let svc = counted svc0;
          target = (case inet_in addr of None \<Rightarrow> None
            | Some a \<Rightarrow>
                if SockAddrIn_IsLanAddress a \<or> IsAny (Addr a) then
                  (case info_of fd b of None \<Rightarrow> None | Some i \<Rightarrow> if promotes a i then Some (a, i) else None)
                else None)
      in case target of
           Some (a, i) \<Rightarrow> (let (err, svc1, b1) = bind_proxy e fd a i svc b in (answer [err] [], svc1, b1))
         | None \<Rightarrow> (let (r, b1) = serviceMitmDispatch e 13 [fd] [addr] [] b in (out_of [0] r, svc, b1)))"

section \<open>Connect, accept, names\<close>

definition auto_bind_addr :: "u16 \<Rightarrow> 'w bsd \<Rightarrow> SockAddrIn" where
  "auto_bind_addr eph b = SetAddr (FromNumeric (GetLocalIp (b_mgr b))) (inet_any\<lparr>sin_port := bswap16 eph\<rparr>)"

text \<open>The proxy socket of \<^verbatim>\<open>Connect\<close>: the existing one, or a new one bound to an ephemeral port. \<open>Some err\<close> is an
  early return.\<close>

definition connect_socket :: "int \<Rightarrow> SocketInfo \<Rightarrow> 'w bsd \<Rightarrow> int option \<times> 'w bsd" where
  "connect_socket fd i b =
     (case GetProxySocket fd (b_mgr b) of
        Some _ \<Rightarrow> (None, b)
      | None \<Rightarrow>
          (case CreateProxySocket fd (si_type i) (si_protocol i) (b_mgr b) of
             (None, m) \<Rightarrow> (Some (errno_val E_NoMem), b\<lparr>b_mgr := m\<rparr>)
           | (Some _, m) \<Rightarrow>
               (let (eph, m1) = mgr_AllocatePort (si_protocol i) m; b1 = b\<lparr>b_mgr := m1\<rparr>
                in if eph = 0 then (Some (errno_val E_AddrInUse), b1)
                   else (case bind_socket fd (auto_bind_addr eph b1) b1 of
                           (Inl err, b2) \<Rightarrow> (Some (errno_val err), b2\<lparr>b_mgr := mgr_ReleasePort eph (si_protocol i) (b_mgr b2)\<rparr>)
                         | (Inr _, b2) \<Rightarrow> (None, b2)))))"

definition connect_proxy :: "'w bsd_env \<Rightarrow> int \<Rightarrow> SockAddrIn \<Rightarrow> SocketInfo \<Rightarrow> 'w bsd \<Rightarrow> int \<times> 'w bsd" where
  "connect_proxy e fd a i b =
     (case connect_socket fd i b of
        (Some err, b1) \<Rightarrow> (err, b1)
      | (None, b1) \<Rightarrow>
          (case GetProxySocket fd (b_mgr b1) of
             None \<Rightarrow> (errno_val E_BadF, b1)
           | Some s \<Rightarrow>
               (let ((res, s'), w) = sock_Connect (SendProxyConnect (b_mgr b1)) (be_wait e) a s (b_world b1);
                    b2 = b1\<lparr>b_mgr := on_socket fd (\<lambda>_. s') (b_mgr b1), b_world := w\<rparr>
                in case res of Inl err \<Rightarrow> (errno_val err, b2) | Inr _ \<Rightarrow> (0, mark_proxy fd b2))))"

definition Connect :: "'w bsd_env \<Rightarrow> int \<Rightarrow> in_buf \<Rightarrow> BsdMitmService \<Rightarrow> 'w bsd \<Rightarrow> bsd_out \<times> BsdMitmService \<times> 'w bsd" where
  "Connect e fd addr svc b =
     (let target = (case inet_in addr of None \<Rightarrow> None
            | Some a \<Rightarrow> if SockAddrIn_IsLanAddress a
                then (case info_of fd b of None \<Rightarrow> None | Some i \<Rightarrow> Some (a, i)) else None)
      in case target of
           Some (a, i) \<Rightarrow> (let (err, b1) = connect_proxy e fd a i b in (answer [err] [], counted svc, b1))
         | None \<Rightarrow> (answer [errno_val E_NetUnreach] [], counted svc, b))"

definition Accept :: "'w bsd_env \<Rightarrow> int \<Rightarrow> nat \<Rightarrow> BsdMitmService \<Rightarrow> 'w bsd \<Rightarrow> bsd_out \<times> BsdMitmService \<times> 'w bsd" where
  "Accept e fd out_size svc b =
     (let (r, b1) = serviceMitmDispatch e 12 [fd] [] [out_size] b;
          new_fd = reply_word 0 r; err = reply_word 1 r
      in (out_of [1, 0] r, counted svc, if fr_rc r = 0 \<and> err = 0 \<and> new_fd \<ge> 0 then copy_info fd new_fd b1 else b1))"

definition addr_out :: "nat \<Rightarrow> SockAddrIn \<Rightarrow> bytes" where
  "addr_out n a = (if n \<ge> 16 then enc_SockAddrIn a else [])"

definition GetPeerName :: "'w bsd_env \<Rightarrow> int \<Rightarrow> nat \<Rightarrow> BsdMitmService \<Rightarrow> 'w bsd \<Rightarrow> bsd_out \<times> BsdMitmService \<times> 'w bsd" where
  "GetPeerName e fd out_size svc b =
     (case GetProxySocket fd (b_mgr b) of
        Some s \<Rightarrow>
          (if m_state s \<noteq> Connected then (answer [errno_val E_NotConn] [], counted svc, b)
           else (answer [0] [addr_out out_size (m_remote_addr s)], counted svc, b))
      | None \<Rightarrow> forward_only 15 [0] e [fd] [] [out_size] svc b)"

definition GetSockName :: "'w bsd_env \<Rightarrow> int \<Rightarrow> nat \<Rightarrow> BsdMitmService \<Rightarrow> 'w bsd \<Rightarrow> bsd_out \<times> BsdMitmService \<times> 'w bsd" where
  "GetSockName e fd out_size svc b =
     (case GetProxySocket fd (b_mgr b) of
        Some s \<Rightarrow> (answer [0] [addr_out out_size (m_local_addr s)], counted svc, b)
      | None \<Rightarrow> forward_only 16 [0] e [fd] [] [out_size] svc b)"

section \<open>Data transfer\<close>

text \<open>The \<^verbatim>\<open>{ret, errno}\<close> pair of a result of a proxy socket.\<close>

definition ret_errno :: "int \<Rightarrow> int list" where
  "ret_errno result = (if result < 0 then [-1, - result] else [result, 0])"

definition send_on :: "int \<Rightarrow> ProxySocket \<Rightarrow> in_buf \<Rightarrow> 'w bsd \<Rightarrow> int \<times> 'w bsd" where
  "send_on fd s data b =
     (let (result, w) = sock_Send (SendProxyData (b_mgr b)) (b_netmap b) data (buf_size data) s (b_world b)
      in (result, b\<lparr>b_world := w\<rparr>))"

definition Send :: "'w bsd_env \<Rightarrow> int \<Rightarrow> int \<Rightarrow> in_buf \<Rightarrow> BsdMitmService \<Rightarrow> 'w bsd \<Rightarrow> bsd_out \<times> BsdMitmService \<times> 'w bsd" where
  "Send e fd flags data svc b =
     (case (if tracked_proxy fd b then GetProxySocket fd (b_mgr b) else None) of
        Some s \<Rightarrow> (let (result, b1) = send_on fd s data b in (answer (ret_errno result) [], counted svc, b1))
      | None \<Rightarrow> forward_only 10 [0, 1] e [fd, flags] [data] [] svc b)"

text \<open>\<^verbatim>\<open>SendTo\<close> to a LAN address turns a tracked socket into a proxy socket first; \<open>Some rc\<close> is the early return
  of a failed bind.\<close>

definition sendto_create :: "int \<Rightarrow> SocketInfo \<Rightarrow> 'w bsd \<Rightarrow> u32 option \<times> 'w bsd" where
  "sendto_create fd i b =
     (case GetProxySocket fd (b_mgr b) of
        Some _ \<Rightarrow> (None, b)
      | None \<Rightarrow>
          (case CreateProxySocket fd (si_type i) (si_protocol i) (b_mgr b) of
             (None, m) \<Rightarrow> (None, b\<lparr>b_mgr := m\<rparr>)
           | (Some _, m) \<Rightarrow>
               (let (eph, m1) = mgr_AllocatePort (si_protocol i) m; b1 = b\<lparr>b_mgr := m1\<rparr>
                in if eph = 0 then (None, b1)
                   else (case bind_socket fd (auto_bind_addr eph b1) b1 of
                           (Inl err, b2) \<Rightarrow> (Some (of_int (errno_val err)), b2)
                         | (Inr _, b2) \<Rightarrow> (None, b2)))))"

definition sendto_promote :: "int \<Rightarrow> bool \<Rightarrow> 'w bsd \<Rightarrow> u32 option \<times> 'w bsd" where
  "sendto_promote fd lan_dest b =
     (case info_of fd b of
        None \<Rightarrow> (None, b)
      | Some i \<Rightarrow>
          if lan_dest \<and> \<not> si_is_proxy i then
            (case sendto_create fd i b of (Some rc, b1) \<Rightarrow> (Some rc, b1) | (None, b1) \<Rightarrow> (None, mark_proxy fd b1))
          else (None, b))"

definition sendto_proxy :: "int \<Rightarrow> in_buf \<Rightarrow> in_buf \<Rightarrow> 'w bsd \<Rightarrow> bsd_out \<times> 'w bsd" where
  "sendto_proxy fd data addr b =
     (case (GetProxySocket fd (b_mgr b), addr_in addr) of
        (Some s, Some dest) \<Rightarrow>
          (let (result, w) = sock_SendTo (SendProxyData (b_mgr b)) (b_netmap b) data (buf_size data) dest s (b_world b)
           in (answer (ret_errno result) [], b\<lparr>b_world := w\<rparr>))
      | _ \<Rightarrow> (answer [errno_val E_NetUnreach, 0] [], b))"

definition lan_dest_in :: "in_buf \<Rightarrow> bool" where
  "lan_dest_in addr = (case inet_in addr of None \<Rightarrow> False | Some a \<Rightarrow> SockAddrIn_IsLanAddress a)"

definition SendTo :: "'w bsd_env \<Rightarrow> int \<Rightarrow> int \<Rightarrow> in_buf \<Rightarrow> in_buf \<Rightarrow> BsdMitmService \<Rightarrow> 'w bsd \<Rightarrow>
    bsd_out \<times> BsdMitmService \<times> 'w bsd" where
  "SendTo e fd flags data addr svc b =
     (if lan_dest_in addr \<or> tracked_proxy fd b then
        (case sendto_promote fd (lan_dest_in addr) b of
           (Some rc, b1) \<Rightarrow> (\<lparr>bo_rc = rc, bo_words = [0, 0], bo_bufs = []\<rparr>, counted svc, b1)
         | (None, b1) \<Rightarrow> (let (r, b2) = sendto_proxy fd data addr b1 in (r, counted svc, b2)))
      else forward_only 11 [0, 1] e [fd, flags] [data, addr] [] svc b)"

definition recv_on :: "'w bsd_env \<Rightarrow> int \<Rightarrow> int \<Rightarrow> nat \<Rightarrow> ProxySocket \<Rightarrow> 'w bsd \<Rightarrow> bsd_out \<times> 'w bsd" where
  "recv_on e fd flags out_size s b =
     (let (ro, s') = sock_Recv (be_wait e) (out_size > 0) out_size (of_int flags) s
      in (answer (ret_errno (ro_ret ro)) [ro_bytes ro], b\<lparr>b_mgr := on_socket fd (\<lambda>_. s') (b_mgr b)\<rparr>))"

definition Recv :: "'w bsd_env \<Rightarrow> int \<Rightarrow> int \<Rightarrow> nat \<Rightarrow> BsdMitmService \<Rightarrow> 'w bsd \<Rightarrow> bsd_out \<times> BsdMitmService \<times> 'w bsd" where
  "Recv e fd flags out_size svc b =
     (case (if tracked_proxy fd b then GetProxySocket fd (b_mgr b) else None) of
        Some s \<Rightarrow> (let (r, b1) = recv_on e fd flags out_size s b in (r, counted svc, b1))
      | None \<Rightarrow> forward_only 8 [0, 1] e [fd, flags] [] [out_size] svc b)"

definition RecvFrom :: "'w bsd_env \<Rightarrow> int \<Rightarrow> int \<Rightarrow> nat \<Rightarrow> nat \<Rightarrow> BsdMitmService \<Rightarrow> 'w bsd \<Rightarrow>
    bsd_out \<times> BsdMitmService \<times> 'w bsd" where
  "RecvFrom e fd flags out_size addr_size svc b =
     (case (if tracked_proxy fd b then GetProxySocket fd (b_mgr b) else None) of
        Some s \<Rightarrow>
          (let (ro, s') = sock_RecvFrom (be_wait e) (out_size > 0) out_size (of_int flags) True s;
               b1 = b\<lparr>b_mgr := on_socket fd (\<lambda>_. s') (b_mgr b)\<rparr>;
               from_addr = (case ro_from ro of None \<Rightarrow> zero_SockAddrIn | Some a \<Rightarrow> a)
           in (if ro_ret ro < 0 then answer [-1, - ro_ret ro, 0] [ro_bytes ro, []]
               else answer [ro_ret ro, 0, if addr_size \<ge> 16 then 16 else 0] [ro_bytes ro, addr_out addr_size from_addr],
               counted svc, b1))
      | None \<Rightarrow> forward_only 9 [0, 1, 2] e [fd, flags] [] [out_size, addr_size] svc b)"

definition Write :: "'w bsd_env \<Rightarrow> int \<Rightarrow> in_buf \<Rightarrow> BsdMitmService \<Rightarrow> 'w bsd \<Rightarrow> bsd_out \<times> BsdMitmService \<times> 'w bsd" where
  "Write e fd data svc b =
     (case (if tracked_proxy fd b then GetProxySocket fd (b_mgr b) else None) of
        Some s \<Rightarrow>
          (let (result, b1) = send_on fd s data b
           in (answer (if result < 0 then [- result, 0] else [0, result]) [], counted svc, b1))
      | None \<Rightarrow> forward_only 24 [0, 1] e [fd] [data] [] svc b)"

definition Read :: "'w bsd_env \<Rightarrow> int \<Rightarrow> nat \<Rightarrow> BsdMitmService \<Rightarrow> 'w bsd \<Rightarrow> bsd_out \<times> BsdMitmService \<times> 'w bsd" where
  "Read e fd out_size svc b =
     (case (if tracked_proxy fd b then GetProxySocket fd (b_mgr b) else None) of
        Some s \<Rightarrow> (let (r, b1) = recv_on e fd 0 out_size s b in (r, counted svc, b1))
      | None \<Rightarrow> forward_only 25 [0, 1] e [fd] [] [out_size] svc b)"

section \<open>Select and poll\<close>

definition fd_isset :: "int \<Rightarrow> in_buf \<Rightarrow> bool" where
  "fd_isset fd fds =
     (case fds of
        None \<Rightarrow> False
      | Some d \<Rightarrow> fd \<ge> 0 \<and> nat fd div 8 < length d \<and> bit (d ! (nat fd div 8)) (nat fd mod 8))"

definition fd_set_bit :: "int \<Rightarrow> bytes \<Rightarrow> bytes" where
  "fd_set_bit fd d =
     (if fd < 0 \<or> nat fd div 8 \<ge> length d then d
      else d[nat fd div 8 := d ! (nat fd div 8) OR push_bit (nat fd mod 8) 1])"

record fd_sets =
  fs_read :: bytes
  fs_write :: bytes
  fs_error :: bytes

record select_in =
  si_read :: in_buf
  si_write :: in_buf
  si_error :: in_buf

text \<open>What one proxy socket contributes: the bits set in the three out-sets and how many.\<close>

definition select_one :: "select_in \<Rightarrow> int \<Rightarrow> ProxySocket \<Rightarrow> fd_sets \<times> int \<Rightarrow> fd_sets \<times> int" where
  "select_one q fd s st =
     (let (o0, n0) = st;
          (o1, n1) = (if fd_isset fd (si_read q) \<and> sock_HasPendingData s
                      then (o0\<lparr>fs_read := fd_set_bit fd (fs_read o0)\<rparr>, n0 + 1) else (o0, n0));
          (o2, n2) = (if fd_isset fd (si_write q) then (o1\<lparr>fs_write := fd_set_bit fd (fs_write o1)\<rparr>, n1 + 1) else (o1, n1))
      in if fd_isset fd (si_error q) \<and> m_state s = Closed
         then (o2\<lparr>fs_error := fd_set_bit fd (fs_error o2)\<rparr>, n2 + 1) else (o2, n2))"

definition in_sets :: "select_in \<Rightarrow> int \<Rightarrow> bool" where
  "in_sets q fd \<longleftrightarrow> fd_isset fd (si_read q) \<or> fd_isset fd (si_write q) \<or> fd_isset fd (si_error q)"

text \<open>The loop of the first pass over the descriptors: whether a proxy and whether a real socket was seen,
  the out-sets and the count.\<close>

fun select_loop :: "select_in \<Rightarrow> 'w ProxySocketManager \<Rightarrow> int list \<Rightarrow> bool \<times> bool \<times> fd_sets \<times> int \<Rightarrow>
    bool \<times> bool \<times> fd_sets \<times> int" where
  "select_loop q m [] st = st"
| "select_loop q m (fd # fds) (hp, hr, st) =
     select_loop q m fds
       (if \<not> in_sets q fd then (hp, hr, st)
        else case GetProxySocket fd m of
            Some s \<Rightarrow> (True, hr, select_one q fd s st)
          | None \<Rightarrow> (hp, True, st))"

fun select_merge :: "select_in \<Rightarrow> 'w ProxySocketManager \<Rightarrow> int list \<Rightarrow> fd_sets \<times> int \<Rightarrow> fd_sets \<times> int" where
  "select_merge q m [] st = st"
| "select_merge q m (fd # fds) st =
     select_merge q m fds (case GetProxySocket fd m of Some s \<Rightarrow> select_one q fd s st | None \<Rightarrow> st)"

definition fds_upto :: "int \<Rightarrow> int list" where
  "fds_upto nfds = map int [0..<nat nfds]"

definition sets_out :: "fd_sets \<Rightarrow> bytes list" where
  "sets_out o' = [fs_read o', fs_write o', fs_error o']"

definition buf_at :: "nat \<Rightarrow> bytes list \<Rightarrow> bytes" where
  "buf_at i bs = (if i < length bs then bs ! i else [])"

definition Select :: "'w bsd_env \<Rightarrow> int \<Rightarrow> select_in \<Rightarrow> in_buf \<Rightarrow> nat \<Rightarrow> nat \<Rightarrow> nat \<Rightarrow> BsdMitmService \<Rightarrow> 'w bsd \<Rightarrow>
    bsd_out \<times> BsdMitmService \<times> 'w bsd" where
  "Select e nfds q timeout nr nw ne svc b =
     (let o0 = \<lparr>fs_read = replicate nr 0, fs_write = replicate nw 0, fs_error = replicate ne 0\<rparr>;
          (hp, hr, o1, n) = select_loop q (b_mgr b) (fds_upto nfds) (False, False, o0, 0)
      in if hp \<and> \<not> hr then (answer [0, n] (sets_out o1), counted svc, b)
         else if hp \<and> n > 0 then (answer [0, n] (sets_out o1), counted svc, b)
         else
           (let (r, b1) = serviceMitmDispatch e 5 [nfds] [si_read q, si_write q, si_error q, timeout] [nr, nw, ne] b;
                real = (if fr_rc r = 0
                        then \<lparr>fs_read = buf_at 0 (fr_bufs r), fs_write = buf_at 1 (fr_bufs r), fs_error = buf_at 2 (fr_bufs r)\<rparr>
                        else o1);
                (o2, cnt) = (if hp \<and> fr_rc r = 0 then select_merge q (b_mgr b1) (fds_upto nfds) (real, reply_word 1 r)
                             else (real, reply_word 1 r))
            in (\<lparr>bo_rc = fr_rc r, bo_words = [reply_word 0 r, cnt], bo_bufs = sets_out o2\<rparr>, counted svc, b1)))"

record PollFd =
  pf_fd :: u32
  pf_events :: u16
  pf_revents :: u16

definition POLLIN :: u16 where "POLLIN = 0x0001"
definition POLLOUT :: u16 where "POLLOUT = 0x0004"
definition POLLHUP :: u16 where "POLLHUP = 0x0010"

definition dec_PollFd :: "bytes \<Rightarrow> PollFd" where
  "dec_PollFd d = \<lparr>pf_fd = Rd32le d, pf_events = Rd16le (drop 4 d), pf_revents = Rd16le (drop 6 d)\<rparr>"

definition enc_PollFd :: "PollFd \<Rightarrow> bytes" where
  "enc_PollFd p = Wr32le (pf_fd p) @ Wr16le (pf_events p) @ Wr16le (pf_revents p)"

definition poll_entry :: "bytes \<Rightarrow> nat \<Rightarrow> PollFd" where
  "poll_entry d i = dec_PollFd (drop (8 * i) d)"

definition poll_socket :: "'w ProxySocketManager \<Rightarrow> PollFd \<Rightarrow> ProxySocket option" where
  "poll_socket m p = GetProxySocket (sint (pf_fd p)) m"

text \<open>The events of a proxy socket, and how many of the three conditions hold.\<close>

definition proxy_revents :: "PollFd \<Rightarrow> ProxySocket \<Rightarrow> u16" where
  "proxy_revents p s =
     (if pf_events p AND POLLIN \<noteq> 0 \<and> sock_HasPendingData s then POLLIN else 0) OR
     (if pf_events p AND POLLOUT \<noteq> 0 then POLLOUT else 0) OR
     (if m_state s = Closed then POLLHUP else 0)"

definition revents_count :: "PollFd \<Rightarrow> ProxySocket \<Rightarrow> int" where
  "revents_count p s =
     (if pf_events p AND POLLIN \<noteq> 0 \<and> sock_HasPendingData s then 1 else 0) +
     (if pf_events p AND POLLOUT \<noteq> 0 then 1 else 0) + (if m_state s = Closed then 1 else 0)"

definition poll_first :: "'w ProxySocketManager \<Rightarrow> PollFd \<Rightarrow> PollFd" where
  "poll_first m p = p\<lparr>pf_revents := (case poll_socket m p of None \<Rightarrow> 0 | Some s \<Rightarrow> proxy_revents p s)\<rparr>"

definition poll_again :: "'w ProxySocketManager \<Rightarrow> PollFd \<Rightarrow> PollFd" where
  "poll_again m p = (case poll_socket m p of None \<Rightarrow> p | Some s \<Rightarrow> p\<lparr>pf_revents := proxy_revents p s\<rparr>)"

definition put_entries :: "PollFd list \<Rightarrow> bytes \<Rightarrow> bytes" where
  "put_entries ps d = concat (map enc_PollFd ps) @ drop (8 * length ps) d"

text \<open>\<open>out0\<close> is what the out-buffer holds when the call arrives; its length is the size of the buffer.\<close>

definition Poll :: "'w bsd_env \<Rightarrow> in_buf \<Rightarrow> bytes \<Rightarrow> int \<Rightarrow> int \<Rightarrow> BsdMitmService \<Rightarrow> 'w bsd \<Rightarrow>
    bsd_out \<times> BsdMitmService \<times> 'w bsd" where
  "Poll e fds_in out0 nfds timeout svc b =
     (let m = b_mgr b;
          inp = (case fds_in of None \<Rightarrow> [] | Some d \<Rightarrow> d);
          d0 = (if length out0 \<ge> length inp then memcpy out0 inp else out0);
          num = (if nfds < 0 then length out0 div 8 else min (nat nfds) (length out0 div 8));
          ps = map (poll_first m) (map (poll_entry d0) [0..<num]);
          hp = (\<exists>p \<in> set ps. poll_socket m p \<noteq> None);
          hr = (\<exists>p \<in> set ps. poll_socket m p = None);
          ready = int (length (filter (\<lambda>p. poll_socket m p \<noteq> None \<and> pf_revents p \<noteq> 0) ps));
          d1 = put_entries ps d0
      in if hp \<and> \<not> hr then (answer [0, ready] [d1], counted svc, b)
         else if hp \<and> ready > 0 then (answer [0, ready] [d1], counted svc, b)
         else
           (let (r, b1) = serviceMitmDispatch e 6 [nfds, timeout] [fds_in] [length out0] b;
                d2 = (if fr_rc r = 0 then buf_at 0 (fr_bufs r) else d1);
                ps2 = map (poll_entry d2) [0..<num];
                extra = sum_list (map (\<lambda>p. case poll_socket m p of None \<Rightarrow> 0 | Some s \<Rightarrow> revents_count p s) ps2)
            in if hp \<and> fr_rc r = 0
               then (\<lparr>bo_rc = 0, bo_words = [reply_word 0 r, reply_word 1 r + extra],
                      bo_bufs = [put_entries (map (poll_again m) ps2) d2]\<rparr>, counted svc, b1)
               else (\<lparr>bo_rc = fr_rc r, bo_words = [reply_word 0 r, reply_word 1 r], bo_bufs = [d2]\<rparr>, counted svc, b1)))"

section \<open>Socket control\<close>

definition Sysctl :: "'w bsd_env \<Rightarrow> in_buf \<Rightarrow> in_buf \<Rightarrow> nat \<Rightarrow> in_buf \<Rightarrow> BsdMitmService \<Rightarrow> 'w bsd \<Rightarrow>
    bsd_out \<times> BsdMitmService \<times> 'w bsd" where
  "Sysctl e name old_in old_size new_val = forward_only 7 [0] e [] [name, old_in, new_val] [old_size]"

definition FIONREAD :: u32 where "FIONREAD = 0x4004667F"

definition Ioctl :: "'w bsd_env \<Rightarrow> int \<Rightarrow> u32 \<Rightarrow> u32 \<Rightarrow> in_buf \<Rightarrow> nat \<Rightarrow> BsdMitmService \<Rightarrow> 'w bsd \<Rightarrow>
    bsd_out \<times> BsdMitmService \<times> 'w bsd" where
  "Ioctl e fd request bufcount buf_in out_size svc b =
     (case GetProxySocket fd (b_mgr b) of
        Some s \<Rightarrow>
          (if request = FIONREAD
           then (answer [0, 0] [if out_size \<ge> 4 then Wr32le (of_nat (sock_GetPendingDataSize s)) else []], counted svc, b)
           else (answer [errno_val E_Inval, -1] [], counted svc, b))
      | None \<Rightarrow> forward_only 19 [0, 1] e [fd, uint request, uint bufcount] [buf_in] [out_size] svc b)"

definition F_DUPFD :: int where "F_DUPFD = 0"
definition F_GETFL :: int where "F_GETFL = 3"
definition F_SETFL :: int where "F_SETFL = 4"
definition F_DUPFD_CLOEXEC :: int where "F_DUPFD_CLOEXEC = 6"
definition O_NONBLOCK :: u32 where "O_NONBLOCK = 4"

definition is_dup :: "int \<Rightarrow> bool" where
  "is_dup cmd \<longleftrightarrow> cmd = F_DUPFD \<or> cmd = F_DUPFD_CLOEXEC"

text \<open>The forwarded \<^verbatim>\<open>fcntl\<close>. The code reads the reply as \<^verbatim>\<open>{errno, result}\<close>.\<close>

definition fcntl_forward :: "'w bsd_env \<Rightarrow> int \<Rightarrow> int \<Rightarrow> int \<Rightarrow> BsdMitmService \<Rightarrow> 'w bsd \<Rightarrow>
    bsd_out \<times> BsdMitmService \<times> 'w bsd" where
  "fcntl_forward e fd cmd arg svc b =
     (let (r, b1) = serviceMitmDispatch e 20 [fd, cmd, arg] [] [] b;
          err = reply_word 0 r; result = reply_word 1 r
      in (out_of [0, 1] r, counted svc,
          if fr_rc r = 0 \<and> err = 0 \<and> result \<ge> 0 \<and> is_dup cmd then copy_info fd result b1 else b1))"

definition Fcntl :: "'w bsd_env \<Rightarrow> int \<Rightarrow> int \<Rightarrow> int \<Rightarrow> BsdMitmService \<Rightarrow> 'w bsd \<Rightarrow> bsd_out \<times> BsdMitmService \<times> 'w bsd" where
  "Fcntl e fd cmd arg svc b =
     (case GetProxySocket fd (b_mgr b) of
        Some s \<Rightarrow>
          (if cmd = F_GETFL then
             (answer [0, if m_non_blocking s then uint O_NONBLOCK else 0] [], counted svc, b)
           else if cmd = F_SETFL then
             (answer [0, 0] [], counted svc,
              b\<lparr>b_mgr := on_socket fd (SetNonBlocking (of_int arg AND O_NONBLOCK \<noteq> 0)) (b_mgr b)\<rparr>)
           else if is_dup cmd then fcntl_forward e fd cmd arg svc b
           else (answer [errno_val E_Inval, -1] [], counted svc, b))
      | None \<Rightarrow> fcntl_forward e fd cmd arg svc b)"

definition GetSockOpt :: "'w bsd_env \<Rightarrow> int \<Rightarrow> int \<Rightarrow> int \<Rightarrow> nat \<Rightarrow> BsdMitmService \<Rightarrow> 'w bsd \<Rightarrow>
    bsd_out \<times> BsdMitmService \<times> 'w bsd" where
  "GetSockOpt e fd level optname out_size svc b =
     (case GetProxySocket fd (b_mgr b) of
        Some s \<Rightarrow>
          (case sock_GetSockOpt level optname (out_size > 0) (Some out_size) s of
             Inr (v, _) \<Rightarrow> (answer [0] [Wr32le (of_int v)], counted svc, b)
           | Inl err \<Rightarrow> (answer [errno_val err] [], counted svc, b))
      | None \<Rightarrow> forward_only 17 [0] e [fd, level, optname] [] [out_size] svc b)"

definition save_broadcast :: "int \<Rightarrow> int \<Rightarrow> int \<Rightarrow> in_buf \<Rightarrow> 'w bsd \<Rightarrow> 'w bsd" where
  "save_broadcast fd level optname optval b =
     (case optval of
        Some v \<Rightarrow>
          if level = SOL_SOCKET \<and> optname = SO_BROADCAST \<and> length v \<ge> 4
          then b\<lparr>g_socket_info := AList.map_entry fd (\<lambda>i. i\<lparr>si_broadcast := (Rd32le v \<noteq> 0)\<rparr>) (g_socket_info b)\<rparr>
          else b
      | None \<Rightarrow> b)"

definition SetSockOpt :: "'w bsd_env \<Rightarrow> int \<Rightarrow> int \<Rightarrow> int \<Rightarrow> in_buf \<Rightarrow> BsdMitmService \<Rightarrow> 'w bsd \<Rightarrow>
    bsd_out \<times> BsdMitmService \<times> 'w bsd" where
  "SetSockOpt e fd level optname optval svc b =
     (case GetProxySocket fd (b_mgr b) of
        Some s \<Rightarrow>
          (let (res, s') = sock_SetSockOpt level optname optval (buf_size optval) s;
               b1 = b\<lparr>b_mgr := on_socket fd (\<lambda>_. s') (b_mgr b)\<rparr>
           in (answer [case res of Inr _ \<Rightarrow> 0 | Inl err \<Rightarrow> errno_val err] [], counted svc, b1))
      | None \<Rightarrow> forward_only 21 [0] e [fd, level, optname] [optval] [] svc (save_broadcast fd level optname optval b))"

definition Listen :: "'w bsd_env \<Rightarrow> int \<Rightarrow> int \<Rightarrow> BsdMitmService \<Rightarrow> 'w bsd \<Rightarrow> bsd_out \<times> BsdMitmService \<times> 'w bsd" where
  "Listen e fd backlog = forward_only 18 [0] e [fd, backlog] [] []"

definition Shutdown :: "'w bsd_env \<Rightarrow> int \<Rightarrow> int \<Rightarrow> BsdMitmService \<Rightarrow> 'w bsd \<Rightarrow> bsd_out \<times> BsdMitmService \<times> 'w bsd" where
  "Shutdown e fd how = forward_only 22 [0] e [fd, how] [] []"

definition ShutdownAllSockets :: "'w bsd_env \<Rightarrow> u64 \<Rightarrow> int \<Rightarrow> BsdMitmService \<Rightarrow> 'w bsd \<Rightarrow>
    bsd_out \<times> BsdMitmService \<times> 'w bsd" where
  "ShutdownAllSockets e pid how = forward_only 23 [0] e [uint pid, how] [] []"

section \<open>Buffer layouts\<close>

interpretation sa: codec enc_SockAddrIn dec_SockAddrIn SockAddrIn_ok 16
proof unfold_locales
  fix x :: SockAddrIn and r assume "SockAddrIn_ok x"
  then show "length (enc_SockAddrIn x) = 16" "dec_SockAddrIn (enc_SockAddrIn x @ r) = x"
    by (simp_all add: SockAddrIn_ok_def enc_SockAddrIn_def dec_SockAddrIn_def)
next
  fix b :: bytes assume b: "16 \<le> length b"
  then have "[b ! 0, b ! 1] = take 2 b" using length2_conv [of "take 2 b"] by simp
  with b show "SockAddrIn_ok (dec_SockAddrIn b)" "enc_SockAddrIn (dec_SockAddrIn b) = take 16 b"
    by (simp_all only: SockAddrIn_ok_def enc_SockAddrIn_def dec_SockAddrIn_def SockAddrIn.simps)
      (simp_all add: Wr_Rd_take join_slices join_last)
qed

interpretation pollfd: codec enc_PollFd dec_PollFd "\<lambda>_. True" 8
  by unfold_locales (simp_all add: enc_PollFd_def dec_PollFd_def Wr_Rd_take nth_as_take join_slices join_last)

end
