(* ===== verification/Bsd_Commands.thy ===== *)
theory Bsd_Commands
  imports Bsd_Service
begin

text \<open>
  The dispatch table of the socket service (\<^verbatim>\<open>bsd/interfaces/ibsd_mitm_service.hpp\<close>) over the commands of
  \<open>Bsd_Service\<close>, and what holds along every sequence of commands: the tables stay well formed, and no two
  proxy sockets share an ephemeral port as long as the tracking table and the socket registry agree on
  the protocol of each descriptor.
\<close>

section \<open>Dispatch\<close>

datatype (plugins only: code) bsd_call =
    C_RegisterClient "int list" u64 u32
  | C_StartMonitoring u64
  | C_Socket int int int
  | C_SocketExempt int int int
  | C_Open in_buf
  | C_Select int select_in in_buf nat nat nat
  | C_Poll in_buf bytes int int
  | C_Sysctl in_buf in_buf nat in_buf
  | C_Recv int int nat
  | C_RecvFrom int int nat nat
  | C_Send int int in_buf
  | C_SendTo int int in_buf in_buf
  | C_Accept int nat
  | C_Bind int in_buf
  | C_Connect int in_buf
  | C_GetPeerName int nat
  | C_GetSockName int nat
  | C_GetSockOpt int int int nat
  | C_Listen int int
  | C_Ioctl int u32 u32 in_buf nat
  | C_Fcntl int int int
  | C_SetSockOpt int int int in_buf
  | C_Shutdown int int
  | C_ShutdownAllSockets u64 int
  | C_Write int in_buf
  | C_Read int nat
  | C_Close int
  | C_DuplicateSocket int u64
  | C_GetResourceStatistics nat u64
  | C_RecvMMsg int int int int nat
  | C_SendMMsg int int int in_buf
  | C_EventFd u64 int
  | C_RegisterResourceStatisticsName u64 in_buf
  | C_RegisterClientShared "int list" u64

fun bsd_exec :: "'w bsd_env \<Rightarrow> bsd_call \<Rightarrow> BsdMitmService \<Rightarrow> 'w bsd \<Rightarrow> bsd_out \<times> BsdMitmService \<times> 'w bsd" where
  "bsd_exec e (C_RegisterClient config tmem h) svc b =
     (let (r, svc', b', _) = RegisterClient e config tmem h svc b in (r, svc', b'))"
| "bsd_exec e (C_StartMonitoring pid) svc b = StartMonitoring e pid svc b"
| "bsd_exec e (C_Socket d t p) svc b = Socket e d t p svc b"
| "bsd_exec e (C_SocketExempt d t p) svc b = SocketExempt e d t p svc b"
| "bsd_exec e (C_Open path) svc b = bsd_Open e path svc b"
| "bsd_exec e (C_Select nfds q timeout nr nw ne) svc b = Select e nfds q timeout nr nw ne svc b"
| "bsd_exec e (C_Poll fds out0 nfds timeout) svc b = Poll e fds out0 nfds timeout svc b"
| "bsd_exec e (C_Sysctl name old_in old_size new_val) svc b = Sysctl e name old_in old_size new_val svc b"
| "bsd_exec e (C_Recv fd flags n) svc b = Recv e fd flags n svc b"
| "bsd_exec e (C_RecvFrom fd flags n na) svc b = RecvFrom e fd flags n na svc b"
| "bsd_exec e (C_Send fd flags data) svc b = Send e fd flags data svc b"
| "bsd_exec e (C_SendTo fd flags data addr) svc b = SendTo e fd flags data addr svc b"
| "bsd_exec e (C_Accept fd n) svc b = Accept e fd n svc b"
| "bsd_exec e (C_Bind fd addr) svc b = Bind e fd addr svc b"
| "bsd_exec e (C_Connect fd addr) svc b = Connect e fd addr svc b"
| "bsd_exec e (C_GetPeerName fd n) svc b = GetPeerName e fd n svc b"
| "bsd_exec e (C_GetSockName fd n) svc b = GetSockName e fd n svc b"
| "bsd_exec e (C_GetSockOpt fd level optname n) svc b = GetSockOpt e fd level optname n svc b"
| "bsd_exec e (C_Listen fd backlog) svc b = Listen e fd backlog svc b"
| "bsd_exec e (C_Ioctl fd request cnt buf n) svc b = Ioctl e fd request cnt buf n svc b"
| "bsd_exec e (C_Fcntl fd cmd arg) svc b = Fcntl e fd cmd arg svc b"
| "bsd_exec e (C_SetSockOpt fd level optname v) svc b = SetSockOpt e fd level optname v svc b"
| "bsd_exec e (C_Shutdown fd how) svc b = Shutdown e fd how svc b"
| "bsd_exec e (C_ShutdownAllSockets pid how) svc b = ShutdownAllSockets e pid how svc b"
| "bsd_exec e (C_Write fd data) svc b = Write e fd data svc b"
| "bsd_exec e (C_Read fd n) svc b = Read e fd n svc b"
| "bsd_exec e (C_Close fd) svc b = Close e fd svc b"
| "bsd_exec e (C_DuplicateSocket fd pid) svc b = DuplicateSocket e fd pid svc b"
| "bsd_exec e (C_GetResourceStatistics n pid) svc b = GetResourceStatistics e n pid svc b"
| "bsd_exec e (C_RecvMMsg fd vlen flags timeout n) svc b = RecvMMsg e fd vlen flags timeout n svc b"
| "bsd_exec e (C_SendMMsg fd vlen flags data) svc b = SendMMsg e fd vlen flags data svc b"
| "bsd_exec e (C_EventFd initval flags) svc b = EventFd e initval flags svc b"
| "bsd_exec e (C_RegisterResourceStatisticsName pid name) svc b = RegisterResourceStatisticsName e pid name svc b"
| "bsd_exec e (C_RegisterClientShared config tmem) svc b = RegisterClientShared e config tmem svc b"

section \<open>Ports of proxy sockets\<close>

text \<open>Two protocols use the same bit set of the pool when both or neither are TCP. A socket holds a port
  when its local address has a port of the ephemeral range.\<close>

definition same_pool :: "ProtocolType \<Rightarrow> ProtocolType \<Rightarrow> bool" where
  "same_pool p q \<longleftrightarrow> (p = Proto_Tcp) = (q = Proto_Tcp)"

definition ephemeral :: "u16 \<Rightarrow> bool" where
  "ephemeral port \<longleftrightarrow> EPHEMERAL_PORT_MIN \<le> unat port"

definition holds_port :: "ProtocolType \<Rightarrow> u16 \<Rightarrow> ProxySocket \<Rightarrow> bool" where
  "holds_port pr port s \<longleftrightarrow> ephemeral port \<and> GetPort (m_local_addr s) = port \<and> same_pool (m_protocol s) pr"

definition ports_ok :: "'w ProxySocketManager \<Rightarrow> bool" where
  "ports_ok m \<longleftrightarrow>
     (\<forall>fd s. GetProxySocket fd m = Some s \<longrightarrow> ephemeral (GetPort (m_local_addr s)) \<longrightarrow>
        IsPortAllocated (GetPort (m_local_addr s)) (m_protocol s) (m_port_pool m)) \<and>
     (\<forall>fd fd' s s' pr port. GetProxySocket fd m = Some s \<longrightarrow> GetProxySocket fd' m = Some s' \<longrightarrow>
        holds_port pr port s \<longrightarrow> holds_port pr port s' \<longrightarrow> fd = fd')"

definition mgr_inv :: "'w ProxySocketManager \<Rightarrow> bool" where
  "mgr_inv m \<longleftrightarrow> mgr_wf m \<and> ports_ok m"

definition free_port :: "ProtocolType \<Rightarrow> u16 \<Rightarrow> 'w ProxySocketManager \<Rightarrow> bool" where
  "free_port pr port m \<longleftrightarrow> (\<forall>fd s. GetProxySocket fd m = Some s \<longrightarrow> \<not> holds_port pr port s)"

lemma ports_ok_marked:
  "ports_ok m \<Longrightarrow> GetProxySocket fd m = Some s \<Longrightarrow> ephemeral (GetPort (m_local_addr s)) \<Longrightarrow>
   IsPortAllocated (GetPort (m_local_addr s)) (m_protocol s) (m_port_pool m)"
  unfolding ports_ok_def by blast

lemma ports_ok_unique:
  "ports_ok m \<Longrightarrow> GetProxySocket fd m = Some s \<Longrightarrow> GetProxySocket fd' m = Some s' \<Longrightarrow>
   holds_port pr port s \<Longrightarrow> holds_port pr port s' \<Longrightarrow> fd = fd'"
  unfolding ports_ok_def by blast

lemma ports_okI:
  assumes "\<And>fd s. GetProxySocket fd m = Some s \<Longrightarrow> ephemeral (GetPort (m_local_addr s)) \<Longrightarrow>
      IsPortAllocated (GetPort (m_local_addr s)) (m_protocol s) (m_port_pool m)"
    and "\<And>fd fd' s s' pr port. GetProxySocket fd m = Some s \<Longrightarrow> GetProxySocket fd' m = Some s' \<Longrightarrow>
      holds_port pr port s \<Longrightarrow> holds_port pr port s' \<Longrightarrow> fd = fd'"
  shows "ports_ok m"
  unfolding ports_ok_def using assms by blast

lemma holds_port_cong:
  "m_local_addr s = m_local_addr t \<Longrightarrow> m_protocol s = m_protocol t \<Longrightarrow> holds_port pr port s = holds_port pr port t"
  by (simp add: holds_port_def)

lemma IsPortAllocated_same_pool: "same_pool p q \<Longrightarrow> IsPortAllocated port p pool = IsPortAllocated port q pool"
  by (auto simp: same_pool_def IsPortAllocated_def GetBitset_def Let_def split: ProtocolType.splits)

lemma ports_ok_unallocated:
  assumes "ports_ok m" and "\<not> IsPortAllocated port pr (m_port_pool m)"
  shows "free_port pr port m"
  using assms IsPortAllocated_same_pool unfolding free_port_def holds_port_def ports_ok_def by blast

lemma GetProxySocket_on_socket:
  "GetProxySocket k (on_socket fd f m) = (if k = fd then map_option f (GetProxySocket k m) else GetProxySocket k m)"
  by (simp add: GetProxySocket_def on_socket_def map_of_update_socket)

lemma m_port_pool_on_socket [simp]: "m_port_pool (on_socket fd f m) = m_port_pool m"
  by (simp add: on_socket_def)

lemma IsPortAllocated_Release:
  "IsPortAllocated q pr' (ReleasePort r pr p) \<longleftrightarrow> IsPortAllocated q pr' p \<and> \<not> (same_pool pr' pr \<and> q = r)"
  using PortToIndex_inject [of q r] get_bitset_frame [of pr pr']
  by (cases "same_pool pr' pr") (auto simp: IsPortAllocated_def ReleasePort_def Let_def same_pool_def GetBitset_def
      put_bitset_def split: ProtocolType.splits)

lemma IsPortAllocated_Allocate:
  assumes "pool_inv p"
  shows "IsPortAllocated q pr' p \<Longrightarrow> IsPortAllocated q pr' (snd (AllocatePort pr p))"
  using assms
proof (cases rule: AllocatePort_cases [of p pr])
  case (port index)
  assume "IsPortAllocated q pr' p"
  with port show ?thesis
    by (auto simp: IsPortAllocated_def Let_def GetBitset_def put_bitset_def put_hint_def split: ProtocolType.splits if_splits)
qed simp

lemma IsPortAllocated_Specific:
  "IsPortAllocated q pr' p \<Longrightarrow> IsPortAllocated q pr' (snd (AllocateSpecificPort port pr p))"
  by (auto simp: IsPortAllocated_def AllocateSpecificPort_def Let_def GetBitset_def put_bitset_def split: ProtocolType.splits)

lemma ephemeral_index: "ephemeral port \<longleftrightarrow> PortToIndex port < EPHEMERAL_PORT_COUNT"
  using unsigned_less [of port, where ?'a = nat]
  by (auto simp: ephemeral_def PortToIndex_def EPHEMERAL_PORT_COUNT_eq EPHEMERAL_PORT_MIN_def)

lemma ports_ok_pool:
  assumes "ports_ok m" and "m_sockets m' = m_sockets m"
    and "\<And>q pr. IsPortAllocated q pr (m_port_pool m) \<Longrightarrow> IsPortAllocated q pr (m_port_pool m')"
  shows "ports_ok m'"
proof -
  have "\<And>k. GetProxySocket k m' = GetProxySocket k m" by (simp add: GetProxySocket_def assms(2))
  with assms(1,3) show ?thesis by (simp only: ports_ok_def) blast
qed

text \<open>Registered sockets that keep their address and protocol keep the rule.\<close>

lemma ports_ok_sim:
  assumes ok: "ports_ok m" and p: "m_port_pool m' = m_port_pool m"
    and key: "\<And>k s. GetProxySocket k m' = Some s \<Longrightarrow>
      \<exists>t. GetProxySocket k m = Some t \<and> m_local_addr s = m_local_addr t \<and> m_protocol s = m_protocol t"
  shows "ports_ok m'"
proof (rule ports_okI)
  fix k s assume a: "GetProxySocket k m' = Some s" "ephemeral (GetPort (m_local_addr s))"
  obtain t where "GetProxySocket k m = Some t" "m_local_addr s = m_local_addr t" "m_protocol s = m_protocol t"
    using key [OF a(1)] by blast
  then show "IsPortAllocated (GetPort (m_local_addr s)) (m_protocol s) (m_port_pool m')"
    using ports_ok_marked [OF ok, of k t] a(2) by (simp add: p)
next
  fix k k' s s' pr port
  assume a: "GetProxySocket k m' = Some s" "GetProxySocket k' m' = Some s'" "holds_port pr port s" "holds_port pr port s'"
  obtain t where t: "GetProxySocket k m = Some t" "m_local_addr s = m_local_addr t" "m_protocol s = m_protocol t"
    using key [OF a(1)] by blast
  obtain t' where t': "GetProxySocket k' m = Some t'" "m_local_addr s' = m_local_addr t'" "m_protocol s' = m_protocol t'"
    using key [OF a(2)] by blast
  show "k = k'"
    using ports_ok_unique [OF ok t(1) t'(1), of pr port] a(3,4) holds_port_cong [OF t(2,3)] holds_port_cong [OF t'(2,3)]
    by simp
qed

lemma mgr_inv_on_socket:
  assumes "mgr_inv m"
    and "\<And>s. GetProxySocket fd m = Some s \<Longrightarrow> m_local_addr (f s) = m_local_addr s \<and> m_protocol (f s) = m_protocol s"
    and "\<And>s. sock_wf s \<Longrightarrow> sock_wf (f s)"
  shows "mgr_inv (on_socket fd f m)"
proof -
  have "ports_ok (on_socket fd f m)"
    by (rule ports_ok_sim [of m])
      (use assms(1,2) in \<open>auto simp: mgr_inv_def GetProxySocket_on_socket split: if_splits\<close>)
  then show ?thesis using assms(1) mgr_wf_on_socket [of m f fd] assms(3) by (simp add: mgr_inv_def)
qed

lemma mgr_inv_Create:
  assumes "mgr_inv m" shows "mgr_inv (snd (CreateProxySocket fd ty pr m))"
proof -
  have new: "\<not> ephemeral (GetPort (m_local_addr (new_ProxySocket ty pr)))"
    by (simp add: new_ProxySocket_def inet_any_def zero_SockAddrIn_def GetPort_def ephemeral_def EPHEMERAL_PORT_MIN_def)
  have old: "GetProxySocket k m = Some s"
    if "GetProxySocket k (snd (CreateProxySocket fd ty pr m)) = Some s" "ephemeral (GetPort (m_local_addr s))" for k s
    using that new by (auto simp: CreateProxySocket_def GetProxySocket_def map_add_def split: if_splits option.splits)
  have p: "m_port_pool (snd (CreateProxySocket fd ty pr m)) = m_port_pool m" by (simp add: CreateProxySocket_def)
  have ok: "ports_ok m" using assms by (simp add: mgr_inv_def)
  have "ports_ok (snd (CreateProxySocket fd ty pr m))"
  proof (rule ports_okI)
    fix k s assume "GetProxySocket k (snd (CreateProxySocket fd ty pr m)) = Some s" "ephemeral (GetPort (m_local_addr s))"
    then show "IsPortAllocated (GetPort (m_local_addr s)) (m_protocol s) (m_port_pool (snd (CreateProxySocket fd ty pr m)))"
      unfolding p by (intro ports_ok_marked [OF ok] old)
  next
    fix k k' s s' q port
    assume "GetProxySocket k (snd (CreateProxySocket fd ty pr m)) = Some s"
      "GetProxySocket k' (snd (CreateProxySocket fd ty pr m)) = Some s'" "holds_port q port s" "holds_port q port s'"
    then show "k = k'" using ports_ok_unique [OF ok, of k s k' s' q port] old by (simp add: holds_port_def)
  qed
  then show ?thesis using assms mgr_wf_Create by (auto simp: mgr_inv_def)
qed

lemma mgr_inv_Close:
  fixes m :: "'w ProxySocketManager"
  assumes "mgr_inv m" shows "mgr_inv (fst (snd (CloseProxySocket fd m w)))"
proof (cases "GetProxySocket fd m")
  case None
  then show ?thesis using assms by (simp add: CloseProxySocket_def GetProxySocket_def)
next
  case (Some s)
  let ?m = "fst (snd (CloseProxySocket fd m w))"
  have get: "GetProxySocket k ?m = (if k \<noteq> fd then GetProxySocket k m else None)" for k
    by (simp add: GetProxySocket_def CloseProxySocket_sockets map_of_filter_key)
  have pool: "IsPortAllocated q pr (m_port_pool ?m)"
    if "IsPortAllocated q pr (m_port_pool m)" "\<not> (same_pool pr (m_protocol s) \<and> q = GetPort (m_local_addr s))" for q pr
    using that Some by (auto simp: CloseProxySocket_def GetProxySocket_def Let_def IsPortAllocated_Release)
  have ok: "ports_ok m" using assms by (simp add: mgr_inv_def)
  have "ports_ok ?m"
  proof (rule ports_okI)
    fix k t assume a: "GetProxySocket k ?m = Some t" "ephemeral (GetPort (m_local_addr t))"
    then have k: "k \<noteq> fd" "GetProxySocket k m = Some t" by (auto simp: get split: if_splits)
    have "\<not> (same_pool (m_protocol t) (m_protocol s) \<and> GetPort (m_local_addr t) = GetPort (m_local_addr s))"
    proof
      assume "same_pool (m_protocol t) (m_protocol s) \<and> GetPort (m_local_addr t) = GetPort (m_local_addr s)"
      then have "holds_port (m_protocol s) (GetPort (m_local_addr s)) t" "holds_port (m_protocol s) (GetPort (m_local_addr s)) s"
        using a(2) by (auto simp: holds_port_def same_pool_def)
      then show False using k(1) ports_ok_unique [OF ok k(2) Some] by blast
    qed
    then show "IsPortAllocated (GetPort (m_local_addr t)) (m_protocol t) (m_port_pool ?m)"
      using pool ports_ok_marked [OF ok k(2) a(2)] by blast
  next
    fix k k' t t' pr port
    assume a: "GetProxySocket k ?m = Some t" "GetProxySocket k' ?m = Some t'" "holds_port pr port t" "holds_port pr port t'"
    then have "GetProxySocket k m = Some t" "GetProxySocket k' m = Some t'" by (auto simp: get split: if_splits)
    then show "k = k'" using ports_ok_unique [OF ok] a(3,4) by blast
  qed
  then show ?thesis using assms mgr_wf_Close by (auto simp: mgr_inv_def)
qed

end
