(* ===== verification/Bsd_Invariant.thy ===== *)
theory Bsd_Invariant
  imports Bsd_Commands
begin

text \<open>
  The invariant of the socket service along sequences of commands, and the exclusive use of ephemeral
  ports by its proxy sockets.
\<close>

section \<open>Ports are claimed before they are bound\<close>

definition claimed :: "ProtocolType \<Rightarrow> u16 \<Rightarrow> 'w ProxySocketManager \<Rightarrow> bool" where
  "claimed pr port m \<longleftrightarrow> free_port pr port m \<and> (ephemeral port \<longrightarrow> IsPortAllocated port pr (m_port_pool m))"

lemma mgr_inv_pool:
  assumes "mgr_inv m" and "pool_inv p"
    and "\<And>q pr. IsPortAllocated q pr (m_port_pool m) \<Longrightarrow> IsPortAllocated q pr p"
  shows "mgr_inv (m\<lparr>m_port_pool := p\<rparr>)"
proof -
  have "ports_ok (m\<lparr>m_port_pool := p\<rparr>)" by (rule ports_ok_pool [of m]) (use assms in \<open>auto simp: mgr_inv_def\<close>)
  moreover have "mgr_wf (m\<lparr>m_port_pool := p\<rparr>)" using assms by (simp add: mgr_inv_def mgr_wf_set_pool)
  ultimately show ?thesis by (simp add: mgr_inv_def)
qed

lemma free_port_sockets: "m_sockets m' = m_sockets m \<Longrightarrow> free_port pr port m' = free_port pr port m"
  by (simp add: free_port_def GetProxySocket_def)

lemma AllocatePort_claims:
  assumes "mgr_inv m" and "mgr_AllocatePort pr m = (eph, m')"
  shows "mgr_inv m' \<and> m_sockets m' = m_sockets m \<and> (eph \<noteq> 0 \<longrightarrow> claimed pr eph m')"
proof -
  have wf: "pool_inv (m_port_pool m)" and ok: "ports_ok m" using assms(1) by (simp_all add: mgr_inv_def mgr_wf_pool)
  have m': "eph = fst (AllocatePort pr (m_port_pool m))" "m' = m\<lparr>m_port_pool := snd (AllocatePort pr (m_port_pool m))\<rparr>"
    using assms(2) by (auto simp: mgr_AllocatePort_def split_beta Let_def)
  have "claimed pr eph m'" if "eph \<noteq> 0"
  proof -
    have "\<not> IsPortAllocated eph pr (m_port_pool m)" using pool.alloc_fresh [OF wf] that by (simp add: m')
    then have "free_port pr eph m" by (rule ports_ok_unallocated [OF ok])
    moreover have "IsPortAllocated eph pr (m_port_pool m')"
      using that IsPortAllocated_AllocatePort [OF wf, of eph pr] by (simp add: m')
    moreover have "m_sockets m' = m_sockets m" by (simp add: m'(2))
    ultimately show ?thesis using free_port_sockets [of m' m] by (simp add: claimed_def)
  qed
  moreover have "mgr_inv m'"
    unfolding m' using assms(1) wf by (intro mgr_inv_pool pool_inv_AllocatePort IsPortAllocated_Allocate)
  ultimately show ?thesis by (simp add: m')
qed

lemma ReservePort_claims:
  assumes "mgr_inv m" and "ReservePort port pr m = (ok, m')"
  shows "mgr_inv m' \<and> m_sockets m' = m_sockets m \<and> (ok \<longrightarrow> claimed pr port m')"
proof -
  have wf: "pool_inv (m_port_pool m)" and po: "ports_ok m" using assms(1) by (simp_all add: mgr_inv_def mgr_wf_pool)
  have m': "ok = fst (AllocateSpecificPort port pr (m_port_pool m))"
    "m' = m\<lparr>m_port_pool := snd (AllocateSpecificPort port pr (m_port_pool m))\<rparr>"
    using assms(2) by (auto simp: ReservePort_def split_beta Let_def)
  have "claimed pr port m'" if ok
  proof -
    have "\<not> IsPortAllocated port pr (m_port_pool m)"
      using that by (auto simp: m' AllocateSpecificPort_def IsPortAllocated_def Let_def split: if_splits)
    then have "free_port pr port m" by (rule ports_ok_unallocated [OF po])
    moreover have "ephemeral port \<Longrightarrow> IsPortAllocated port pr (m_port_pool m')"
      using that by (auto simp: m' ephemeral_index AllocateSpecificPort_def IsPortAllocated_def Let_def GetBitset_def
          put_bitset_def split: if_splits ProtocolType.splits)
    moreover have "m_sockets m' = m_sockets m" by (simp add: m'(2))
    ultimately show ?thesis using free_port_sockets [of m' m] by (simp add: claimed_def)
  qed
  moreover have "mgr_inv m'"
    unfolding m' using assms(1) wf by (intro mgr_inv_pool pool_inv_AllocateSpecificPort IsPortAllocated_Specific)
  ultimately show ?thesis by (simp add: m')
qed

lemma claim_port_claims:
  assumes "mgr_inv (b_mgr b)" and "claim_port a pr b = (r, b1)"
  shows "mgr_inv (b_mgr b1) \<and> m_sockets (b_mgr b1) = m_sockets (b_mgr b) \<and> b1 = b\<lparr>b_mgr := b_mgr b1\<rparr> \<and>
     (\<forall>a'. r = Some a' \<longrightarrow> claimed pr (GetPort a') (b_mgr b1))"
proof (cases "GetPort a = 0")
  case True
  obtain eph m where e: "mgr_AllocatePort pr (b_mgr b) = (eph, m)" by fastforce
  with AllocatePort_claims [OF assms(1) e] True assms(2) show ?thesis
    by (auto simp: claim_port_def GetPort_def split: if_splits)
next
  case False
  obtain ok m where e: "ReservePort (GetPort a) pr (b_mgr b) = (ok, m)" by fastforce
  with ReservePort_claims [OF assms(1) e] False assms(2) show ?thesis
    by (auto simp: claim_port_def split: if_splits)
qed

lemma mgr_inv_bind:
  assumes "mgr_inv m" and "GetProxySocket fd m = Some s" and "same_pool (m_protocol s) pr" and "claimed pr (GetPort a) m"
  shows "mgr_inv (on_socket fd (\<lambda>_. s\<lparr>m_local_addr := a, m_state := Bound\<rparr>) m)" (is "mgr_inv ?m")
proof -
  let ?s = "s\<lparr>m_local_addr := a, m_state := Bound\<rparr>"
  have ok: "ports_ok m" using assms(1) by (simp add: mgr_inv_def)
  have get: "GetProxySocket k ?m = (if k = fd then Some ?s else GetProxySocket k m)" for k
    using assms(2) by (simp add: GetProxySocket_on_socket)
  have alone: "\<not> holds_port q port t" if "GetProxySocket k m = Some t" "holds_port q port ?s" for k t q port
    using that assms(3,4) by (auto simp: claimed_def free_port_def holds_port_def same_pool_def)
  have "ports_ok ?m"
  proof (rule ports_okI)
    fix k t assume a: "GetProxySocket k ?m = Some t" "ephemeral (GetPort (m_local_addr t))"
    show "IsPortAllocated (GetPort (m_local_addr t)) (m_protocol t) (m_port_pool ?m)"
    proof (cases "k = fd")
      case True
      with a(1) have "t = ?s" by (simp add: get)
      with a(2) show ?thesis
        using assms(4) IsPortAllocated_same_pool [OF assms(3)] by (simp add: claimed_def)
    next
      case False
      with a show ?thesis using ports_ok_marked [OF ok, of k t] by (simp add: get)
    qed
  next
    fix k k' t t' q port
    assume a: "GetProxySocket k ?m = Some t" "GetProxySocket k' ?m = Some t'" "holds_port q port t" "holds_port q port t'"
    then show "k = k'"
      using alone ports_ok_unique [OF ok, of k t k' t' q port] by (auto simp: get split: if_splits)
  qed
  moreover have "mgr_wf ?m"
    using assms(1,2) sock_wf_frame [of s ?s] mgr_wf_lookup [of m fd s]
    by (intro mgr_wf_on_socket) (auto simp: mgr_inv_def GetProxySocket_def)
  ultimately show ?thesis by (simp add: mgr_inv_def)
qed

lemma bind_socket_inv:
  assumes "mgr_inv (b_mgr b)" and "\<And>s. GetProxySocket fd (b_mgr b) = Some s \<Longrightarrow> same_pool (m_protocol s) pr"
    and "claimed pr (GetPort a) (b_mgr b)"
  shows "mgr_inv (b_mgr (snd (bind_socket fd a b)))"
proof (cases "GetProxySocket fd (b_mgr b)")
  case None
  then show ?thesis using assms by (simp add: bind_socket_def)
next
  case (Some s)
  have same: "mgr_inv (on_socket fd (\<lambda>_. s) (b_mgr b))"
    using assms(1) Some mgr_wf_lookup [of "b_mgr b" fd s]
    by (intro mgr_inv_on_socket) (auto simp: mgr_inv_def GetProxySocket_def)
  show ?thesis
    using same mgr_inv_bind [OF assms(1) Some assms(2) [OF Some] assms(3)] Some
    by (auto simp: bind_socket_def sock_Bind_def)
qed

lemma deliver_keeps:
  "m_local_addr (fold (deliver_pending g) ps s) = m_local_addr s \<and> m_protocol (fold (deliver_pending g) ps s) = m_protocol s \<and>
   m_state (fold (deliver_pending g) ps s) = m_state s \<and> m_broadcast (fold (deliver_pending g) ps s) = m_broadcast s"
  by (induction ps arbitrary: s) (auto simp: deliver_pending_def sock_IncomingData_def Let_def)

lemma mgr_inv_Deliver:
  assumes "mgr_inv m" shows "mgr_inv (DeliverPendingPackets g (Some fd) port pr m)"
proof (cases "map_of (m_sockets m) fd")
  case None
  with assms show ?thesis by (simp add: DeliverPendingPackets_def)
next
  case (Some s)
  let ?m = "DeliverPendingPackets g (Some fd) port pr m"
  have wf: "mgr_wf m" using assms by (simp add: mgr_inv_def)
  note d = deliver_state [OF wf Some refl, of g port pr]
  have "ports_ok ?m"
  proof (rule ports_ok_sim [of m])
    show "ports_ok m" using assms by (simp add: mgr_inv_def)
    show "m_port_pool ?m = m_port_pool m" using d(3) by simp
    fix k t assume "GetProxySocket k ?m = Some t"
    then show "\<exists>t0. GetProxySocket k m = Some t0 \<and> m_local_addr t = m_local_addr t0 \<and> m_protocol t = m_protocol t0"
      using Some by (auto simp: GetProxySocket_def d(1) map_of_update_socket deliver_keeps split: if_splits)
  qed
  then show ?thesis using mgr_wf_Deliver [OF wf] by (simp add: mgr_inv_def)
qed

section \<open>The invariant\<close>

definition consistent :: "'w bsd \<Rightarrow> bool" where
  "consistent b \<longleftrightarrow> (\<forall>fd s i. GetProxySocket fd (b_mgr b) = Some s \<longrightarrow> info_of fd b = Some i \<longrightarrow>
     same_pool (m_protocol s) (si_protocol i))"

definition bsd_inv :: "'w bsd \<Rightarrow> bool" where
  "bsd_inv b \<longleftrightarrow> mgr_inv (b_mgr b) \<and> distinct (map fst (g_socket_info b)) \<and> \<not> HasRealAddress (b_netmap b)"

text \<open>What other threads may do to a socket while a command waits on it.\<close>

definition wait_ok :: "sock_wait \<Rightarrow> bool" where
  "wait_ok wait \<longleftrightarrow> (\<forall>s. sock_wf s \<longrightarrow> sock_wf (snd (wait s)) \<and> m_local_addr (snd (wait s)) = m_local_addr s \<and>
     m_protocol (snd (wait s)) = m_protocol s)"

lemma bsd_invI:
  "mgr_inv (b_mgr b) \<Longrightarrow> distinct (map fst (g_socket_info b)) \<Longrightarrow> \<not> HasRealAddress (b_netmap b) \<Longrightarrow> bsd_inv b"
  by (simp add: bsd_inv_def)

lemma bsd_inv_mgr: "bsd_inv b \<Longrightarrow> mgr_inv (b_mgr b)"
  by (simp add: bsd_inv_def)

lemma bsd_inv_set_mgr: "bsd_inv b \<Longrightarrow> mgr_inv m \<Longrightarrow> bsd_inv (b\<lparr>b_mgr := m\<rparr>)"
  by (simp add: bsd_inv_def)

lemma bsd_inv_world [simp]: "bsd_inv (b\<lparr>b_world := w\<rparr>) = bsd_inv b"
  by (simp add: bsd_inv_def)

lemma dispatch_frame [simp]:
  "b_mgr (snd (dispatch_full e q b)) = b_mgr b" "g_socket_info (snd (dispatch_full e q b)) = g_socket_info b"
  "b_netmap (snd (dispatch_full e q b)) = b_netmap b" "bsd_inv (snd (dispatch_full e q b)) = bsd_inv b"
  by (simp_all add: dispatch_full_def split_beta Let_def)

lemma serviceMitmDispatch_inv [simp]: "bsd_inv (snd (serviceMitmDispatch e cmd ws ins outs b)) = bsd_inv b"
  by (simp add: serviceMitmDispatch_def)

lemma forward_only_inv [simp]: "bsd_inv (snd (snd (forward_only cmd idx e ws ins outs svc b))) = bsd_inv b"
  by (simp add: forward_only_def split_beta Let_def)

lemma table_inv:
  assumes "bsd_inv b"
  shows "bsd_inv (mark_proxy fd b)" "bsd_inv (copy_info fd nfd b)" "bsd_inv (save_broadcast fd level optname optval b)"
    "bsd_inv (b\<lparr>g_socket_info := AList.update fd i (g_socket_info b)\<rparr>)"
  using assms by (auto simp: bsd_inv_def mark_proxy_def copy_info_def save_broadcast_def distinct_update distinct_map_entry
      split: option.splits)

lemma close_fds_inv: "bsd_inv b \<Longrightarrow> bsd_inv (close_fds fds b)"
proof (induction fds arbitrary: b)
  case (Cons fd fds)
  then have "mgr_inv (fst (snd (CloseProxySocket fd (b_mgr b) (b_world b))))" by (simp add: bsd_inv_def mgr_inv_Close)
  with Cons show ?case by (simp add: split_beta Let_def bsd_inv_def)
qed simp

lemma forget_fd_inv:
  assumes "bsd_inv b" shows "bsd_inv (forget_fd fd b)"
proof (cases "info_of fd b")
  case (Some i)
  have "bsd_inv (if si_is_proxy i then close_fds [fd] b else b)" using assms close_fds_inv [of b "[fd]"] by simp
  with Some show ?thesis
    by (simp add: forget_fd_def Let_def bsd_inv_def distinct_delete del: close_fds.simps)
qed (use assms in \<open>simp add: forget_fd_def\<close>)

lemma set_socket_inv:
  assumes "bsd_inv b" and "GetProxySocket fd (b_mgr b) = Some s"
    and "sock_wf s \<Longrightarrow> sock_wf s' \<and> m_local_addr s' = m_local_addr s \<and> m_protocol s' = m_protocol s"
  shows "bsd_inv (b\<lparr>b_mgr := on_socket fd (\<lambda>_. s') (b_mgr b)\<rparr>)"
proof -
  have "sock_wf s" using assms(1,2) mgr_wf_lookup [of "b_mgr b" fd s] by (simp add: bsd_inv_def mgr_inv_def GetProxySocket_def)
  then have "mgr_inv (on_socket fd (\<lambda>_. s') (b_mgr b))"
    using assms by (intro mgr_inv_on_socket) (auto simp: bsd_inv_def)
  then show ?thesis using assms(1) by (simp add: bsd_inv_def)
qed

lemma RecvFrom_keeps:
  assumes "wait_ok wait" and "sock_wf s"
  shows "sock_wf (snd (sock_RecvFrom wait hb n flags want s)) \<and>
    m_local_addr (snd (sock_RecvFrom wait hb n flags want s)) = m_local_addr s \<and>
    m_protocol (snd (sock_RecvFrom wait hb n flags want s)) = m_protocol s"
  using assms sock_wf_RecvFrom [of s wait]
  by (auto simp: wait_ok_def sock_RecvFrom_def consume_front_def Let_def split_beta)

lemma Recv_keeps:
  assumes "wait_ok wait" and "sock_wf s"
  shows "sock_wf (snd (sock_Recv wait hb n flags s)) \<and> m_local_addr (snd (sock_Recv wait hb n flags s)) = m_local_addr s \<and>
    m_protocol (snd (sock_Recv wait hb n flags s)) = m_protocol s"
  using RecvFrom_keeps [OF assms] assms(2) by (simp add: sock_Recv_def)

lemma Connect_keeps:
  assumes "wait_ok wait" and "sock_wf s"
  shows "sock_wf (snd (fst (sock_Connect send wait a s w))) \<and>
    m_local_addr (snd (fst (sock_Connect send wait a s w))) = m_local_addr s \<and>
    m_protocol (snd (fst (sock_Connect send wait a s w))) = m_protocol s"
proof -
  let ?t = "snd (wait (connect_start a s))"
  have t: "sock_wf ?t \<and> m_local_addr ?t = m_local_addr s \<and> m_protocol ?t = m_protocol s"
    using assms(1) sock_wf_connect_start [OF assms(2), of a]
    by (auto simp: wait_ok_def connect_start_def)
  then show ?thesis
    using sock_wf_Connect [OF assms(2), of wait a send w]
    by (auto simp: sock_Connect_def connect_finish_def connect_start_def Let_def split_beta)
qed

lemma SetSockOpt_keeps:
  "sock_wf s \<Longrightarrow> sock_wf (snd (sock_SetSockOpt level optname v n s)) \<and>
    m_local_addr (snd (sock_SetSockOpt level optname v n s)) = m_local_addr s \<and>
    m_protocol (snd (sock_SetSockOpt level optname v n s)) = m_protocol s"
  using sock_wf_misc(5) by (auto simp: sock_SetSockOpt_def split: option.splits)

section \<open>Commands that create and bind proxy sockets\<close>

definition pool_at :: "int \<Rightarrow> ProtocolType \<Rightarrow> 'w ProxySocketManager \<Rightarrow> bool" where
  "pool_at fd pr m \<longleftrightarrow> (\<forall>s. GetProxySocket fd m = Some s \<longrightarrow> same_pool (m_protocol s) pr)"

lemma consistent_pool_at: "consistent b \<Longrightarrow> info_of fd b = Some i \<Longrightarrow> pool_at fd (si_protocol i) (b_mgr b)"
  by (simp add: consistent_def pool_at_def)

lemma pool_at_Create: "pool_at fd pr m \<Longrightarrow> pool_at fd pr (snd (CreateProxySocket fd ty pr m))"
  by (auto simp: pool_at_def CreateProxySocket_def GetProxySocket_def map_add_def new_ProxySocket_def same_pool_def)

lemma pool_at_sockets: "pool_at fd pr m \<Longrightarrow> m_sockets m' = m_sockets m \<Longrightarrow> pool_at fd pr m'"
  by (simp add: pool_at_def GetProxySocket_def)

lemma bind_socket_frame:
  "snd (bind_socket fd a b) = b\<lparr>b_mgr := b_mgr (snd (bind_socket fd a b))\<rparr>"
  by (simp add: bind_socket_def split: option.split prod.split)

lemma bind_claimed_inv:
  assumes "bsd_inv b" and "pool_at fd pr (b_mgr b)" and "claimed pr (GetPort a) (b_mgr b)"
  shows "bsd_inv (snd (bind_socket fd a b))"
proof -
  have "mgr_inv (b_mgr (snd (bind_socket fd a b)))"
    using assms by (intro bind_socket_inv) (auto simp: bsd_inv_def pool_at_def)
  then show ?thesis using assms(1) bsd_inv_set_mgr by (subst bind_socket_frame) blast
qed

lemma Enter_frame:
  "b_mgr (snd (EnterLocalNetworkModePublic na b)) = b_mgr b"
  "g_socket_info (snd (EnterLocalNetworkModePublic na b)) = g_socket_info b"
  "b_netmap (snd (EnterLocalNetworkModePublic na b)) = b_netmap b"
  by (simp_all add: EnterLocalNetworkModePublic_def split_beta Let_def)

lemma browse_bound_inv: "bsd_inv b \<Longrightarrow> bsd_inv (snd (browse_bound e svc b))"
  by (simp add: browse_bound_def TranslationEnabled_def split_beta Let_def bsd_inv_def Enter_frame)

lemma create_and_mark_inv:
  assumes "bsd_inv b" and "pool_at fd (si_protocol i) (b_mgr b)" and "CreateProxySocket fd (si_type i) (si_protocol i) (b_mgr b) = (r, m)"
  shows "mgr_inv m \<and> pool_at fd (si_protocol i) m"
proof -
  have "m = snd (CreateProxySocket fd (si_type i) (si_protocol i) (b_mgr b))" using assms(3) by simp
  then show ?thesis using assms(1,2) by (simp add: bsd_inv_def mgr_inv_Create pool_at_Create)
qed

lemma bind_proxy_inv:
  assumes "bsd_inv b" and "pool_at fd (si_protocol i) (b_mgr b)"
  shows "bsd_inv (snd (snd (bind_proxy e fd a i svc b)))"
proof -
  obtain r m where cr: "CreateProxySocket fd (si_type i) (si_protocol i) (b_mgr b) = (r, m)" by fastforce
  from create_and_mark_inv [OF assms cr] have m: "mgr_inv m" "pool_at fd (si_protocol i) m" by auto
  define m1 where "m1 = (if si_broadcast i then on_socket fd (SetBroadcastEnabled True) m else m)"
  define b1 where "b1 = b\<lparr>b_mgr := m1\<rparr>"
  have "mgr_inv m1" "pool_at fd (si_protocol i) m1"
    using m mgr_inv_on_socket [OF m(1), of fd "SetBroadcastEnabled True"] sock_wf_misc(2)
    by (auto simp: m1_def pool_at_def GetProxySocket_on_socket SetBroadcastEnabled_def)
  then have b1: "bsd_inv b1" "pool_at fd (si_protocol i) (b_mgr b1)" using assms(1) by (simp_all add: b1_def bsd_inv_def)
  obtain ra b2 where cl: "claim_port (bind_target a b1) (si_protocol i) b1 = (ra, b2)" by fastforce
  note c = claim_port_claims [OF bsd_inv_mgr [OF b1(1)] cl]
  have b2: "bsd_inv b2" "pool_at fd (si_protocol i) (b_mgr b2)"
    using c b1 bsd_inv_set_mgr [OF b1(1), of "b_mgr b2"] pool_at_sockets [OF b1(2), of "b_mgr b2"] by auto
  show ?thesis
  proof (cases "r = None \<or> ra = None")
    case True
    then show ?thesis
      using b2(1) bsd_inv_set_mgr [OF assms(1) m(1)]
      by (cases r; cases ra) (simp_all add: bind_proxy_def cr cl Let_def m1_def [symmetric] b1_def [symmetric])
  next
    case False
    then obtain a' x where a': "ra = Some a'" "r = Some x" by auto
    have b3: "bsd_inv (snd (bind_socket fd a' b2))" by (rule bind_claimed_inv [OF b2]) (use c a' in blast)
    obtain res b3' where bs: "bind_socket fd a' b2 = (res, b3')" by fastforce
    have mk: "bsd_inv (mark_proxy fd b3')" using b3 bs table_inv(1) by fastforce
    define fin where "fin = (if GetPort a' = 30000 then browse_bound e (session_mode (GetPort a') svc) (mark_proxy fd b3')
        else (session_mode (GetPort a') svc, mark_proxy fd b3'))"
    have "bsd_inv (snd fin)" using mk by (simp add: fin_def browse_bound_inv)
    then have "bsd_inv ((snd fin)\<lparr>b_mgr := DeliverPendingPackets (b_netmap (snd fin)) (Some fd) (GetPort a') (si_protocol i) (b_mgr (snd fin))\<rparr>)"
      using bsd_inv_set_mgr bsd_inv_mgr mgr_inv_Deliver by blast
    then show ?thesis
      using b3 by (cases res) (simp_all add: bind_proxy_def cr cl a' bs b1_def [symmetric] m1_def [symmetric]
          fin_def [symmetric] Let_def split_beta)
  qed
qed

lemma auto_bind_port: "GetPort (auto_bind_addr eph b) = eph"
  by (simp add: auto_bind_addr_def GetPort_def SetAddr_def)

text \<open>Creating a socket and binding it to an ephemeral port, as \<^verbatim>\<open>Connect\<close> and \<^verbatim>\<open>SendTo\<close> do.\<close>

lemma create_alloc_inv:
  assumes "bsd_inv b" and "pool_at fd (si_protocol i) (b_mgr b)"
    and "CreateProxySocket fd (si_type i) (si_protocol i) (b_mgr b) = (r, m)"
    and "mgr_AllocatePort (si_protocol i) m = (eph, m1)" and "b1 = b\<lparr>b_mgr := m1\<rparr>"
  shows "bsd_inv (b\<lparr>b_mgr := m\<rparr>) \<and> bsd_inv b1 \<and>
     (eph \<noteq> 0 \<longrightarrow> bsd_inv (snd (bind_socket fd (auto_bind_addr eph b1) b1)))"
proof -
  have m: "mgr_inv m" "pool_at fd (si_protocol i) m" using create_and_mark_inv [OF assms(1-3)] by auto
  note a = AllocatePort_claims [OF m(1) assms(4)]
  have b1: "bsd_inv b1" "pool_at fd (si_protocol i) (b_mgr b1)"
    using a m(2) assms(1) by (auto simp: assms(5) bsd_inv_def pool_at_def GetProxySocket_def)
  have "bsd_inv (snd (bind_socket fd (auto_bind_addr eph b1) b1))" if "eph \<noteq> 0"
    by (rule bind_claimed_inv [OF b1]) (use a that in \<open>simp add: auto_bind_port assms(5)\<close>)
  then show ?thesis using b1 bsd_inv_set_mgr [OF assms(1) m(1)] by blast
qed

lemma new_socket_bind_ok:
  assumes "GetProxySocket fd (b_mgr b) = None" and "CreateProxySocket fd ty pr (b_mgr b) = (Some x, m)"
    and "m_sockets m1 = m_sockets m" and "b1 = b\<lparr>b_mgr := m1\<rparr>"
  shows "fst (bind_socket fd (auto_bind_addr eph b1) b1) = Inr ()"
proof -
  have "GetProxySocket fd (b_mgr b1) = Some (new_ProxySocket ty pr)"
    using assms by (auto simp: GetProxySocket_def CreateProxySocket_def map_add_def split: if_splits)
  then show ?thesis
    by (simp add: bind_socket_def sock_Bind_def new_ProxySocket_def auto_bind_addr_def SetAddr_def inet_any_def zero_SockAddrIn_def)
qed

lemma CreateProxySocket_new: "CreateProxySocket fd ty pr m = (r, m') \<Longrightarrow> r = None \<Longrightarrow> m' = m"
  by (auto simp: CreateProxySocket_def split: if_splits)

lemma connect_socket_inv:
  assumes "bsd_inv b" and "pool_at fd (si_protocol i) (b_mgr b)"
  shows "bsd_inv (snd (connect_socket fd i b))"
proof (cases "GetProxySocket fd (b_mgr b)")
  case None
  obtain r m where cr: "CreateProxySocket fd (si_type i) (si_protocol i) (b_mgr b) = (r, m)" by fastforce
  obtain eph m1 where al: "mgr_AllocatePort (si_protocol i) m = (eph, m1)" by fastforce
  define b1 where "b1 = b\<lparr>b_mgr := m1\<rparr>"
  note c = create_alloc_inv [OF assms cr al b1_def]
  obtain res b2 where bs: "bind_socket fd (auto_bind_addr eph b1) b1 = (res, b2)" by fastforce
  have socks: "m_sockets m1 = m_sockets m" using al by (auto simp: mgr_AllocatePort_def split_beta Let_def)
  have "res = Inr ()" if "r = Some x" for x
    using new_socket_bind_ok [OF None cr [unfolded that] socks b1_def, of eph] bs by simp
  then show ?thesis
    using None c bs by (cases r) (simp_all add: connect_socket_def cr al b1_def [symmetric])
qed (use assms in \<open>simp add: connect_socket_def\<close>)

lemma connect_proxy_inv:
  assumes "bsd_inv b" and "pool_at fd (si_protocol i) (b_mgr b)" and "wait_ok (be_wait e)"
  shows "bsd_inv (snd (connect_proxy e fd a i b))"
proof -
  obtain r b1 where c: "connect_socket fd i b = (r, b1)" by fastforce
  have b1: "bsd_inv b1" using connect_socket_inv [OF assms(1,2)] c by (metis snd_conv)
  show ?thesis
  proof (cases "r = None \<and> GetProxySocket fd (b_mgr b1) \<noteq> None")
    case True
    then obtain s where s: "r = None" "GetProxySocket fd (b_mgr b1) = Some s" by auto
    obtain res s' w where cn: "sock_Connect (SendProxyConnect (b_mgr b1)) (be_wait e) a s (b_world b1) = ((res, s'), w)"
      by (metis prod.exhaust)
    have "bsd_inv (b1\<lparr>b_mgr := on_socket fd (\<lambda>_. s') (b_mgr b1)\<rparr>)"
      using Connect_keeps [OF assms(3), of s "SendProxyConnect (b_mgr b1)" a "b_world b1"] cn
      by (intro set_socket_inv [OF b1 s(2)]) simp
    then have "bsd_inv (b1\<lparr>b_mgr := on_socket fd (\<lambda>_. s') (b_mgr b1), b_world := w\<rparr>)" by (simp add: bsd_inv_def)
    then show ?thesis by (cases res) (simp_all add: connect_proxy_def c s cn table_inv)
  next
    case False
    then show ?thesis using b1 by (cases r) (auto simp: connect_proxy_def c)
  qed
qed

lemma sendto_create_inv:
  assumes "bsd_inv b" and "pool_at fd (si_protocol i) (b_mgr b)"
  shows "bsd_inv (snd (sendto_create fd i b))"
proof (cases "GetProxySocket fd (b_mgr b)")
  case None
  obtain r m where cr: "CreateProxySocket fd (si_type i) (si_protocol i) (b_mgr b) = (r, m)" by fastforce
  obtain eph m1 where al: "mgr_AllocatePort (si_protocol i) m = (eph, m1)" by fastforce
  define b1 where "b1 = b\<lparr>b_mgr := m1\<rparr>"
  note c = create_alloc_inv [OF assms cr al b1_def]
  obtain res b2 where bs: "bind_socket fd (auto_bind_addr eph b1) b1 = (res, b2)" by fastforce
  show ?thesis
    using None c bs by (cases r; cases res) (simp_all add: sendto_create_def cr al b1_def [symmetric])
qed (use assms in \<open>simp add: sendto_create_def\<close>)

lemma sendto_promote_inv:
  assumes "bsd_inv b" and "consistent b"
  shows "bsd_inv (snd (sendto_promote fd lan b))"
proof (cases "info_of fd b")
  case (Some i)
  obtain r b1 where c: "sendto_create fd i b = (r, b1)" by fastforce
  have "bsd_inv b1" using sendto_create_inv [OF assms(1) consistent_pool_at [OF assms(2) Some]] c by (metis snd_conv)
  then show ?thesis using assms(1) by (cases r) (simp_all add: sendto_promote_def Some c table_inv)
qed (use assms in \<open>simp add: sendto_promote_def\<close>)

lemma sendto_proxy_inv [simp]: "bsd_inv (snd (sendto_proxy fd data addr b)) = bsd_inv b"
  by (simp add: sendto_proxy_def split_beta Let_def split: option.split)

lemma send_on_inv [simp]: "bsd_inv (snd (send_on fd s data b)) = bsd_inv b"
  by (simp add: send_on_def split_beta Let_def)

lemma recv_on_inv:
  assumes "bsd_inv b" and "GetProxySocket fd (b_mgr b) = Some s" and "wait_ok (be_wait e)"
  shows "bsd_inv (snd (recv_on e fd flags n s b))"
  using set_socket_inv [OF assms(1,2)] Recv_keeps [OF assms(3), of s "0 < n" n "of_int flags"]
  by (simp add: recv_on_def split_beta Let_def)

section \<open>Every command keeps the invariant\<close>

lemma plain_commands_inv:
  assumes "bsd_inv b"
  shows "bsd_inv (snd (snd (StartMonitoring e pid svc b)))" "bsd_inv (snd (snd (bsd_Open e path svc b)))"
    "bsd_inv (snd (snd (Sysctl e name old_in old_size new_val svc b)))"
    "bsd_inv (snd (snd (Listen e fd backlog svc b)))" "bsd_inv (snd (snd (Shutdown e fd how svc b)))"
    "bsd_inv (snd (snd (ShutdownAllSockets e pid how svc b)))" "bsd_inv (snd (snd (EventFd e initval flags svc b)))"
    "bsd_inv (snd (snd (GetResourceStatistics e n pid svc b)))"
    "bsd_inv (snd (snd (RegisterResourceStatisticsName e pid name svc b)))"
    "bsd_inv (snd (snd (RegisterClientShared e config tmem svc b)))"
    "bsd_inv (fst (snd (snd (RegisterClient e config tmem h svc b))))"
  using assms by (simp_all add: StartMonitoring_def bsd_Open_def Sysctl_def Listen_def Shutdown_def ShutdownAllSockets_def
      EventFd_def GetResourceStatistics_def RegisterResourceStatisticsName_def RegisterClientShared_def RegisterClient_def
      split_beta Let_def)

lemma lookup_commands_inv:
  assumes "bsd_inv b"
  shows "bsd_inv (snd (snd (RecvMMsg e fd vlen flags timeout n svc b)))" "bsd_inv (snd (snd (SendMMsg e fd vlen flags data svc b)))"
    "bsd_inv (snd (snd (GetPeerName e fd n svc b)))" "bsd_inv (snd (snd (GetSockName e fd n svc b)))"
    "bsd_inv (snd (snd (Ioctl e fd request cnt buf n svc b)))" "bsd_inv (snd (snd (GetSockOpt e fd level optname n svc b)))"
    "bsd_inv (snd (snd (Send e fd flags data svc b)))" "bsd_inv (snd (snd (Write e fd data svc b)))"
  using assms by (simp_all add: RecvMMsg_def SendMMsg_def GetPeerName_def GetSockName_def Ioctl_def GetSockOpt_def
      Send_def Write_def split_beta Let_def split: option.split sum.split)

lemma wait_commands_inv:
  assumes "bsd_inv b"
  shows "bsd_inv (snd (snd (Select e nfds q to nr nw ne svc b)))" "bsd_inv (snd (snd (Poll e fds out0 nfds ms svc b)))"
  using assms by (simp_all only: Select_def Poll_def Let_def split_beta if_distrib [of snd] if_distrib [of bsd_inv] snd_conv
      serviceMitmDispatch_inv if_cancel)

lemma table_commands_inv:
  assumes "bsd_inv b"
  shows "bsd_inv (snd (snd (create_socket cmd e d t p svc b)))" "bsd_inv (snd (snd (Accept e fd n svc b)))"
    "bsd_inv (snd (snd (DuplicateSocket e fd pid svc b)))" "bsd_inv (snd (snd (fcntl_forward e fd cmd' arg svc b)))"
  using assms table_inv [of "snd (serviceMitmDispatch e cmd [d, t, p] [] [] b)"]
    table_inv(2) [of "snd (serviceMitmDispatch e 12 [fd] [] [n] b)"]
    table_inv(2) [of "snd (serviceMitmDispatch e 27 [fd, 0, uint pid] [] [] b)"]
    table_inv(2) [of "snd (serviceMitmDispatch e 20 [fd, cmd', arg] [] [] b)"]
  by (simp_all add: create_socket_def Accept_def DuplicateSocket_def fcntl_forward_def split_beta Let_def)

lemma Close_inv: "bsd_inv b \<Longrightarrow> bsd_inv (snd (snd (Close e fd svc b)))"
  by (simp add: Close_def split_beta Let_def forget_fd_inv)

lemma Fcntl_inv:
  assumes "bsd_inv b" shows "bsd_inv (snd (snd (Fcntl e fd cmd arg svc b)))"
proof (cases "GetProxySocket fd (b_mgr b)")
  case (Some s)
  have "mgr_inv (on_socket fd (SetNonBlocking v) (b_mgr b))" for v
    by (rule mgr_inv_on_socket [OF bsd_inv_mgr [OF assms]]) (auto simp: SetNonBlocking_def intro: sock_wf_misc [unfolded SetNonBlocking_def])
  with Some assms show ?thesis by (simp add: Fcntl_def bsd_inv_set_mgr table_commands_inv)
qed (use assms in \<open>simp add: Fcntl_def table_commands_inv\<close>)

lemma SetSockOpt_inv:
  assumes "bsd_inv b" shows "bsd_inv (snd (snd (SetSockOpt e fd level optname v svc b)))"
proof (cases "GetProxySocket fd (b_mgr b)")
  case (Some s)
  with assms set_socket_inv [OF assms Some SetSockOpt_keeps] show ?thesis
    by (simp add: SetSockOpt_def split_beta Let_def)
qed (use assms in \<open>simp add: SetSockOpt_def table_inv\<close>)

lemma receive_commands_inv:
  assumes "bsd_inv b" and "wait_ok (be_wait e)"
  shows "bsd_inv (snd (snd (Recv e fd flags n svc b)))" "bsd_inv (snd (snd (Read e fd n svc b)))"
    "bsd_inv (snd (snd (RecvFrom e fd flags n na svc b)))"
  using assms recv_on_inv [OF assms(1) _ assms(2)] set_socket_inv [OF assms(1), of fd] RecvFrom_keeps [OF assms(2)]
  by (simp_all add: Recv_def Read_def RecvFrom_def split_beta Let_def split: option.split)

lemma Bind_inv:
  assumes "bsd_inv b" and "consistent b" shows "bsd_inv (snd (snd (Bind e fd addr svc b)))"
  using assms bind_proxy_inv [OF assms(1) consistent_pool_at [OF assms(2)]]
  by (simp add: Bind_def split_beta Let_def split: option.split)

lemma Connect_inv:
  assumes "bsd_inv b" and "consistent b" and "wait_ok (be_wait e)" shows "bsd_inv (snd (snd (Connect e fd addr svc b)))"
  using assms connect_proxy_inv [OF assms(1) consistent_pool_at [OF assms(2)] assms(3)]
  by (simp add: Connect_def split_beta Let_def split: option.split)

lemma SendTo_inv:
  assumes "bsd_inv b" and "consistent b" shows "bsd_inv (snd (snd (SendTo e fd flags data addr svc b)))"
proof -
  obtain r b1 where p: "sendto_promote fd (lan_dest_in addr) b = (r, b1)" by fastforce
  have "bsd_inv b1" using sendto_promote_inv [OF assms, of fd "lan_dest_in addr"] p by simp
  then show ?thesis using assms(1) by (cases r) (simp_all add: SendTo_def p split_beta Let_def)
qed

lemmas command_inv = plain_commands_inv lookup_commands_inv wait_commands_inv table_commands_inv Close_inv Fcntl_inv SetSockOpt_inv
  receive_commands_inv Bind_inv Connect_inv SendTo_inv

lemma bsd_exec_inv:
  assumes "bsd_inv b" and "consistent b" and "wait_ok (be_wait e)"
  shows "bsd_inv (snd (snd (bsd_exec e c svc b)))"
  using assms by (cases c) (simp_all add: command_inv Socket_def SocketExempt_def split_beta Let_def)

section \<open>Runs\<close>

text \<open>What happens to the socket service: a command of some session, a session that is opened or destroyed,
  and traffic the tunnel delivers.\<close>

datatype (plugins only: code) 'w bsd_event =
    Ev_Call "'w bsd_env" bsd_call BsdMitmService
  | Ev_Open u64
  | Ev_Delete nifm_answers BsdMitmService
  | Ev_Data "u32 \<Rightarrow> bool" u32 u16 u32 u16 ProtocolType bytes
  | Ev_Response ProxyConnectInfo
  | Ev_Request ProxyConnectInfo
  | Ev_Callbacks "'w data_call option" "'w connect_call option" "'w connect_call option" "'w connect_call option"
  | Ev_LocalIp u32
  | Ev_Others LdnControl 'w

fun bsd_step :: "'w bsd_event \<Rightarrow> 'w bsd \<Rightarrow> 'w bsd" where
  "bsd_step (Ev_Call e c svc) b = snd (snd (bsd_exec e c svc b))"
| "bsd_step (Ev_Open pid) b = snd (BsdMitmService_new pid b)"
| "bsd_step (Ev_Delete na svc) b = BsdMitmService_delete na svc b"
| "bsd_step (Ev_Data known sip sport dip dport pr d) b =
     b\<lparr>b_mgr := snd (RouteIncomingData known (b_netmap b) sip sport dip dport pr (Some d) (length d) (b_mgr b))\<rparr>"
| "bsd_step (Ev_Response r) b = b\<lparr>b_mgr := snd (RouteConnectResponse r (b_mgr b))\<rparr>"
| "bsd_step (Ev_Request r) b =
     (let (_, m, w) = RouteConnectRequest r (b_mgr b) (b_world b) in b\<lparr>b_mgr := m, b_world := w\<rparr>)"
| "bsd_step (Ev_Callbacks send con reply disc) b =
     b\<lparr>b_mgr := SetProxyDisconnectCallback disc (SetProxyConnectReplyCallback reply (SetProxyConnectCallback con
       (SetSendCallback send (b_mgr b))))\<rparr>"
| "bsd_step (Ev_LocalIp ip) b = b\<lparr>b_mgr := SetLocalIp ip (b_mgr b)\<rparr>"
| "bsd_step (Ev_Others ctl w) b = b\<lparr>b_ldn := ctl, b_world := w\<rparr>"

text \<open>A command is issued while the tracking table and the registry agree on the protocol of every
  descriptor, and threads that run while it waits do not rebind the socket.\<close>

fun bsd_pre :: "'w bsd_event \<Rightarrow> 'w bsd \<Rightarrow> bool" where
  "bsd_pre (Ev_Call e c svc) b = (consistent b \<and> wait_ok (be_wait e))"
| "bsd_pre _ b = True"

lemma bsd_inv_frame [simp]:
  "bsd_inv (b\<lparr>g_abandoned_forward_services := xs\<rparr>) = bsd_inv b" "bsd_inv (b\<lparr>s_next_session_id := n\<rparr>) = bsd_inv b"
  by (simp_all add: bsd_inv_def)

lemma drop_live_inv [simp]: "bsd_inv (drop_live pid b) = bsd_inv b"
  by (auto simp: bsd_inv_def drop_live_def split: option.split)

lemma Exit_inv [simp]: "bsd_inv (ExitLocalNetworkModePublic na b) = bsd_inv b"
  by (simp add: bsd_inv_def ExitLocalNetworkModePublic_def split_beta Let_def)

lemma delete_inv:
  assumes "bsd_inv b" shows "bsd_inv (BsdMitmService_delete na svc b)"
proof -
  have "bsd_inv (b\<lparr>g_socket_info := filter P (g_socket_info b)\<rparr>)" for P
    using assms by (simp add: bsd_inv_def distinct_map_filter)
  from close_fds_inv [OF this] show ?thesis
    by (simp add: BsdMitmService_delete_def Let_def)
qed

lemma mgr_inv_fold_on_socket:
  assumes "mgr_inv m" and "\<And>s. sock_wf s \<Longrightarrow> sock_wf (f s)"
    and "\<And>s. m_local_addr (f s) = m_local_addr s \<and> m_protocol (f s) = m_protocol s"
  shows "mgr_inv (fold (\<lambda>fd. on_socket fd f) fds m)"
  using assms(1) by (induction fds arbitrary: m) (simp_all add: mgr_inv_on_socket assms(2,3))

lemma mgr_inv_RouteIncomingData:
  assumes "mgr_inv m" shows "mgr_inv (snd (RouteIncomingData known g sip sport dip dport pr d n m))"
proof -
  have "mgr_inv (buffer_pending sip sport dip dport pr d n m)"
  proof -
    have "ports_ok (buffer_pending sip sport dip dport pr d n m)"
      by (rule ports_ok_pool [of m]) (use assms in \<open>auto simp: mgr_inv_def buffer_pending_def Let_def\<close>)
    then show ?thesis using assms mgr_wf_buffer by (auto simp: mgr_inv_def)
  qed
  moreover have "mgr_inv (fold (\<lambda>fd. on_socket fd (sock_IncomingData d n a)) fds m)" for fds a
    by (rule mgr_inv_fold_on_socket [OF assms sock_wf_IncomingData]) (auto simp: sock_IncomingData_def Let_def)
  ultimately show ?thesis using assms by (simp add: RouteIncomingData_def Let_def)
qed

lemma mgr_inv_connect_routes:
  assumes "mgr_inv m"
  shows "mgr_inv (snd (RouteConnectResponse r m))" "mgr_inv (fst (snd (RouteConnectRequest r m w)))"
proof -
  have wf: "mgr_wf m" using assms by (simp add: mgr_inv_def)
  have ok: "ports_ok m" using assms by (simp add: mgr_inv_def)
  have "ports_ok (snd (RouteConnectResponse r m))"
    by (rule ports_ok_sim [OF ok]) (auto simp: RouteConnectResponse_def GetProxySocket_on_socket sock_HandleConnectResponse_def
        split: option.splits if_splits)
  then show "mgr_inv (snd (RouteConnectResponse r m))" using wf mgr_wf_RouteConnectResponse by (simp add: mgr_inv_def)
  have "ports_ok (fst (snd (RouteConnectRequest r m w)))"
  proof (cases "find (\<lambda>(_, s). request_matches r s) (m_sockets m)")
    case (Some p)
    obtain fd s where p: "p = (fd, s)" by (cases p)
    have "GetProxySocket fd m = Some s"
      using find_socket_lookup [of "m_sockets m" "request_matches r" fd s] Some p wf by (simp add: mgr_wf_def GetProxySocket_def)
    with Some p show ?thesis
      by (intro ports_ok_sim [OF ok]) (auto simp: RouteConnectRequest_def GetProxySocket_on_socket sock_IncomingConnection_def
          split_beta Let_def split: if_splits)
  qed (use ok in \<open>simp add: RouteConnectRequest_def\<close>)
  then show "mgr_inv (fst (snd (RouteConnectRequest r m w)))" using wf mgr_wf_RouteConnectRequest by (simp add: mgr_inv_def)
qed

lemma mgr_inv_setters:
  assumes "mgr_inv m"
  shows "mgr_inv (SetLocalIp ip m)" "mgr_inv (SetSendCallback cb m)" "mgr_inv (SetProxyConnectCallback ccb m)"
    "mgr_inv (SetProxyConnectReplyCallback ccb m)" "mgr_inv (SetProxyDisconnectCallback ccb m)"
proof -
  have "ports_ok m'" if "m_sockets m' = m_sockets m" "m_port_pool m' = m_port_pool m" for m' :: "'a ProxySocketManager"
    by (rule ports_ok_pool [of m]) (use assms that in \<open>simp_all add: mgr_inv_def\<close>)
  then show "mgr_inv (SetLocalIp ip m)" "mgr_inv (SetSendCallback cb m)" "mgr_inv (SetProxyConnectCallback ccb m)"
    "mgr_inv (SetProxyConnectReplyCallback ccb m)" "mgr_inv (SetProxyDisconnectCallback ccb m)"
    using assms mgr_wf_setters [of m] by (simp_all add: mgr_inv_def) (simp_all add: setter_defs)
qed

lemma wiring_inv:
  assumes "bsd_inv b"
  shows "bsd_inv (bsd_step (Ev_Callbacks send con reply disc) b)" "bsd_inv (bsd_step (Ev_LocalIp ip) b)"
    "bsd_inv (bsd_step (Ev_Others ctl w) b)"
  using assms by (auto simp: bsd_inv_def intro!: mgr_inv_setters)

interpretation bsd: invariant_system bsd_pre bsd_step bsd_inv
proof
  fix b :: "'w bsd" and ev
  assume i: "bsd_inv b" and "bsd_pre ev b"
  then show "bsd_inv (bsd_step ev b)"
  proof (cases ev)
    case (Ev_Callbacks send con reply disc)
    then show ?thesis using wiring_inv(1) [OF i] by simp
  next
    case (Ev_LocalIp ip)
    then show ?thesis using wiring_inv(2) [OF i] by simp
  next
    case (Ev_Others ctl w)
    then show ?thesis using wiring_inv(3) [OF i] by simp
  qed (simp_all add: bsd_exec_inv delete_inv BsdMitmService_new_def mgr_inv_RouteIncomingData
        mgr_inv_connect_routes bsd_inv_mgr bsd_inv_set_mgr Let_def split_beta)
qed

lemma new_bsd_inv: "bsd_inv (new_bsd new_manager ctl w)"
proof -
  have "ports_ok (new_manager :: 'w ProxySocketManager)"
    by (rule ports_okI) (simp_all add: new_manager_def GetProxySocket_def)
  then show ?thesis
    using mgr_wf_new by (simp add: bsd_inv_def new_bsd_def mgr_inv_def HasRealAddress_def netmap_init_def)
qed

end
