(* ===== verification/Ldn_Session.thy ===== *)
theory Ldn_Session
  imports Ldn_Control
begin

text \<open>
  The behaviour of the LDN control plane of \<^verbatim>\<open>ldn/ldn_control.cpp\<close> over whole exchanges: who may speak in
  a session, the admission of a station, the complete join conversation of two consoles, leaving, the
  reaping of silent peers by \<^verbatim>\<open>Tick\<close>, and what \<^verbatim>\<open>Scan\<close> and \<^verbatim>\<open>Connect\<close> return.
\<close>

section \<open>A console that hosts\<close>

text \<open>The shortest way into the hosting and into the station state; the properties below are applied
  to these states.\<close>

definition nifm_ok :: nifm_answers where
  "nifm_ok = \<lparr>na_get_profile = Inr 1400, na_set_profile = None, na_create = None, na_set_mode = None, na_submit = None\<rparr>"

definition host_console :: "string \<Rightarrow> CreateNetworkConfig \<Rightarrow> LdnControl" where
  "host_console vip cfg = fst (snd (CreateNetwork True 1 2 (replicate 16 0) cfg
     (fst (snd (OpenAccessPoint nifm_ok (fst (snd (ldn_Initialize vip nifm_ok new_LdnControl))))))))"

definition station_console :: "string \<Rightarrow> LdnControl" where
  "station_console vip = fst (snd (OpenStation nifm_ok (fst (snd (ldn_Initialize vip nifm_ok new_LdnControl)))))"

definition sample_config :: CreateNetworkConfig where
  "sample_config = \<lparr>cn_securityMode = 1, cn_userName = [72], cn_networkConfig = zero_NetworkConfig\<lparr>nc_lcid := 5\<rparr>\<rparr>"

definition sample_filter :: ScanFilter where
  "sample_filter = \<lparr>sf_networkId = networkId zero_NetworkInfo, sf_networkType = 0, sf_ssid_length = 0,
     sf_ssid_raw = replicate 33 0, sf_flag = 0\<rparr>"

definition sample_join :: ConnectNetworkData where
  "sample_join = \<lparr>cd_userName = [74], cd_localCommunicationVersion = 1\<rparr>"

lemma SetState_fields [simp]:
  "m_state (SetState st c) = st" "m_stations (SetState st c) = m_stations c"
  "m_ipv4_address (SetState st c) = m_ipv4_address c" "m_network_info (SetState st c) = m_network_info c"
  "m_relay_sync_seq_valid (SetState st c) = m_relay_sync_seq_valid c" "m_join_active (SetState st c) = m_join_active c"
  "m_disconnect_reason (SetState st c) = m_disconnect_reason c" "m_last_beacon (SetState st c) = m_last_beacon c"
  "m_scan_results (SetState st c) = m_scan_results c" "m_recent_scanners (SetState st c) = m_recent_scanners c"
  by (simp_all add: SetState_def SignalStateChange_def)

lemma ResetStations_fields [simp]:
  "m_state (ResetStations c) = m_state c" "m_ipv4_address (ResetStations c) = m_ipv4_address c"
  "m_network_info (ResetStations c) = m_network_info c"
  "m_relay_sync_seq_valid (ResetStations c) = m_relay_sync_seq_valid c"
  "m_join_active (ResetStations c) = m_join_active c" "m_last_beacon (ResetStations c) = m_last_beacon c"
  "m_local_network_mode (ResetStations c) = m_local_network_mode c"
  by (simp_all add: ResetStations_def)

lemma InitNodeStateChange_fields [simp]:
  "m_state (InitNodeStateChange c) = m_state c" "m_ipv4_address (InitNodeStateChange c) = m_ipv4_address c"
  "m_network_info (InitNodeStateChange c) = m_network_info c" "m_stations (InitNodeStateChange c) = m_stations c"
  "m_relay_sync_seq_valid (InitNodeStateChange c) = m_relay_sync_seq_valid c"
  "m_join_active (InitNodeStateChange c) = m_join_active c"
  "m_local_network_mode (InitNodeStateChange c) = m_local_network_mode c"
  by (simp_all add: InitNodeStateChange_def)

lemmas console_defs = exit_if_entered_def enter_if_needed_def EnterLocalNetworkMode_def nifm_ok_def ldn_Initialize_def
  OpenAccessPoint_def OpenStation_def CreateNetwork_def Let_def split_beta

lemma host_console_run: "ldn_run (host_console vip sample_config)"
  unfolding host_console_def
  by (intro ldn_run.create ldn_run.open_ap ldn_run.initialize ldn_run.start)
    (simp_all add: sample_config_def zero_NetworkConfig_def)

lemma station_console_run: "ldn_run (station_console vip)"
  unfolding station_console_def by (intro ldn_run.open_sta ldn_run.initialize ldn_run.start)

lemma Initialize_new:
  "fst (snd (ldn_Initialize vip nifm_ok new_LdnControl)) =
     SetState CS_Initialized ((InitNodeStateChange (ResetStations (new_LdnControl\<lparr>m_ipv4_address :=
       (if ParseIp vip = 0 then 0x0A0D2502 else ParseIp vip)\<rparr>)))\<lparr>m_state_event := False\<rparr>)"
  by (simp add: console_defs new_LdnControl_def)

lemma OpenAccessPoint_state: "m_state c \<noteq> CS_None \<Longrightarrow> m_state (fst (snd (OpenAccessPoint na c))) = CS_AccessPoint"
  by (simp add: OpenAccessPoint_def Let_def split_beta)

lemma enter_fields [simp]:
  "m_ipv4_address (fst (enter_if_needed na c)) = m_ipv4_address c"
  "m_relay_sync_seq_valid (fst (enter_if_needed na c)) = m_relay_sync_seq_valid c"
  "m_stations (fst (enter_if_needed na c)) = m_stations c"
  by (auto simp: enter_if_needed_def EnterLocalNetworkMode_def Let_def split: sum.splits option.splits)

lemma CreateNetwork_state:
  assumes "m_state c = CS_AccessPoint"
  shows "m_state (fst (snd (CreateNetwork running h l r cfg c))) = CS_AccessPointCreated \<and>
    m_ipv4_address (fst (snd (CreateNetwork running h l r cfg c))) = m_ipv4_address c \<and>
    m_stations (fst (snd (CreateNetwork running h l r cfg c))) = m_stations (ResetStations c)"
  using assms by (simp add: CreateNetwork_def Let_def split_beta ResetStations_def)

lemma stations_reset:
  assumes "stations_wf (m_stations c)" and "s \<in> set (m_stations (ResetStations c))"
  shows "\<not> active s"
proof -
  have l: "length (m_stations c) = 8" "\<not> active (m_stations c ! 7)"
    using assms(1) by (simp_all add: stations_wf_def NodeCountMax_def)
  then have "drop 7 (m_stations c) = [m_stations c ! 7]"
    by (simp add: Cons_nth_drop_Suc [symmetric])
  with l assms(2) show ?thesis
    by (auto simp: ResetStations_def StationCountMax_def NodeCountMax_def reset_station_def)
qed

lemma host_console_facts:
  assumes "ParseIp vip \<noteq> 0"
  shows "m_state (host_console vip cfg) = CS_AccessPointCreated"
    "m_ipv4_address (host_console vip cfg) = ParseIp vip"
    "\<forall>s \<in> set (m_stations (host_console vip cfg)). \<not> active s"
proof -
  let ?i = "fst (snd (ldn_Initialize vip nifm_ok new_LdnControl))" and ?o = "\<lambda>c. fst (snd (OpenAccessPoint nifm_ok c))"
  have o: "m_state (?o ?i) = CS_AccessPoint" "m_ipv4_address (?o ?i) = ParseIp vip"
    using assms unfolding Initialize_new by (simp_all add: OpenAccessPoint_def Let_def split_beta)
  have "ldn_wf (?o ?i)" by (intro ldn_run_wf ldn_run.open_ap ldn_run.initialize ldn_run.start)
  with o show "m_state (host_console vip cfg) = CS_AccessPointCreated"
    "m_ipv4_address (host_console vip cfg) = ParseIp vip"
    "\<forall>s \<in> set (m_stations (host_console vip cfg)). \<not> active s"
    using CreateNetwork_state [OF o(1)] stations_reset unfolding host_console_def by (auto simp: ldn_wf_def)
qed

lemma station_console_facts:
  assumes "ParseIp vip \<noteq> 0"
  shows "m_state (station_console vip) = CS_Station" "m_ipv4_address (station_console vip) = ParseIp vip"
    "\<not> m_relay_sync_seq_valid (station_console vip)"
  using assms unfolding station_console_def Initialize_new
  by (simp_all add: OpenStation_def Let_def split_beta new_LdnControl_def)

lemma sample_ips: "ParseIp ''10.13.0.5'' = 0x0A0D0005" "ParseIp ''10.13.0.9'' = 0x0A0D0009"
  by code_simp+

section \<open>Admission\<close>

lemma find_index_update:
  "k < length xs \<Longrightarrow> P y = P (xs ! k) \<Longrightarrow> find_index P (xs[k := y]) i = find_index P xs i"
proof (induction xs arbitrary: k i)
  case (Cons x xs)
  then show ?case by (cases k) auto
qed simp

lemma admission_others:
  assumes "stations_wf (m_stations c)" and "connect_slot sip c = Some nid" and "ip \<noteq> sip"
    and "m_stations c' = (m_stations c)[nid - 1 := connect_station now sip nid node s]"
  shows "FindStationByIp ip c' = FindStationByIp ip c"
proof -
  let ?P = "\<lambda>s. active s \<and> src_ip s = ip" and ?ss = "take StationCountMax (m_stations c)"
  have l: "length (m_stations c) = 8" using assms(1) by (simp add: stations_wf_def NodeCountMax_def)
  have k: "nid - 1 < length ?ss"
    using connect_slot_free [OF assms(1,2)] l by (auto simp: StationCountMax_def NodeCountMax_def)
  have "\<not> ?P (?ss ! (nid - 1))"
  proof (cases "FindStationByIp sip c")
    case None
    with assms(2) have "FindFreeNodeId c = Some nid" by (auto simp: connect_slot_def split: if_splits)
    then show ?thesis using find_index_Some unfolding FindFreeNodeId_def by blast
  next
    case (Some m)
    with assms(2) have "find_index (\<lambda>s. active s \<and> src_ip s = sip) ?ss 1 = Some nid"
      by (simp add: connect_slot_def FindStationByIp_def)
    from find_index_Some [OF this] assms(3) show ?thesis by auto
  qed
  then show ?thesis
    using find_index_update [OF k, of ?P "connect_station now sip nid node s" 1] assms(3)
    by (simp add: FindStationByIp_def assms(4) take_update_swap connect_station_def)
qed

lemma HandleScan_fields:
  assumes "m_state c = CS_AccessPointCreated"
  shows "m_state (fst (HandleScan running now sip c)) = CS_AccessPointCreated"
    "m_stations (fst (HandleScan running now sip c)) = m_stations c"
    "m_ipv4_address (fst (HandleScan running now sip c)) = m_ipv4_address c"
    "m_network_info (fst (HandleScan running now sip c)) = m_network_info c"
    "m_recent_scanners (fst (HandleScan running now sip c)) = m_recent_scanners (RecordScanner now sip c)"
  using assms SendFrame_state [of running sip LanPacket_ScanResp "enc_NetworkInfo (BuildNetwork (RecordScanner now sip c))"
      "RecordScanner now sip c"]
  by (auto simp: HandleScan_def Let_def)

lemma WasRecentScanner_cong:
  "m_recent_scanners c = m_recent_scanners d \<Longrightarrow> WasRecentScanner now sip c = WasRecentScanner now sip d"
  by (simp add: WasRecentScanner_def)

lemma HandleScan_recent:
  assumes "ldn_wf c" and "m_state c = CS_AccessPointCreated" and "now - t \<le> ScannerTimeoutTicks"
  shows "WasRecentScanner now sip (fst (HandleScan running t sip c))"
  using RecordScanner_recent [OF _ assms(3), of c sip] assms(1)
    WasRecentScanner_cong [OF HandleScan_fields(5) [OF assms(2)]]
  by (simp add: ldn_wf_def buffers_wf_def)

lemma OnControlFrame_scan:
  "parse_frame p = Some (LanPacket_Scan, q, body) \<Longrightarrow> OnControlFrame running now sip p c = HandleScan running now sip c"
  by (simp add: OnControlFrame_def)

lemma ldn_run_scan: "ldn_run c \<Longrightarrow> ldn_run (fst (HandleScan running now sip c))"
  using ldn_run.frame [of c running now sip "build_frame 1 LanPacket_Scan []"]
    OnControlFrame_scan [OF parse_build, of "[]"] by simp

lemma connect_slot_None:
  assumes "stations_wf (m_stations c)"
  shows "connect_slot sip c = None \<longleftrightarrow> FindStationByIp sip c = None \<and> StationCount c \<ge> StationCountMax"
  using FindFree_room [OF assms] by (auto simp: connect_slot_def not_le split: option.splits if_splits)

section \<open>The join conversation\<close>

definition dg_payload :: "datagram \<Rightarrow> bytes" where
  "dg_payload d = (case d of (_, _, _, _, _, p) \<Rightarrow> p)"

lemma SendFrame_payload:
  assumes "length body \<le> sizeof_NetworkInfo"
  shows "\<exists>q. SendFrame True dst ty body c = (c\<lparr>m_tx_seq := q\<rparr>,
     [(m_ipv4_address c, ControlPort, dst, ControlPort, Proto_Udp, build_frame q ty body)]) \<and>
     parse_frame (build_frame q ty body) = Some (ty, q, body)"
  using parse_build [OF assms] by (auto simp: SendFrame_def Let_def)

lemma my_node_ok: "NodeInfo_ok (my_node dat c)"
  using zero_NodeInfo_ok by (simp add: NodeInfo_ok_def my_node_def UserNameBytesMax_def)

lemma dispatch:
  "parse_frame p = Some (LanPacket_ScanResp, q, body) \<Longrightarrow>
     OnControlFrame running now sip p c = (HandleScanResp sip body c, [])"
  "parse_frame p = Some (LanPacket_Connect, q, body) \<Longrightarrow>
     OnControlFrame running now sip p c = HandleConnect running now sip body c"
  "parse_frame p = Some (LanPacket_RelayBye, q, body) \<Longrightarrow>
     OnControlFrame running now sip p c = HandleRelayBye running sip body c"
  "parse_frame p = Some (LanPacket_RelayHeartbeat, q, body) \<Longrightarrow>
     OnControlFrame running now sip p c = (HandleRelayHeartbeat now sip body c, [])"
  by (simp_all add: OnControlFrame_def LanPacket_Scan_def LanPacket_ScanResp_def LanPacket_Connect_def
      LanPacket_SyncNetwork_def LanPacket_RelayBye_def LanPacket_RelayHeartbeat_def)

lemma BuildNetwork_facts:
  assumes "ldn_wf c"
  shows "NetworkInfo_ok (BuildNetwork c)" "nodeCount (ldn (BuildNetwork c)) \<noteq> 0"
    "ipv4Address (nodes (ldn (BuildNetwork c)) ! 0) = m_ipv4_address c"
    "common (BuildNetwork c) = common (m_network_info c)" "networkId (BuildNetwork c) = networkId (m_network_info c)"
proof -
  have sw: "stations_wf (m_stations c)" "buffers_wf c" using assms by (simp_all add: ldn_wf_def)
  show "NetworkInfo_ok (BuildNetwork c)" by (rule NetworkInfo_ok_Build [OF sw])
  have small: "unat (of_nat n :: u8) = n" if "n \<le> 8" for n
    using that by (simp add: unat_of_nat take_bit_nat_eq_self)
  have "length (used_nodes c) \<noteq> 0" using length_used [OF sw(1)] by simp
  then have "(of_nat (length (used_nodes c)) :: u8) \<noteq> 0"
    using small [of "length (used_nodes c)"] length_used_le [OF sw(1)] by (metis NodeCountMax_def unat_0)
  then show "nodeCount (ldn (BuildNetwork c)) \<noteq> 0" by (simp add: BuildNetwork_used)
qed (simp_all add: BuildNetwork_used used_nodes_def host_node_def)

lemma Build_used_cong:
  assumes "used_nodes c' = used_nodes c" "m_network_info c' = m_network_info c" "m_advertise_size c' = m_advertise_size c"
    "m_advertise_data c' = m_advertise_data c"
  shows "BuildNetwork c' = BuildNetwork c"
  using assms by (simp add: BuildNetwork_used)

lemma Build_cong:
  assumes "m_network_info c' = m_network_info c" "m_stations c' = m_stations c" "m_advertise_size c' = m_advertise_size c"
    "m_advertise_data c' = m_advertise_data c" "m_ipv4_address c' = m_ipv4_address c" "m_self_name c' = m_self_name c"
    "m_network_config c' = m_network_config c"
  shows "BuildNetwork c' = BuildNetwork c"
  using assms by (intro Build_used_cong used_nodes_cong)

lemma HandleScanResp_first:
  assumes "NetworkInfo_ok info" and "m_scan_results c = []" and "sip \<noteq> m_ipv4_address c"
    and "m_scan_filter_lcid c = 0 \<or> m_scan_filter_lcid c = localCommunicationId (networkId info)"
  shows "HandleScanResp sip (enc_NetworkInfo info) c = c\<lparr>m_scan_results := [info]\<rparr>"
  using assms by (auto simp: HandleScanResp_def Let_def info.enc_length info.dec_enc_Nil sizeof_NetworkInfo_def MaxScanResults_def)

text \<open>An answer in the first round of \<^verbatim>\<open>Scan\<close> ends it in the third.\<close>

lemma scan_loop_answered:
  assumes "env 0 c = c1" "env 1 c1 = c1" "env 2 c1 = c1" "length (m_scan_results c1) = 1"
  shows "scan_loop running env 0 0 0 c = (c1, [])"
proof -
  have ne: "m_scan_results c1 \<noteq> []" using assms(4) by auto
  have 2: "scan_loop running env 2 1 1 c1 = (c1, [])" by (subst scan_loop.simps) (use assms ne in simp)
  have 1: "scan_loop running env 1 1 0 c1 = (c1, [])"
    by (subst scan_loop.simps) (use assms ne 2 in \<open>simp add: numeral_2_eq_2\<close>)
  show ?thesis by (subst scan_loop.simps) (use assms 1 in simp)
qed

text \<open>\<^verbatim>\<open>Scan\<close> on a station \<open>s\<close> when its first broadcast \<open>q\<close> reaches the host \<open>h\<close> and the host's answer \<open>r\<close> arrives in the
  first round.\<close>

lemma Scan_answered:
  assumes "ldn_run h" and "m_state h = CS_AccessPointCreated" and "m_state s = CS_Station" and "m_ipv4_address s \<noteq> m_ipv4_address h"
    and "scan_match f (BuildNetwork h)"
    and "ldn_Scan True (\<lambda>i c. if i = 0 then fst (OnControlFrame True t (m_ipv4_address h) (dg_payload r) c) else c) f cap s =
      ((rc, found), s1, q # qs)"
    and "OnControlFrame True t (m_ipv4_address s) (dg_payload q) h = (h1, r # rs)"
  shows "rc = None \<and> found = take cap [BuildNetwork h] \<and> h1 = fst (HandleScan True t (m_ipv4_address s) h) \<and>
     m_state s1 = CS_Station \<and> m_ipv4_address s1 = m_ipv4_address s \<and> m_relay_sync_seq_valid s1 = m_relay_sync_seq_valid s"
proof -
  let ?ip = "m_ipv4_address s" and ?c1 = "scan_begin f s" and ?h = "RecordScanner t (m_ipv4_address s) h"
  let ?env = "\<lambda>(i::nat) c. if i = 0 then fst (OnControlFrame True t (m_ipv4_address h) (dg_payload r) c) else c"
  have "ldn_wf ?h" by (rule ldn_wf_RecordScanner [OF ldn_run_wf [OF assms(1)]])
  moreover have info: "BuildNetwork ?h = BuildNetwork h"
    by (rule Build_cong) (auto simp: RecordScanner_def Let_def split: option.splits)
  ultimately have b: "NetworkInfo_ok (BuildNetwork h)" using BuildNetwork_facts(1) by metis
  obtain k where k: "SendFrame True (SubnetBroadcast ?c1) LanPacket_Scan [] ?c1 = (?c1\<lparr>m_tx_seq := k\<rparr>,
      [(m_ipv4_address ?c1, ControlPort, SubnetBroadcast ?c1, ControlPort, Proto_Udp, build_frame k LanPacket_Scan [])])"
      "parse_frame (build_frame k LanPacket_Scan []) = Some (LanPacket_Scan, k, [])"
    using SendFrame_payload [of "[]" "SubnetBroadcast ?c1" LanPacket_Scan ?c1] by auto
  define c2 where "c2 = ?c1\<lparr>m_tx_seq := k\<rparr>"
  have c2: "m_scan_results c2 = []" "m_ipv4_address c2 = ?ip" "m_scan_filter_lcid c2 = 0 \<or>
      m_scan_filter_lcid c2 = localCommunicationId (networkId (BuildNetwork h))" "m_state c2 = CS_Station"
      "m_relay_sync_seq_valid c2 = m_relay_sync_seq_valid s"
    using assms(3,5) by (auto simp: c2_def scan_begin_def scan_match_def)
  have scan: "ldn_Scan True ?env f cap s = ((None, take cap (filter (scan_match f) (m_scan_results (fst (scan_loop True ?env 0 0 0 c2))))),
      fst (scan_loop True ?env 0 0 0 c2), (m_ipv4_address ?c1, ControlPort, SubnetBroadcast ?c1, ControlPort, Proto_Udp,
        build_frame k LanPacket_Scan []) # snd (scan_loop True ?env 0 0 0 c2))"
    using assms(3) by (simp add: ldn_Scan_def Let_def k(1) split_beta c2_def)
  then have q: "dg_payload q = build_frame k LanPacket_Scan []" using assms(6) by (simp add: dg_payload_def)
  obtain m where m: "SendFrame True ?ip LanPacket_ScanResp (enc_NetworkInfo (BuildNetwork h)) ?h = (?h\<lparr>m_tx_seq := m\<rparr>,
      [(m_ipv4_address ?h, ControlPort, ?ip, ControlPort, Proto_Udp, build_frame m LanPacket_ScanResp (enc_NetworkInfo (BuildNetwork h)))])"
      "parse_frame (build_frame m LanPacket_ScanResp (enc_NetworkInfo (BuildNetwork h))) =
         Some (LanPacket_ScanResp, m, enc_NetworkInfo (BuildNetwork h))"
    using SendFrame_payload [of "enc_NetworkInfo (BuildNetwork h)" ?ip LanPacket_ScanResp ?h] b
    by (auto simp: info.enc_length sizeof_NetworkInfo_def)
  have hs: "HandleScan True t ?ip h = SendFrame True ?ip LanPacket_ScanResp (enc_NetworkInfo (BuildNetwork h)) ?h"
    using assms(2) by (simp add: HandleScan_def Let_def info)
  have h1: "HandleScan True t ?ip h = (h1, r # rs)" using assms(7) OnControlFrame_scan [OF k(2)] by (simp add: q)
  then have "dg_payload r = build_frame m LanPacket_ScanResp (enc_NetworkInfo (BuildNetwork h))"
    using hs m(1) by (auto simp: dg_payload_def)
  then have "?env 0 c2 = HandleScanResp (m_ipv4_address h) (enc_NetworkInfo (BuildNetwork h)) c2"
    using dispatch(1) [OF m(2)] by simp
  also have "\<dots> = c2\<lparr>m_scan_results := [BuildNetwork h]\<rparr>"
    using b c2 assms(4) by (intro HandleScanResp_first) auto
  finally have "scan_loop True ?env 0 0 0 c2 = (c2\<lparr>m_scan_results := [BuildNetwork h]\<rparr>, [])"
    by (intro scan_loop_answered) simp_all
  with scan assms(5,6) h1 c2 show ?thesis by auto
qed

lemma connect_poll_now:
  assumes "m_state c \<noteq> CS_StationConnected" and "m_state (env 0 c) = CS_StationConnected"
  shows "connect_poll running env host_ip my 0 c = (True, env 0 c, [])"
  using assms connect_poll.simps [of running env host_ip my 0 c] connect_poll.simps [of running env host_ip my 1 "env 0 c"]
  by simp

lemma ldn_Connect_now:
  assumes "m_state s = CS_Station" and "nodeCount (ldn info) \<noteq> 0"
    and "\<And>q. m_state (env 0 ((join_begin info s)\<lparr>m_tx_seq := q\<rparr>)) = CS_StationConnected"
  shows "\<exists>q ds. ldn_Connect True env dat info s = (None, env 0 ((join_begin info s)\<lparr>m_tx_seq := q\<rparr>), ds)"
proof -
  obtain q d where q: "SendFrame True (ipv4Address (nodes (ldn info) ! 0)) LanPacket_Connect
      (enc_NodeInfo (my_node dat (join_begin info s))) (join_begin info s) = ((join_begin info s)\<lparr>m_tx_seq := q\<rparr>, d)"
    using SendFrame_state by (metis prod.collapse)
  have "m_state ((join_begin info s)\<lparr>m_tx_seq := q\<rparr>) \<noteq> CS_StationConnected"
    using assms(1) by (simp add: join_begin_def)
  from connect_poll_now [of _ env, OF this assms(3) [of q]] show ?thesis
    using assms(1,2) q by (auto simp: ldn_Connect_def Let_def intro: exI [of _ q])
qed

text \<open>Nor does the first broadcast of \<^verbatim>\<open>Scan\<close>, which a host answers.\<close>

lemma Scan_first_frame:
  assumes "m_state s = CS_Station" and "m_state h = CS_AccessPointCreated"
  shows "\<exists>q. (\<forall>env. \<exists>x y qs. ldn_Scan True env f cap s = (x, y, q # qs)) \<and>
     (\<exists>h1 r rs. OnControlFrame True t sip (dg_payload q) h = (h1, r # rs))"
proof -
  let ?c1 = "scan_begin f s"
  obtain k where k: "SendFrame True (SubnetBroadcast ?c1) LanPacket_Scan [] ?c1 = (?c1\<lparr>m_tx_seq := k\<rparr>,
      [(m_ipv4_address ?c1, ControlPort, SubnetBroadcast ?c1, ControlPort, Proto_Udp, build_frame k LanPacket_Scan [])])"
      "parse_frame (build_frame k LanPacket_Scan []) = Some (LanPacket_Scan, k, [])"
    using SendFrame_payload [of "[]" "SubnetBroadcast ?c1" LanPacket_Scan ?c1] by auto
  let ?q = "(m_ipv4_address ?c1, ControlPort, SubnetBroadcast ?c1, ControlPort, Proto_Udp, build_frame k LanPacket_Scan [])"
  have "\<exists>x y qs. ldn_Scan True env f cap s = (x, y, ?q # qs)" for env
    using assms(1) by (simp add: ldn_Scan_def Let_def k(1) split_beta)
  moreover have "OnControlFrame True t sip (dg_payload ?q) h = HandleScan True t sip h"
    by (rule OnControlFrame_scan) (simp add: dg_payload_def k(2))
  moreover have "\<exists>h1 r rs. HandleScan True t sip h = (h1, r # rs)"
    using assms(2) by (simp add: HandleScan_def SendFrame_def Let_def)
  ultimately show ?thesis by metis
qed

text \<open>The first request of \<^verbatim>\<open>Connect\<close> does not depend on what happens while it polls.\<close>

lemma Connect_first_frame:
  assumes "m_state s \<noteq> CS_None" and "nodeCount (ldn info) \<noteq> 0"
  shows "\<exists>m k. parse_frame (dg_payload m) = Some (LanPacket_Connect, k, enc_NodeInfo (my_node dat (join_begin info s))) \<and>
     (\<forall>env. \<exists>ms. snd (snd (ldn_Connect True env dat info s)) = m # ms)"
proof -
  let ?b = "enc_NodeInfo (my_node dat (join_begin info s))" and ?dst = "ipv4Address (nodes (ldn info) ! 0)"
  have "length ?b \<le> sizeof_NetworkInfo"
    using node.enc_length [OF my_node_ok] by (simp add: sizeof_NetworkInfo_def)
  from SendFrame_payload [OF this] obtain k where
    k: "SendFrame True ?dst LanPacket_Connect ?b (join_begin info s) = ((join_begin info s)\<lparr>m_tx_seq := k\<rparr>,
      [(m_ipv4_address (join_begin info s), ControlPort, ?dst, ControlPort, Proto_Udp, build_frame k LanPacket_Connect ?b)])"
    "parse_frame (build_frame k LanPacket_Connect ?b) = Some (LanPacket_Connect, k, ?b)" by blast
  let ?m = "(m_ipv4_address (join_begin info s), ControlPort, ?dst, ControlPort, Proto_Udp, build_frame k LanPacket_Connect ?b)"
  have "\<exists>ms. snd (snd (ldn_Connect True env dat info s)) = ?m # ms" for env
    using assms by (simp add: ldn_Connect_def Let_def k(1) split_beta)
  moreover have "parse_frame (dg_payload ?m) = Some (LanPacket_Connect, k, ?b)" using k(2) by (simp add: dg_payload_def)
  ultimately show ?thesis by blast
qed

section \<open>Reaping, scanning and polling\<close>

definition fresh :: "int \<Rightarrow> Station \<Rightarrow> bool" where
  "fresh now s \<longleftrightarrow> now - last_seen s < RelayPeerTimeoutTicks"

lemma filter_reap:
  assumes "\<forall>s \<in> set ss. active s \<longleftrightarrow> connected s"
  shows "filter active (map (reap now) ss) = filter (\<lambda>s. active s \<and> fresh now s) ss"
  using assms by (induction ss) (auto simp: reap_def reset_station_def fresh_def)

lemma filter_reap_stations:
  assumes "stations_wf ss"
  shows "filter active (map (reap now) (take StationCountMax ss) @ drop StationCountMax ss) =
     filter (\<lambda>s. active s \<and> fresh now s) ss"
proof -
  have l: "length ss = 8" "\<not> active (ss ! 7)" "\<forall>s \<in> set ss. active s \<longleftrightarrow> connected s"
    using assms by (auto simp: stations_wf_def station_ok_def NodeCountMax_def)
  then have d: "drop StationCountMax ss = [ss ! 7]"
    by (simp add: StationCountMax_def NodeCountMax_def Cons_nth_drop_Suc [symmetric])
  have "filter (\<lambda>s. active s \<and> fresh now s) ss =
      filter (\<lambda>s. active s \<and> fresh now s) (take StationCountMax ss @ drop StationCountMax ss)" by simp
  also have "\<dots> = filter (\<lambda>s. active s \<and> fresh now s) (take StationCountMax ss)"
    unfolding filter_append d using l(2) by simp
  finally have e: "filter (\<lambda>s. active s \<and> fresh now s) ss =
      filter (\<lambda>s. active s \<and> fresh now s) (take StationCountMax ss)" .
  have "filter active (map (reap now) (take StationCountMax ss)) =
      filter (\<lambda>s. active s \<and> fresh now s) (take StationCountMax ss)"
    using l(3) by (intro filter_reap ballI) (auto dest: in_set_takeD)
  with e l(2) show ?thesis by (simp only: filter_append d filter.simps if_False append_Nil2)
qed

lemma scan_send_run:
  "ldn_run c \<Longrightarrow> ldn_run (fst (if b then SendFrame running dst ty body c else (c, [])))"
  by (simp add: ldn_run.send)

lemma scan_loop_run:
  assumes env: "\<And>i c. ldn_run c \<Longrightarrow> ldn_run (env i c)"
  shows "ldn_run c \<Longrightarrow> ldn_run (fst (scan_loop running env i n k c))"
proof (induction "10 - i" arbitrary: i n k c rule: less_induct)
  case less
  let ?p = "if i \<noteq> 0 \<and> i mod 3 = 0 then SendFrame running (SubnetBroadcast c) LanPacket_Scan [] c else (c, [])"
  show ?case
  proof (cases "i < 10")
    case True
    have "ldn_run (env i (fst ?p))" by (intro env scan_send_run less.prems)
    moreover from this have "ldn_run (fst (scan_loop running env (i + 1) n' k' (env i (fst ?p))))" for n' k'
      using less.hyps [of "i + 1"] True by simp
    ultimately show ?thesis using True by (subst scan_loop.simps) (simp only: Let_def split_beta if_distrib [of fst] fst_conv not_le [symmetric], simp)
  next
    case False
    with less.prems show ?thesis by (subst scan_loop.simps) simp
  qed
qed

lemma connect_poll_True:
  "fst (connect_poll running env host_ip my i c) \<Longrightarrow>
     m_state (fst (snd (connect_poll running env host_ip my i c))) = CS_StationConnected"
proof (induction "300 - i" arbitrary: i c rule: less_induct)
  case less
  let ?c = "env i (fst (if i mod 50 = 49 then SendFrame running host_ip LanPacket_Connect my c else (c, [])))"
  show ?case
  proof (cases "300 \<le> i \<or> m_state c = CS_StationConnected")
    case True
    then show ?thesis using less.prems connect_poll.simps [of running env host_ip my i c] by (auto split: if_splits)
  next
    case False
    then have e: "fst (connect_poll running env host_ip my i c) = fst (connect_poll running env host_ip my (i + 1) ?c)"
      "fst (snd (connect_poll running env host_ip my i c)) = fst (snd (connect_poll running env host_ip my (i + 1) ?c))"
      using connect_poll.simps [of running env host_ip my i c] by (simp_all add: split_beta)
    show ?thesis unfolding e by (rule less.hyps) (use False less.prems e in auto)
  qed
qed

lemma connect_poll_reached:
  assumes "\<And>c. m_state (env k c) = CS_StationConnected" and "k < 299"
  shows "i \<le> k + 1 \<Longrightarrow> i = k + 1 \<longrightarrow> m_state c = CS_StationConnected \<Longrightarrow> fst (connect_poll running env host_ip my i c)"
proof (induction "300 - i" arbitrary: i c rule: less_induct)
  case less
  let ?c = "env i (fst (if i mod 50 = 49 then SendFrame running host_ip LanPacket_Connect my c else (c, [])))"
  show ?case
  proof (cases "m_state c = CS_StationConnected")
    case True
    then show ?thesis using less.prems assms(2) connect_poll.simps [of running env host_ip my i c] by simp
  next
    case False
    then have i: "i < k + 1" "\<not> 300 \<le> i" using less.prems assms(2) by auto
    have "fst (connect_poll running env host_ip my (i + 1) ?c)"
      by (rule less.hyps) (use i assms(1) in auto)
    then show ?thesis using False i(2) connect_poll.simps [of running env host_ip my i c] by (simp add: split_beta)
  qed
qed

lemma connect_poll_never:
  assumes "\<And>i c. m_state c \<noteq> CS_StationConnected \<Longrightarrow> m_state (env i c) \<noteq> CS_StationConnected"
  shows "m_state c \<noteq> CS_StationConnected \<Longrightarrow> \<not> fst (connect_poll running env host_ip my i c)"
proof (induction "300 - i" arbitrary: i c rule: less_induct)
  case less
  let ?c = "env i (fst (if i mod 50 = 49 then SendFrame running host_ip LanPacket_Connect my c else (c, [])))"
  have "m_state (fst (SendFrame running host_ip LanPacket_Connect my c)) = m_state c"
    using SendFrame_state [of running host_ip LanPacket_Connect my c] by auto
  then have n: "m_state ?c \<noteq> CS_StationConnected" using assms less.prems by simp
  show ?case
  proof (cases "300 \<le> i")
    case False
    then have "\<not> fst (connect_poll running env host_ip my (i + 1) ?c)" by (intro less.hyps n) auto
    then show ?thesis using less.prems False connect_poll.simps [of running env host_ip my i c] by (simp add: split_beta)
  qed (simp add: connect_poll.simps)
qed

section \<open>Leaving\<close>

lemma bye_facts:
  assumes "length mac = 6"
  shows "length (bye_body mac ip) = sizeof_RelayHeartbeatPayload"
    "dec_Heartbeat (bye_body mac ip) = \<lparr>hb_bssid = mac, hb_pad = [0, 0], hb_ipv4 = ip\<rparr>"
  using assms by (simp_all add: bye_body_def beat.enc_length beat.dec_enc_Nil Heartbeat_ok_def sizeof_RelayHeartbeatPayload_def)

lemma SendFrame_bye:
  assumes "length mac = 6"
  shows "\<exists>q. SendFrame True dst ty (bye_body mac ip) c = (c\<lparr>m_tx_seq := q\<rparr>,
     [(m_ipv4_address c, ControlPort, dst, ControlPort, Proto_Udp, build_frame q ty (bye_body mac ip))]) \<and>
     parse_frame (build_frame q ty (bye_body mac ip)) = Some (ty, q, bye_body mac ip)"
  using assms by (intro SendFrame_payload) (simp add: bye_facts sizeof_RelayHeartbeatPayload_def sizeof_NetworkInfo_def)

lemma host_bssid_length:
  assumes "ldn_wf c" and "m_state c = CS_AccessPointCreated"
  shows "length (bssid (common (m_network_info c))) = 6"
  using assms by (simp add: ldn_wf_def roster_ok_def)

text \<open>A station that says goodbye.\<close>

lemma bye_drops:
  assumes "ldn_wf h" and "m_state h = CS_AccessPointCreated" and "FindStationByIp sip h = Some nid"
    and "mac = bssid (common (m_network_info h))" and "HandleRelayBye running sip (bye_body mac ip) h = (h', ds)"
  shows "ldn_wf h' \<and> m_state h' = CS_AccessPointCreated \<and> m_ipv4_address h' = m_ipv4_address h \<and>
     StationCount h' + 1 = StationCount h \<and> (\<forall>s \<in> set (m_stations h'). active s \<longrightarrow> src_ip s \<noteq> sip)"
proof -
  let ?ss = "(m_stations h)[nid - 1 := reset_station (m_stations h ! (nid - 1))]"
  have "UpdateNodes running (h\<lparr>m_stations := ?ss\<rparr>) = (h', ds)"
    using assms bye_facts [of mac ip] host_bssid_length [OF assms(1,2)] by (simp add: HandleRelayBye_def)
  then have h': "h' = fst (UpdateNodes running (h\<lparr>m_stations := ?ss\<rparr>))" by simp
  have f: "m_stations h' = ?ss" "m_state h' = CS_AccessPointCreated" "m_ipv4_address h' = m_ipv4_address h"
    unfolding h' using assms(2) by simp_all
  have wf': "ldn_wf h'" using ldn_wf_HandleRelayBye [OF assms(1), of running sip "bye_body mac ip"] assms(5) by simp
  have sw: "stations_wf (m_stations h)" "stations_wf (m_stations h')" using assms(1) wf' by (simp_all add: ldn_wf_def)
  note slot = stations_wf_slot [OF sw(1) assms(3)]
  have k: "nid - 1 < length (m_stations h)" using slot by simp
  have "length (filter active ?ss) + 1 = length (filter active (m_stations h))"
    using filter_length_update [OF k, of active "reset_station (m_stations h ! (nid - 1))"] slot
    by (simp add: reset_station_def)
  then have cnt: "StationCount h' + 1 = StationCount h"
    by (simp add: StationCount_eq [OF sw(1)] StationCount_eq [OF sw(2)] f(1))
  have "src_ip s \<noteq> sip" if "s \<in> set ?ss" "active s" for s
  proof -
    from that(1) obtain i where i: "i < 8" "s = ?ss ! i" using slot by (auto simp: in_set_conv_nth)
    with that(2) k have "i \<noteq> nid - 1" by (auto simp: reset_station_def)
    with i that(2) show ?thesis
      using connect_slot_free [OF sw(1) FindStation_slot [OF assms(3)]] by auto
  qed
  with cnt wf' f show ?thesis by auto
qed

section \<open>A host with a station\<close>

lemma host_info_facts:
  assumes "ldn_wf h" and "m_state h = CS_AccessPointCreated"
  shows "nodeCount (ldn (m_network_info h)) > 0" "ipv4Address (nodes (ldn (m_network_info h)) ! 0) = m_ipv4_address h"
proof -
  have "unat (nodeCount (ldn (m_network_info h))) > 0"
    unfolding nodeCount_used [OF assms] by (simp add: used_nodes_def)
  then show "nodeCount (ldn (m_network_info h)) > 0" by (simp add: word_less_nat_alt)
  show "ipv4Address (nodes (ldn (m_network_info h)) ! 0) = m_ipv4_address h"
    using assms by (simp add: ldn_wf_def roster_ok_def used_nodes_def host_node_def)
qed

definition host_with_station :: LdnControl where
  "host_with_station = fst (HandleConnect True 1 7 (replicate 64 0)
     (fst (HandleScan True 0 7 (host_console ''10.13.0.5'' sample_config))))"

lemma host_with_station_facts:
  "ldn_run host_with_station" "m_state host_with_station = CS_AccessPointCreated"
  "m_ipv4_address host_with_station = 0x0A0D0005" "FindStationByIp 7 host_with_station \<noteq> None"
proof -
  define h1 where "h1 = fst (HandleScan True 0 7 (host_console ''10.13.0.5'' sample_config))"
  have ip: "ParseIp ''10.13.0.5'' \<noteq> 0" by (simp add: sample_ips)
  note f = host_console_facts [OF ip, of sample_config]
  note g = HandleScan_fields [OF f(1), of True 0 7, folded h1_def]
  have run: "ldn_run h1" unfolding h1_def by (rule ldn_run_scan [OF host_console_run])
  note wf = ldn_run_wf [OF this]
  have "StationCount h1 = 0" using f(3) g(2) by (auto simp: StationCount_def filter_empty_conv dest: in_set_takeD)
  then have "connect_slot 7 h1 \<noteq> None"
    using wf by (simp add: connect_slot_None ldn_wf_def StationCountMax_def NodeCountMax_def)
  then obtain nid where nid: "connect_slot 7 h1 = Some nid" by auto
  have rec: "WasRecentScanner 1 7 h1 \<or> FindStationByIp 7 h1 \<noteq> None"
    unfolding h1_def by (rule disjI1, rule HandleScan_recent [OF ldn_run_wf [OF host_console_run] f(1)])
      (simp add: ScannerTimeoutTicks_def)
  have len: "length (replicate 64 (0::u8)) = sizeof_NodeInfo" by (simp add: sizeof_NodeInfo_def)
  obtain ds where hc: "HandleConnect True 1 7 (replicate 64 0) h1 = (host_with_station, ds)"
    unfolding host_with_station_def h1_def by (metis prod.collapse)
  note a = HandleConnect_admitted [OF wf g(1) len rec nid TrueI hc]
  have "OnControlFrame True 1 7 (build_frame 1 LanPacket_Connect (replicate 64 0)) h1 = (host_with_station, ds)"
    using hc dispatch(2) [OF parse_build, of "replicate 64 0"] by (simp add: sizeof_NetworkInfo_def)
  with ldn_run.frame [OF run] show "ldn_run host_with_station" by (metis fst_conv)
  show "m_state host_with_station = CS_AccessPointCreated" "m_ipv4_address host_with_station = 0x0A0D0005"
    "FindStationByIp 7 host_with_station \<noteq> None"
    using a g(3) f(2) by (simp_all add: sample_ips)
qed

section \<open>Properties\<close>

text \<open>While this console hosts a network, the session filter that every arriving packet has to pass
  accepts exactly its own address and the addresses of the stations it has admitted.\<close>

lemma hosting_peer_filter:
  assumes "ldn_run c" and "m_state c = CS_AccessPointCreated"
  shows "IsKnownSessionPeer ip c \<longleftrightarrow>
     ip = m_ipv4_address c \<or> (\<exists>s \<in> set (m_stations c). active s \<and> src_ip s = ip)"
  using listed_host [OF ldn_run_wf [OF assms(1)] assms(2)] assms(2)
  by (auto simp: IsKnownSessionPeer_def in_session_def)

text \<open>C19: A console hosting a network that receives a well-formed connect request: a peer that is
  neither a station nor was seen scanning in the last 30 seconds, or a new peer when seven stations
  are in, changes nothing and gets no answer. Otherwise the peer ends up as exactly one station (a
  retry keeps its node id and the number of stations, a new peer adds one), every other station keeps
  its node id, the session filter accepts the peer, and the peer is sent the network description that
  the host then publishes.\<close>

theorem connect_admission:
  assumes "ldn_run c" and "m_state c = CS_AccessPointCreated" and "length body = sizeof_NodeInfo"
    and "HandleConnect True now sip body c = (c', ds)"
  shows "if \<not> WasRecentScanner now sip c \<and> FindStationByIp sip c = None \<or>
            FindStationByIp sip c = None \<and> StationCount c \<ge> 7
     then c' = c \<and> ds = []
     else StationCount c' = (if FindStationByIp sip c = None then StationCount c + 1 else StationCount c) \<and>
       FindStationByIp sip c' =
         (if FindStationByIp sip c = None then FindFreeNodeId c else FindStationByIp sip c) \<and>
       FindStationByIp sip c' \<noteq> None \<and>
       (\<forall>ip. ip \<noteq> sip \<longrightarrow> FindStationByIp ip c' = FindStationByIp ip c) \<and>
       IsKnownSessionPeer sip c' \<and>
       (\<exists>d \<in> set ds. dg_dst d = sip \<and> is_sync (m_ipv4_address c) (m_network_info c') d)"
proof (cases "\<not> WasRecentScanner now sip c \<and> FindStationByIp sip c = None \<or>
    FindStationByIp sip c = None \<and> StationCount c \<ge> 7")
  case True
  then have "c' = c \<and> ds = []"
    using assms(4) by (auto simp: HandleConnect_def connect_slot_def StationCountMax_def NodeCountMax_def split: if_splits)
  with True show ?thesis by simp
next
  case False
  have wf: "ldn_wf c" and sw: "stations_wf (m_stations c)" using ldn_run_wf [OF assms(1)] by (auto simp: ldn_wf_def)
  have "connect_slot sip c \<noteq> None"
    using False by (auto simp: connect_slot_None [OF sw] StationCountMax_def NodeCountMax_def)
  then obtain nid where nid: "connect_slot sip c = Some nid" by auto
  have adm: "WasRecentScanner now sip c \<or> FindStationByIp sip c \<noteq> None" using False by auto
  note h = HandleConnect_admitted [OF wf assms(2,3) adm nid TrueI assms(4)]
  let ?k = "(m_stations c)[nid - 1 := connect_station now sip nid (dec_NodeInfo body) (m_stations c ! (nid - 1))]"
  have "UpdateNodes True (c\<lparr>m_stations := ?k\<rparr>) = (c', ds)"
    using assms(2-4) adm nid by (auto simp: HandleConnect_def)
  then have "c' = fst (UpdateNodes True (c\<lparr>m_stations := ?k\<rparr>))" by simp
  then have ss: "m_stations c' = ?k" by simp
  have slot: "(if FindStationByIp sip c = None then FindFreeNodeId c else FindStationByIp sip c) = Some nid"
    using nid by (auto simp: connect_slot_def split: option.splits if_splits)
  show ?thesis
    unfolding slot if_not_P [OF False]
    using h admission_others [OF sw nid _ ss] by (auto simp: IsKnownSessionPeer_def)
qed

theorem connect_admission_witness:
  "StationCount (fst (HandleConnect True 1 7 (replicate 64 0)
     (fst (HandleScan True 0 7 (host_console ''10.13.0.5'' sample_config))))) = 1"
proof -
  let ?h = "host_console ''10.13.0.5'' sample_config"
  let ?h1 = "fst (HandleScan True 0 7 ?h)"
  have ip: "ParseIp ''10.13.0.5'' \<noteq> 0" by (simp add: sample_ips)
  note f = host_console_facts [OF ip, of sample_config]
  note g = HandleScan_fields [OF f(1), of True 0 7]
  have none: "\<forall>s \<in> set (m_stations ?h1). \<not> active s" using f(3) g by simp
  have find: "FindStationByIp 7 ?h1 = None" and cnt: "StationCount ?h1 = 0"
    using none by (auto simp: FindStationByIp_def find_index_None StationCount_def filter_empty_conv dest: in_set_takeD)
  have rec: "WasRecentScanner 1 7 ?h1"
    by (rule HandleScan_recent [OF ldn_run_wf [OF host_console_run] f(1)]) (simp add: ScannerTimeoutTicks_def)
  have len: "length (replicate 64 (0::u8)) = sizeof_NodeInfo" by (simp add: sizeof_NodeInfo_def)
  obtain c' ds where c': "HandleConnect True 1 7 (replicate 64 0) ?h1 = (c', ds)" by (rule prod.exhaust)
  have "ldn_run ?h1" using ldn_run_scan [OF host_console_run] .
  from connect_admission [OF this _ len c'] g(1) rec find cnt show ?thesis by (simp add: c')
qed

text \<open>C18: Joining works end to end. A console hosts a network with room left; another, with another address, is
  in the station state and has taken no network description since it last reset its sequence filter (a description
  of a foreign network can make the join fail, see the finding on the sequence filter). The scan filter
  matches the host's network, the first broadcast of \<^verbatim>\<open>Scan\<close> reaches the host and the answer arrives within
  the first round: then \<^verbatim>\<open>Scan\<close> succeeds and returns exactly the description the host publishes. When the first
  request of \<^verbatim>\<open>Connect\<close> for that network reaches the host within 30 seconds of the scan, the host sends a
  description addressed to the station, and if it arrives while \<^verbatim>\<open>Connect\<close> polls, \<^verbatim>\<open>Connect\<close> succeeds with the
  station connected, both consoles hold the same network description, and the session filter of each accepts
  the other's address.\<close>

theorem join_end_to_end:
  assumes "ldn_run h" and "m_state h = CS_AccessPointCreated" and "m_state s = CS_Station"
    and "\<not> m_relay_sync_seq_valid s" and "m_ipv4_address s \<noteq> m_ipv4_address h" and "StationCount h < 7"
    and "scan_match f (BuildNetwork h)" and "0 < cap"
    and "ldn_Scan True (\<lambda>i c. if i = 0 then fst (OnControlFrame True t (m_ipv4_address h) (dg_payload r) c) else c) f cap s =
      ((rc, found), s1, q # qs)"
    and "OnControlFrame True t (m_ipv4_address s) (dg_payload q) h = (h1, r # rs)"
    and "ldn_Connect True env dat (hd found) s1 = (rc0, s0, m # ms)" and "t2 - t \<le> ScannerTimeoutTicks"
    and "OnControlFrame True t2 (m_ipv4_address s) (dg_payload m) h1 = (h2, ds)"
  shows "rc = None \<and> found = [BuildNetwork h] \<and>
     (\<exists>d \<in> set ds. dg_dst d = m_ipv4_address s \<and>
       (case ldn_Connect True (\<lambda>i c. fst (OnControlFrame True t3 (m_ipv4_address h) (dg_payload d) c)) dat (hd found) s1 of
          (rc2, s2, ms2) \<Rightarrow> rc2 = None \<and> hd ms2 = m \<and> m_state s2 = CS_StationConnected \<and>
            m_network_info s2 = m_network_info h2 \<and>
            IsKnownSessionPeer (m_ipv4_address s) h2 \<and> IsKnownSessionPeer (m_ipv4_address h) s2))"
proof -
  let ?sip = "m_ipv4_address s" and ?info = "BuildNetwork h"
  note wf = ldn_run_wf [OF assms(1)]
  note e = Scan_answered [OF assms(1,2,3,5,7,9,10)]
  have found: "found = [?info]" using e assms(8) by (cases cap) auto
  note b = BuildNetwork_facts [OF wf]
  note g = HandleScan_fields [OF assms(2), of True t ?sip]
  have h1: "h1 = fst (HandleScan True t ?sip h)" using e by simp
  have wf1: "ldn_wf h1" unfolding h1 by (rule ldn_wf_HandleScan [OF wf])
  have host1: "m_state h1 = CS_AccessPointCreated" using g h1 by simp
  have s1: "m_state s1 = CS_Station" "m_ipv4_address s1 = ?sip" "\<not> m_relay_sync_seq_valid s1" using e assms(4) by auto
  then have "m_state s1 \<noteq> CS_None" by simp
  from Connect_first_frame [OF this b(2), of dat] obtain m' k' where
    m': "parse_frame (dg_payload m') = Some (LanPacket_Connect, k', enc_NodeInfo (my_node dat (join_begin ?info s1)))"
    "\<And>env. \<exists>ms. snd (snd (ldn_Connect True env dat ?info s1)) = m' # ms" by blast
  have "m' = m" using m'(2) [of env] assms(11) by (simp add: found)
  note fm = m' [unfolded this]
  have hc: "HandleConnect True t2 ?sip (enc_NodeInfo (my_node dat (join_begin ?info s1))) h1 = (h2, ds)"
    using dispatch(2) [OF fm(1), of True t2 ?sip h1] assms(13) by simp
  have len: "length (enc_NodeInfo (my_node dat (join_begin ?info s1))) = sizeof_NodeInfo"
    using node.enc_length [OF my_node_ok] by (simp add: sizeof_NodeInfo_def)
  have rec: "WasRecentScanner t2 ?sip h1" unfolding h1 by (rule HandleScan_recent [OF wf assms(2,12)])
  have "StationCount h1 < 7" using g h1 assms(6) by (simp add: StationCount_def)
  then have "connect_slot ?sip h1 \<noteq> None"
    using wf1 by (simp add: connect_slot_None ldn_wf_def StationCountMax_def NodeCountMax_def)
  then obtain nid where nid: "connect_slot ?sip h1 = Some nid" by auto
  note adm = HandleConnect_admitted [OF wf1 host1 len disjI1 [OF rec] nid TrueI hc]
  then obtain d where d: "d \<in> set ds" "dg_dst d = ?sip" "is_sync (m_ipv4_address h1) (m_network_info h2) d" by blast
  have ok2: "NetworkInfo_ok (m_network_info h2)" using adm by (simp add: ldn_wf_def buffers_wf_def)
  obtain k where k: "parse_frame (dg_payload d) = Some (LanPacket_SyncNetwork, k, enc_NetworkInfo (m_network_info h2))"
    using parse_sync [OF ok2] d(3) unfolding dg_payload_def by (cases d) fastforce
  have bs: "bssid (common ?info) = bssid (common (m_network_info h2))"
    using wf wf1 adm assms(2) host1 b(4) g(3) h1 by (simp add: ldn_wf_def roster_ok_def)
  let ?env = "\<lambda>(i::nat) c. fst (OnControlFrame True t3 (m_ipv4_address h) (dg_payload d) c)"
  have sync: "m_state (?env 0 ((join_begin ?info s1)\<lparr>m_tx_seq := j\<rparr>)) = CS_StationConnected \<and>
      m_network_info (?env 0 ((join_begin ?info s1)\<lparr>m_tx_seq := j\<rparr>)) = m_network_info h2" for j
    using sync_confirms [OF _ _ _ ok2 k refl, of "(join_begin ?info s1)\<lparr>m_tx_seq := j\<rparr>" True t3 "m_ipv4_address h"]
      s1 adm bs by (simp add: join_begin_def)
  obtain j ds2 where c: "ldn_Connect True ?env dat ?info s1 = (None, ?env 0 ((join_begin ?info s1)\<lparr>m_tx_seq := j\<rparr>), ds2)"
    using ldn_Connect_now [OF s1(1) b(2), of ?env dat] sync by blast
  have first: "hd ds2 = m" using fm(2) [of ?env] c by auto
  have "listed_node (m_ipv4_address h) h2" using listed_host [of h2] adm g(3) h1 by auto
  then have "IsKnownSessionPeer (m_ipv4_address h) (?env 0 ((join_begin ?info s1)\<lparr>m_tx_seq := j\<rparr>))"
    using listed_node_cong [of "?env 0 ((join_begin ?info s1)\<lparr>m_tx_seq := j\<rparr>)" h2] sync [of j]
    by (simp add: IsKnownSessionPeer_def)
  moreover have "IsKnownSessionPeer ?sip h2" using adm by (simp add: IsKnownSessionPeer_def)
  ultimately show ?thesis using e c sync [of j] d(1,2) first by (auto simp: found intro!: bexI [of _ d])
qed

theorem join_end_to_end_witness:
  "\<exists>q r h1 found s1 d. (let h = host_console ''10.13.0.5'' sample_config; s = station_console ''10.13.0.9'' in
     fst (OnControlFrame True 0 (m_ipv4_address s) (dg_payload q) h) = h1 \<and>
     (\<exists>rc qs. ldn_Scan True (\<lambda>i c. if i = 0 then fst (OnControlFrame True 0 (m_ipv4_address h) (dg_payload r) c) else c)
        sample_filter 8 s = ((rc, found), s1, q # qs)) \<and> found = [BuildNetwork h] \<and>
     fst (ldn_Connect True (\<lambda>i c. fst (OnControlFrame True 2 (m_ipv4_address h) (dg_payload d) c)) sample_join (hd found) s1) = None)"
proof -
  define h where "h = host_console ''10.13.0.5'' sample_config"
  define s where "s = station_console ''10.13.0.9''"
  have ip: "ParseIp ''10.13.0.5'' \<noteq> 0" "ParseIp ''10.13.0.9'' \<noteq> 0" by (simp_all add: sample_ips)
  note f = host_console_facts [OF ip(1), of sample_config, folded h_def]
  note g = station_console_facts [OF ip(2), folded s_def]
  have run: "ldn_run h" unfolding h_def by (rule host_console_run)
  have ne: "m_ipv4_address s \<noteq> m_ipv4_address h" unfolding f(2) g(2) by (simp add: sample_ips)
  have "StationCount h = 0" using f(3) by (auto simp: StationCount_def filter_empty_conv dest: in_set_takeD)
  then have cnt: "StationCount h < 7" by simp
  have flt: "scan_match sample_filter (BuildNetwork h)" by (simp add: scan_match_def sample_filter_def)
  obtain q where q: "\<And>env. \<exists>x y qs. ldn_Scan True env sample_filter 8 s = (x, y, q # qs)"
    and hq: "\<exists>h1 r rs. OnControlFrame True 0 (m_ipv4_address s) (dg_payload q) h = (h1, r # rs)"
    using Scan_first_frame [OF g(1) f(1), of sample_filter 8 0 "m_ipv4_address s"] by blast
  obtain h1 r rs where 2: "OnControlFrame True 0 (m_ipv4_address s) (dg_payload q) h = (h1, r # rs)" using hq by blast
  let ?env = "\<lambda>(i::nat) c. if i = 0 then fst (OnControlFrame True 0 (m_ipv4_address h) (dg_payload r) c) else c"
  obtain x s1 qs where "ldn_Scan True ?env sample_filter 8 s = (x, s1, q # qs)" using q [of ?env] by blast
  then obtain rc found where 1: "ldn_Scan True ?env sample_filter 8 s = ((rc, found), s1, q # qs)" by (cases x) blast
  note e = Scan_answered [OF run f(1) g(1) ne flt 1 2]
  then have found: "found = [BuildNetwork h]" and s1: "m_state s1 \<noteq> CS_None" by simp_all
  obtain m ms where "snd (snd (ldn_Connect True (\<lambda>_ c. c) sample_join (hd found) s1)) = m # ms"
    using Connect_first_frame [OF s1 BuildNetwork_facts(2) [OF ldn_run_wf [OF run]], of sample_join]
    unfolding found list.sel(1) by blast
  then obtain x y where 3: "ldn_Connect True (\<lambda>_ c. c) sample_join (hd found) s1 = (x, y, m # ms)"
    by (cases "ldn_Connect True (\<lambda>_ c. c) sample_join (hd found) s1") auto
  obtain h2 ds where 4: "OnControlFrame True 1 (m_ipv4_address s) (dg_payload m) h1 = (h2, ds)" by (rule prod.exhaust)
  have tm: "1 - 0 \<le> ScannerTimeoutTicks" by (simp add: ScannerTimeoutTicks_def)
  note j = join_end_to_end [OF run f(1) g(1,3) ne cnt flt _ 1 2 3 tm 4, of 2]
  then obtain d where d: "fst (ldn_Connect True (\<lambda>i c. fst (OnControlFrame True 2 (m_ipv4_address h) (dg_payload d) c)) sample_join
      (hd found) s1) = None" by (auto simp: split_beta)
  have "fst (OnControlFrame True 0 (m_ipv4_address s) (dg_payload q) h) = h1" by (simp add: 2)
  with 1 found d show ?thesis unfolding Let_def h_def [symmetric] s_def [symmetric] by blast
qed

text \<open>C25: When the periodic tick of a host fires, exactly the stations heard of within the last 30 seconds
  stay: they are the ones sent the new network description, in order, and afterwards the session filter
  accepts only them and the host. This is what the code does; the caveats of the repository's notes.txt still
  say that no such time-out exists, which is reported as a divergence.\<close>

theorem tick_reaps_silent_stations:
  assumes "ldn_run c" and "m_state c = CS_AccessPointCreated" and "now - m_last_beacon c \<ge> RelayBeaconIntervalTicks"
    and "Tick True now c = (c', ds)"
  shows "filter active (m_stations c') = filter (\<lambda>s. active s \<and> now - last_seen s < RelayPeerTimeoutTicks) (m_stations c) \<and>
     map dg_dst ds = map src_ip (filter active (m_stations c')) \<and>
     (\<forall>d \<in> set ds. is_sync (m_ipv4_address c) (m_network_info c') d) \<and>
     (\<forall>ip. IsKnownSessionPeer ip c' \<longleftrightarrow> ip = m_ipv4_address c \<or>
        (\<exists>s \<in> set (m_stations c). active s \<and> now - last_seen s < RelayPeerTimeoutTicks \<and> src_ip s = ip))"
proof -
  let ?c = "c\<lparr>m_last_beacon := now, m_stations := map (reap now) (take StationCountMax (m_stations c)) @
      drop StationCountMax (m_stations c)\<rparr>"
  have u: "UpdateNodes True ?c = (c', ds)" using assms(2-4) by (simp add: Tick_def Let_def)
  then have c': "c' = fst (UpdateNodes True ?c)" by simp
  have wf: "ldn_wf c" using ldn_run_wf [OF assms(1)] .
  have wf': "ldn_wf c'" using ldn_wf_Tick [OF wf, of True now] assms(4) by simp
  have f: "m_stations c' = m_stations ?c" "m_state c' = CS_AccessPointCreated" "m_ipv4_address c' = m_ipv4_address c"
    "m_network_info c' = BuildNetwork ?c"
    unfolding c' using assms(2) by simp_all
  have sw: "stations_wf (m_stations c)" "stations_wf (m_stations ?c)"
    using wf wf' f(1) by (simp_all add: ldn_wf_def)
  have fa: "filter active (m_stations c') = filter (\<lambda>s. active s \<and> now - last_seen s < RelayPeerTimeoutTicks) (m_stations c)"
    using filter_reap_stations [OF sw(1), of now] by (simp add: f(1) fresh_def)
  moreover have "map dg_dst ds = map src_ip (filter active (m_stations c')) \<and>
      (\<forall>d \<in> set ds. is_sync (m_ipv4_address c) (m_network_info c') d)"
    using UpdateNodes_out [OF sw(2) TrueI] u unfolding f(1,4) by simp
  moreover have "IsKnownSessionPeer ip c' \<longleftrightarrow> ip = m_ipv4_address c \<or> ip \<in> set (map src_ip (filter active (m_stations c')))" for ip
    using listed_host [OF wf' f(2)] f(2,3) by (auto simp: IsKnownSessionPeer_def in_session_def)
  ultimately show ?thesis unfolding fa by auto
qed

theorem tick_reaps_silent_stations_witness:
  "let h = host_console ''10.13.0.5'' sample_config in
   \<not> IsKnownSessionPeer 7 (fst (Tick True (m_last_beacon h + RelayBeaconIntervalTicks) h))"
proof -
  define h where "h = host_console ''10.13.0.5'' sample_config"
  have ip: "ParseIp ''10.13.0.5'' \<noteq> 0" by (simp add: sample_ips)
  note f = host_console_facts [OF ip, of sample_config, folded h_def]
  have run: "ldn_run h" unfolding h_def by (rule host_console_run)
  obtain c' ds where t: "Tick True (m_last_beacon h + RelayBeaconIntervalTicks) h = (c', ds)" by (rule prod.exhaust)
  have "\<not> IsKnownSessionPeer 7 c'"
    using tick_reaps_silent_stations [OF run f(1) _ t] f(2,3) by (auto simp: sample_ips)
  then show ?thesis unfolding Let_def h_def [symmetric] t by simp
qed

text \<open>C33: Whatever arrives while it polls, a scan ends, and in every state but the uninitialised and the
  error state it returns no error, only networks that match the caller's filter, no two with the same
  network identifier, at most as many as the caller has room for and at most eight.\<close>

theorem Scan_result:
  assumes "ldn_run c" and "\<And>i c. ldn_run c \<Longrightarrow> ldn_run (env i c)"
    and "m_state c \<noteq> CS_None" and "m_state c \<noteq> CS_Error"
    and "ldn_Scan running env f cap c = ((rc, out), c', ds)"
  shows "rc = None \<and> (\<forall>r \<in> set out. scan_match f r) \<and> distinct (map (\<lambda>r. bssid (common r)) out) \<and>
     length out \<le> min cap 8 \<and> set out \<subseteq> set (m_scan_results c')"
proof -
  let ?p = "SendFrame running (SubnetBroadcast (scan_begin f c)) LanPacket_Scan [] (scan_begin f c)"
  have e: "rc = None" "c' = fst (scan_loop running env 0 0 0 (fst ?p))" "out = take cap (filter (scan_match f) (m_scan_results c'))"
    using assms(3-5) by (auto simp: ldn_Scan_def Let_def split_beta)
  have "ldn_run c'" unfolding e(2) by (intro scan_loop_run assms(2) ldn_run.send ldn_run.scan assms(1))
  then have "scans_wf c'" using ldn_run_wf by (simp add: ldn_wf_def)
  then have d: "distinct (map (\<lambda>r. bssid (common r)) (filter (scan_match f) (m_scan_results c')))"
    and l: "length (filter (scan_match f) (m_scan_results c')) \<le> 8"
    using le_trans [OF length_filter_le]
    by (auto simp: scans_wf_def MaxScanResults_def distinct_map_filter)
  have "distinct (map (\<lambda>r. bssid (common r)) out)" unfolding e(3) take_map [symmetric] using d by simp
  then show ?thesis using e l by (auto simp: min_def dest: in_set_takeD)
qed

theorem Scan_result_witness:
  "distinct (map (\<lambda>r. bssid (common r))
     (snd (fst (ldn_Scan True (\<lambda>i c. fst (OnControlFrame True 0 (of_nat i) [1, 2] c)) sample_filter 4 (station_console ''10.13.0.9'')))))"
proof -
  define s where "s = station_console ''10.13.0.9''"
  let ?env = "\<lambda>(i::nat) c. fst (OnControlFrame True 0 (of_nat i) [1, 2] c)"
  have ip: "ParseIp ''10.13.0.9'' \<noteq> 0" by (simp add: sample_ips)
  note g = station_console_facts [OF ip, folded s_def]
  have run: "ldn_run s" unfolding s_def by (rule station_console_run)
  obtain rc out c' ds where r: "ldn_Scan True ?env sample_filter 4 s = ((rc, out), c', ds)"
    by (metis prod.collapse)
  have "distinct (map (\<lambda>r. bssid (common r)) out)"
    using Scan_result [OF run ldn_run.frame _ _ r] g(1) by simp
  then show ?thesis unfolding s_def [symmetric] r by simp
qed

text \<open>C26: The outcomes of \<^verbatim>\<open>Connect\<close>, which always returns. Before the console is initialised it reports a bad state, for
  a description without nodes the error 30, and in both cases nothing changes and nothing is sent. Otherwise it
  ends in one of two ways: success, and the console is in the connected state; or the error 64, and no join is
  active. It succeeds when the confirmation arrives in any of the first 299 polling rounds, and fails when it
  never arrives.\<close>

theorem Connect_outcome:
  assumes "ldn_Connect running env dat info c = (rc, c', ds)"
  shows "if m_state c = CS_None then rc = BadState \<and> c' = c \<and> ds = []
     else if nodeCount (ldn info) = 0 then rc = MakeError ModuleID 30 \<and> c' = c \<and> ds = []
     else (rc = None \<and> m_state c' = CS_StationConnected \<or> rc = MakeError LdnModuleId 64 \<and> \<not> m_join_active c') \<and>
       (\<forall>k < 299. (\<forall>c. m_state (env k c) = CS_StationConnected) \<longrightarrow> rc = None) \<and>
       (m_state c \<noteq> CS_StationConnected \<and>
          (\<forall>i c. m_state c \<noteq> CS_StationConnected \<longrightarrow> m_state (env i c) \<noteq> CS_StationConnected) \<longrightarrow> rc \<noteq> None)"
proof (cases "m_state c = CS_None \<or> nodeCount (ldn info) = 0")
  case True
  with assms show ?thesis by (auto simp: ldn_Connect_def)
next
  case False
  let ?host = "ipv4Address (nodes (ldn info) ! 0)" and ?my = "enc_NodeInfo (my_node dat (join_begin info c))"
  let ?c = "fst (SendFrame running ?host LanPacket_Connect ?my (join_begin info c))"
  let ?r = "connect_poll running env ?host ?my 0 ?c"
  have e: "rc = (if fst ?r then None else MakeError LdnModuleId 64)"
      "c' = (if fst ?r then fst (snd ?r) else join_abort (fst (snd ?r)))"
    using assms False by (auto simp: ldn_Connect_def Let_def split_beta split: if_splits)
  have st: "m_state ?c = m_state c"
    using SendFrame_state [of running ?host LanPacket_Connect ?my "join_begin info c"] by (auto simp: join_begin_def)
  have "rc = None" if "k < 299" "\<forall>c. m_state (env k c) = CS_StationConnected" for k
    using connect_poll_reached [of env k 0] that e(1) by auto
  moreover have "rc \<noteq> None" if "m_state c \<noteq> CS_StationConnected"
      "\<forall>i c. m_state c \<noteq> CS_StationConnected \<longrightarrow> m_state (env i c) \<noteq> CS_StationConnected"
    using connect_poll_never [of env ?c] that st e(1) by (auto simp: MakeError_def)
  moreover have "rc = None \<and> m_state c' = CS_StationConnected \<or> rc = MakeError LdnModuleId 64 \<and> \<not> m_join_active c'"
    using connect_poll_True [of running env ?host ?my 0 ?c] e by (auto simp: join_abort_def)
  ultimately show ?thesis using False by auto
qed

theorem Connect_outcome_witness:
  "fst (ldn_Connect True (\<lambda>i c. c) sample_join (BuildNetwork (host_console ''10.13.0.5'' sample_config))
     (station_console ''10.13.0.9'')) = MakeError LdnModuleId 64"
proof -
  define s where "s = station_console ''10.13.0.9''"
  define info where "info = BuildNetwork (host_console ''10.13.0.5'' sample_config)"
  have ip: "ParseIp ''10.13.0.9'' \<noteq> 0" by (simp add: sample_ips)
  note g = station_console_facts [OF ip, folded s_def]
  have n: "nodeCount (ldn info) \<noteq> 0"
    unfolding info_def by (rule BuildNetwork_facts [OF ldn_run_wf [OF host_console_run]])
  obtain rc c' ds where r: "ldn_Connect True (\<lambda>i c. c) sample_join info s = (rc, c', ds)" by (metis prod.collapse)
  show ?thesis
    unfolding s_def [symmetric] info_def [symmetric] r using Connect_outcome [OF r] g(1) n by auto
qed

text \<open>C23: Leaving works in both directions. When a joined station disconnects and its goodbye arrives, it
  is out of the connected state and the host has exactly one station fewer, and its session filter no longer
  accepts the leaver's address (packets to LAN-mode ports do not pass that filter). When a host with stations destroys its network and the goodbye arrives at a station
  joined to it, the station is back in the station state with the reason that the host destroyed the
  network, and no join is active.\<close>

theorem leave_end_to_end:
  assumes "ldn_run h" and "m_state h = CS_AccessPointCreated" and "m_join_active s"
    and "m_join_target_bssid s = bssid (common (m_network_info h))" and "m_ipv4_address s \<noteq> m_ipv4_address h"
    and "FindStationByIp (m_ipv4_address s) h \<noteq> None" and "m_state s = CS_StationConnected"
    and "nodeCount (ldn (m_network_info s)) > 0" and "ipv4Address (nodes (ldn (m_network_info s)) ! 0) = m_ipv4_address h"
    and "ldn_Disconnect True s = (rc, s', q)" and "DestroyNetwork True h = (rc', h'', r)"
  shows "(\<exists>d. q = [d] \<and> dg_dst d = m_ipv4_address h \<and> m_state s' = CS_Station \<and> \<not> m_join_active s' \<and>
       (case OnControlFrame True t (m_ipv4_address s) (dg_payload d) h of
          (h', ds) \<Rightarrow> StationCount h' + 1 = StationCount h \<and> \<not> IsKnownSessionPeer (m_ipv4_address s) h')) \<and>
     (\<exists>d. r = [d] \<and> dg_dst d = SubnetBroadcast h \<and> m_state h'' = CS_AccessPoint \<and>
       (case OnControlFrame True t (m_ipv4_address h) (dg_payload d) s of
          (s'', ds) \<Rightarrow> m_state s'' = CS_Station \<and> m_disconnect_reason s'' = 3 \<and> \<not> m_join_active s''))"
proof
  let ?mac = "bssid (common (m_network_info h))"
  have wf: "ldn_wf h" using ldn_run_wf [OF assms(1)] .
  note mac = host_bssid_length [OF wf assms(2)]
  obtain nid where nid: "FindStationByIp (m_ipv4_address s) h = Some nid" using assms(6) by auto
  obtain k where k: "SendFrame True (m_ipv4_address h) LanPacket_RelayBye (bye_body ?mac (m_ipv4_address s)) s =
      (s\<lparr>m_tx_seq := k\<rparr>, [(m_ipv4_address s, ControlPort, m_ipv4_address h, ControlPort, Proto_Udp,
        build_frame k LanPacket_RelayBye (bye_body ?mac (m_ipv4_address s)))])"
    "parse_frame (build_frame k LanPacket_RelayBye (bye_body ?mac (m_ipv4_address s))) =
      Some (LanPacket_RelayBye, k, bye_body ?mac (m_ipv4_address s))"
    using SendFrame_bye [OF mac] by metis
  let ?d = "(m_ipv4_address s, ControlPort, m_ipv4_address h, ControlPort, Proto_Udp,
        build_frame k LanPacket_RelayBye (bye_body ?mac (m_ipv4_address s)))"
  have "q = [?d] \<and> m_state s' = CS_Station \<and> \<not> m_join_active s'"
    using assms(3,4,8-10) k(1) by (auto simp: ldn_Disconnect_def)
  moreover obtain h' ds where h': "HandleRelayBye True (m_ipv4_address s) (bye_body ?mac (m_ipv4_address s)) h = (h', ds)"
    by (rule prod.exhaust)
  moreover note b = bye_drops [OF wf assms(2) nid refl h']
  then have "\<not> IsKnownSessionPeer (m_ipv4_address s) h'"
    using listed_host [of h'] assms(5) by (auto simp: IsKnownSessionPeer_def in_session_def)
  ultimately show "\<exists>d. q = [d] \<and> dg_dst d = m_ipv4_address h \<and> m_state s' = CS_Station \<and> \<not> m_join_active s' \<and>
       (case OnControlFrame True t (m_ipv4_address s) (dg_payload d) h of
          (h', ds) \<Rightarrow> StationCount h' + 1 = StationCount h \<and> \<not> IsKnownSessionPeer (m_ipv4_address s) h')"
    using b dispatch(3) [OF k(2), of True t "m_ipv4_address s" h]
    by (intro exI [of _ ?d]) (simp add: dg_dst_def dg_payload_def)
  have "StationCount h > 0" using b by linarith
  moreover obtain k where k: "SendFrame True (SubnetBroadcast h) LanPacket_RelayBye (bye_body ?mac (m_ipv4_address h)) h =
      (h\<lparr>m_tx_seq := k\<rparr>, [(m_ipv4_address h, ControlPort, SubnetBroadcast h, ControlPort, Proto_Udp,
        build_frame k LanPacket_RelayBye (bye_body ?mac (m_ipv4_address h)))])"
    "parse_frame (build_frame k LanPacket_RelayBye (bye_body ?mac (m_ipv4_address h))) =
      Some (LanPacket_RelayBye, k, bye_body ?mac (m_ipv4_address h))"
    using SendFrame_bye [OF mac] by metis
  ultimately show "\<exists>d. r = [d] \<and> dg_dst d = SubnetBroadcast h \<and> m_state h'' = CS_AccessPoint \<and>
       (case OnControlFrame True t (m_ipv4_address h) (dg_payload d) s of
          (s'', ds) \<Rightarrow> m_state s'' = CS_Station \<and> m_disconnect_reason s'' = 3 \<and> \<not> m_join_active s'')"
    using assms(3,4,7,9,11) bye_facts [OF mac, of "m_ipv4_address h"]
    by (auto simp: DestroyNetwork_def dg_dst_def dg_payload_def dispatch(3) HandleRelayBye_def)
qed

theorem leave_end_to_end_witness:
  "let h = host_with_station;
       s = new_LdnControl\<lparr>m_state := CS_StationConnected, m_join_active := True, m_ipv4_address := 7,
             m_join_target_bssid := bssid (common (m_network_info h)), m_network_info := m_network_info h\<rparr>;
       (rc, s', q) = ldn_Disconnect True s; (rc', h'', r) = DestroyNetwork True h
   in m_state s' = CS_Station \<and> m_state (fst (OnControlFrame True 3 (m_ipv4_address h) (dg_payload (hd r)) s)) = CS_Station"
proof -
  define s where "s = new_LdnControl\<lparr>m_state := CS_StationConnected, m_join_active := True, m_ipv4_address := 7,
     m_join_target_bssid := bssid (common (m_network_info host_with_station)),
     m_network_info := m_network_info host_with_station\<rparr>"
  note f = host_with_station_facts
  note i = host_info_facts [OF ldn_run_wf [OF f(1)] f(2)]
  have g: "m_join_active s" "m_join_target_bssid s = bssid (common (m_network_info host_with_station))"
    "m_ipv4_address s \<noteq> m_ipv4_address host_with_station" "FindStationByIp (m_ipv4_address s) host_with_station \<noteq> None"
    "m_state s = CS_StationConnected" "nodeCount (ldn (m_network_info s)) > 0"
    "ipv4Address (nodes (ldn (m_network_info s)) ! 0) = m_ipv4_address host_with_station"
    using f i by (simp_all add: s_def)
  obtain rc s' q where 1: "ldn_Disconnect True s = (rc, s', q)" by (metis prod.collapse)
  obtain rc' h'' r where 2: "DestroyNetwork True host_with_station = (rc', h'', r)" by (metis prod.collapse)
  have "m_state s' = CS_Station \<and>
      m_state (fst (OnControlFrame True 3 (m_ipv4_address host_with_station) (dg_payload (hd r)) s)) = CS_Station"
    using leave_end_to_end [OF f(1,2) g 1 2, of 3] by (auto simp: split_beta)
  then show ?thesis unfolding Let_def s_def [symmetric] 1 2 prod.case .
qed

text \<open>A station whose heartbeat for the host's network arrives stays in the session as long as the
  next tick comes within 30 seconds of it, whatever was last heard of it before.\<close>

theorem heartbeat_keeps_station:
  assumes "ldn_run h" and "m_state h = CS_AccessPointCreated" and "FindStationByIp sip h \<noteq> None"
    and "parse_frame p = Some (LanPacket_RelayHeartbeat, q, bye_body (bssid (common (m_network_info h))) ip)"
    and "now - t < RelayPeerTimeoutTicks"
  shows "IsKnownSessionPeer sip (fst (Tick True now (fst (OnControlFrame True t sip p h))))"
proof -
  let ?body = "bye_body (bssid (common (m_network_info h))) ip"
  obtain nid where nid: "FindStationByIp sip h = Some nid" using assms(3) by auto
  have wf: "ldn_wf h" using ldn_run_wf [OF assms(1)] .
  note slot = stations_wf_slot [OF _ nid]
  define st where "st = (m_stations h ! (nid - 1))\<lparr>last_seen := t\<rparr>"
  define h1 where "h1 = h\<lparr>m_stations := (m_stations h)[nid - 1 := st]\<rparr>"
  have e: "fst (OnControlFrame True t sip p h) = h1"
    using dispatch(4) [OF assms(4)] bye_facts [OF host_bssid_length [OF wf assms(2)], of ip] assms(2) nid
    by (simp add: HandleRelayHeartbeat_def h1_def st_def)
  have run: "ldn_run h1" using ldn_run.frame [OF assms(1), of True t sip p] e by simp
  have wf1: "ldn_wf h1" using ldn_run_wf [OF run] .
  have sw: "stations_wf (m_stations h)" "stations_wf (m_stations h1)" using wf wf1 by (simp_all add: ldn_wf_def)
  have k: "nid - 1 < length (m_stations h)" using slot [OF sw(1)] by simp
  have st: "st \<in> set (m_stations h1)" "active st" "src_ip st = sip" "fresh now st"
    using slot [OF sw(1)] set_update_memI [OF k, of st] assms(5) by (simp_all add: h1_def st_def fresh_def)
  obtain c' ds where c': "Tick True now h1 = (c', ds)" by (rule prod.exhaust)
  have wf2: "ldn_wf c'" using ldn_wf_Tick [OF wf1, of True now] c' by simp
  have host: "m_state h1 = CS_AccessPointCreated" using assms(2) by (simp add: h1_def)
  have "m_state c' = CS_AccessPointCreated \<and> st \<in> set (m_stations c')"
  proof (cases "now - m_last_beacon h1 < RelayBeaconIntervalTicks")
    case True
    with c' host st(1) show ?thesis by (simp add: Tick_def)
  next
    case False
    let ?ss = "map (reap now) (take StationCountMax (m_stations h1)) @ drop StationCountMax (m_stations h1)"
    have "st \<in> set (filter active ?ss)" using st by (simp only: filter_reap_stations [OF sw(2)]) simp
    moreover have "c' = fst (UpdateNodes True (h1\<lparr>m_last_beacon := now, m_stations := ?ss\<rparr>))"
      using False c' host by (simp add: Tick_def Let_def)
    then have "m_stations c' = ?ss" "m_state c' = CS_AccessPointCreated" using host by simp_all
    ultimately show ?thesis by auto
  qed
  then show ?thesis
    unfolding e c' fst_conv using listed_host [OF wf2] st(2,3) by (auto simp: IsKnownSessionPeer_def)
qed

theorem heartbeat_keeps_station_witness:
  "IsKnownSessionPeer 7 (fst (Tick True (RelayPeerTimeoutTicks + 1) (fst (OnControlFrame True 2 7
     (build_frame 1 LanPacket_RelayHeartbeat (bye_body (bssid (common (m_network_info host_with_station))) 7))
     host_with_station))))"
proof -
  note f = host_with_station_facts
  have "length (bye_body (bssid (common (m_network_info host_with_station))) 7) \<le> sizeof_NetworkInfo"
    using bye_facts(1) [OF host_bssid_length [OF ldn_run_wf [OF f(1)] f(2)]]
    by (simp add: sizeof_RelayHeartbeatPayload_def sizeof_NetworkInfo_def)
  from heartbeat_keeps_station [OF f(1,2,4) parse_build [OF this]] show ?thesis
    by (simp add: RelayPeerTimeoutTicks_def)
qed

text \<open>C22: Whatever frame reaches a console that is joining or has joined, it sends nothing, its network description
  only changes to one of the network it joined, and only such a description makes it connected. If that
  description has a node count of at most eight, which the code does not check, it lists the console's own address
  as a connected node; for a larger count the code reads past its array, and nothing is claimed about what it
  finds there.\<close>

theorem station_session_scoped:
  assumes "m_state c = CS_Station \<or> m_state c = CS_StationConnected" and "m_join_active c"
    and "OnControlFrame running now sip p c = (c', ds)"
  shows "(m_network_info c' = m_network_info c \<or> bssid (common (m_network_info c')) = m_join_target_bssid c) \<and>
     (m_state c = CS_Station \<and> m_state c' = CS_StationConnected \<longrightarrow>
        bssid (common (m_network_info c')) = m_join_target_bssid c \<and>
        (unat (nodeCount (ldn (m_network_info c'))) \<le> NodeCountMax \<longrightarrow> listed_node (m_ipv4_address c) c')) \<and>
     ds = []"
proof (cases "parse_frame p")
  case (Some f)
  obtain ty seq body where f: "f = (ty, seq, body)" by (rule prod_cases3)
  have noh: "m_state c \<noteq> CS_AccessPointCreated" using assms(1) by auto
  show ?thesis
  proof (cases "ty = LanPacket_SyncNetwork")
    case True
    have c': "c' = HandleSyncNetwork now body seq c" "ds = []"
      using assms(3) Some f True by (auto simp: OnControlFrame_def LanPacket_Scan_def LanPacket_ScanResp_def
          LanPacket_Connect_def LanPacket_SyncNetwork_def)
    show ?thesis
      using assms(2) unfolding c' by (auto simp: HandleSyncNetwork_def Let_def listed_node_def)
  next
    case False
    have "c' = c \<or> c' = HandleScanResp sip body c \<or> c' = fst (HandleRelayBye running sip body c)" "ds = []"
      using assms(3) Some f False noh
      by (auto simp: OnControlFrame_def HandleScan_def HandleConnect_def HandleRelayHeartbeat_def HandleRelayBye_def
          Let_def split: if_splits)
    moreover have "m_network_info (HandleScanResp sip body c) = m_network_info c"
      "m_state (HandleScanResp sip body c) = m_state c"
      by (auto simp: HandleScanResp_def Let_def split: option.splits)
    moreover have "m_network_info (fst (HandleRelayBye running sip body c)) = m_network_info c"
      "m_state c = CS_Station \<Longrightarrow> m_state (fst (HandleRelayBye running sip body c)) = m_state c"
      using noh by (auto simp: HandleRelayBye_def Let_def)
    ultimately show ?thesis by auto
  qed
qed (use assms(3) in \<open>auto simp: OnControlFrame_def\<close>)

theorem station_session_scoped_witness:
  "let i = m_network_info host_with_station;
       s = join_begin i ((station_console ''10.13.0.9'')\<lparr>m_ipv4_address := 7\<rparr>);
       (s', ds) = OnControlFrame True 3 0x0A0D0005 (build_frame 1 LanPacket_SyncNetwork (enc_NetworkInfo i)) s
   in m_state s = CS_Station \<and> m_state s' = CS_StationConnected \<and> listed_node 7 s' \<and> ds = []"
proof -
  let ?i = "m_network_info host_with_station" and ?p = "build_frame 1 LanPacket_SyncNetwork (enc_NetworkInfo (m_network_info host_with_station))"
  define s where "s = join_begin ?i ((station_console ''10.13.0.9'')\<lparr>m_ipv4_address := 7\<rparr>)"
  note f = host_with_station_facts
  have wf: "ldn_wf host_with_station" using ldn_run_wf [OF f(1)] .
  then have ok: "NetworkInfo_ok ?i" by (simp add: ldn_wf_def buffers_wf_def)
  have ip: "ParseIp ''10.13.0.9'' \<noteq> 0" by (simp add: sample_ips)
  have g: "m_state s = CS_Station" "\<not> m_relay_sync_seq_valid s" "m_join_target_bssid s = bssid (common ?i)" "m_join_active s"
    "m_ipv4_address s = 7"
    using station_console_facts [OF ip] by (simp_all add: s_def join_begin_def)
  have p: "parse_frame ?p = Some (LanPacket_SyncNetwork, 1, enc_NetworkInfo ?i)"
    by (rule parse_build) (simp add: info.enc_length [OF ok] sizeof_NetworkInfo_def)
  obtain nid where "FindStationByIp 7 host_with_station = Some nid" using f(4) by auto
  then have "listed_node 7 host_with_station"
    using listed_host [OF wf f(2)] stations_wf_slot [of host_with_station 7 nid] wf by (auto simp: ldn_wf_def)
  with sync_confirms [OF g(1-3) ok p refl] g(5) have on: "m_state (fst (OnControlFrame True 3 0x0A0D0005 ?p s)) = CS_StationConnected"
    "m_network_info (fst (OnControlFrame True 3 0x0A0D0005 ?p s)) = ?i" by simp_all
  have n: "unat (nodeCount (ldn ?i)) \<le> NodeCountMax"
    using nodeCount_used [OF wf f(2)] length_used_le wf by (simp add: ldn_wf_def)
  obtain s' ds where o: "OnControlFrame True 3 0x0A0D0005 ?p s = (s', ds)" by (rule prod.exhaust)
  from station_session_scoped [OF disjI1 [OF g(1)] g(4) o] o on n g
  show ?thesis unfolding Let_def s_def [symmetric] o by simp
qed

text \<open>The sequence filter is advanced before the network of a description is checked: a description
  of a foreign network is not taken over, but after it every description of the joined network whose
  sequence number is among the last 256 of the foreign sender is dropped as stale.\<close>

theorem foreign_sync_shadows_own:
  assumes "m_state c = CS_Station \<or> m_state c = CS_StationConnected" and "m_join_active c"
    and "length body = sizeof_NetworkInfo" and "bssid (common (dec_NetworkInfo body)) \<noteq> m_join_target_bssid c"
    and "q \<noteq> 0" and "\<not> seq_stale q c" and "r \<noteq> 0" and "q - r < 256"
  shows "m_network_info (HandleSyncNetwork now body q c) = m_network_info c \<and>
     HandleSyncNetwork now' own r (HandleSyncNetwork now body q c) = HandleSyncNetwork now body q c"
proof -
  let ?c = "c\<lparr>m_relay_sync_seq := q, m_relay_sync_seq_valid := True\<rparr>"
  have "HandleSyncNetwork now body q c = ?c" using assms by (auto simp: HandleSyncNetwork_def Let_def)
  moreover have "HandleSyncNetwork now' own r ?c = ?c"
    using assms(7,8) by (simp add: HandleSyncNetwork_def seq_stale_def)
  ultimately show ?thesis by simp
qed

theorem foreign_sync_shadows_own_witness:
  "let c = (join_begin zero_NetworkInfo (station_console ''10.13.0.9''))\<lparr>m_join_target_bssid := [1, 2, 3, 4, 5, 6]\<rparr>;
       c' = HandleSyncNetwork 1 (enc_NetworkInfo zero_NetworkInfo) 200 c
   in HandleSyncNetwork 2 (enc_NetworkInfo zero_NetworkInfo) 100 c' = c'"
proof -
  define c where "c = (join_begin zero_NetworkInfo (station_console ''10.13.0.9''))\<lparr>m_join_target_bssid := [1, 2, 3, 4, 5, 6]\<rparr>"
  have ip: "ParseIp ''10.13.0.9'' \<noteq> 0" by (simp add: sample_ips)
  have g: "m_state c = CS_Station \<or> m_state c = CS_StationConnected" "m_join_active c" "\<not> seq_stale 200 c"
    using station_console_facts [OF ip] by (simp_all add: c_def join_begin_def seq_stale_def)
  have l: "length (enc_NetworkInfo zero_NetworkInfo) = sizeof_NetworkInfo"
    using info.enc_length [OF zero_NetworkInfo_ok] by (simp add: sizeof_NetworkInfo_def)
  have b: "bssid (common (dec_NetworkInfo (enc_NetworkInfo zero_NetworkInfo))) \<noteq> m_join_target_bssid c"
    unfolding info.dec_enc_Nil [OF zero_NetworkInfo_ok] c_def
    by (simp add: zero_NetworkInfo_def dec_NetworkInfo_def dec_Common_def take_Cons' numeral_eq_Suc)
  show ?thesis
    unfolding Let_def c_def [symmetric]
    using foreign_sync_shadows_own [OF g(1,2) l b _ g(3), of 100 1 2 "enc_NetworkInfo zero_NetworkInfo"] by simp
qed

end
