(* ===== verification/Bsd_Props.thy ===== *)
theory Bsd_Props
  imports Bsd_Invariant Ldn_Session
begin

text \<open>
  Properties of the socket service: exclusive use of ephemeral ports, the outcome of \<^verbatim>\<open>Bind\<close>, the
  descriptors that are not tracked or not released, and which replies the game's library misreads.
\<close>

section \<open>Sample session\<close>

text \<open>A real service that answers every call with descriptor 5, used in the witnesses.\<close>

definition sample_env :: "unit bsd_env" where
  "sample_env = \<lparr>be_fwd = (\<lambda>q w. (\<lparr>fr_rc = 0, fr_words = [5, 0], fr_bufs = map (\<lambda>n. replicate n 0) (fq_out q)\<rparr>, w)),
     be_wait = (\<lambda>s. (False, s)), be_nifm = nifm_ok, be_ip_config = None\<rparr>"

definition sample_svc :: BsdMitmService where
  "sample_svc = fst (BsdMitmService_new 81 sample_bsd)"

definition any_port :: "u16 \<Rightarrow> SockAddrIn" where
  "any_port p = inet_any\<lparr>sin_port := bswap16 p\<rparr>"

lemma consistent_empty: "m_sockets (b_mgr b) = [] \<Longrightarrow> consistent b"
  by (simp add: consistent_def GetProxySocket_def)

lemma create_socket_mgr [simp]: "b_mgr (snd (snd (create_socket cmd e d t p svc b))) = b_mgr b"
  by (simp add: create_socket_def split_beta Let_def serviceMitmDispatch_def)

lemma sample_wait: "wait_ok (be_wait sample_env)"
  by (simp add: wait_ok_def sample_env_def)

lemma inet_in_enc:
  "SockAddrIn_ok a \<Longrightarrow> sin_family a = family_val AF_Inet \<Longrightarrow> inet_in (Some (enc_SockAddrIn a)) = Some a"
  by (simp add: inet_in_def addr_in_def sa.enc_length sa.dec_enc_Nil)

lemma any_port_ok [simp]: "SockAddrIn_ok (any_port p)" "sin_family (any_port p) = family_val AF_Inet" "GetPort (any_port p) = p"
   "IsAny (Addr (any_port p))"
  by (simp_all add: any_port_def inet_any_def zero_SockAddrIn_def SockAddrIn_ok_def GetPort_def Addr_def IsAny_def FromNetwork_def)

section \<open>Bind\<close>

lemma inet_in_family: "inet_in addr = Some a \<Longrightarrow> sin_family a = family_val AF_Inet"
  by (auto simp: inet_in_def split: option.splits if_splits)

text \<open>The wildcard address is not on the LAN, so \<open>Bind\<close> never replaces the address it is given.\<close>

lemma bind_target_id [simp]: "bind_target a b = a"
  by (auto simp: bind_target_def IsAny_def Addr_def FromNetwork_def SockAddrIn_IsLanAddress_def IsLanAddress_def
      LAN_NETWORK_MASK_def LAN_NETWORK_BASE_def)

definition fresh_socket :: "SocketInfo \<Rightarrow> ProxySocket" where
  "fresh_socket i = (new_ProxySocket (si_type i) (si_protocol i))\<lparr>m_broadcast := si_broadcast i\<rparr>"

definition add_socket :: "int \<Rightarrow> ProxySocket \<Rightarrow> 'w ProxySocketManager \<Rightarrow> 'w ProxySocketManager" where
  "add_socket fd s m = m\<lparr>m_sockets := m_sockets m @ [(fd, s)]\<rparr>"

lemma on_socket_new:
  assumes "GetProxySocket fd m = None"
  shows "on_socket fd f (add_socket fd s m) = add_socket fd (f s) m"
proof -
  have "update_socket fd f (m_sockets m) = m_sockets m"
    unfolding update_socket_def by (rule map_idI) (use assms in \<open>force simp: GetProxySocket_def map_of_eq_None_iff\<close>)
  then show ?thesis by (simp add: on_socket_def add_socket_def update_socket_def)
qed

lemma GetProxySocket_add [simp]:
  "GetProxySocket fd m = None \<Longrightarrow> GetProxySocket fd (add_socket fd s m) = Some s"
  "GetProxySocket fd m = None \<Longrightarrow> GetProxySocket fd (add_socket fd s m\<lparr>m_port_pool := p\<rparr>) = Some s"
  by (simp_all add: GetProxySocket_def add_socket_def map_add_def)

text \<open>What \<open>Bind\<close> does with a socket that becomes a proxy socket, from the outcome of the port claim.\<close>

lemma bind_proxy_new:
  assumes "GetProxySocket fd (b_mgr b) = None" and "length (m_sockets (b_mgr b)) < MAX_PROXY_SOCKETS" and "GetPort a \<noteq> 0"
    and "ReservePort (GetPort a) (si_protocol i) (add_socket fd (fresh_socket i) (b_mgr b)) = (ok, m1)"
  shows "bind_proxy e fd a i svc b =
     (if \<not> ok then (errno_val E_AddrInUse, svc, b\<lparr>b_mgr := m1\<rparr>)
      else case bind_socket fd a (b\<lparr>b_mgr := m1\<rparr>) of
          (Inl err, b3) \<Rightarrow> (errno_val err, svc, b3)
        | (Inr _, b3) \<Rightarrow>
           (let (svc2, b5) = (if GetPort a = 30000 then browse_bound e (session_mode (GetPort a) svc) (mark_proxy fd b3)
                        else (session_mode (GetPort a) svc, mark_proxy fd b3))
            in (0, svc2, b5\<lparr>b_mgr := DeliverPendingPackets (b_netmap b5) (Some fd) (GetPort a) (si_protocol i) (b_mgr b5)\<rparr>)))"
proof -
  let ?s = "new_ProxySocket (si_type i) (si_protocol i)"
  have cr: "CreateProxySocket fd (si_type i) (si_protocol i) (b_mgr b) = (Some fd, add_socket fd ?s (b_mgr b))"
    using assms(1,2) by (simp add: CreateProxySocket_def GetProxySocket_def add_socket_def)
  have br: "(if si_broadcast i then on_socket fd (SetBroadcastEnabled True) (add_socket fd ?s (b_mgr b))
      else add_socket fd ?s (b_mgr b)) = add_socket fd (fresh_socket i) (b_mgr b)"
    using on_socket_new [OF assms(1), of "SetBroadcastEnabled True"]
    by (simp add: fresh_socket_def SetBroadcastEnabled_def new_ProxySocket_def)
  show ?thesis
    by (simp only: bind_proxy_def cr prod.case option.case br)
      (use assms(3,4) in \<open>simp add: claim_port_def Let_def split: prod.split sum.split\<close>)
qed

lemma browse_bound_frame:
  assumes "\<not> HasRealAddress (b_netmap b)"
  shows "b_mgr (snd (browse_bound e svc b)) = b_mgr b" "g_socket_info (snd (browse_bound e svc b)) = g_socket_info b"
    "b_world (snd (browse_bound e svc b)) = b_world b"
  using Enter_frame by (simp_all add: browse_bound_def TranslationEnabled_def split_beta Let_def EnterLocalNetworkModePublic_def)

lemma deliver_socket:
  assumes "mgr_wf m" and "GetProxySocket fd m = Some s"
  shows "\<exists>s'. GetProxySocket fd (DeliverPendingPackets g (Some fd) port pr m) = Some s' \<and> m_local_addr s' = m_local_addr s \<and>
    m_protocol s' = m_protocol s \<and> m_state s' = m_state s \<and> m_broadcast s' = m_broadcast s"
  using deliver_state(1) [OF assms(1) _ refl, of fd s g port pr] assms(2)
  by (simp add: GetProxySocket_def map_of_update_socket deliver_keeps)

lemma info_mark_proxy: "info_of fd b = Some i \<Longrightarrow> info_of fd (mark_proxy fd b) = Some (i\<lparr>si_is_proxy := True\<rparr>)"
  by (simp add: info_of_def mark_proxy_def map_of_map_entry)

lemma ReservePort_add:
  "ReservePort port pr (add_socket fd s m) =
     (\<not> IsPortAllocated port pr (m_port_pool m),
      add_socket fd s (m\<lparr>m_port_pool := snd (AllocateSpecificPort port pr (m_port_pool m))\<rparr>))"
  by (auto simp: ReservePort_def add_socket_def AllocateSpecificPort_def IsPortAllocated_def Let_def)

lemma mgr_wf_add:
  assumes "mgr_wf m" and "GetProxySocket fd m = None" and "length (m_sockets m) < MAX_PROXY_SOCKETS" and "sock_wf s"
  shows "mgr_wf (add_socket fd s m)"
  using assms pend_frame [of "m\<lparr>m_sockets := m_sockets m @ [(fd, s)]\<rparr>" m]
  by (auto simp: mgr_wf_def add_socket_def GetProxySocket_def map_of_eq_None_iff)

definition bound_socket :: "SocketInfo \<Rightarrow> SockAddrIn \<Rightarrow> ProxySocket" where
  "bound_socket i a = (fresh_socket i)\<lparr>m_local_addr := a, m_state := Bound\<rparr>"

lemma bound_socket_sel [simp]:
  "m_state (bound_socket i a) = Bound" "m_local_addr (bound_socket i a) = a" "m_protocol (bound_socket i a) = si_protocol i"
  "m_broadcast (bound_socket i a) = si_broadcast i"
  by (simp_all add: bound_socket_def fresh_socket_def new_ProxySocket_def)

lemma sock_wf_bound: "sock_wf (bound_socket i a)"
  by (rule sock_wf_frame [OF sock_wf_new]) (simp_all add: bound_socket_def fresh_socket_def)

lemma bind_proxy_free:
  assumes "bsd_inv b" and "sin_family a = family_val AF_Inet" and "info_of fd b = Some i" and "GetProxySocket fd (b_mgr b) = None"
    and "length (m_sockets (b_mgr b)) < MAX_PROXY_SOCKETS" and "GetPort a \<noteq> 0"
    and "\<not> IsPortAllocated (GetPort a) (si_protocol i) (m_port_pool (b_mgr b))"
  shows "\<exists>svc' b' s. bind_proxy e fd a i svc b = (0, svc', b') \<and> b_world b' = b_world b \<and>
     info_of fd b' = Some (i\<lparr>si_is_proxy := True\<rparr>) \<and> GetProxySocket fd (b_mgr b') = Some s \<and> m_state s = Bound \<and>
     m_local_addr s = a \<and> m_protocol s = si_protocol i \<and> m_broadcast s = si_broadcast i"
proof -
  let ?pool = "(b_mgr b)\<lparr>m_port_pool := snd (AllocateSpecificPort (GetPort a) (si_protocol i) (m_port_pool (b_mgr b)))\<rparr>"
  let ?m3 = "add_socket fd (bound_socket i a) ?pool"
  have none: "GetProxySocket fd ?pool = None" using assms(4) by (simp add: GetProxySocket_def)
  define b4 where "b4 = mark_proxy fd (b\<lparr>b_mgr := ?m3\<rparr>)"
  define fin where "fin = (if GetPort a = 30000 then browse_bound e (session_mode (GetPort a) svc) b4
      else (session_mode (GetPort a) svc, b4))"
  define b' where "b' = (snd fin)\<lparr>b_mgr := DeliverPendingPackets (b_netmap (snd fin)) (Some fd) (GetPort a)
      (si_protocol i) (b_mgr (snd fin))\<rparr>"
  have "bind_socket fd a (b\<lparr>b_mgr := add_socket fd (fresh_socket i) ?pool\<rparr>) = (Inr (), b\<lparr>b_mgr := ?m3\<rparr>)"
    using none assms(2) by (simp add: bind_socket_def sock_Bind_def bound_socket_def on_socket_new)
      (simp add: fresh_socket_def new_ProxySocket_def)
  then have "bind_proxy e fd a i svc b = (0, fst fin, b')"
    using assms(7) bind_proxy_new [OF assms(4,5,6) ReservePort_add, where e = e and svc = svc]
    by (simp add: Let_def split_beta fin_def b4_def b'_def)
  moreover have b4: "\<not> HasRealAddress (b_netmap b4)" "b_mgr b4 = ?m3" "b_world b4 = b_world b"
      "info_of fd b4 = Some (i\<lparr>si_is_proxy := True\<rparr>)"
    using assms(1,3) by (simp_all add: b4_def bsd_inv_def info_mark_proxy info_of_def) (simp_all add: mark_proxy_def map_of_map_entry)
  moreover have fin: "b_mgr (snd fin) = ?m3" "b_world (snd fin) = b_world b" "info_of fd (snd fin) = Some (i\<lparr>si_is_proxy := True\<rparr>)"
    using b4 browse_bound_frame [OF b4(1)] by (simp_all add: fin_def info_of_def)
  moreover have "mgr_wf ?m3"
    by (rule mgr_wf_add) (use assms none sock_wf_bound in \<open>simp_all add: bsd_inv_def mgr_inv_def mgr_wf_set_pool
        mgr_wf_pool pool_inv_AllocateSpecificPort\<close>)
  from deliver_socket [OF this GetProxySocket_add(1) [OF none], of "b_netmap (snd fin)" "GetPort a" "si_protocol i"]
  have "\<exists>s. GetProxySocket fd (b_mgr b') = Some s \<and> m_state s = Bound \<and> m_local_addr s = a \<and>
      m_protocol s = si_protocol i \<and> m_broadcast s = si_broadcast i"
    by (auto simp: b'_def fin)
  moreover have "info_of fd b' = Some (i\<lparr>si_is_proxy := True\<rparr>)" "b_world b' = b_world b"
    using fin(2,3) by (simp_all add: b'_def info_of_def)
  ultimately show ?thesis by blast
qed

lemma Bind_full:
  assumes "inet_in addr = Some a" and "info_of fd b = Some i" and "promotes a i" and "GetProxySocket fd (b_mgr b) = None"
    and "length (m_sockets (b_mgr b)) \<ge> MAX_PROXY_SOCKETS"
  shows "Bind e fd addr svc b = (answer [errno_val E_NoMem] [], counted svc, b)"
proof -
  have "CreateProxySocket fd (si_type i) (si_protocol i) (b_mgr b) = (None, b_mgr b)"
    using assms(4,5) by (simp add: CreateProxySocket_def GetProxySocket_def Let_def)
  moreover have "SockAddrIn_IsLanAddress a \<or> IsAny (Addr a)" using assms(3) by (auto simp: promotes_def)
  ultimately show ?thesis using assms(1-3) by (simp add: Bind_def bind_proxy_def Let_def)
qed

lemma Bind_cases:
  assumes "bsd_inv b" and "inet_in addr = Some a" and "info_of fd b = Some i" and "GetProxySocket fd (b_mgr b) = None"
    and "length (m_sockets (b_mgr b)) < MAX_PROXY_SOCKETS" and "GetPort a \<noteq> 0"
    and "Bind e fd addr svc b = (r, svc', b')"
  shows "if \<not> promotes a i then
       (let (real, b1) = serviceMitmDispatch e 13 [fd] [addr] [] b in r = out_of [0] real \<and> b' = b1)
     else if IsPortAllocated (GetPort a) (si_protocol i) (m_port_pool (b_mgr b)) then
       r = answer [errno_val E_AddrInUse] [] \<and> info_of fd b' = Some i \<and>
       GetProxySocket fd (b_mgr b') = Some (fresh_socket i) \<and> m_port_pool (b_mgr b') = m_port_pool (b_mgr b)
     else
       r = answer [0] [] \<and> b_world b' = b_world b \<and> info_of fd b' = Some (i\<lparr>si_is_proxy := True\<rparr>) \<and>
       (\<exists>s. GetProxySocket fd (b_mgr b') = Some s \<and> m_state s = Bound \<and> m_local_addr s = a \<and>
          m_protocol s = si_protocol i \<and> m_broadcast s = si_broadcast i)"
proof -
  let ?pool = "(b_mgr b)\<lparr>m_port_pool := snd (AllocateSpecificPort (GetPort a) (si_protocol i) (m_port_pool (b_mgr b)))\<rparr>"
  let ?m = "add_socket fd (fresh_socket i) ?pool"
  note new = bind_proxy_new [OF assms(4,5,6) ReservePort_add, where e = e and svc = "counted svc"]
  have cand: "promotes a i \<Longrightarrow> SockAddrIn_IsLanAddress a \<or> IsAny (Addr a)" by (auto simp: promotes_def)
  have none: "GetProxySocket fd ((b_mgr b)\<lparr>m_port_pool := p\<rparr>) = None" for p using assms(4) by (simp add: GetProxySocket_def)
  consider (real) "\<not> promotes a i"
    | (taken) "promotes a i" "IsPortAllocated (GetPort a) (si_protocol i) (m_port_pool (b_mgr b))"
    | (free) "promotes a i" "\<not> IsPortAllocated (GetPort a) (si_protocol i) (m_port_pool (b_mgr b))" by blast
  then show ?thesis
  proof cases
    case real
    with assms(2,3,7) show ?thesis by (auto simp: Bind_def split_beta Let_def split: if_splits)
  next
    case taken
    then have "bind_proxy e fd a i (counted svc) b = (errno_val E_AddrInUse, counted svc, b\<lparr>b_mgr := ?m\<rparr>)"
      by (simp add: new)
    then have "r = answer [errno_val E_AddrInUse] []" "b' = b\<lparr>b_mgr := ?m\<rparr>"
      using assms(2,3,7) taken cand by (auto simp: Bind_def Let_def split: if_splits)
    moreover have "AllocateSpecificPort (GetPort a) (si_protocol i) (m_port_pool (b_mgr b)) = (False, m_port_pool (b_mgr b))"
      using taken(2) by (auto simp: AllocateSpecificPort_def IsPortAllocated_def Let_def)
    ultimately show ?thesis using taken assms(3) none
      by (simp add: info_of_def) (use assms(4) in \<open>simp add: add_socket_def GetProxySocket_def map_add_def\<close>)
  next
    case free
    obtain svc2 b2 s where bp: "bind_proxy e fd a i (counted svc) b = (0, svc2, b2)" "b_world b2 = b_world b"
        "info_of fd b2 = Some (i\<lparr>si_is_proxy := True\<rparr>)" "GetProxySocket fd (b_mgr b2) = Some s" "m_state s = Bound"
        "m_local_addr s = a" "m_protocol s = si_protocol i" "m_broadcast s = si_broadcast i"
      using bind_proxy_free [OF assms(1) inet_in_family [OF assms(2)] assms(3-6) free(2)] by blast
    moreover have "r = answer [0] []" "b' = b2" using bp(1) assms(2,3,7) free cand by (auto simp: Bind_def Let_def split: if_splits)
    ultimately show ?thesis using free by simp
  qed
qed

text \<open>C10: Outcome of binding a tracked socket that is no proxy socket yet to an IPv4 address with a port. When the
  address is not on the LAN, and is not the wildcard with broadcast enabled on the socket or a LAN signature port,
  the call goes to the real service and neither table changes. Otherwise, with 64 proxy sockets registered
  already, \<^verbatim>\<open>Bind\<close> reports \<^verbatim>\<open>NoMem\<close> and nothing changes. With fewer, and when the port is taken, it reports \<^verbatim>\<open>AddrInUse\<close> and
  leaves an unbound proxy socket registered that the tracking table does not mark. With fewer, and when the port is
  free, the socket becomes a proxy socket bound to exactly the given address, with its protocol and broadcast flag
  kept, and is marked as a proxy; the real service is not called.\<close>

theorem Bind_outcome:
  assumes "bsd_inv b" and "inet_in addr = Some a" and "info_of fd b = Some i" and "GetProxySocket fd (b_mgr b) = None"
    and "GetPort a \<noteq> 0" and "Bind e fd addr svc b = (r, svc', b')"
  shows "if \<not> (SockAddrIn_IsLanAddress a \<or> IsAny (Addr a) \<and> (si_broadcast i \<or> GetPort a = 30000 \<or> GetPort a = 35000 \<or>
         GetPort a = 11452 \<or> 49152 \<le> GetPort a \<and> GetPort a \<le> 49155)) then
       (let (real, b1) = serviceMitmDispatch e 13 [fd] [addr] [] b in r = out_of [0] real \<and> b' = b1)
     else if length (m_sockets (b_mgr b)) \<ge> 64 then r = answer [errno_val E_NoMem] [] \<and> b' = b
     else if IsPortAllocated (GetPort a) (si_protocol i) (m_port_pool (b_mgr b)) then
       r = answer [errno_val E_AddrInUse] [] \<and> info_of fd b' = Some i \<and>
       GetProxySocket fd (b_mgr b') = Some (fresh_socket i) \<and> m_port_pool (b_mgr b') = m_port_pool (b_mgr b)
     else
       r = answer [0] [] \<and> b_world b' = b_world b \<and> info_of fd b' = Some (i\<lparr>si_is_proxy := True\<rparr>) \<and>
       (\<exists>s. GetProxySocket fd (b_mgr b') = Some s \<and> m_state s = Bound \<and> m_local_addr s = a \<and>
          m_protocol s = si_protocol i \<and> m_broadcast s = si_broadcast i)"
proof (cases "length (m_sockets (b_mgr b)) < MAX_PROXY_SOCKETS")
  case True
  from Bind_cases [OF assms(1-4) True assms(5,6)] True show ?thesis
    unfolding promotes_def lan_signature_port_def MAX_PROXY_SOCKETS_def by (simp split: if_splits)
next
  case False
  show ?thesis
  proof (cases "promotes a i")
    case True
    from Bind_full [OF assms(2,3) True assms(4), of e svc] False assms(6) True show ?thesis
      unfolding promotes_def lan_signature_port_def MAX_PROXY_SOCKETS_def by simp
  next
    case real: False
    then have "let (real, b1) = serviceMitmDispatch e 13 [fd] [addr] [] b in r = out_of [0] real \<and> b' = b1"
      using assms(2,3,6) by (auto simp: Bind_def split_beta Let_def split: if_splits)
    with real show ?thesis unfolding promotes_def lan_signature_port_def by simp
  qed
qed

definition sample_info :: SocketInfo where
  "sample_info = \<lparr>si_type = Dgram, si_protocol = Proto_Udp, si_is_proxy = False, si_broadcast = False, si_session_id = 1\<rparr>"

lemma socket_tracked:
  assumes "b = snd (snd (Socket sample_env 2 2 17 sample_svc b0))" "bsd_inv b0" "m_sockets (b_mgr b0) = []" "g_socket_info b0 = []"
  shows "info_of 5 b = Some sample_info" "b_mgr b = b_mgr b0" "bsd_inv b" "consistent b"
proof -
  show "b_mgr b = b_mgr b0" by (simp add: assms(1) Socket_def)
  then show "consistent b" by (simp add: consistent_empty assms(3))
  show "bsd_inv b" by (simp add: assms(1,2) Socket_def table_commands_inv)
  show "info_of 5 b = Some sample_info"
    by (simp add: assms(1,4) Socket_def create_socket_def serviceMitmDispatch_def dispatch_full_def sample_env_def sample_svc_def
        reply_word_def info_of_def sample_info_def sample_bsd_def new_bsd_def BsdMitmService_new_def Let_def to_SocketType_def
        default_protocol_def to_ProtocolType_def)
qed

lemma sample_tracked:
  assumes "b = snd (snd (Socket sample_env 2 2 17 sample_svc sample_bsd))"
  shows "info_of 5 b = Some sample_info" "b_mgr b = new_manager" "bsd_inv b" "consistent b"
  using socket_tracked [OF assms] new_bsd_inv [of new_LdnControl "()"]
  by (simp_all add: sample_bsd_def new_bsd_def new_manager_def)

theorem Bind_outcome_witness:
  "\<exists>b. info_of 5 b = Some sample_info \<and> GetProxySocket 5 (b_mgr b) = None \<and>
     (let (r, svc', b') = Bind sample_env 5 (Some (enc_SockAddrIn (any_port 30000))) sample_svc b
      in r = answer [0] [] \<and> tracked_proxy 5 b' \<and> (\<exists>s. GetProxySocket 5 (b_mgr b') = Some s \<and> m_local_addr s = any_port 30000))"
proof -
  define b where "b = snd (snd (Socket sample_env 2 2 17 sample_svc sample_bsd))"
  note t = sample_tracked [OF b_def]
  obtain r svc' b' where bd: "Bind sample_env 5 (Some (enc_SockAddrIn (any_port 30000))) sample_svc b = (r, svc', b')"
    by (metis prod_cases3)
  have "promotes (any_port 30000) sample_info" by (simp add: promotes_def lan_signature_port_def)
  moreover have "\<not> IsPortAllocated 30000 Proto_Udp (m_port_pool (b_mgr b))"
    by (simp add: t new_manager_def IsPortAllocated_def Let_def pool_init_def GetBitset_def)
  moreover have "GetProxySocket 5 (b_mgr b) = None" by (simp add: t new_manager_def GetProxySocket_def)
  ultimately show ?thesis
    using Bind_outcome [OF t(3) _ t(1) _ _ bd, of "any_port 30000"] t bd
    by (intro exI [of _ b]) (auto simp: inet_in_enc sample_info_def tracked_proxy_def new_manager_def MAX_PROXY_SOCKETS_def)
qed

section \<open>Descriptors left behind\<close>

text \<open>\<^verbatim>\<open>Close\<close> removes the proxy socket only of a descriptor that is marked as a proxy. A socket left registered by a
  failed \<^verbatim>\<open>Bind\<close> therefore survives the close of its descriptor.\<close>

lemma leaked_socket_survives_close:
  assumes "info_of fd b = Some i" and "\<not> si_is_proxy i"
  shows "GetProxySocket fd (b_mgr (snd (snd (Close e fd svc b)))) = GetProxySocket fd (b_mgr b)"
  using assms by (simp add: Close_def forget_fd_def Let_def split_beta serviceMitmDispatch_def)

text \<open>When the real service reports the new descriptor of a duplication in its first reply word and errno 0
  in the second, the duplicate is not tracked unless it is descriptor 0.\<close>

lemma dup_not_tracked:
  assumes "be_fwd e \<lparr>fq_cmd = 20, fq_words = [fd, F_DUPFD, arg], fq_in = [], fq_out = [], fq_handles = [], fq_pid = None\<rparr> (b_world b) =
      (\<lparr>fr_rc = 0, fr_words = [new_fd, 0], fr_bufs = []\<rparr>, w)" and "new_fd > 0"
  shows "g_socket_info (snd (snd (Fcntl e fd F_DUPFD arg svc b))) = g_socket_info b"
  using assms by (simp add: Fcntl_def fcntl_forward_def serviceMitmDispatch_def dispatch_full_def reply_word_def is_dup_def
      F_DUPFD_def F_GETFL_def F_SETFL_def split: option.split)

section \<open>Replies as the game reads them\<close>

text \<open>The game's library reads the words of a reply by position, as \<^verbatim>\<open>{ret, errno}\<close> (comments in \<^verbatim>\<open>Socket\<close> and
  \<^verbatim>\<open>SendTo\<close>). The data commands other than \<^verbatim>\<open>Write\<close> follow that order.\<close>

definition ret_of :: "bsd_out \<Rightarrow> int" where "ret_of r = bo_words r ! 0"

definition errno_of :: "bsd_out \<Rightarrow> int" where "errno_of r = bo_words r ! 1"

lemmas view_defs = ret_of_def errno_of_def answer_def out_of_def reply_word_def

lemma ret_errno_read:
  "ret_of (answer (ret_errno n) bs) = (if n < 0 then -1 else n)"
  "errno_of (answer (ret_errno n) bs) = (if n < 0 then - n else 0)"
  by (simp_all add: view_defs ret_errno_def)

text \<open>The replies with the two words exchanged: an accepted connection is descriptor 0 with the real descriptor
  as errno, and a written proxy socket took 0 bytes with the count as errno.\<close>

lemma accept_reads_swapped:
  assumes "be_fwd e \<lparr>fq_cmd = 12, fq_words = [fd], fq_in = [], fq_out = [n], fq_handles = [], fq_pid = None\<rparr> (b_world b) =
      (\<lparr>fr_rc = 0, fr_words = [new_fd, 0], fr_bufs = bufs\<rparr>, w)"
  shows "ret_of (fst (Accept e fd n svc b)) = 0" "errno_of (fst (Accept e fd n svc b)) = new_fd"
  using assms by (simp_all add: Accept_def serviceMitmDispatch_def dispatch_full_def view_defs)

lemma write_reads_swapped:
  assumes "tracked_proxy fd b" "GetProxySocket fd (b_mgr b) = Some s" "send_on fd s data b = (n, b')" "0 \<le> n"
  shows "ret_of (fst (Write e fd data svc b)) = 0" "errno_of (fst (Write e fd data svc b)) = n"
  using assms by (simp_all add: Write_def view_defs)

text \<open>A send whose proxy socket could not be created reports 114 bytes sent and no error.\<close>

lemma unreachable_reads_as_sent:
  assumes "lan_dest_in addr" "info_of fd b = None" "GetProxySocket fd (b_mgr b) = None"
  shows "ret_of (fst (SendTo e fd flags data addr svc b)) = 114" "errno_of (fst (SendTo e fd flags data addr svc b)) = 0"
  using assms by (simp_all add: SendTo_def sendto_promote_def sendto_proxy_def view_defs split_beta Let_def)

text \<open>A wait that is answered from proxy sockets alone returns 0, as if nothing were ready, and the number of
  ready descriptors as errno; so does a poll.\<close>

lemma select_reads_as_timeout:
  assumes "select_loop q (b_mgr b) (fds_upto nfds) (False, False,
      \<lparr>fs_read = replicate nr 0, fs_write = replicate nw 0, fs_error = replicate ne 0\<rparr>, 0) = (True, False, sets, k)"
  shows "ret_of (fst (Select e nfds q timeout nr nw ne svc b)) = 0" "errno_of (fst (Select e nfds q timeout nr nw ne svc b)) = k"
  using assms by (simp_all add: Select_def view_defs)

lemma poll_first_socket: "poll_socket m (poll_first m' p) = poll_socket m p"
  by (simp add: poll_socket_def poll_first_def)

lemma poll_reads_as_timeout:
  assumes "0 < nfds" "8 * nat nfds \<le> length out0" "length d \<le> length out0"
    and sockets: "\<And>i. i < nat nfds \<Longrightarrow> poll_socket (b_mgr b) (poll_entry (memcpy out0 d) i) \<noteq> None"
  shows "ret_of (fst (Poll e (Some d) out0 nfds timeout svc b)) = 0"
proof -
  have "min (nat nfds) (length out0 div 8) = nat nfds" using assms(2) by (simp add: less_eq_div_iff_mult_less_eq)
  moreover have "\<exists>i. i < nat nfds" using assms(1) by (intro exI [of _ 0]) simp
  ultimately show ?thesis using assms by (auto simp: Poll_def view_defs Let_def poll_first_socket)
qed

lemma getfl_reads_as_error:
  assumes "GetProxySocket fd (b_mgr b) = Some s" "m_non_blocking s"
  shows "ret_of (fst (Fcntl e fd F_GETFL arg svc b)) = 0" "errno_of (fst (Fcntl e fd F_GETFL arg svc b)) = 4"
  using assms by (simp_all add: Fcntl_def view_defs O_NONBLOCK_def)

section \<open>Ports\<close>

text \<open>C8: Start with the socket service as it is constructed, and let any sequence of the following happen: the wiring
  at boot (callbacks, local address), changes of the control plane and of the rest of the console by other threads,
  session openings and teardowns, incoming traffic, and commands. Commands are issued while the tracking table and the
  socket registry agree on each descriptor's protocol, and other threads do not rebind the socket a command waits on.
  Then every proxy socket bound to an ephemeral port has that port marked as taken in its protocol's pool, and no
  other proxy socket of that pool has the same port.\<close>

theorem ephemeral_ports_exclusive:
  assumes "legal bsd_pre bsd_step evs (new_bsd new_manager ctl w)"
    and "b = fold bsd_step evs (new_bsd new_manager ctl w)"
    and "GetProxySocket fd (b_mgr b) = Some s" and "49152 \<le> unat (GetPort (m_local_addr s))"
  shows "IsPortAllocated (GetPort (m_local_addr s)) (m_protocol s) (m_port_pool (b_mgr b)) \<and>
     (\<forall>fd' s'. GetProxySocket fd' (b_mgr b) = Some s' \<and> fd' \<noteq> fd \<and> (m_protocol s' = Proto_Tcp) = (m_protocol s = Proto_Tcp) \<longrightarrow>
        GetPort (m_local_addr s') \<noteq> GetPort (m_local_addr s))"
proof -
  have "bsd_inv b" unfolding assms(2) by (rule bsd.inv_steps [OF new_bsd_inv assms(1)])
  then have ok: "ports_ok (b_mgr b)" by (simp add: bsd_inv_def mgr_inv_def)
  have eph: "ephemeral (GetPort (m_local_addr s))" using assms(4) by (simp add: ephemeral_def EPHEMERAL_PORT_MIN_def)
  have "holds_port (m_protocol s) (GetPort (m_local_addr s)) s" using eph by (simp add: holds_port_def same_pool_def)
  moreover have "holds_port (m_protocol s) (GetPort (m_local_addr s)) s'"
    if "(m_protocol s' = Proto_Tcp) = (m_protocol s = Proto_Tcp)" "GetPort (m_local_addr s') = GetPort (m_local_addr s)" for s'
    using eph that by (simp add: holds_port_def same_pool_def)
  ultimately show ?thesis using ports_ok_marked [OF ok assms(3) eph] ports_ok_unique [OF ok _ assms(3)] by blast
qed

definition wiring :: "unit bsd_event list" where
  "wiring = [Ev_Callbacks (Some (\<lambda>_ _ _ _ _ _ w. (True, w))) (Some (\<lambda>_ _ _ _ _ w. (False, w))) (Some (\<lambda>_ _ _ _ _ w. (False, w)))
     (Some (\<lambda>_ _ _ _ _ w. (False, w))), Ev_LocalIp 0x0A0D0005, Ev_Others new_LdnControl ()]"

definition sample_events :: "unit bsd_event list" where
  "sample_events = wiring @ [Ev_Call sample_env (C_Socket 2 2 17) sample_svc,
     Ev_Call sample_env (C_Bind 5 (Some (enc_SockAddrIn (any_port 49152)))) sample_svc]"

lemma wired:
  assumes "b0 = fold bsd_step wiring (new_bsd new_manager new_LdnControl ())"
  shows "bsd_inv b0" "m_sockets (b_mgr b0) = []" "m_port_pool (b_mgr b0) = pool_init" "g_socket_info b0 = []"
proof -
  show "bsd_inv b0" unfolding assms by (rule bsd.inv_steps [OF new_bsd_inv]) (simp add: wiring_def)
qed (simp_all add: assms wiring_def setter_defs new_bsd_def new_manager_def)

lemma sample_legal: "legal bsd_pre bsd_step sample_events (new_bsd new_manager new_LdnControl ())"
  by (simp add: sample_events_def wiring_def setter_defs sample_wait BsdMitmService_new_def new_bsd_def new_manager_def Let_def Socket_def
      consistent_empty)

lemma sample_bound:
  "\<exists>s. GetProxySocket 5 (b_mgr (fold bsd_step sample_events (new_bsd new_manager new_LdnControl ()))) = Some s \<and>
     GetPort (m_local_addr s) = 49152 \<and> m_protocol s = Proto_Udp"
proof -
  define b0 where "b0 = fold bsd_step wiring (new_bsd new_manager new_LdnControl ())"
  define b where "b = snd (snd (Socket sample_env 2 2 17 sample_svc b0))"
  note w = wired [OF b0_def]
  note t = socket_tracked [OF b_def w(1,2,4)]
  have "\<not> IsPortAllocated 49152 Proto_Udp (m_port_pool (b_mgr b))" "GetProxySocket 5 (b_mgr b) = None"
    "length (m_sockets (b_mgr b)) < MAX_PROXY_SOCKETS"
    by (simp_all add: t(2) w IsPortAllocated_def Let_def pool_init_def GetBitset_def GetProxySocket_def MAX_PROXY_SOCKETS_def)
  then obtain svc2 b2 s where bp: "bind_proxy sample_env 5 (any_port 49152) sample_info (counted sample_svc) b = (0, svc2, b2)"
      "GetProxySocket 5 (b_mgr b2) = Some s" "m_local_addr s = any_port 49152" "m_protocol s = Proto_Udp"
    using bind_proxy_free [OF t(3) _ t(1), of "any_port 49152" sample_env "counted sample_svc"] by (auto simp: sample_info_def)
  have "promotes (any_port 49152) sample_info" by (simp add: promotes_def lan_signature_port_def)
  then have "snd (snd (Bind sample_env 5 (Some (enc_SockAddrIn (any_port 49152))) sample_svc b)) = b2"
    using bp(1) t by (simp add: Bind_def inet_in_enc)
  moreover have "fold bsd_step sample_events (new_bsd new_manager new_LdnControl ()) =
      snd (snd (Bind sample_env 5 (Some (enc_SockAddrIn (any_port 49152))) sample_svc b))"
    by (simp add: sample_events_def b_def b0_def)
  ultimately show ?thesis using bp by auto
qed

theorem ephemeral_ports_exclusive_witness:
  "\<exists>s b. b = fold bsd_step sample_events (new_bsd new_manager new_LdnControl ()) \<and> GetProxySocket 5 (b_mgr b) = Some s \<and>
     GetPort (m_local_addr s) = 49152 \<and> IsPortAllocated 49152 Proto_Udp (m_port_pool (b_mgr b))"
proof -
  let ?b = "fold bsd_step sample_events (new_bsd new_manager new_LdnControl ())"
  obtain s where s: "GetProxySocket 5 (b_mgr ?b) = Some s" "GetPort (m_local_addr s) = 49152" "m_protocol s = Proto_Udp"
    using sample_bound by blast
  with ephemeral_ports_exclusive [OF sample_legal refl s(1)] show ?thesis by auto
qed

end
