(* ===== verification/Bsd_Transparent.thy ===== *)
theory Bsd_Transparent
  imports Bsd_Props
begin

text \<open>
  Commands that do not concern the LAN behave as if the process talked to the real service, and the
  answer of \<^verbatim>\<open>Select\<close> for proxy sockets.
\<close>

section \<open>The reference: a direct call of the real service\<close>

definition plain_request :: "nat \<Rightarrow> int list \<Rightarrow> in_buf list \<Rightarrow> nat list \<Rightarrow> fwd_request" where
  "plain_request cmd ws ins outs = \<lparr>fq_cmd = cmd, fq_words = ws, fq_in = ins, fq_out = outs, fq_handles = [], fq_pid = None\<rparr>"

fun real_request :: "BsdMitmService \<Rightarrow> bsd_call \<Rightarrow> fwd_request" where
  "real_request svc (C_RegisterClient config tmem h) =
     (plain_request 0 (config @ [0, uint tmem]) [] [])\<lparr>fq_handles := [h], fq_pid := Some (m_client_pid svc)\<rparr>"
| "real_request svc (C_StartMonitoring pid) = plain_request 1 [uint pid] [] []"
| "real_request svc (C_Socket d t p) = plain_request 2 [d, t, p] [] []"
| "real_request svc (C_SocketExempt d t p) = plain_request 3 [d, t, p] [] []"
| "real_request svc (C_Open path) = plain_request 4 [] [path] []"
| "real_request svc (C_Select nfds q timeout nr nw ne) =
     plain_request 5 [nfds] [si_read q, si_write q, si_error q, timeout] [nr, nw, ne]"
| "real_request svc (C_Poll fds out0 nfds timeout) = plain_request 6 [nfds, timeout] [fds] [length out0]"
| "real_request svc (C_Sysctl name old_in old_size new_val) = plain_request 7 [] [name, old_in, new_val] [old_size]"
| "real_request svc (C_Recv fd flags n) = plain_request 8 [fd, flags] [] [n]"
| "real_request svc (C_RecvFrom fd flags n na) = plain_request 9 [fd, flags] [] [n, na]"
| "real_request svc (C_Send fd flags data) = plain_request 10 [fd, flags] [data] []"
| "real_request svc (C_SendTo fd flags data addr) = plain_request 11 [fd, flags] [data, addr] []"
| "real_request svc (C_Accept fd n) = plain_request 12 [fd] [] [n]"
| "real_request svc (C_Bind fd addr) = plain_request 13 [fd] [addr] []"
| "real_request svc (C_Connect fd addr) = plain_request 14 [fd] [addr] []"
| "real_request svc (C_GetPeerName fd n) = plain_request 15 [fd] [] [n]"
| "real_request svc (C_GetSockName fd n) = plain_request 16 [fd] [] [n]"
| "real_request svc (C_GetSockOpt fd level optname n) = plain_request 17 [fd, level, optname] [] [n]"
| "real_request svc (C_Listen fd backlog) = plain_request 18 [fd, backlog] [] []"
| "real_request svc (C_Ioctl fd request cnt buf n) = plain_request 19 [fd, uint request, uint cnt] [buf] [n]"
| "real_request svc (C_Fcntl fd cmd arg) = plain_request 20 [fd, cmd, arg] [] []"
| "real_request svc (C_SetSockOpt fd level optname v) = plain_request 21 [fd, level, optname] [v] []"
| "real_request svc (C_Shutdown fd how) = plain_request 22 [fd, how] [] []"
| "real_request svc (C_ShutdownAllSockets pid how) = plain_request 23 [uint pid, how] [] []"
| "real_request svc (C_Write fd data) = plain_request 24 [fd] [data] []"
| "real_request svc (C_Read fd n) = plain_request 25 [fd] [] [n]"
| "real_request svc (C_Close fd) = plain_request 26 [fd] [] []"
| "real_request svc (C_DuplicateSocket fd pid) = plain_request 27 [fd, 0, uint pid] [] []"
| "real_request svc (C_GetResourceStatistics n pid) = plain_request 28 [uint pid] [] [n]"
| "real_request svc (C_RecvMMsg fd vlen flags timeout n) = plain_request 29 [fd, vlen, flags, timeout] [] [n]"
| "real_request svc (C_SendMMsg fd vlen flags data) = plain_request 30 [fd, vlen, flags] [data] []"
| "real_request svc (C_EventFd initval flags) = plain_request 31 [uint initval, flags, 0] [] []"
| "real_request svc (C_RegisterResourceStatisticsName pid name) = plain_request 32 [uint pid] [name] []"
| "real_request svc (C_RegisterClientShared config tmem) =
     (plain_request 33 (config @ [0, uint tmem]) [] [])\<lparr>fq_pid := Some (m_client_pid svc)\<rparr>"

text \<open>The words of the real reply in the order the command hands them on: \<^verbatim>\<open>Accept\<close> and \<^verbatim>\<open>DuplicateSocket\<close> swap the
  two words.\<close>

fun reply_order :: "bsd_call \<Rightarrow> nat list" where
  "reply_order (C_Accept fd n) = [1, 0]"
| "reply_order (C_DuplicateSocket fd pid) = [1, 0]"
| "reply_order (C_RecvFrom fd flags n na) = [0, 1, 2]"
| "reply_order (C_RegisterClient config tmem h) = [0]"
| "reply_order (C_StartMonitoring pid) = [0]"
| "reply_order (C_Sysctl name old_in old_size new_val) = [0]"
| "reply_order (C_Bind fd addr) = [0]"
| "reply_order (C_Connect fd addr) = [0]"
| "reply_order (C_GetPeerName fd n) = [0]"
| "reply_order (C_GetSockName fd n) = [0]"
| "reply_order (C_GetSockOpt fd level optname n) = [0]"
| "reply_order (C_Listen fd backlog) = [0]"
| "reply_order (C_SetSockOpt fd level optname v) = [0]"
| "reply_order (C_Shutdown fd how) = [0]"
| "reply_order (C_ShutdownAllSockets pid how) = [0]"
| "reply_order (C_Close fd) = [0]"
| "reply_order (C_GetResourceStatistics n pid) = [0]"
| "reply_order (C_RegisterResourceStatisticsName pid name) = [0]"
| "reply_order (C_RegisterClientShared config tmem) = [0]"
| "reply_order c = [0, 1]"

section \<open>Calls that do not concern the LAN\<close>

definition plain_fd :: "int \<Rightarrow> 'w bsd \<Rightarrow> bool" where
  "plain_fd fd b \<longleftrightarrow> GetProxySocket fd (b_mgr b) = None \<and> \<not> tracked_proxy fd b"

fun off_lan :: "bsd_call \<Rightarrow> 'w bsd \<Rightarrow> bool" where
  "off_lan (C_Bind fd addr) b =
     (case (inet_in addr, info_of fd b) of (Some a, Some i) \<Rightarrow> \<not> promotes a i | _ \<Rightarrow> True)"
| "off_lan (C_Connect fd addr) b = False"
| "off_lan (C_SendTo fd flags data addr) b = (\<not> lan_dest_in addr \<and> plain_fd fd b)"
| "off_lan (C_Select nfds q timeout nr nw ne) b =
     (\<forall>fd \<in> set (fds_upto nfds). in_sets q fd \<longrightarrow> GetProxySocket fd (b_mgr b) = None)"
| "off_lan (C_Poll fds out0 nfds timeout) b =
     (length (case fds of None \<Rightarrow> [] | Some d \<Rightarrow> d) \<le> length out0 \<and>
      (\<forall>i < length out0 div 8. poll_socket (b_mgr b)
         (poll_entry (memcpy out0 (case fds of None \<Rightarrow> [] | Some d \<Rightarrow> d)) i) = None))"
| "off_lan (C_Recv fd flags n) b = plain_fd fd b"
| "off_lan (C_RecvFrom fd flags n na) b = plain_fd fd b"
| "off_lan (C_Send fd flags data) b = plain_fd fd b"
| "off_lan (C_GetPeerName fd n) b = plain_fd fd b"
| "off_lan (C_GetSockName fd n) b = plain_fd fd b"
| "off_lan (C_GetSockOpt fd level optname n) b = plain_fd fd b"
| "off_lan (C_Ioctl fd request cnt buf n) b = plain_fd fd b"
| "off_lan (C_Fcntl fd cmd arg) b = plain_fd fd b"
| "off_lan (C_SetSockOpt fd level optname v) b = plain_fd fd b"
| "off_lan (C_Write fd data) b = plain_fd fd b"
| "off_lan (C_Read fd n) b = plain_fd fd b"
| "off_lan (C_Close fd) b = plain_fd fd b"
| "off_lan (C_RecvMMsg fd vlen flags timeout n) b = plain_fd fd b"
| "off_lan (C_SendMMsg fd vlen flags data) b = plain_fd fd b"
| "off_lan c b = True"

definition like_real :: "bsd_out \<Rightarrow> nat list \<Rightarrow> fwd_reply \<Rightarrow> bool" where
  "like_real r idx real \<longleftrightarrow> bo_rc r = fr_rc real \<and> bo_words r = map (\<lambda>i. reply_word i real) idx \<and>
     (fr_rc real = 0 \<longrightarrow> bo_bufs r = fr_bufs real)"

definition transparent :: "'w bsd_env \<Rightarrow> bsd_call \<Rightarrow> BsdMitmService \<Rightarrow> 'w bsd \<Rightarrow> bool" where
  "transparent e c svc b \<longleftrightarrow>
     (let (real, w) = be_fwd e (real_request svc c) (b_world b); (r, svc', b') = bsd_exec e c svc b
      in like_real r (reply_order c) real \<and> b_mgr b' = b_mgr b \<and> b_world b' = w)"

lemma like_real_out_of [simp]: "like_real (out_of idx real) idx real"
  by (simp add: like_real_def out_of_def)

lemma forward_transparent:
  assumes "bsd_exec e c svc b = forward_only cmd idx e ws ins outs svc b0" and "real_request svc c = plain_request cmd ws ins outs"
    and "reply_order c = idx" and "b_mgr b0 = b_mgr b" "b_world b0 = b_world b"
  shows "transparent e c svc b"
  using assms by (simp add: transparent_def forward_only_def serviceMitmDispatch_def dispatch_full_def plain_request_def
      split_beta Let_def)

lemmas call_defs = StartMonitoring_def bsd_Open_def Sysctl_def Listen_def Shutdown_def ShutdownAllSockets_def EventFd_def
  GetResourceStatistics_def RegisterResourceStatisticsName_def Recv_def RecvFrom_def Send_def GetPeerName_def GetSockName_def
  GetSockOpt_def Ioctl_def SetSockOpt_def Write_def Read_def RecvMMsg_def SendMMsg_def SendTo_def plain_fd_def

lemma save_broadcast_frame [simp]:
  "b_mgr (save_broadcast fd level optname v b) = b_mgr b" "b_world (save_broadcast fd level optname v b) = b_world b"
  by (simp_all add: save_broadcast_def split: option.split)

lemma copy_info_frame [simp]: "b_mgr (copy_info fd nfd b) = b_mgr b" "b_world (copy_info fd nfd b) = b_world b"
  by (simp_all add: copy_info_def split: option.split)

lemma forget_plain [simp]:
  "plain_fd fd b \<Longrightarrow> b_mgr (forget_fd fd b) = b_mgr b" "plain_fd fd b \<Longrightarrow> b_world (forget_fd fd b) = b_world b"
  by (auto simp: plain_fd_def forget_fd_def tracked_proxy_def Let_def split: option.splits)

lemma table_transparent:
  "transparent e (C_Socket d t p) svc b" "transparent e (C_SocketExempt d t p) svc b" "transparent e (C_Accept fd n) svc b"
  "transparent e (C_DuplicateSocket fd pid) svc b" "transparent e (C_RegisterClient config tmem h) svc b"
  "transparent e (C_RegisterClientShared config tmem) svc b"
  "plain_fd fd b \<Longrightarrow> transparent e (C_Close fd) svc b"
  by (simp_all add: transparent_def Socket_def SocketExempt_def create_socket_def Accept_def DuplicateSocket_def
      RegisterClient_def RegisterClientShared_def Close_def plain_request_def
      serviceMitmDispatch_def dispatch_full_def split_beta Let_def)

lemma Fcntl_transparent:
  assumes "plain_fd fd b" shows "transparent e (C_Fcntl fd cmd arg) svc b"
proof -
  have "bsd_exec e (C_Fcntl fd cmd arg) svc b = fcntl_forward e fd cmd arg svc b"
    using assms by (simp add: Fcntl_def plain_fd_def)
  then show ?thesis
    by (simp only: transparent_def) (simp add: fcntl_forward_def plain_request_def
      serviceMitmDispatch_def dispatch_full_def split_beta Let_def)
qed

lemma select_loop_plain:
  "\<forall>fd \<in> set fds. in_sets q fd \<longrightarrow> GetProxySocket fd m = None \<Longrightarrow>
   \<exists>hr'. select_loop q m fds (False, hr, st) = (False, hr', st)"
  by (induction fds arbitrary: hr) auto

lemma list3: "length bs = 3 \<Longrightarrow> [buf_at 0 bs, buf_at 1 bs, buf_at 2 bs] = bs"
  by (rule nth_equalityI) (auto simp: buf_at_def less_Suc_eq numeral_eq_Suc nth_Cons')

lemma Select_transparent:
  assumes "off_lan (C_Select nfds q timeout nr nw ne) b"
    and "\<And>w. length (fr_bufs (fst (be_fwd e (real_request svc (C_Select nfds q timeout nr nw ne)) w))) = 3"
  shows "transparent e (C_Select nfds q timeout nr nw ne) svc b"
proof -
  obtain hr where "select_loop q (b_mgr b) (fds_upto nfds)
      (False, False, \<lparr>fs_read = replicate nr 0, fs_write = replicate nw 0, fs_error = replicate ne 0\<rparr>, 0) =
      (False, hr, \<lparr>fs_read = replicate nr 0, fs_write = replicate nw 0, fs_error = replicate ne 0\<rparr>, 0)"
    using select_loop_plain [OF assms(1) [unfolded off_lan.simps]] by blast
  then show ?thesis
    using list3 [OF assms(2), of "b_world b"]
    by (simp add: transparent_def Select_def serviceMitmDispatch_def dispatch_full_def plain_request_def split_beta
        like_real_def sets_out_def)
qed

lemma Poll_transparent:
  assumes "off_lan (C_Poll fds out0 nfds timeout) b"
    and "\<And>w. length (fr_bufs (fst (be_fwd e (real_request svc (C_Poll fds out0 nfds timeout)) w))) = 1"
  shows "transparent e (C_Poll fds out0 nfds timeout) svc b"
proof -
  define inp where "inp = (case fds of None \<Rightarrow> [] | Some d \<Rightarrow> d)"
  define num where "num = (if nfds < 0 then length out0 div 8 else min (nat nfds) (length out0 div 8))"
  define ps where "ps = map (poll_first (b_mgr b)) (map (poll_entry (if length out0 \<ge> length inp then memcpy out0 inp else out0)) [0..<num])"
  have "poll_socket (b_mgr b) p = None" if "p \<in> set ps" for p
    using that assms(1) by (auto simp: ps_def num_def inp_def [symmetric] poll_first_socket split: if_splits)
  then have hp: "(\<exists>p \<in> set ps. poll_socket (b_mgr b) p \<noteq> None) = False" by simp
  obtain real w where rw: "be_fwd e (plain_request 6 [nfds, timeout] [fds] [length out0]) (b_world b) = (real, w)" by fastforce
  obtain x where x: "fr_bufs real = [x]" using assms(2) [of "b_world b"] rw by (auto simp: length_Suc_conv)
  show ?thesis
    unfolding transparent_def bsd_exec.simps Poll_def Let_def inp_def [symmetric] num_def [symmetric] ps_def [symmetric] hp
    using rw x by (simp add: serviceMitmDispatch_def dispatch_full_def plain_request_def like_real_def buf_at_def)
qed

lemma Bind_transparent:
  assumes "off_lan (C_Bind fd addr) b" shows "transparent e (C_Bind fd addr) svc b"
  using assms by (auto simp: transparent_def Bind_def serviceMitmDispatch_def dispatch_full_def plain_request_def split_beta
      Let_def split: option.splits)



section \<open>Select\<close>

definition read_ready :: "select_in \<Rightarrow> 'w ProxySocketManager \<Rightarrow> int \<Rightarrow> bool" where
  "read_ready q m fd \<longleftrightarrow> fd_isset fd (si_read q) \<and> (\<exists>s. GetProxySocket fd m = Some s \<and> sock_HasPendingData s)"

definition write_ready :: "select_in \<Rightarrow> 'w ProxySocketManager \<Rightarrow> int \<Rightarrow> bool" where
  "write_ready q m fd \<longleftrightarrow> fd_isset fd (si_write q) \<and> (\<exists>s. GetProxySocket fd m = Some s)"

definition error_ready :: "select_in \<Rightarrow> 'w ProxySocketManager \<Rightarrow> int \<Rightarrow> bool" where
  "error_ready q m fd \<longleftrightarrow> fd_isset fd (si_error q) \<and> (\<exists>s. GetProxySocket fd m = Some s \<and> m_state s = Closed)"

definition has_room :: "int \<Rightarrow> nat \<Rightarrow> bool" where
  "has_room fd n \<longleftrightarrow> fd \<ge> 0 \<and> nat fd div 8 < n"

lemma length_fd_set_bit [simp]: "length (fd_set_bit fd d) = length d"
  by (simp add: fd_set_bit_def)

lemma fd_isset_set_bit:
  "fd_isset k (Some (fd_set_bit fd d)) \<longleftrightarrow> fd_isset k (Some d) \<or> (k = fd \<and> has_room fd (length d))"
proof (cases "has_room fd (length d)")
  case True
  then have fd: "fd \<ge> 0" "nat fd div 8 < length d" by (auto simp: has_room_def)
  have "k = fd \<longleftrightarrow> k \<ge> 0 \<and> nat k div 8 = nat fd div 8 \<and> nat k mod 8 = nat fd mod 8"
    using fd(1) by (metis div_mod_decomp nat_eq_iff2 nat_0_le)
  moreover have "bit (x OR push_bit j 1) i \<longleftrightarrow> bit x i \<or> i = j" if "j < 8" for x :: u8 and i j
    using that by (auto simp: bit_simps)
  ultimately show ?thesis using fd by (auto simp: fd_isset_def fd_set_bit_def nth_list_update has_room_def)
next
  case False
  then show ?thesis by (auto simp: fd_set_bit_def has_room_def)
qed

text \<open>The sets and the count after the loop, from those before it.\<close>

definition sets_from :: "fd_sets \<Rightarrow> fd_sets \<Rightarrow> select_in \<Rightarrow> 'w ProxySocketManager \<Rightarrow> int list \<Rightarrow> bool" where
  "sets_from o0 o1 q m fds \<longleftrightarrow>
     length (fs_read o1) = length (fs_read o0) \<and> length (fs_write o1) = length (fs_write o0) \<and>
     length (fs_error o1) = length (fs_error o0) \<and>
     (\<forall>k. fd_isset k (Some (fs_read o1)) \<longleftrightarrow>
        fd_isset k (Some (fs_read o0)) \<or> (k \<in> set fds \<and> read_ready q m k \<and> has_room k (length (fs_read o0)))) \<and>
     (\<forall>k. fd_isset k (Some (fs_write o1)) \<longleftrightarrow>
        fd_isset k (Some (fs_write o0)) \<or> (k \<in> set fds \<and> write_ready q m k \<and> has_room k (length (fs_write o0)))) \<and>
     (\<forall>k. fd_isset k (Some (fs_error o1)) \<longleftrightarrow>
        fd_isset k (Some (fs_error o0)) \<or> (k \<in> set fds \<and> error_ready q m k \<and> has_room k (length (fs_error o0))))"

definition ready_count :: "select_in \<Rightarrow> 'w ProxySocketManager \<Rightarrow> int list \<Rightarrow> nat" where
  "ready_count q m fds = length (filter (read_ready q m) fds) + length (filter (write_ready q m) fds) +
     length (filter (error_ready q m) fds)"

lemma select_one_sets:
  assumes "GetProxySocket fd m = Some s"
  shows "sets_from o0 (fst (select_one q fd s (o0, n))) q m [fd]"
    and "snd (select_one q fd s (o0, n)) = n + int (ready_count q m [fd])"
  using assms by (auto simp: sets_from_def select_one_def Let_def fd_isset_set_bit read_ready_def write_ready_def error_ready_def
      ready_count_def split: if_splits)

lemma sets_from_none: "GetProxySocket fd m = None \<or> \<not> in_sets q fd \<Longrightarrow> sets_from o0 o0 q m [fd] \<and> ready_count q m [fd] = 0"
  by (auto simp: sets_from_def read_ready_def write_ready_def error_ready_def in_sets_def ready_count_def)

lemma sets_from_trans: "sets_from o0 o1 q m xs \<Longrightarrow> sets_from o1 o2 q m ys \<Longrightarrow> sets_from o0 o2 q m (xs @ ys)"
  unfolding sets_from_def by auto

lemma select_loop_spec:
  assumes "select_loop q m fds (hp, hr, o0, n) = (hp', hr', o1, n')"
  shows "sets_from o0 o1 q m fds \<and> n' = n + int (ready_count q m fds) \<and>
     hp' = (hp \<or> (\<exists>fd \<in> set fds. in_sets q fd \<and> GetProxySocket fd m \<noteq> None)) \<and>
     hr' = (hr \<or> (\<exists>fd \<in> set fds. in_sets q fd \<and> GetProxySocket fd m = None))"
  using assms
proof (induction fds arbitrary: hp hr o0 n)
  case Nil
  then show ?case by (simp add: sets_from_def ready_count_def)
next
  case (Cons fd fds)
  have rc: "ready_count q m (fd # fds) = ready_count q m [fd] + ready_count q m fds" by (simp add: ready_count_def)
  show ?case
  proof (cases "in_sets q fd \<and> GetProxySocket fd m \<noteq> None")
    case True
    then obtain s where s: "GetProxySocket fd m = Some s" by auto
    obtain o2 n2 where o2: "select_one q fd s (o0, n) = (o2, n2)" by fastforce
    have "sets_from o0 o2 q m [fd]" "n2 = n + int (ready_count q m [fd])"
      using select_one_sets [OF s, where ?o0.0 = o0 and q = q and n = n] by (simp_all add: o2)
    moreover have "select_loop q m fds (True, hr, o2, n2) = (hp', hr', o1, n')" using Cons.prems True s o2 by simp
    ultimately show ?thesis
      using Cons.IH [of True hr o2 n2] sets_from_trans [of o0 o2 q m "[fd]" o1 fds] True rc by auto
  next
    case False
    then have "sets_from o0 o0 q m [fd]" "ready_count q m [fd] = 0" using sets_from_none by auto
    moreover obtain hr2 where "select_loop q m fds (hp, hr2, o0, n) = (hp', hr', o1, n')" "hr2 = (hr \<or> in_sets q fd)"
      using Cons.prems False by (auto split: if_splits)
    ultimately show ?thesis
      using Cons.IH [of hp hr2 o0 n] sets_from_trans [of o0 o0 q m "[fd]" o1 fds] False rc by auto
  qed
qed

text \<open>C27: When every requested descriptor below \<^verbatim>\<open>nfds\<close> is a proxy socket and there is at least one, \<^verbatim>\<open>Select\<close> answers
  without calling the real service: bit \<open>fd\<close> of the read set is set exactly when it was requested, lies below
  \<^verbatim>\<open>nfds\<close> and inside the buffer, and the socket has a received packet; a requested write bit is always set, an
  error bit when the socket is closed. The two reply words are 0 and the number of ready conditions, in this
  order. By the order \<^verbatim>\<open>{ret, errno}\<close> that the comment in \<^verbatim>\<open>SendTo\<close> gives, the game's library therefore takes the call
  for a timeout with the count as errno, which is reported as a bug; the property is about what the code
  writes.\<close>

theorem Select_exact:
  assumes "\<forall>fd \<in> set (fds_upto nfds). in_sets q fd \<longrightarrow> GetProxySocket fd (b_mgr b) \<noteq> None"
    and "\<exists>fd \<in> set (fds_upto nfds). in_sets q fd"
  shows "\<exists>R W X. Select e nfds q timeout nr nw ne svc b =
        (answer [0, int (ready_count q (b_mgr b) (fds_upto nfds))] [R, W, X], counted svc, b) \<and>
      length R = nr \<and> length W = nw \<and> length X = ne \<and>
      (\<forall>k. fd_isset k (Some R) \<longleftrightarrow> k < nfds \<and> read_ready q (b_mgr b) k \<and> has_room k nr) \<and>
      (\<forall>k. fd_isset k (Some W) \<longleftrightarrow> k < nfds \<and> write_ready q (b_mgr b) k \<and> has_room k nw) \<and>
      (\<forall>k. fd_isset k (Some X) \<longleftrightarrow> k < nfds \<and> error_ready q (b_mgr b) k \<and> has_room k ne)"
proof -
  define o0 where "o0 = \<lparr>fs_read = replicate nr 0, fs_write = replicate nw 0, fs_error = replicate ne (0 :: u8)\<rparr>"
  obtain hp hr o1 n where sl: "select_loop q (b_mgr b) (fds_upto nfds) (False, False, o0, 0) = (hp, hr, o1, n)"
    by (metis prod_cases4)
  note sp = select_loop_spec [OF sl]
  have flags: "hp" "\<not> hr" using sp assms by blast+
  have zero: "\<not> fd_isset k (Some (replicate j 0))" for k j by (simp add: fd_isset_def)
  have upto: "k \<in> set (fds_upto nfds) \<longleftrightarrow> 0 \<le> k \<and> k < nfds" for k
    by (auto simp: fds_upto_def image_iff intro!: bexI [of _ "nat k"])
  have ans: "Select e nfds q timeout nr nw ne svc b =
      (answer [0, int (ready_count q (b_mgr b) (fds_upto nfds))] (sets_out o1), counted svc, b)"
    using sl flags sp by (simp add: Select_def o0_def)
  have sf: "sets_from o0 o1 q (b_mgr b) (fds_upto nfds)" using sp by blast
  have len: "length (fs_read o1) = nr" "length (fs_write o1) = nw" "length (fs_error o1) = ne"
    using sf by (simp_all add: sets_from_def o0_def)
  have bits: "fd_isset k (Some (fs_read o1)) \<longleftrightarrow> k < nfds \<and> read_ready q (b_mgr b) k \<and> has_room k nr"
    "fd_isset k (Some (fs_write o1)) \<longleftrightarrow> k < nfds \<and> write_ready q (b_mgr b) k \<and> has_room k nw"
    "fd_isset k (Some (fs_error o1)) \<longleftrightarrow> k < nfds \<and> error_ready q (b_mgr b) k \<and> has_room k ne" for k
    using sf by (simp_all add: sets_from_def o0_def zero upto) (auto simp: has_room_def)
  show ?thesis
    by (rule exI [of _ "fs_read o1"], rule exI [of _ "fs_write o1"], rule exI [of _ "fs_error o1"])
      (simp only: ans len bits sets_out_def simp_thms)
qed

theorem Select_exact_witness:
  "let b = sample_bsd\<lparr>b_mgr := add_socket 5 (sock_IncomingData (Some [7]) 1 inet_any (fresh_socket sample_info)) new_manager\<rparr>;
       q = \<lparr>si_read = Some (fd_set_bit 5 [0]), si_write = None, si_error = None\<rparr>
   in \<exists>R W X. fst (Select sample_env 6 q None 1 1 1 sample_svc b) = answer [0, 1] [R, W, X] \<and> fd_isset 5 (Some R)"
proof -
  let ?s = "sock_IncomingData (Some [7]) 1 inet_any (fresh_socket sample_info)"
  define m where "m = add_socket 5 ?s (new_manager :: unit ProxySocketManager)"
  define b where "b = sample_bsd\<lparr>b_mgr := m\<rparr>"
  define q where "q = \<lparr>si_read = Some (fd_set_bit 5 [0 :: u8]), si_write = None, si_error = None\<rparr>"
  have fds: "fds_upto 6 = [0, 1, 2, 3, 4, 5]" by (simp add: fds_upto_def upt_rec)
  have iss: "fd_isset k (Some (fd_set_bit 5 [0])) \<longleftrightarrow> k = 5" for k
    by (simp only: fd_isset_set_bit) (auto simp: fd_isset_def has_room_def)
  have get: "GetProxySocket 5 (b_mgr b) = Some ?s"
    by (simp add: b_def m_def new_manager_def GetProxySocket_def add_socket_def)
  have pend: "sock_HasPendingData ?s"
    by (simp add: sock_HasPendingData_def sock_IncomingData_def fresh_socket_def new_ProxySocket_def Let_def)
  have rr: "read_ready q (b_mgr b) k \<longleftrightarrow> k = 5" for k
    using iss get pend by (auto simp: read_ready_def q_def)
  have cnt: "ready_count q (b_mgr b) (fds_upto 6) = 1"
    by (simp add: ready_count_def fds rr) (simp add: q_def write_ready_def error_ready_def fd_isset_def)
  have "in_sets q k \<longleftrightarrow> k = 5" for k by (simp add: in_sets_def q_def iss) (simp add: fd_isset_def)
  then have req: "\<forall>fd \<in> set (fds_upto 6). in_sets q fd \<longrightarrow> GetProxySocket fd (b_mgr b) \<noteq> None"
    "\<exists>fd \<in> set (fds_upto 6). in_sets q fd" using get fds by auto
  obtain R W X where "Select sample_env 6 q None 1 1 1 sample_svc b =
        (answer [0, int (ready_count q (b_mgr b) (fds_upto 6))] [R, W, X], counted sample_svc, b)"
      "\<forall>k. fd_isset k (Some R) \<longleftrightarrow> k < 6 \<and> read_ready q (b_mgr b) k \<and> has_room k 1"
    using Select_exact [of 6 q b sample_env None 1 1 1 sample_svc] req by blast
  then have "fst (Select sample_env 6 q None 1 1 1 sample_svc b) = answer [0, 1] [R, W, X] \<and> fd_isset 5 (Some R)"
    using cnt rr by (simp add: has_room_def)
  then show ?thesis unfolding Let_def q_def b_def m_def by blast
qed

end
