(* ===== verification/Tunnel_Path.thy ===== *)
theory Tunnel_Path
  imports Tunnel
begin

text \<open>
  The path of a game's datagram through the tunnel of \<^verbatim>\<open>tunnel/slp_tunnel.cpp\<close>: the packet that \<^verbatim>\<open>Send\<close>
  builds is a valid IPv4/UDP packet with a correct header checksum, and receiving the frames that
  \<^verbatim>\<open>slpClientSendIpv4\<close> made of it delivers exactly the datagram that was sent.
\<close>

section \<open>The header checksum\<close>

fun wsum :: "bytes \<Rightarrow> nat" where
  "wsum (a # b # p) = unat (Rd16be a b) + wsum p"
| "wsum [a] = 256 * unat a"
| "wsum [] = 0"

lemma Rd16be_less: "unat (Rd16be a b) < 65536"
  using unsigned_less [of "Rd16be a b"] by simp

lemma u8_less: "unat (a :: u8) < 256"
  using unsigned_less [of a] by simp

lemma unat_high_byte: "unat (ucast (push_bit 8 (ucast (a :: u8) :: u16)) :: u32) = 256 * unat a"
proof -
  have "unat (ucast a * 256 :: u16) = 256 * unat a"
    using u8_less [of a] by (simp add: unat_word_ariths unsigned_ucast_eq take_bit_nat_eq_self)
  then show ?thesis using u8_less [of a] by (simp add: unsigned_ucast_eq push_bit_eq_mult take_bit_nat_eq_self)
qed

lemma wsum_bound: "2 * wsum p \<le> 65536 * (length p + 1)"
proof (induction p rule: wsum.induct)
  case (1 a b p)
  then show ?case using Rd16be_less [of a b] by simp
next
  case (2 a)
  show ?case using u8_less [of a] by simp
qed simp

lemma unat_add_small: "unat (x :: u32) + unat y < 2 ^ 32 \<Longrightarrow> unat (x + y) = unat x + unat y"
  by (simp add: unat_word_ariths)

lemma ip_sum_unat:
  "unat acc + wsum p < 2 ^ 32 \<Longrightarrow> unat (ip_sum p acc) = unat acc + wsum p"
proof (induction p acc rule: ip_sum.induct)
  case (1 a b p acc)
  have "unat (acc + ucast (Rd16be a b)) = unat acc + unat (Rd16be a b)"
    using 1(2) by (subst unat_add_small) (auto simp: unsigned_ucast_eq take_bit_nat_eq_self Rd16be_less)
  with 1 show ?case by simp
next
  case (2 a acc)
  then show ?case by (simp add: unat_add_small unat_high_byte)
qed simp

lemma unat_halves: "unat (x AND 0xFFFF :: u32) = unat x mod 65536" "unat (drop_bit 16 (x :: u32)) = unat x div 65536"
  by (simp_all add: and_65535 unsigned_take_bit_eq take_bit_eq_mod drop_bit_eq_div unat_mod_distrib unat_div_distrib)

lemma unat_carry: "unat ((x AND 0xFFFF) + drop_bit 16 x :: u32) = unat x mod 65536 + unat x div 65536"
proof -
  have "unat x < 2 ^ 32" using unsigned_less [of x] by simp
  then have "unat x div 65536 < 65536" by auto
  then show ?thesis by (subst unat_add_small) (auto simp: unat_halves)
qed

lemma carry_mod: "(n mod 65536 + n div 65536) mod 65535 = n mod (65535::nat)"
proof -
  have "n = 65535 * (n div 65536) + (n mod 65536 + n div 65536)" using div_mult_mod_eq [of n 65536] by simp
  then show ?thesis by (metis mod_mult_self4 mult.commute)
qed

lemma fold_carry_step:
  "fold_carry x = (if drop_bit 16 x \<noteq> 0 then fold_carry ((x AND 0xFFFF) + drop_bit 16 x) else x)"
  by (rule fold_carry.simps)

lemma fold_carry_spec:
  "unat (fold_carry x) < 65536 \<and> unat (fold_carry x) mod 65535 = unat x mod 65535 \<and> (unat (fold_carry x) = 0 \<longleftrightarrow> unat x = 0)"
proof (induction x rule: fold_carry.induct)
  case (1 x)
  show ?case
  proof (cases "drop_bit 16 x = 0")
    case True
    then have "unat x div 65536 = 0" using unat_halves(2) [of x] by simp
    then have "unat x < 65536" by auto
    with True show ?thesis using fold_carry_step [of x] by simp
  next
    case False
    let ?y = "(x AND 0xFFFF) + drop_bit 16 x"
    have e: "fold_carry x = fold_carry ?y" using fold_carry_step [of x] False by simp
    have "unat ?y = 0 \<longleftrightarrow> unat x = 0" unfolding unat_carry using div_mult_mod_eq [of "unat x" 65536] by auto
    with 1 [OF False] show ?thesis unfolding e using unat_carry [of x] carry_mod [of "unat x"] by simp
  qed
qed

lemma wsum_append_even: "even (length p) \<Longrightarrow> wsum (p @ q) = wsum p + wsum q"
  by (induction p rule: wsum.induct) auto

lemma not_low:
  assumes "f < (65536::nat)" shows "(4294967295 - f) mod 65536 = 65535 - f"
proof -
  have "4294967295 - f = (65535 - f) + 65535 * 65536" using assms by simp
  then have "(4294967295 - f) mod 65536 = (65535 - f) mod 65536" by (simp only: mod_mult_self1)
  also have "\<dots> = 65535 - f" by (rule mod_less) simp
  finally show ?thesis .
qed

lemma IpChecksum_unat:
  assumes "length p \<le> 100"
  shows "unat (IpChecksum p) = 65535 - unat (fold_carry (ip_sum p 0))" "unat (ip_sum p 0) = wsum p"
proof -
  show s: "unat (ip_sum p 0) = wsum p" using ip_sum_unat [of 0 p] wsum_bound [of p] assms by simp
  let ?f = "fold_carry (ip_sum p 0)"
  have lt: "unat ?f < 65536" using fold_carry_spec by blast
  have "unat (NOT ?f) = 2 ^ 32 - 1 - unat ?f"
  proof -
    have "NOT ?f = - 1 - ?f" by (simp add: not_eq_complement)
    then show ?thesis by (simp add: unat_sub word_order.extremum unsigned_minus_1_eq_mask mask_eq_exp_minus_1)
  qed
  then show "unat (IpChecksum p) = 65535 - unat ?f"
    using lt not_low [of "unat ?f"] by (simp add: IpChecksum_def unsigned_ucast_eq take_bit_eq_mod)
qed

definition ip_header :: "u32 \<Rightarrow> u32 \<Rightarrow> u16 \<Rightarrow> nat \<Rightarrow> u8 \<Rightarrow> u8 \<Rightarrow> bytes" where
  "ip_header sip dip ip_id len hi lo = [0x45, 0x00] @ Wr16be (of_nat (20 + 8 + len)) @ Wr16be ip_id @
     [0x40, 0x00, 64, 17, hi, lo] @ Wr32be sip @ Wr32be dip"

lemma length_ip_header: "length (ip_header sip dip ip_id len hi lo) = 20"
  by (simp add: ip_header_def)

definition header_sum :: "u32 \<Rightarrow> u32 \<Rightarrow> u16 \<Rightarrow> nat \<Rightarrow> u16" where
  "header_sum sip dip ip_id len = IpChecksum (ip_header sip dip ip_id len 0 0)"

lemma udp_packet_header:
  "udp_packet sip sport dip dport ip_id data =
     ip_header sip dip ip_id (length data) (ucast (drop_bit 8 (header_sum sip dip ip_id (length data))))
       (ucast (header_sum sip dip ip_id (length data) AND 0xFF)) @
     Wr16be sport @ Wr16be dport @ Wr16be (of_nat (8 + length data)) @ [0, 0] @ data"
  by (simp add: udp_packet_def ip_header_def header_sum_def Let_def)

lemma wsum_ip_header:
  "wsum (ip_header sip dip ip_id len hi lo) = wsum (ip_header sip dip ip_id len 0 0) + unat (Rd16be hi lo)"
  by (simp add: ip_header_def Wr16be_def Rd16be_def)

lemma checksum_fits:
  assumes "w = wsum (ip_header sip dip ip_id len 0 0)"
  shows "w > 0"
  using assms unat_eq_0 [of "Rd16be 0x45 0x00"] by (simp add: ip_header_def Rd16be_def)

lemma ones_complement_sum:
  fixes w f :: nat
  assumes "f < 65536" and "f mod 65535 = w mod 65535"
  shows "(w + (65535 - f)) mod 65535 = 0"
proof -
  have "(w + (65535 - f)) mod 65535 = (f + (65535 - f)) mod 65535"
    using assms(2) by (metis mod_add_left_eq)
  also have "\<dots> = 0" using assms(1) by auto
  finally show ?thesis .
qed

lemma full_residue: "n mod 65535 = 0 \<Longrightarrow> n \<noteq> 0 \<Longrightarrow> n < 65536 \<Longrightarrow> n = (65535::nat)"
  using mod_less [of n 65535] by (cases "n < 65535") auto

section \<open>Receiving what was sent\<close>

lemma length_udp_packet: "length (udp_packet sip sport dip dport ip_id data) = 28 + length data"
  by (simp add: udp_packet_header length_ip_header)

lemma udp_packet_fields:
  fixes sip sport dip dport ip_id data
  assumes "length data \<le> 2000"
  defines "p \<equiv> udp_packet sip sport dip dport ip_id data"
  shows "p ! 0 = 0x45" "p ! 9 = 17" "unat (Rd16be (p ! 2) (p ! 3)) = 28 + length data" "Rd16be (p ! 4) (p ! 5) = ip_id"
    "Rd32be (drop 12 p) = sip" "Rd32be (drop 16 p) = dip" "Rd16be (p ! 20) (p ! 21) = sport" "Rd16be (p ! 22) (p ! 23) = dport"
    "unat (Rd16be (p ! 24) (p ! 25)) = 8 + length data" "drop 28 p = data" "slpIpv4Src p = sip"
proof -
  have u: "unat (of_nat n :: u16) = n" if "n \<le> 2028" for n using that by (simp add: unat_of_nat take_bit_nat_eq_self)
  have r: "Rd16be (ucast (drop_bit 8 v)) (ucast (v AND 0xFF)) = v" for v by (rule Rd16be_inverse)
  have d: "drop 12 p = Wr32be sip @ drop 16 p" "drop 16 p = Wr32be dip @ drop 20 p"
    by (simp_all add: p_def udp_packet_header ip_header_def Wr16be_def Wr32be_def)
  show s: "Rd32be (drop 12 p) = sip" unfolding d(1) by (rule Rd32be_Wr32be)
  show "Rd32be (drop 16 p) = dip" unfolding d(2) by (rule Rd32be_Wr32be)
  have "length p \<ge> 20" by (simp add: p_def length_udp_packet)
  then show "slpIpv4Src p = sip" using s by (simp add: slpIpv4Src_def Rd32be_def)
  have t: "unat (of_nat (28 + length data) :: u16) = 28 + length data" "unat (of_nat (8 + length data) :: u16) = 8 + length data"
    using u [of "28 + length data"] u [of "8 + length data"] assms(1) by simp_all
  have n: "p ! 2 = ucast (drop_bit 8 (of_nat (28 + length data) :: u16))" "p ! 3 = ucast ((of_nat (28 + length data) :: u16) AND 0xFF)"
    "p ! 24 = ucast (drop_bit 8 (of_nat (8 + length data) :: u16))" "p ! 25 = ucast ((of_nat (8 + length data) :: u16) AND 0xFF)"
    by (simp_all add: p_def udp_packet_header ip_header_def Wr16be_def Wr32be_def)
  show "unat (Rd16be (p ! 2) (p ! 3)) = 28 + length data" "unat (Rd16be (p ! 24) (p ! 25)) = 8 + length data"
    unfolding n r using t by simp_all
qed (simp_all add: p_def udp_packet_header ip_header_def Wr16be_def Wr32be_def Rd16be_inverse)

lemma ProcessIpv4_udp:
  fixes sip sport dip dport ip_id data
  assumes "length data \<le> 2000"
  shows "ProcessIpv4 e (udp_packet sip sport dip dport ip_id data) con =
     (if dport = ControlPort then
        (let (l, ds) = OnControlFrame (te_running e) (te_now e) sip data (con_ldn con) in send_all e ds (con\<lparr>con_ldn := l\<rparr>))
      else (route_to_sockets e sip sport dip dport data con, []))"
proof -
  define p where "p = udp_packet sip sport dip dport ip_id data"
  note f = udp_packet_fields [OF assms, of sip sport dip dport ip_id, folded p_def]
  have l: "length p = 28 + length data" by (simp add: p_def length_udp_packet)
  have v: "slpIpv4Valid p" "unat (p ! 0 AND 0x0F) * 4 = 20"
    using l by (simp_all add: slpIpv4Valid_def f(1) drop_bit_eq_div)
  have tl: "slpIpv4TotalLen p = 28 + length data" using f(3) l by (simp add: slpIpv4TotalLen_def)
  have ul: "\<not> Rd16be (p ! 24) (p ! 25) < 8" using f(9) by (simp add: word_less_nat_alt)
  show ?thesis
    unfolding p_def [symmetric] ProcessIpv4_def Let_def v(2) tl
    using v(1) f l ul by simp
qed

text \<open>Relay datagrams arriving one after another, each with its arrival time, as the run loop hands them
  to the tunnel: the type of the first byte, the payload behind it.\<close>

fun recv_frames :: "tun_env \<Rightarrow> (int \<times> bytes) list \<Rightarrow> 'w Console \<Rightarrow> 'w Console \<times> relay_out list" where
  "recv_frames e [] con = (con, [])"
| "recv_frames e ((t, buf) # bs) con =
     (let (con1, r1) = OnFrame (e\<lparr>te_now := t\<rparr>) (the (slpFrameType buf)) (tl buf) con;
          (con2, r2) = recv_frames e bs con1
      in (con2, r1 @ r2))"

definition set_frags :: "FragEntry list \<Rightarrow> 'w Console \<Rightarrow> 'w Console" where
  "set_frags g con = con\<lparr>con_tun := (con_tun con)\<lparr>g_frags := g\<rparr>\<rparr>"

lemma frag_frame_type: "slpFrameType (frag_frame pkt i) = Some SLP_TYPE_IPV4_FRAG"
  by (simp add: slpFrameType_def frag_frame_def slpFrameIpv4Frag_def SLP_TYPE_IPV4_FRAG_def)

lemma OnFrame_frag:
  "OnFrame e SLP_TYPE_IPV4_FRAG payload con =
     (let (g, out) = OnFrag (te_now e) payload (g_frags (con_tun con))
      in case out of None \<Rightarrow> (set_frags g con, []) | Some pkt \<Rightarrow> ProcessIpv4 e pkt (set_frags g con))"
  by (auto simp: OnFrame_def set_frags_def SLP_TYPE_IPV4_FRAG_def SLP_TYPE_IPV4_def Let_def split: prod.splits option.splits)

lemma set_frags_simps [simp]: "g_frags (con_tun (set_frags g con)) = g" "set_frags g' (set_frags g con) = set_frags g' con"
  "con_ldn (set_frags g con) = con_ldn con" "con_mgr (set_frags g con) = con_mgr con"
  by (simp_all add: set_frags_def)

lemma peer_known_frags: "peer_known (set_frags g con) = peer_known con"
  by (rule ext) (simp add: peer_known_def)

lemma set_frags_con:
  "(set_frags g con)\<lparr>con_ldn := l\<rparr> = set_frags g (con\<lparr>con_ldn := l\<rparr>)"
  "(set_frags g con)\<lparr>con_mgr := m\<rparr> = set_frags g (con\<lparr>con_mgr := m\<rparr>)"
  by (simp_all add: set_frags_def)

lemma recv_frags_last:
  assumes "on_frags pkt (as @ [(t, k)]) (g_frags (con_tun con)) = (g', replicate (length as) None @ [Some pkt])"
  shows "recv_frames e (map (\<lambda>(t, i). (t, frag_frame pkt i)) (as @ [(t, k)])) con =
     ProcessIpv4 (e\<lparr>te_now := t\<rparr>) pkt (set_frags g' con)"
  using assms
proof (induction as arbitrary: con)
  case Nil
  then show ?case by (auto simp: frag_frame_type OnFrame_frag split_beta Let_def split: prod.splits)
next
  case (Cons a as)
  obtain t1 i where a: "a = (t1, i)" by (rule prod.exhaust)
  obtain g1 where g1: "OnFrag t1 (tl (frag_frame pkt i)) (g_frags (con_tun con)) = (g1, None)"
    "on_frags pkt (as @ [(t, k)]) g1 = (g', replicate (length as) None @ [Some pkt])"
    using Cons.prems a by (auto simp: split_beta Let_def prod_eq_iff)
  show ?case using Cons.IH [of "set_frags g1 con"] g1 a by (simp add: frag_frame_type OnFrame_frag)
qed

lemma tun_Send_frames:
  fixes sip sport dport
  assumes "te_running e" and "cl_fd (te_client e) \<ge> 0" and "\<And>buf. te_sendto e (cl_fd (te_client e)) buf"
    and "dip AND 0xFF000000 \<noteq> 0x7F000000" and "length data \<le> 2000"
  defines "pkt \<equiv> \<lambda>t. udp_packet (if sip = 0 then g_local_ip t else sip) sport dip dport (g_ip_id t) data"
  shows "tun_Send e sip sport dip dport pr (Some data) (length data) t = (True, t\<lparr>g_ip_id := g_ip_id t + 1\<rparr>,
     map (\<lambda>f. Relay (server_ip (te_client e), server_port (te_client e), f))
       (if length data \<le> 1372 then [SLP_TYPE_IPV4 # pkt t] else map (frag_frame (pkt t)) [0..<parts (pkt t)]))"
proof -
  have l: "length (pkt t) = 28 + length data" by (simp add: pkt_def length_udp_packet)
  have "parts (pkt t) \<le> 255" using l assms(5) by (simp add: parts_def SLP_MTU_def)
  then have "slpClientSendIpv4 (te_sendto e) (te_client e) (pkt t) = (True,
      map (\<lambda>f. (server_ip (te_client e), server_port (te_client e), f))
       (if length data \<le> 1372 then [SLP_TYPE_IPV4 # pkt t] else map (frag_frame (pkt t)) [0..<parts (pkt t)]))"
    using send_frags_all [of "te_sendto e" "te_client e" "pkt t" "Rd16be (pkt t ! 4) (pkt t ! 5)" "of_nat (parts (pkt t))" 0]
      assms(3,5) l
    unfolding slpClientSendIpv4_def Let_def parts_def [symmetric]
    by (auto simp: slpFrameIpv4_def slpClientSendRaw_def frag_frame_def SLP_MTU_def)
  then show ?thesis
    using assms(1,2,4,5) unfolding tun_Send_def Let_def by (simp add: pkt_def)
qed

lemma sent_frames:
  assumes "te_running e" and "cl_fd (te_client e) \<ge> 0" and "\<And>buf. te_sendto e (cl_fd (te_client e)) buf"
    and "dip AND 0xFF000000 \<noteq> 0x7F000000" and "length data \<le> 2000"
    and "tun_Send e sip sport dip dport pr (Some data) (length data) t = (ok, t', map Relay rs)"
  defines "pkt \<equiv> udp_packet (if sip = 0 then g_local_ip t else sip) sport dip dport (g_ip_id t) data"
  defines "fs \<equiv> if length data \<le> 1372 then [SLP_TYPE_IPV4 # pkt] else map (frag_frame pkt) [0..<parts pkt]"
  shows "ok" and "length rs = length fs" and "\<And>i. i < length rs \<Longrightarrow> snd (snd (rs ! i)) = fs ! i"
proof -
  let ?mk = "\<lambda>f. (server_ip (te_client e), server_port (te_client e), f)"
  have "(ok, t', map Relay rs) = (True, t\<lparr>g_ip_id := g_ip_id t + 1\<rparr>, map (\<lambda>f. Relay (?mk f)) fs)"
    unfolding fs_def pkt_def using assms(6) tun_Send_frames [OF assms(1-5), of sip sport dport pr t] by (rule trans [OF sym])
  then have s: "ok" "map Relay rs = map Relay (map ?mk fs)" by (simp_all only: prod.inject map_map o_def)
  have "inj Relay" by (simp add: inj_def)
  from s(2) have rs: "rs = map ?mk fs" unfolding inj_map_eq_map [OF \<open>inj Relay\<close>] .
  from s(1) rs show "ok" "length rs = length fs" "\<And>i. i < length rs \<Longrightarrow> snd (snd (rs ! i)) = fs ! i" by simp_all
qed

text \<open>The fragments of a packet, arriving in any order in time, become the packet.\<close>

lemma fragments_arrive:
  assumes "1400 < length pkt" "length pkt \<le> 5600" and "untouched pkt (g_frags (con_tun con))"
    and "\<forall>f \<in> set (g_frags (con_tun con)). fe_last_tick f < INT64_MAX"
    and "distinct (map snd (as @ [(tm, k)]))" and "set (map snd (as @ [(tm, k)])) = {..<parts pkt}"
    and "\<forall>a \<in> set (as @ [(tm, k)]). t0 \<le> fst a \<and> fst a \<le> t0 + FragTimeoutTicks"
    and "\<And>i. i < parts pkt \<Longrightarrow> bufs i = frag_frame pkt i"
  shows "\<exists>g. recv_frames e' (map (\<lambda>(t, i). (t, bufs i)) (as @ [(tm, k)])) con =
     ProcessIpv4 (e'\<lparr>te_now := tm\<rparr>) pkt (set_frags g con)"
proof -
  have idx: "i < parts pkt" if "(u, i) \<in> set (as @ [(tm, k)])" for u i
    using assms(6) that by (metis image_eqI lessThan_iff list.set_map snd_conv)
  have win: "list_all (in_window pkt t0) (as @ [(tm, k)])"
    unfolding list_all_iff in_window_def using assms(7) idx by (metis prod.collapse)
  have kn: "k \<notin> snd ` set as" "insert k (snd ` set as) = {..<parts pkt}" using assms(5,6) by auto
  obtain g where g: "on_frags pkt (as @ [(tm, k)]) (g_frags (con_tun con)) = (g, replicate (length as) None @ [Some pkt])"
    using reassembly_steps [OF assms(1,2,3) _ win kn] assms(4) by blast
  have eq: "map (\<lambda>(t, i). (t, bufs i)) (as @ [(tm, k)]) = map (\<lambda>(t, i). (t, frag_frame pkt i)) (as @ [(tm, k)])"
    using assms(8) idx by (intro map_cong [OF refl]) (auto simp only: split: prod.splits)
  show ?thesis unfolding eq using recv_frags_last [OF g, of e'] by (rule exI)
qed

lemma tunnel_packet_arrives:
  fixes con :: "'w Console"
  assumes "te_running e" and "cl_fd (te_client e) \<ge> 0" and "\<And>buf. te_sendto e (cl_fd (te_client e)) buf"
    and "dip AND 0xFF000000 \<noteq> 0x7F000000" and "length data \<le> 2000"
    and "tun_Send e sip sport dip dport pr (Some data) (length data) t = (ok, t', map Relay rs)"
    and "distinct (map snd (as @ [(tm, k)]))" and "set (map snd (as @ [(tm, k)])) = {..<length rs}"
    and "\<forall>a \<in> set (as @ [(tm, k)]). t0 \<le> fst a \<and> fst a \<le> t0 + FragTimeoutTicks"
    and "\<forall>f \<in> set (g_frags (con_tun con)). fe_last_tick f < INT64_MAX \<and>
       \<not> frag_key (if sip = 0 then g_local_ip t else sip) (g_ip_id t) f"
    and "length (g_frags (con_tun con)) = MaxFragEntries"
  shows "ok" and "\<exists>g. recv_frames e' (map (\<lambda>(t, i). (t, snd (snd (rs ! i)))) (as @ [(tm, k)])) con =
     ProcessIpv4 (e'\<lparr>te_now := tm\<rparr>) (udp_packet (if sip = 0 then g_local_ip t else sip) sport dip dport (g_ip_id t) data)
       (set_frags g con)"
proof -
  let ?src = "if sip = 0 then g_local_ip t else sip"
  let ?pkt = "udp_packet ?src sport dip dport (g_ip_id t) data"
  note sf = sent_frames [OF assms(1-6)]
  show "ok" by (rule sf(1))
  show "\<exists>g. recv_frames e' (map (\<lambda>(t, i). (t, snd (snd (rs ! i)))) (as @ [(tm, k)])) con =
      ProcessIpv4 (e'\<lparr>te_now := tm\<rparr>) ?pkt (set_frags g con)"
  proof (cases "length data \<le> 1372")
    case True
    then have one: "length rs = 1" using sf(2) by simp
    have "length (as @ [(tm, k)]) = 1" using distinct_card [OF assms(7)] unfolding assms(8) one by simp
    then have "as = []" by simp
    moreover from this have "k = 0" using assms(8) one by auto
    moreover have "snd (snd (rs ! 0)) = SLP_TYPE_IPV4 # ?pkt" using sf(3) [of 0] one True by simp
    ultimately show ?thesis
      by (intro exI [of _ "g_frags (con_tun con)"]) (simp add: slpFrameType_def OnFrame_def SLP_TYPE_IPV4_def set_frags_def)
  next
    case False
    have len: "1400 < length ?pkt" "length ?pkt \<le> 5600" using False assms(5) by (simp_all add: length_udp_packet)
    have np: "length rs = parts ?pkt" using sf(2) False by simp
    have "pkt_key ?pkt = frag_key ?src (g_ip_id t)"
      using udp_packet_fields [OF assms(5), of ?src sport dip dport "g_ip_id t"] by (simp add: pkt_key_def pkt_id_def)
    then have unt: "untouched ?pkt (g_frags (con_tun con))" using assms(10,11) by (simp add: untouched_def)
    have young: "\<forall>f \<in> set (g_frags (con_tun con)). fe_last_tick f < INT64_MAX" using assms(10) by blast
    have "snd (snd (rs ! i)) = frag_frame ?pkt i" if "i < parts ?pkt" for i using sf(3) [of i] that np False by simp
    then show ?thesis by (rule fragments_arrive [OF len unt young assms(7) assms(8) [unfolded np] assms(9)])
  qed
qed

section \<open>Properties\<close>

text \<open>The header of every packet the tunnel builds carries a correct checksum: summing the header as
  it was sent, checksum included, gives 0 as RFC 1071 demands of a receiver.\<close>

lemma ip_checksum_valid:
  "IpChecksum (take 20 (udp_packet sip sport dip dport ip_id data)) = 0"
proof -
  let ?h = "ip_header sip dip ip_id (length data)"
  let ?c = "header_sum sip dip ip_id (length data)"
  define hi lo :: u8 where h: "hi = ucast (drop_bit 8 ?c)" "lo = ucast (?c AND 0xFF)"
  have t: "take 20 (udp_packet sip sport dip dport ip_id data) = ?h hi lo"
    unfolding udp_packet_header h [symmetric] using length_ip_header [of sip dip ip_id "length data" hi lo] by simp
  have c: "Rd16be hi lo = ?c" unfolding h by (rule Rd16be_inverse)
  let ?w = "wsum (?h 0 0)" and ?f = "fold_carry (ip_sum (?h 0 0) 0)"
  have u0: "unat ?c = 65535 - unat ?f" "unat (ip_sum (?h 0 0) 0) = ?w" and
    u1: "unat (IpChecksum (?h hi lo)) = 65535 - unat (fold_carry (ip_sum (?h hi lo) 0))"
      "unat (ip_sum (?h hi lo) 0) = wsum (?h hi lo)"
    using IpChecksum_unat [of "?h 0 0"] IpChecksum_unat [of "?h hi lo"] by (simp_all add: length_ip_header header_sum_def)
  have w: "wsum (?h hi lo) = ?w + (65535 - unat ?f)" using wsum_ip_header c u0(1) by metis
  have "wsum (?h hi lo) mod 65535 = 0"
    unfolding w using fold_carry_spec [of "ip_sum (?h 0 0) 0"] u0(2) by (intro ones_complement_sum) auto
  moreover have "wsum (?h hi lo) > 0" using w checksum_fits [OF refl, of sip dip ip_id "length data"] by simp
  ultimately have "unat (fold_carry (ip_sum (?h hi lo) 0)) mod 65535 = 0" "unat (fold_carry (ip_sum (?h hi lo) 0)) \<noteq> 0"
    "unat (fold_carry (ip_sum (?h hi lo) 0)) < 65536"
    using fold_carry_spec [of "ip_sum (?h hi lo) 0"] u1(2) by simp_all
  then have "unat (fold_carry (ip_sum (?h hi lo) 0)) = 65535" by (rule full_residue)
  with u1(1) have "unat (IpChecksum (?h hi lo)) = 0" by simp
  then show ?thesis unfolding t by (simp add: unat_eq_0)
qed

text \<open>C15: The tunnel is transparent. A datagram of at most 2000 bytes that one console sends to an address
  that is not a loopback address leaves as relay frames; when they arrive at another console, in any
  order, within one second and with none of the packet's fragments stored before, the receiving console
  does exactly what it does on being handed that datagram: on the control port its LDN control plane is
  given the payload, on any other port its sockets are, with the sender's address and port (the sending
  console's virtual address for an unbound sender), and nothing else changes but the fragment table.\<close>

theorem tunnel_transparent:
  fixes con :: "'w Console"
  assumes "te_running e" and "cl_fd (te_client e) \<ge> 0" and "\<And>buf. te_sendto e (cl_fd (te_client e)) buf"
    and "dip AND 0xFF000000 \<noteq> 0x7F000000" and "length data \<le> 2000"
    and "tun_Send e sip sport dip dport pr (Some data) (length data) t = (ok, t', map Relay rs)"
    and "distinct (map snd (as @ [(tm, k)]))" and "set (map snd (as @ [(tm, k)])) = {..<length rs}"
    and "\<forall>a \<in> set (as @ [(tm, k)]). t0 \<le> fst a \<and> fst a \<le> t0 + FragTimeoutTicks"
    and "\<forall>f \<in> set (g_frags (con_tun con)). fe_last_tick f < INT64_MAX \<and>
       \<not> frag_key (if sip = 0 then g_local_ip t else sip) (g_ip_id t) f"
    and "length (g_frags (con_tun con)) = MaxFragEntries"
  shows "ok \<and> (\<exists>g. recv_frames e' (map (\<lambda>(t, i). (t, snd (snd (rs ! i)))) (as @ [(tm, k)])) con =
     (let src = (if sip = 0 then g_local_ip t else sip) in
      if dport = ControlPort then
        (let (l, ds) = OnControlFrame (te_running e') tm src data (con_ldn con)
         in send_all (e'\<lparr>te_now := tm\<rparr>) ds (set_frags g (con\<lparr>con_ldn := l\<rparr>)))
      else (set_frags g (con\<lparr>con_mgr := snd (RouteIncomingData (peer_known con) (te_netmap e') src sport dip dport Proto_Udp
              (Some data) (length data) (con_mgr con))\<rparr>), [])))"
proof -
  let ?src = "if sip = 0 then g_local_ip t else sip"
  obtain g where r: "recv_frames e' (map (\<lambda>(t, i). (t, snd (snd (rs ! i)))) (as @ [(tm, k)])) con =
      ProcessIpv4 (e'\<lparr>te_now := tm\<rparr>) (udp_packet ?src sport dip dport (g_ip_id t) data) (set_frags g con)"
    using tunnel_packet_arrives(2) [OF assms] by blast
  show ?thesis
    by (rule conjI [OF tunnel_packet_arrives(1) [OF assms]], rule exI [of _ g])
      (unfold r ProcessIpv4_udp [OF assms(5)] Let_def, simp add: route_to_sockets_def peer_known_frags set_frags_con split_beta)
qed

definition sample_env :: tun_env where
  "sample_env = \<lparr>te_now = 0, te_running = True, te_client = \<lparr>cl_fd = 3, server_ip = 1, server_port = 11451, cl_host = [],
     has_credentials = False, username = [], password_sha1 = []\<rparr>, te_sendto = \<lambda>_ _. True, te_netmap = netmap_init\<rparr>"

definition new_Console :: "'w Console" where
  "new_Console = \<lparr>con_tun = new_Tunnel, con_ldn = new_LdnControl, con_mgr = new_manager\<rparr>"

theorem tunnel_transparent_witness:
  "\<exists>t' rs. tun_Send sample_env 0x0A0D0005 50000 0x0A0D0009 50001 Proto_Udp (Some (replicate 1500 7)) 1500 new_Tunnel =
       (True, t', map Relay rs) \<and>
     con_mgr (fst (recv_frames sample_env [(9, snd (snd (rs ! 1))), (9, snd (snd (rs ! 0)))] (new_Console :: unit Console))) =
     snd (RouteIncomingData (peer_known (new_Console :: unit Console)) netmap_init 0x0A0D0005 50000 0x0A0D0009 50001 Proto_Udp
       (Some (replicate 1500 7)) 1500 new_manager)"
proof -
  let ?d = "replicate 1500 (7 :: u8)"
  let ?p = "udp_packet 0x0A0D0005 50000 0x0A0D0009 50001 (g_ip_id new_Tunnel) ?d"
  let ?rs = "map (\<lambda>f. (server_ip (te_client sample_env), server_port (te_client sample_env), f)) (map (frag_frame ?p) [0..<parts ?p])"
  have np: "parts ?p = 2" by (simp add: parts_def length_udp_packet SLP_MTU_def)
  have e: "te_running sample_env" "cl_fd (te_client sample_env) \<ge> 0" "\<And>buf. te_sendto sample_env (cl_fd (te_client sample_env)) buf"
    by (simp_all add: sample_env_def)
  have dip: "(0x0A0D0009 :: u32) AND 0xFF000000 \<noteq> 0x7F000000" by simp
  have dl: "length ?d \<le> 2000" by simp
  have snd: "tun_Send sample_env 0x0A0D0005 50000 0x0A0D0009 50001 Proto_Udp (Some ?d) (length ?d) new_Tunnel =
      (True, new_Tunnel\<lparr>g_ip_id := g_ip_id new_Tunnel + 1\<rparr>, map Relay ?rs)"
    using tun_Send_frames [OF e dip dl, of "0x0A0D0005" 50000 50001 Proto_Udp new_Tunnel] by (simp add: o_def)
  have t: "\<forall>a \<in> set ([(9, 1)] @ [(9::int, 0::nat)]). 9 \<le> fst a \<and> fst a \<le> 9 + FragTimeoutTicks"
    by (simp add: FragTimeoutTicks_def)
  have g: "\<forall>f \<in> set (g_frags (con_tun (new_Console :: unit Console))). fe_last_tick f < INT64_MAX \<and>
      \<not> frag_key (if (0x0A0D0005 :: u32) = 0 then g_local_ip new_Tunnel else 0x0A0D0005) (g_ip_id new_Tunnel) f"
    "length (g_frags (con_tun (new_Console :: unit Console))) = MaxFragEntries"
    by (simp_all add: new_Console_def new_Tunnel_def zero_FragEntry_def INT64_MAX_def frag_key_def)
  have idx: "distinct (map snd ([(9, 1)] @ [(9::int, 0::nat)]))" "set (map snd ([(9, 1)] @ [(9::int, 0::nat)])) = {..<length ?rs}"
    by (auto simp: np)
  note tt = tunnel_transparent [OF e dip dl snd idx t g, of sample_env]
  have "con_mgr (fst (recv_frames sample_env [(9, snd (snd (?rs ! 1))), (9, snd (snd (?rs ! 0)))] (new_Console :: unit Console))) =
     snd (RouteIncomingData (peer_known (new_Console :: unit Console)) netmap_init 0x0A0D0005 50000 0x0A0D0009 50001 Proto_Udp
       (Some ?d) 1500 new_manager)"
    using tt by (auto simp: ControlPort_def sample_env_def new_Console_def set_frags_def Let_def)
  moreover have "tun_Send sample_env 0x0A0D0005 50000 0x0A0D0009 50001 Proto_Udp (Some ?d) 1500 new_Tunnel =
      (True, new_Tunnel\<lparr>g_ip_id := g_ip_id new_Tunnel + 1\<rparr>, map Relay ?rs)"
    using snd by (simp only: length_replicate)
  ultimately show ?thesis by (intro exI conjI)
qed

end
