(* ===== verification/Sha1.thy ===== *)
theory Sha1
  imports Prelude
begin

text \<open>
  The SHA-1 implementation of the relay login (\<^verbatim>\<open>slp/sha1.h\<close> and \<^verbatim>\<open>slp/sha1.c\<close>): the context with its
  64-bit bit counter in two 32-bit halves, \<^verbatim>\<open>SHA1Transform\<close>, \<^verbatim>\<open>SHA1Init\<close>, \<^verbatim>\<open>SHA1Update\<close> and \<^verbatim>\<open>SHA1Final\<close> on a
  little-endian machine, and its equivalence with the definition of the hash: pad the message, cut it
  into blocks of 64 bytes, run the compression function over them.

  The 80 unrolled rounds rename the five working variables from round to round; the model rotates their
  values instead. The compression function itself is taken as the code has it.
\<close>

section \<open>The compression function\<close>

definition rol :: "u32 \<Rightarrow> nat \<Rightarrow> u32" where
  "rol value bits = push_bit bits value OR drop_bit (32 - bits) value"

definition blk0 :: "u32 \<Rightarrow> u32" where
  "blk0 w = (rol w 24 AND 0xFF00FF00) OR (rol w 8 AND 0x00FF00FF)"

definition blk :: "nat \<Rightarrow> u32 list \<Rightarrow> u32" where
  "blk i l = rol (l ! ((i + 13) mod 16) XOR l ! ((i + 8) mod 16) XOR l ! ((i + 2) mod 16) XOR l ! (i mod 16)) 1"

definition load_le :: "bytes \<Rightarrow> nat \<Rightarrow> u32" where
  "load_le b i = ucast (b ! (4 * i)) OR push_bit 8 (ucast (b ! (4 * i + 1))) OR push_bit 16 (ucast (b ! (4 * i + 2))) OR
     push_bit 24 (ucast (b ! (4 * i + 3)))"

type_synonym sha_vars = "u32 \<times> u32 \<times> u32 \<times> u32 \<times> u32"

text \<open>Round \<open>i\<close>: the new block word, the round function with its constant, and the rotated variables.\<close>

definition sha_f :: "nat \<Rightarrow> u32 \<Rightarrow> u32 \<Rightarrow> u32 \<Rightarrow> u32" where
  "sha_f i w x y =
     (if i < 20 then (w AND (x XOR y)) XOR y
      else if i < 40 then w XOR x XOR y
      else if i < 60 then ((w OR x) AND y) OR (w AND x)
      else w XOR x XOR y)"

definition sha_k :: "nat \<Rightarrow> u32" where
  "sha_k i = (if i < 20 then 0x5A827999 else if i < 40 then 0x6ED9EBA1 else if i < 60 then 0x8F1BBCDC else 0xCA62C1D6)"

definition sha_round :: "nat \<Rightarrow> sha_vars \<times> u32 list \<Rightarrow> sha_vars \<times> u32 list" where
  "sha_round i s =
     (case s of ((v, w, x, y, z), l) \<Rightarrow>
        (let t = (if i < 16 then blk0 (l ! i) else blk i l)
         in ((z + (sha_f i w x y + t + sha_k i + rol v 5), v, rol w 30, x, y), l[i mod 16 := t])))"

definition SHA1Transform :: "u32 list \<Rightarrow> bytes \<Rightarrow> u32 list" where
  "SHA1Transform st buffer =
     (case fold sha_round [0..<80] ((st ! 0, st ! 1, st ! 2, st ! 3, st ! 4), map (load_le buffer) [0..<16]) of
        ((a, b, c, d, e), _) \<Rightarrow> [st ! 0 + a, st ! 1 + b, st ! 2 + c, st ! 3 + d, st ! 4 + e])"

section \<open>The streaming interface\<close>

record SHA1_CTX =
  sha_state :: "u32 list"
  count0 :: u32
  count1 :: u32
  sha_buffer :: bytes

definition SHA1Init :: "bytes \<Rightarrow> SHA1_CTX" where
  "SHA1Init garbage = \<lparr>sha_state = [0x67452301, 0xEFCDAB89, 0x98BADCFE, 0x10325476, 0xC3D2E1F0], count0 = 0, count1 = 0,
     sha_buffer = garbage\<rparr>"

text \<open>The loop over the full blocks of the data from index \<open>i\<close>; it returns the state and the index where
  it stopped.\<close>

function whole_blocks :: "bytes \<Rightarrow> nat \<Rightarrow> u32 list \<Rightarrow> u32 list \<times> nat" where
  "whole_blocks data i st =
     (if i + 63 < length data then whole_blocks data (i + 64) (SHA1Transform st (take 64 (drop i data))) else (st, i))"
  by pat_completeness auto
termination by (relation "measure (\<lambda>(data, i, _). length data - i)") auto

declare whole_blocks.simps [simp del]

definition put_at :: "bytes \<Rightarrow> nat \<Rightarrow> bytes \<Rightarrow> bytes" where
  "put_at buf j src = take j buf @ src @ drop (j + length src) buf"

definition SHA1Update :: "SHA1_CTX \<Rightarrow> bytes \<Rightarrow> SHA1_CTX" where
  "SHA1Update c data =
     (let len = of_nat (length data) :: u32;
          j0 = count0 c;
          n0 = count0 c + push_bit 3 len;
          n1 = (if n0 < j0 then count1 c + 1 else count1 c) + drop_bit 29 len;
          j = unat (drop_bit 3 j0 AND 63)
      in if of_nat j + len > 63 then
           (let i = 64 - j;
                st = SHA1Transform (sha_state c) (put_at (sha_buffer c) j (take i data));
                (st', i') = whole_blocks data i st
            in c\<lparr>sha_state := st', count0 := n0, count1 := n1,
                 sha_buffer := put_at (put_at (sha_buffer c) j (take i data)) 0 (drop i' data)\<rparr>)
         else c\<lparr>count0 := n0, count1 := n1, sha_buffer := put_at (sha_buffer c) j data\<rparr>)"

text \<open>The padding loop of \<^verbatim>\<open>SHA1Final\<close>; the bit count grows by eight each round, so 64 rounds are enough.\<close>

fun pad_zeros :: "nat \<Rightarrow> SHA1_CTX \<Rightarrow> SHA1_CTX option" where
  "pad_zeros 0 c = None"
| "pad_zeros (Suc n) c = (if count0 c AND 504 \<noteq> 448 then pad_zeros n (SHA1Update c [0]) else Some c)"

definition finalcount :: "SHA1_CTX \<Rightarrow> bytes" where
  "finalcount c = map (\<lambda>i. ucast (drop_bit ((3 - i mod 4) * 8) (if i \<ge> 4 then count0 c else count1 c) AND 255)) [0..<8]"

definition SHA1Final :: "SHA1_CTX \<Rightarrow> bytes option" where
  "SHA1Final c =
     (let fc = finalcount c
      in case pad_zeros 64 (SHA1Update c [0x80]) of
           None \<Rightarrow> None
         | Some c1 \<Rightarrow>
             (let c2 = SHA1Update c1 fc
              in Some (map (\<lambda>i. ucast (drop_bit ((3 - i mod 4) * 8) (sha_state c2 ! (i div 4)) AND 255)) [0..<20])))"

section \<open>The hash of a message\<close>

function hash_blocks :: "u32 list \<Rightarrow> bytes \<Rightarrow> u32 list" where
  "hash_blocks st m = (if length m < 64 then st else hash_blocks (SHA1Transform st (take 64 m)) (drop 64 m))"
  by pat_completeness auto
termination by (relation "measure (\<lambda>(_, m). length m)") auto

declare hash_blocks.simps [simp del]

definition sha_init :: "u32 list" where
  "sha_init = [0x67452301, 0xEFCDAB89, 0x98BADCFE, 0x10325476, 0xC3D2E1F0]"

definition sha_pad :: "bytes \<Rightarrow> bytes" where
  "sha_pad m = m @ 0x80 # replicate ((119 - length m mod 64) mod 64) 0 @
     Wr32be (of_nat (8 * length m div 2 ^ 32)) @ Wr32be (of_nat (8 * length m))"

definition sha1 :: "bytes \<Rightarrow> bytes" where
  "sha1 m = concat (map Wr32be (hash_blocks sha_init (sha_pad m)))"

section \<open>The context holds a prefix of the message\<close>

definition represents :: "SHA1_CTX \<Rightarrow> bytes \<Rightarrow> bool" where
  "represents c m \<longleftrightarrow> sha_state c = hash_blocks sha_init m \<and> length (sha_buffer c) = 64 \<and>
     take (length m mod 64) (sha_buffer c) = drop (64 * (length m div 64)) m \<and>
     unat (count0 c) + 2 ^ 32 * unat (count1 c) = 8 * length m"

lemma hash_blocks_append:
  "length m mod 64 = 0 \<Longrightarrow> hash_blocks st (m @ x) = hash_blocks (hash_blocks st m) x"
proof (induction st m rule: hash_blocks.induct)
  case (1 st m)
  show ?case
  proof (cases "length m < 64")
    case True
    then have "m = []" using 1(2) by simp
    then show ?thesis by (simp add: hash_blocks.simps [of st "[]"])
  next
    case False
    then have "length (drop 64 m) mod 64 = 0" using 1(2) by (simp add: le_mod_geq)
    from 1(1) [OF False this] False show ?thesis
      using hash_blocks.simps [of st "m @ x"] hash_blocks.simps [of st m] by simp
  qed
qed

lemma hash_blocks_short: "length m < 64 \<Longrightarrow> hash_blocks st m = st"
  by (subst hash_blocks.simps) simp

lemma hash_blocks_one: "length b = 64 \<Longrightarrow> hash_blocks st (b @ x) = hash_blocks (SHA1Transform st b) x"
  by (subst hash_blocks.simps) simp

lemma split_blocks:
  fixes m :: bytes
  obtains m0 t k where "m = m0 @ t" "length m0 = 64 * k" "length t < 64"
proof -
  let ?k = "length m div 64"
  have "m = take (64 * ?k) m @ drop (64 * ?k) m" "length (take (64 * ?k) m) = 64 * ?k" "length (drop (64 * ?k) m) < 64"
    by (simp_all add: minus_mult_div_eq_mod)
  then show ?thesis by (rule that)
qed

lemma represents_split:
  assumes "length m0 = 64 * k" and "length t < 64"
  shows "represents c (m0 @ t) \<longleftrightarrow> sha_state c = hash_blocks sha_init m0 \<and> length (sha_buffer c) = 64 \<and>
     take (length t) (sha_buffer c) = t \<and> unat (count0 c) + 2 ^ 32 * unat (count1 c) = 8 * (64 * k + length t)"
proof -
  have "length (m0 @ t) mod 64 = length t" "64 * (length (m0 @ t) div 64) = length m0" using assms by simp_all
  moreover have "hash_blocks sha_init (m0 @ t) = hash_blocks sha_init m0"
    using hash_blocks_append [of m0 sha_init t] hash_blocks_short [OF assms(2)] assms(1) by simp
  ultimately show ?thesis unfolding represents_def using assms(1) by simp
qed

lemma whole_blocks_eq:
  "i \<le> length data \<Longrightarrow> \<exists>i'. whole_blocks data i st = (hash_blocks st (drop i data), i') \<and> i' \<le> length data \<and>
     length data - i' = (length data - i) mod 64"
proof (induction data i st rule: whole_blocks.induct)
  case (1 data i st)
  show ?case
  proof (cases "i + 63 < length data")
    case True
    have "length (take 64 (drop i data)) = 64" using True by simp
    from hash_blocks_one [OF this, of st "drop (i + 64) data"] have
      h: "hash_blocks st (drop i data) = hash_blocks (SHA1Transform st (take 64 (drop i data))) (drop (i + 64) data)"
      by (metis append_take_drop_id drop_drop add.commute)
    have "(length data - i) mod 64 = (length data - (i + 64)) mod 64" using True by (simp add: le_mod_geq)
    then show ?thesis using 1(1) [OF True] True h by (subst whole_blocks.simps) simp
  next
    case False
    then have "hash_blocks st (drop i data) = st" by (intro hash_blocks_short) simp
    with False 1(2) show ?thesis by (subst whole_blocks.simps) simp
  qed
qed

text \<open>The bit counter.\<close>

lemma counter:
  fixes C0 C1 len :: u32 and l n :: nat
  assumes "unat C0 + 2 ^ 32 * unat C1 = 8 * l" and "n < 2 ^ 32" and "len = of_nat n" and "8 * (l + n) < 2 ^ 64"
  defines "n0 \<equiv> C0 + push_bit 3 len"
  shows "unat n0 + 2 ^ 32 * unat ((if n0 < C0 then C1 + 1 else C1) + drop_bit 29 len) = 8 * (l + n)"
proof -
  have un: "unat len = n" using assms(2,3) by (simp add: unat_of_nat take_bit_nat_eq_self)
  have p: "unat (push_bit 3 len) = 8 * n mod 2 ^ 32"
    using un by (simp add: unsigned_push_bit_eq push_bit_eq_mult take_bit_eq_mod mult.commute unat_word_ariths)
  have d: "unat (drop_bit 29 len) = 8 * n div 2 ^ 32"
    using un by (simp add: unsigned_drop_bit_eq drop_bit_eq_div unat_div_distrib)
  define a b p' d' where "a = unat C0" and "b = unat C1" and "p' = 8 * n mod 2 ^ 32" and "d' = 8 * n div 2 ^ 32"
  have lt: "a < 2 ^ 32" "b < 2 ^ 32" "p' < 2 ^ 32"
    using unsigned_less [of C0] unsigned_less [of C1] by (simp_all add: a_def b_def p'_def)
  have n8: "8 * n = p' + 2 ^ 32 * d'" unfolding p'_def d'_def by (rule mod_mult_div_eq [symmetric])
  have t: "a + 2 ^ 32 * b + (p' + 2 ^ 32 * d') = 8 * (l + n)" using assms(1) n8 by (simp add: a_def b_def)
  have n0: "unat n0 = (a + p') mod 2 ^ 32" by (simp add: n0_def unat_word_ariths p a_def p'_def)
  have lt': "n0 < C0 \<longleftrightarrow> (a + p') mod 2 ^ 32 < a" unfolding word_less_nat_alt n0 a_def ..
  show ?thesis
  proof (cases "a + p' < 2 ^ 32")
    case True
    then have 1: "unat n0 = a + p'" "\<not> n0 < C0" using n0 lt' by simp_all
    have "b + d' < 2 ^ 32" using t assms(4) by simp
    then have "unat (C1 + drop_bit 29 len) = b + d'" by (simp add: unat_word_ariths d b_def d'_def)
    with 1 t show ?thesis by simp
  next
    case False
    then have m: "(a + p') mod 2 ^ 32 = a + p' - 2 ^ 32" using lt by (simp add: le_mod_geq)
    then have 1: "unat n0 = a + p' - 2 ^ 32" "n0 < C0" using n0 lt' lt False by auto
    have "b + 1 + d' < 2 ^ 32" using t assms(4) False by simp
    then have "unat (C1 + 1 + drop_bit 29 len) = b + 1 + d'" by (simp add: unat_word_ariths d b_def d'_def)
    with 1 t False show ?thesis by simp
  qed
qed

lemma and_63: "(x :: 'a::len word) AND 63 = take_bit 6 x"
  by (simp add: take_bit_eq_mask mask_numeral)

lemma buffered:
  fixes C0 C1 :: u32
  assumes "unat C0 + 2 ^ 32 * unat C1 = 8 * l"
  shows "unat (drop_bit 3 C0 AND 63) = l mod 64"
proof -
  have "unat (drop_bit 3 C0 AND 63) = unat C0 div 8 mod 64"
    by (simp add: and_63 unsigned_take_bit_eq take_bit_eq_mod unsigned_drop_bit_eq drop_bit_eq_div unat_mod_distrib unat_div_distrib)
  moreover have "l = unat C0 div 8 + 2 ^ 29 * unat C1"
  proof -
    have "l = (unat C0 + 8 * (2 ^ 29 * unat C1)) div 8" using assms by simp
    also have "\<dots> = unat C0 div 8 + 2 ^ 29 * unat C1" by (simp only: div_mult_self2 add.commute)
    finally show ?thesis .
  qed
  moreover have "(unat C0 div 8 + 2 ^ 29 * unat C1) mod 64 = unat C0 div 8 mod 64"
    by (simp add: mod_add_eq [symmetric] mult.assoc [of 64 "2 ^ 23", symmetric])
  ultimately show ?thesis by simp
qed

lemma represents_init: "length garbage = 64 \<Longrightarrow> represents (SHA1Init garbage) []"
  by (simp add: represents_def SHA1Init_def hash_blocks_short sha_init_def)

lemma length_put_at: "j + length src \<le> length buf \<Longrightarrow> length (put_at buf j src) = length buf"
  by (simp add: put_at_def)

lemma take_put_at: "j \<le> length buf \<Longrightarrow> take (j + length src) (put_at buf j src) = take j buf @ src"
  by (simp add: put_at_def)

lemma u32_gt63:
  assumes "i < 64" and "n < 2 ^ 32 - 64"
  shows "(of_nat i + of_nat n :: u32) > 63 \<longleftrightarrow> i + n > 63"
proof -
  have "unat (of_nat i + of_nat n :: u32) = i + n"
    using assms by (simp add: unat_of_nat take_bit_nat_eq_self flip: of_nat_add)
  then show ?thesis by (simp add: word_less_nat_alt)
qed

text \<open>The blocks a long update hashes: the buffered bytes filled up to a block, then whole blocks of the new
  data; what is left is shorter than a block.\<close>

lemma update_blocks:
  assumes "length m0 = 64 * k" and "length t < 64" and "length t + length data > 63"
  defines "i \<equiv> 64 - length t"
  defines "st \<equiv> SHA1Transform (hash_blocks sha_init m0) (t @ take i data)"
  obtains i' q where "whole_blocks data i st = (hash_blocks sha_init (m0 @ t @ take i' data), i')"
    "i' = i + 64 * q" "i' \<le> length data" "length (drop i' data) < 64"
proof -
  have tk: "length (take i data) = i" and i: "i \<le> length data" using assms(2,3) by (auto simp: i_def)
  obtain i' where i': "whole_blocks data i st = (hash_blocks st (drop i data), i')" "i' \<le> length data"
    "length data - i' = (length data - i) mod 64"
    using whole_blocks_eq [OF i] by blast
  define q where "q = (length data - i) div 64"
  have ii: "i' = i + 64 * q" using i' i mult_div_mod_eq [of 64 "length data - i"] unfolding q_def by linarith
  have l: "length (drop i' data) < 64" using i' by simp
  have mid: "length (drop i (take i' data)) mod 64 = 0" using i' ii by (simp add: min_absorb2)
  have dr: "drop i data = drop i (take i' data) @ drop i' data"
    using i' ii by (metis append_take_drop_id drop_append diff_is_0_eq drop0 le_add1 length_take min_absorb2)
  have bm: "t @ take i' data = (t @ take i data) @ drop i (take i' data)"
    using ii append_take_drop_id [of i "take i' data"] by (simp add: take_take min_absorb1)
  have "hash_blocks sha_init (m0 @ t @ take i' data) = hash_blocks (hash_blocks sha_init m0) (t @ take i' data)"
    using hash_blocks_append [of m0 sha_init "t @ take i' data"] assms(1) by simp
  also have "\<dots> = hash_blocks st (drop i (take i' data))"
    unfolding bm st_def using tk assms(2) by (intro hash_blocks_one) (simp add: i_def)
  also have "\<dots> = hash_blocks st (drop i data)"
    unfolding dr hash_blocks_append [OF mid] using hash_blocks_short [OF l] by simp
  finally show thesis using that i' ii l by simp
qed

lemma represents_Update:
  assumes r: "represents c m" and n: "length data < 2 ^ 32 - 64" and b: "8 * (length m + length data) < 2 ^ 64"
  shows "represents (SHA1Update c data) (m @ data)"
proof -
  obtain m0 t k where m: "m = m0 @ t" "length m0 = 64 * k" "length t < 64" by (rule split_blocks)
  let ?len = "of_nat (length data) :: u32"
  have c: "sha_state c = hash_blocks sha_init m0" "length (sha_buffer c) = 64" "take (length t) (sha_buffer c) = t"
    "unat (count0 c) + 2 ^ 32 * unat (count1 c) = 8 * (64 * k + length t)"
    using r unfolding m(1) represents_split [OF m(2,3)] by simp_all
  let ?n0 = "count0 c + push_bit 3 ?len"
  let ?n1 = "(if ?n0 < count0 c then count1 c + 1 else count1 c) + drop_bit 29 ?len"
  have n': "length data < 2 ^ 32" and b': "8 * (64 * k + length t + length data) < 2 ^ 64" using n b m by simp_all
  note cnt = counter [OF c(4) n' refl b']
  have j: "unat (drop_bit 3 (count0 c) AND 63) = length t" using buffered [OF c(4)] m(3) by simp
  note gt = u32_gt63 [OF m(3) n]
  show ?thesis
  proof (cases "length t + length data > 63")
    case False
    then have l: "length (t @ data) < 64" by simp
    have u: "SHA1Update c data = c\<lparr>count0 := ?n0, count1 := ?n1, sha_buffer := put_at (sha_buffer c) (length t) data\<rparr>"
      using False unfolding SHA1Update_def Let_def j gt by simp
    show ?thesis
      unfolding m(1) append_assoc represents_split [OF m(2) l] u
      using c cnt m(3) l length_put_at [of "length t" data "sha_buffer c"] take_put_at [of "length t" "sha_buffer c" data]
      by (simp add: add.assoc)
  next
    case True
    let ?i = "64 - length t"
    let ?b = "put_at (sha_buffer c) (length t) (take ?i data)"
    have tk: "length (take ?i data) = ?i" using True m(3) by auto
    have blk: "?b = t @ take ?i data" using c(2,3) tk m(3) by (simp add: put_at_def)
    obtain i' q where w: "whole_blocks data ?i (SHA1Transform (hash_blocks sha_init m0) (t @ take ?i data)) =
        (hash_blocks sha_init (m0 @ t @ take i' data), i')" "i' = ?i + 64 * q" "i' \<le> length data" "length (drop i' data) < 64"
      using update_blocks [OF m(2,3) True] by metis
    have l: "length (m0 @ t @ take i' data) = 64 * (k + 1 + q)" using m w(2,3) by (simp add: min_absorb2)
    have u: "SHA1Update c data = c\<lparr>sha_state := hash_blocks sha_init (m0 @ t @ take i' data), count0 := ?n0, count1 := ?n1,
        sha_buffer := put_at ?b 0 (drop i' data)\<rparr>"
      using True unfolding SHA1Update_def Let_def j gt c(1) blk w(1) by simp
    have lb: "length ?b = 64" using tk m(3) by (simp add: blk)
    have "8 * (64 * (k + 1 + q) + length (drop i' data)) = 8 * (64 * k + length t + length data)" using w(2,3) m(3) by simp
    moreover have "m @ data = (m0 @ t @ take i' data) @ drop i' data" using m(1) by simp
    ultimately show ?thesis
      using represents_split [OF l w(4), of "SHA1Update c data"] cnt lb w(4) length_put_at [of 0 "drop i' data" ?b]
        take_put_at [of 0 ?b "drop i' data"]
      by (simp add: u)
  qed
qed

section \<open>Padding and the digest\<close>

lemma pad_done:
  assumes "unat (C0 :: u32) + 2 ^ 32 * unat (C1 :: u32) = 8 * l"
  shows "C0 AND 504 = 448 \<longleftrightarrow> l mod 64 = 56"
proof -
  have m: "(504 :: u32) = push_bit 3 (mask 6)" by (simp add: mask_eq_exp_minus_1 push_bit_eq_mult)
  have "C0 AND 504 = push_bit 3 (drop_bit 3 C0 AND 63)"
    by (rule bit_word_eqI) (auto simp: m and_63 bit_simps)
  then have "unat (C0 AND 504) = 8 * (l mod 64)"
    using buffered [OF assms] mod_less_divisor [of 64 l]
    by (simp add: unsigned_push_bit_eq push_bit_eq_mult take_bit_nat_eq_self mult.commute unat_word_ariths)
  then show ?thesis by (auto simp: word_unat_eq_iff)
qed

lemma pad_zeros_spec:
  "represents c m \<Longrightarrow> 8 * (length m + k) < 2 ^ 64 \<Longrightarrow> (length m + k) mod 64 = 56 \<Longrightarrow> k < 64 \<Longrightarrow> k < n \<Longrightarrow>
     \<exists>c'. pad_zeros n c = Some c' \<and> represents c' (m @ replicate k 0)"
proof (induction k arbitrary: n c m)
  case 0
  obtain n' where n: "n = Suc n'" using 0 by (cases n) auto
  have "count0 c AND 504 = 448" using 0 pad_done [of "count0 c" "count1 c" "length m"] by (simp add: represents_def)
  with 0 n show ?case by simp
next
  case (Suc k)
  obtain n' where n: "n = Suc n'" "k < n'" using Suc.prems by (cases n) auto
  have "length m mod 64 \<noteq> 56"
  proof
    assume "length m mod 64 = 56"
    then have "(56 + Suc k) mod 64 = 56" using Suc.prems(3) by (metis mod_add_left_eq)
    with Suc.prems(4) show False by (cases "Suc k < 8") (auto simp: le_mod_geq)
  qed
  then have "count0 c AND 504 \<noteq> 448"
    using Suc.prems(1) pad_done [of "count0 c" "count1 c" "length m"] by (simp add: represents_def)
  moreover have "represents (SHA1Update c [0]) (m @ [0])"
    using Suc.prems by (intro represents_Update) simp_all
  from Suc.IH [OF this, of n'] obtain c' where "pad_zeros n' (SHA1Update c [0]) = Some c'"
    "represents c' ((m @ [0]) @ replicate k 0)" using Suc.prems n by auto
  ultimately show ?case using n by simp
qed

lemma byte_and: "ucast (drop_bit k v AND 255) = (ucast (drop_bit k (v :: u32)) :: u8)"
  unfolding and_255 by (rule bit_word_eqI) (simp add: bit_simps)

lemma be_bytes: "map (\<lambda>i. ucast (drop_bit ((3 - i mod 4) * 8) v AND 255)) [0..<4] = Wr32be v"
  by (simp add: upt_rec byte_and Wr32be_def) (use byte_and [of 0 v] in simp)

lemma finalcount_eq: "finalcount c = Wr32be (count1 c) @ Wr32be (count0 c)"
proof -
  have "[0..<8] = [0..<4] @ map (\<lambda>i. i + 4) [0..<4]" by (simp add: upt_rec)
  then have "finalcount c = map (\<lambda>i. ucast (drop_bit ((3 - i mod 4) * 8) (count1 c) AND 255)) [0..<4] @
      map (\<lambda>i. ucast (drop_bit ((3 - i mod 4) * 8) (count0 c) AND 255)) [0..<4]"
    unfolding finalcount_def by simp
  then show ?thesis unfolding be_bytes .
qed

lemma digest_eq:
  assumes "length st = 5"
  shows "map (\<lambda>i. ucast (drop_bit ((3 - i mod 4) * 8) (st ! (i div 4)) AND 255)) [0..<20] = concat (map Wr32be st)"
proof -
  obtain a b c d e where st: "st = [a, b, c, d, e]"
    using assms by (auto simp: numeral_eq_Suc length_Suc_conv)
  show ?thesis using be_bytes [of a] be_bytes [of b] be_bytes [of c] be_bytes [of d] be_bytes [of e]
    by (simp add: st upt_rec)
qed

lemma length_hash_blocks: "length st = 5 \<Longrightarrow> length (hash_blocks st m) = 5"
proof (induction st m rule: hash_blocks.induct)
  case (1 st m)
  have "length (SHA1Transform st (take 64 m)) = 5" by (simp add: SHA1Transform_def split: prod.splits)
  with 1 show ?case by (subst hash_blocks.simps) simp
qed

lemma represents_count:
  assumes "represents c m" and "8 * length m < 2 ^ 64"
  shows "count0 c = of_nat (8 * length m)" "count1 c = of_nat (8 * length m div 2 ^ 32)"
proof -
  have e: "unat (count0 c) + 2 ^ 32 * unat (count1 c) = 8 * length m" using assms(1) by (simp add: represents_def)
  have lt: "unat (count0 c) < 2 ^ 32" using unsigned_less [of "count0 c"] by simp
  have "8 * length m mod 2 ^ 32 = unat (count0 c)" unfolding e [symmetric] using lt by simp
  moreover have "unat (of_nat n :: u32) = n mod 2 ^ 32" for n by (simp add: unat_of_nat take_bit_eq_mod)
  ultimately show "count0 c = of_nat (8 * length m)" by (metis word_unat_eq_iff)
  have "8 * length m div 2 ^ 32 = unat (count1 c)" unfolding e [symmetric] using lt by simp
  then show "count1 c = of_nat (8 * length m div 2 ^ 32)" by simp
qed

lemma SHA1Final_represents:
  assumes "represents c m" and "8 * (length m + 72) < 2 ^ 64"
  shows "SHA1Final c = Some (sha1 m)"
proof -
  let ?k = "(119 - length m mod 64) mod 64" and ?m1 = "m @ [0x80]"
  have r1: "represents (SHA1Update c [0x80]) ?m1" using assms by (intro represents_Update) simp_all
  have k: "?k < 64" by simp
  have pad: "(length ?m1 + ?k) mod 64 = 56"
  proof -
    have "(length ?m1 + ?k) mod 64 = (length m + 1 + (119 - length m mod 64)) mod 64"
      by (simp only: length_append list.size mod_add_right_eq add_0 One_nat_def)
    also have "length m + 1 + (119 - length m mod 64) = 120 + 64 * (length m div 64)"
      using mod_less_divisor [of 64 "length m"] mult_div_mod_eq [of 64 "length m"] by linarith
    also have "\<dots> mod 64 = 56" by simp
    finally show ?thesis by simp
  qed
  have "8 * (length ?m1 + ?k) < 2 ^ 64" using assms(2) k by simp
  from pad_zeros_spec [OF r1 this pad k k] obtain c1 where
    c1: "pad_zeros 64 (SHA1Update c [0x80]) = Some c1" "represents c1 (?m1 @ replicate ?k 0)" by blast
  let ?c2 = "SHA1Update c1 (finalcount c)"
  have fc: "finalcount c = Wr32be (of_nat (8 * length m div 2 ^ 32)) @ Wr32be (of_nat (8 * length m))"
    unfolding finalcount_eq using represents_count [OF assms(1)] assms(2) by simp
  have "represents ?c2 ((?m1 @ replicate ?k 0) @ finalcount c)"
    using c1(2) assms(2) k by (intro represents_Update) (simp_all add: fc)
  moreover have p: "(?m1 @ replicate ?k 0) @ finalcount c = sha_pad m" by (simp add: sha_pad_def fc)
  ultimately have "sha_state ?c2 = hash_blocks sha_init (sha_pad m)" by (simp add: represents_def)
  then show ?thesis
    using c1(1) digest_eq [OF length_hash_blocks, of sha_init "sha_pad m"]
    by (simp add: SHA1Final_def Let_def sha1_def sha_init_def)
qed

lemma represents_fold:
  assumes "represents c m" and "\<forall>d \<in> set ds. length d < 2 ^ 32 - 64" and "8 * (length m + length (concat ds)) < 2 ^ 64"
  shows "represents (fold (\<lambda>d c. SHA1Update c d) ds c) (m @ concat ds)"
  using assms
proof (induction ds arbitrary: c m)
  case (Cons d ds)
  have "represents (SHA1Update c d) (m @ d)" using Cons.prems by (intro represents_Update) simp_all
  from Cons.IH [OF this] Cons.prems show ?case by (simp add: add.assoc)
qed simp

section \<open>Properties\<close>

text \<open>C35: Feeding a message to the hash in any pieces computes its SHA-1: after initialising the context
  (whatever its buffer held) and updating it with the pieces in order, the final call ends, and its
  digest is the one of the whole message: the padded message run through the compression function block
  by block. The pieces must be shorter than 2^32 - 64 bytes and the message shorter than 2^61 - 72.\<close>

theorem sha1_streaming:
  assumes "length garbage = 64" and "\<forall>d \<in> set ds. length d < 2 ^ 32 - 64" and "length (concat ds) < 2 ^ 61 - 72"
  shows "SHA1Final (fold (\<lambda>d c. SHA1Update c d) ds (SHA1Init garbage)) = Some (sha1 (concat ds))"
proof -
  have "8 * (length (concat ds) + 72) < 2 ^ 64" using assms(3) by simp
  then show ?thesis
    using represents_fold [OF represents_init [OF assms(1)] assms(2)] SHA1Final_represents by simp
qed

theorem sha1_streaming_witness:
  "SHA1Final (SHA1Update (SHA1Update (SHA1Init (replicate 64 9)) [97]) [98, 99]) = Some (sha1 [97, 98, 99])"
  using sha1_streaming [of "replicate 64 9" "[[97], [98, 99]]"] by simp

end
