(* ===== verification/Slp_Client.thy ===== *)
theory Slp_Client
  imports Slp_Frame Sha1 Ldn_Wire
begin

text \<open>
  The relay client (\<^verbatim>\<open>slp/slp_client.c\<close>): name resolution with its own DNS query and reply parser, opening,
  closing and re-opening the socket, receiving, and the relay login.

  C strings are byte lists without their terminator. What the operating system answers (\<^verbatim>\<open>inet_pton\<close>, the
  socket calls, the reply of the DNS server) is the record \<open>os_answers\<close>. An IPv4 address in network byte
  order is the 32-bit value whose four bytes in memory are the address, so on this little-endian machine
  \<^verbatim>\<open>memcpy\<close> into it is \<open>Rd32le\<close>.
\<close>

section \<open>DNS\<close>

definition c_at :: "bytes \<Rightarrow> nat \<Rightarrow> u8" where
  "c_at s i = (if i < length s then s ! i else 0)"

text \<open>The label loop of \<^verbatim>\<open>dns_encode_name\<close> on the rest of the name; \<open>None\<close> stands for the result 0.\<close>

function encode_labels :: "bytes \<Rightarrow> nat \<Rightarrow> nat \<Rightarrow> bytes option" where
  "encode_labels label pos cap =
     (if label = [] then (if pos + 2 > cap then None else Some [0])
      else
        (let lab = takeWhile (\<lambda>c. c \<noteq> 46) label; len = length lab
         in if len = 0 \<or> len > 63 \<or> pos + len + 2 > cap then None
            else if len = length label then
              (if pos + 1 + len + 2 > cap then None else Some (of_nat len # lab @ [0]))
            else map_option (\<lambda>rest. of_nat len # lab @ rest) (encode_labels (drop (len + 1) label) (pos + 1 + len) cap)))"
  by pat_completeness auto
termination by (relation "measure (\<lambda>(label, _, _). length label)") auto

declare encode_labels.simps [simp del]

definition dns_encode_name :: "bytes \<Rightarrow> nat \<Rightarrow> bytes option" where
  "dns_encode_name host cap = encode_labels host 0 cap"

definition dns_build_query :: "bytes \<Rightarrow> u16 \<Rightarrow> nat \<Rightarrow> bytes option" where
  "dns_build_query host ident cap =
     (case dns_encode_name host (if cap > 12 then cap - 12 else 0) of
        None \<Rightarrow> None
      | Some name \<Rightarrow>
          Some ([ucast (drop_bit 8 ident), ucast (ident AND 0xFF), 0x01, 0x00, 0x00, 0x01, 0x00, 0x00, 0x00, 0x00, 0x00, 0x00] @
                name @ [0x00, 0x01, 0x00, 0x01]))"

function skip_question :: "bytes \<Rightarrow> nat \<Rightarrow> nat \<Rightarrow> nat" where
  "skip_question resp len pos =
     (if pos < len \<and> resp ! pos \<noteq> 0 then
        (let l = resp ! pos
         in if l AND 0xC0 = 0xC0 then pos + 2 else skip_question resp len (pos + 1 + unat l))
      else pos + 5)"
  by pat_completeness auto
termination by (relation "measure (\<lambda>(_, len, pos). len - pos)") auto

function skip_name :: "bytes \<Rightarrow> nat \<Rightarrow> nat \<Rightarrow> nat" where
  "skip_name resp len pos =
     (if pos < len then
        (let l = resp ! pos
         in if l AND 0xC0 = 0xC0 then pos + 2
            else if l = 0 then pos + 1
            else skip_name resp len (pos + 1 + unat l))
      else pos)"
  by pat_completeness auto
termination by (relation "measure (\<lambda>(_, len, pos). len - pos)") auto

declare skip_question.simps [simp del] skip_name.simps [simp del]

text \<open>The loop over the answers; \<open>n\<close> is the number of answers left. The result is the address of the
  first A record.\<close>

fun scan_answers :: "bytes \<Rightarrow> nat \<Rightarrow> nat \<Rightarrow> nat \<Rightarrow> u32 option" where
  "scan_answers resp len 0 pos = None"
| "scan_answers resp len (Suc n) pos =
     (if pos + 12 \<le> len then
        (let p = skip_name resp len pos
         in if p + 10 > len then None
            else
              (let ty = Rd16be (resp ! p) (resp ! (p + 1)); rdlen = Rd16be (resp ! (p + 8)) (resp ! (p + 9))
               in if ty = 1 \<and> rdlen = 4 \<and> p + 12 \<le> len then Some (Rd32le (drop (p + 10) resp))
                  else scan_answers resp len n (p + 10 + unat rdlen)))
      else None)"

definition dns_parse_response :: "bytes \<Rightarrow> nat \<Rightarrow> u32 option" where
  "dns_parse_response resp len =
     (if len < 12 then None
      else
        (let flags = Rd16be (resp ! 2) (resp ! 3)
         in if flags AND 0x8000 = 0 \<or> flags AND 0x000F \<noteq> 0 then None
            else
              (let ancount = Rd16be (resp ! 6) (resp ! 7)
               in if ancount = 0 then None
                  else scan_answers resp len (unat ancount) (skip_question resp len 12))))"

text \<open>The operating system: the descriptors that the \<^verbatim>\<open>socket\<close> calls of the name resolution and of the relay client
  return, whether \<^verbatim>\<open>bind\<close> succeeds, and what is in the 512-byte reply buffer after the query was sent, with the length
  \<^verbatim>\<open>recvfrom\<close> returned.\<close>

record os_answers =
  os_pton :: "bytes \<Rightarrow> u32 option"
  os_dns_socket :: int
  os_socket :: int
  os_bind :: bool
  os_dns :: "bytes \<Rightarrow> (bytes \<times> nat) option"

definition slpResolveHost :: "os_answers \<Rightarrow> bytes \<Rightarrow> u32 option" where
  "slpResolveHost os host =
     (case os_pton os host of
        Some a \<Rightarrow> Some a
      | None \<Rightarrow>
          (let ident = (push_bit 8 (ucast (c_at host 0)) OR ucast (c_at host 1)) XOR 0x5A5A
           in case dns_build_query host ident 512 of
                None \<Rightarrow> None
              | Some query \<Rightarrow>
                  if os_dns_socket os < 0 then None
                  else (case os_dns os query of
                          None \<Rightarrow> None
                        | Some (resp, rlen) \<Rightarrow> dns_parse_response resp rlen)))"

section \<open>Socket\<close>

definition zero_SlpClient :: SlpClient where
  "zero_SlpClient = \<lparr>cl_fd = 0, server_ip = 0, server_port = 0, cl_host = [], has_credentials = False, username = [],
     password_sha1 = replicate 20 0\<rparr>"

definition slpClientOpen :: "os_answers \<Rightarrow> bytes \<Rightarrow> u16 \<Rightarrow> SlpClient \<Rightarrow> bool \<times> SlpClient" where
  "slpClientOpen os host port c =
     (case slpResolveHost os host of
        None \<Rightarrow> (False, c)
      | Some ip \<Rightarrow>
          if os_socket os < 0 then (False, c)
          else if \<not> os_bind os then (False, c)
          else (True, zero_SlpClient\<lparr>cl_fd := os_socket os, server_ip := ip, server_port := port, cl_host := take 127 host\<rparr>))"

definition slpClientClose :: "SlpClient \<Rightarrow> SlpClient" where
  "slpClientClose c = (if cl_fd c \<ge> 0 then c\<lparr>cl_fd := -1\<rparr> else c)"

definition slpClientReopen :: "os_answers \<Rightarrow> SlpClient \<Rightarrow> bool \<times> SlpClient" where
  "slpClientReopen os c =
     (if server_ip c = 0 \<or> server_port c = 0 then (False, c)
      else if os_socket os < 0 then (False, c)
      else if \<not> os_bind os then (False, c)
      else (True, c\<lparr>cl_fd := os_socket os\<rparr>))"

text \<open>\<open>r\<close> is what \<^verbatim>\<open>recv\<close> delivered within the timeout (\<open>None\<close> is an error or a timeout); the result is the
  datagram with its type.\<close>

definition slpClientRecv :: "bytes option \<Rightarrow> nat \<Rightarrow> (bytes \<times> u8) option" where
  "slpClientRecv r cap =
     (case r of
        None \<Rightarrow> None
      | Some d \<Rightarrow>
          (let buf = take cap d
           in if length buf < 1 then None else Some (buf, the (slpFrameType buf))))"

section \<open>Relay login\<close>

definition sha1_of :: "bytes list \<Rightarrow> bytes" where
  "sha1_of ds = (case SHA1Final (fold (\<lambda>d c. SHA1Update c d) ds (SHA1Init (replicate 64 0))) of
     None \<Rightarrow> [] | Some digest \<Rightarrow> digest)"

definition slpClientSetCredentials :: "bytes option \<Rightarrow> bytes option \<Rightarrow> SlpClient \<Rightarrow> SlpClient" where
  "slpClientSetCredentials user password c =
     (case user of
        None \<Rightarrow> c\<lparr>has_credentials := False, username := [], password_sha1 := replicate 20 0\<rparr>
      | Some u \<Rightarrow>
          if u = [] then c\<lparr>has_credentials := False, username := [], password_sha1 := replicate 20 0\<rparr>
          else c\<lparr>username := take 63 u,
                 password_sha1 := sha1_of (case password of None \<Rightarrow> [] | Some p \<Rightarrow> if p = [] then [] else [p]),
                 has_credentials := True\<rparr>)"

definition slpClientHandleAuthMe :: "(int \<Rightarrow> bytes \<Rightarrow> bool) \<Rightarrow> bytes \<Rightarrow> SlpClient \<Rightarrow> bool \<times> relay_out list" where
  "slpClientHandleAuthMe sendto payload c =
     (if length payload < 1 then (False, [])
      else if payload ! 0 \<noteq> 0 then (False, [])
      else if \<not> has_credentials c then (False, [])
      else
        (let challenge = drop 1 payload;
             digest = sha1_of ([password_sha1 c] @ (if challenge = [] then [] else [challenge]))
         in slpClientSendRaw sendto c (SLP_TYPE_AUTH_ME # digest @ username c)))"

section \<open>Lemmas\<close>

lemma sha1_of_eq:
  assumes "\<forall>d \<in> set ds. length d < 2 ^ 32 - 64" and "length (concat ds) < 2 ^ 32"
  shows "sha1_of ds = sha1 (concat ds)"
proof -
  have "represents (fold (\<lambda>d c. SHA1Update c d) ds (SHA1Init (replicate 64 0))) ([] @ concat ds)"
    by (rule represents_fold [OF represents_init assms(1)]) (use assms(2) in simp_all)
  then show ?thesis using SHA1Final_represents [of _ "concat ds"] assms(2) by (simp add: sha1_of_def)
qed

lemma concat_one: "concat (if x = [] then [] else [x]) = x"
  by simp

lemma length_sha1: "length (sha1 m) = 20"
proof -
  have "length (concat (map Wr32be st)) = 4 * length st" for st by (induction st) auto
  then show ?thesis by (simp add: sha1_def length_hash_blocks sha_init_def)
qed

lemma label_not_pointer:
  assumes "0 < n" and "n \<le> 63"
  shows "(of_nat n :: u8) AND 0xC0 \<noteq> 0xC0" "(of_nat n :: u8) \<noteq> 0" "unat (of_nat n :: u8) = n"
proof -
  show u: "unat (of_nat n :: u8) = n" using assms by (simp add: unat_of_nat take_bit_nat_eq_self)
  then show "(of_nat n :: u8) \<noteq> 0" using assms(1) by (metis unat_0 less_numeral_extra(3))
  have "(of_nat n :: u8) AND 0xC0 \<le> of_nat n" by (rule word_and_le2)
  moreover have "(of_nat n :: u8) < 0xC0" using u assms(2) by (simp add: word_less_nat_alt)
  ultimately show "(of_nat n :: u8) AND 0xC0 \<noteq> 0xC0" by auto
qed

lemma skip_encoded:
  "encode_labels label pos cap = Some name \<Longrightarrow> length pre + length name \<le> len \<Longrightarrow>
     skip_question (pre @ name @ rest) len (length pre) = length pre + length name + 4"
proof (induction label pos cap arbitrary: pre name rule: encode_labels.induct)
  case (1 label pos cap)
  show ?case
  proof (cases "label = []")
    case True
    then have "name = [0]" using 1(2) by (simp add: encode_labels.simps split: if_splits)
    then show ?thesis by (simp add: skip_question.simps)
  next
    case False
    let ?lab = "takeWhile (\<lambda>c. c \<noteq> 46) label" and ?n = "length (takeWhile (\<lambda>c. c \<noteq> 46) label)"
    have ok: "\<not> (?n = 0 \<or> ?n > 63 \<or> pos + ?n + 2 > cap)"
      using 1(3) False 1(2) by (subst (asm) encode_labels.simps) (auto simp: Let_def split: if_splits)
    then have n: "0 < ?n" "?n \<le> 63" by auto
    obtain r where r: "name = of_nat ?n # ?lab @ r" and step: "?n = length label \<and> r = [0] \<or>
        ?n \<noteq> length label \<and> encode_labels (drop (?n + 1) label) (pos + 1 + ?n) cap = Some r"
      using 1(2) False ok by (subst (asm) encode_labels.simps) (auto simp: Let_def split: if_splits)
    have s: "skip_question (pre @ name @ rest) len (length pre) =
        skip_question ((pre @ of_nat ?n # ?lab) @ r @ rest) len (length (pre @ of_nat ?n # ?lab))"
      using label_not_pointer [OF n] 1(3) r by (subst skip_question.simps) (simp add: Let_def)
    from step show ?thesis
    proof
      assume "?n = length label \<and> r = [0]"
      then show ?thesis unfolding s using r by (subst skip_question.simps) (simp add: nth_append)
    next
      assume a: "?n \<noteq> length label \<and> encode_labels (drop (?n + 1) label) (pos + 1 + ?n) cap = Some r"
      then show ?thesis unfolding s using 1(1) [OF False refl refl ok, of r "pre @ of_nat ?n # ?lab"] 1(3) r by simp
    qed
  qed
qed

text \<open>A reply whose first answer is an address record that names the question by a pointer.\<close>

definition address_reply :: "bytes \<Rightarrow> bytes \<Rightarrow> bytes \<Rightarrow> bytes \<Rightarrow> bytes \<Rightarrow> bytes" where
  "address_reply hdr name ttl addr tail =
     hdr @ name @ [0, 1, 0, 1] @ [0xC0, 0x0C, 0, 1, 0, 1] @ ttl @ [0, 4] @ addr @ tail"

lemma Rd16be_small: "Rd16be 0 1 = 1" "Rd16be 0 4 = 4"
  by (simp_all add: Rd16be_def)

lemma parse_address_reply:
  fixes tail
  assumes "length hdr = 12" and "Rd16be (hdr ! 2) (hdr ! 3) AND 0x8000 \<noteq> 0" and "Rd16be (hdr ! 2) (hdr ! 3) AND 0x000F = 0"
    and "Rd16be (hdr ! 6) (hdr ! 7) \<noteq> 0" and "encode_labels host 0 cap = Some name" and "length ttl = 4" and "length addr = 4"
  defines "resp \<equiv> address_reply hdr name ttl addr tail"
  shows "dns_parse_response resp (length resp) = Some (Rd32le addr)"
proof -
  let ?p = "12 + length name + 4"
  have resp: "resp = (hdr @ name @ [0, 1, 0, 1]) @ [0xC0, 0x0C, 0, 1, 0, 1] @ ttl @ [0, 4] @ addr @ tail"
    by (simp add: resp_def address_reply_def)
  have l: "length resp = ?p + 16 + length tail" using assms(1,6,7) by (simp add: resp_def address_reply_def)
  have h: "resp ! 2 = hdr ! 2" "resp ! 3 = hdr ! 3" "resp ! 6 = hdr ! 6" "resp ! 7 = hdr ! 7"
    using assms(1) by (simp_all add: resp_def address_reply_def nth_append)
  have q: "skip_question resp (length resp) 12 = ?p"
    using skip_encoded [OF assms(5), of hdr "length resp"] l assms(1) by (simp add: resp_def address_reply_def)
  have d: "drop ?p resp = [0xC0, 0x0C, 0, 1, 0, 1] @ ttl @ [0, 4] @ addr @ tail" unfolding resp using assms(1) by simp
  have n: "resp ! (?p + k) = ([0xC0, 0x0C, 0, 1, 0, 1] @ ttl @ [0, 4] @ addr @ tail) ! k" for k
    unfolding d [symmetric] using l by simp
  have s: "skip_name resp (length resp) ?p = ?p + 2"
    using n [of 0] l by (subst skip_name.simps) simp
  have f: "resp ! (?p + 2) = 0" "resp ! (?p + 2 + 1) = 1" "resp ! (?p + 2 + 8) = 0" "resp ! (?p + 2 + 9) = 4"
    using n [of 2] n [of 3] n [of 10] n [of 11] assms(6) by (simp_all add: nth_append)
  have a: "Rd32le (drop (?p + 2 + 10) resp) = Rd32le addr"
  proof -
    have "drop (?p + 2 + 10) resp = drop 12 (drop ?p resp)" by (simp add: add.commute)
    then have "drop (?p + 2 + 10) resp = addr @ tail" unfolding d using assms(6) by simp
    then show ?thesis using assms(7) by (simp add: Rd32le_def)
  qed
  obtain k where an: "unat (Rd16be (hdr ! 6) (hdr ! 7)) = Suc k"
    using assms(4) unat_eq_0 [of "Rd16be (hdr ! 6) (hdr ! 7)"] not0_implies_Suc by blast
  have "scan_answers resp (length resp) (unat (Rd16be (hdr ! 6) (hdr ! 7))) ?p = Some (Rd32le addr)"
    unfolding an scan_answers.simps s Let_def f Rd16be_small a using l by simp
  then show ?thesis unfolding dns_parse_response_def Let_def h q using assms(2-4) l by simp
qed

section \<open>Properties\<close>

text \<open>C36: Resolving a name. When the name is no literal address, its query can be built, the socket works
  and the server answers without error with an address record first, the result is an address whose
  bytes in memory are exactly the four bytes of the record, in their order.\<close>

theorem resolve_keeps_byte_order:
  assumes "os_pton os host = None" and "os_dns_socket os \<ge> 0"
    and "dns_build_query host ((push_bit 8 (ucast (c_at host 0)) OR ucast (c_at host 1)) XOR 0x5A5A) 512 = Some query"
    and "dns_encode_name host 500 = Some name"
    and "os_dns os query = Some (address_reply hdr name ttl addr tail, length (address_reply hdr name ttl addr tail))"
    and "length hdr = 12" and "Rd16be (hdr ! 2) (hdr ! 3) AND 0x8000 \<noteq> 0" and "Rd16be (hdr ! 2) (hdr ! 3) AND 0x000F = 0"
    and "Rd16be (hdr ! 6) (hdr ! 7) \<noteq> 0" and "length ttl = 4" and "length addr = 4"
  shows "\<exists>ip. slpResolveHost os host = Some ip \<and> Wr32le ip = addr"
proof -
  have "dns_parse_response (address_reply hdr name ttl addr tail) (length (address_reply hdr name ttl addr tail)) =
      Some (Rd32le addr)"
    using parse_address_reply [OF assms(6-9) assms(4) [unfolded dns_encode_name_def] assms(10,11)] .
  then have "slpResolveHost os host = Some (Rd32le addr)"
    using assms(1-3,5) by (simp add: slpResolveHost_def Let_def)
  then show ?thesis using Wr32le_Rd32le [OF assms(11), of "[]"] by simp
qed

definition sample_host :: bytes where "sample_host = [97, 46, 98]"

lemma sample_host_name: "dns_encode_name sample_host 500 = Some [1, 97, 1, 98, 0]"
  by (simp add: dns_encode_name_def sample_host_def encode_labels.simps)

lemma sample_host_query:
  "dns_build_query sample_host ident 512 =
     Some ([ucast (drop_bit 8 ident), ucast (ident AND 0xFF), 1, 0, 0, 1, 0, 0, 0, 0, 0, 0] @ [1, 97, 1, 98, 0] @ [0, 1, 0, 1])"
  by (simp add: dns_build_query_def sample_host_name)

theorem resolve_keeps_byte_order_witness:
  "\<exists>ip. slpResolveHost \<lparr>os_pton = \<lambda>_. None, os_dns_socket = 3, os_socket = 4, os_bind = True,
      os_dns = \<lambda>_. Some (address_reply [0, 0, 0x81, 0x80, 0, 1, 0, 1, 0, 0, 0, 0] [1, 97, 1, 98, 0] [0, 0, 0, 9]
        [192, 241, 238, 136] [], length (address_reply [0, 0, 0x81, 0x80, 0, 1, 0, 1, 0, 0, 0, 0] [1, 97, 1, 98, 0] [0, 0, 0, 9]
        [192, 241, 238, 136] []))\<rparr> sample_host = Some ip \<and> Wr32le ip = [192, 241, 238, 136]"
proof -
  let ?hdr = "[0, 0, 0x81, 0x80, 0, 1, 0, 1, 0, 0, 0, 0] :: bytes" and ?ttl = "[0, 0, 0, 9] :: bytes"
    and ?addr = "[192, 241, 238, 136] :: bytes"
  have "length ?hdr = 12" "Rd16be (?hdr ! 2) (?hdr ! 3) AND 0x8000 \<noteq> 0" "Rd16be (?hdr ! 2) (?hdr ! 3) AND 0x000F = 0"
    "Rd16be (?hdr ! 6) (?hdr ! 7) \<noteq> 0" "length ?ttl = 4" "length ?addr = 4"
    by (simp_all add: Rd16be_def)
  then show ?thesis
    by (intro resolve_keeps_byte_order [where hdr = ?hdr and ttl = ?ttl and addr = ?addr and tail = "[]",
          OF _ _ sample_host_query sample_host_name]) simp_all
qed

text \<open>C37: The relay login. After credentials with a user name were configured, and when the operating system takes the
  datagram, a challenge of type 0 is answered with one frame: the type byte, the SHA-1 of the SHA-1 of the password
  followed by the challenge, and the user name, cut to 63 bytes; the password itself is not kept, only its SHA-1.
  Any other authentication type, an empty payload and a client without credentials are not answered.\<close>

theorem auth_answer:
  assumes "u \<noteq> []" and "length p < 2 ^ 31" and "length challenge < 2 ^ 31" and "sendto (cl_fd c) (SLP_TYPE_AUTH_ME #
     sha1 (sha1 p @ challenge) @ take 63 u)"
  shows "slpClientHandleAuthMe sendto (0 # challenge) (slpClientSetCredentials (Some u) (Some p) c) =
       (True, [(server_ip c, server_port c, SLP_TYPE_AUTH_ME # sha1 (sha1 p @ challenge) @ take 63 u)]) \<and>
     password_sha1 (slpClientSetCredentials (Some u) (Some p) c) = sha1 p \<and>
     (\<forall>ty rest. ty \<noteq> 0 \<longrightarrow> slpClientHandleAuthMe sendto (ty # rest) (slpClientSetCredentials (Some u) (Some p) c) = (False, [])) \<and>
     slpClientHandleAuthMe sendto [] (slpClientSetCredentials (Some u) (Some p) c) = (False, []) \<and>
     slpClientHandleAuthMe sendto payload (slpClientSetCredentials (Some []) (Some p) c) = (False, [])"
proof -
  let ?c = "slpClientSetCredentials (Some u) (Some p) c"
  have pw: "sha1_of (if p = [] then [] else [p]) = sha1 p"
    using sha1_of_eq [of "if p = [] then [] else [p]"] assms(2) by (simp add: concat_one del: concat.simps)
  have c: "password_sha1 ?c = sha1 p" "has_credentials ?c" "username ?c = take 63 u" "cl_fd ?c = cl_fd c"
    "server_ip ?c = server_ip c" "server_port ?c = server_port c"
    using assms(1) pw by (simp_all add: slpClientSetCredentials_def)
  have "sha1_of ([sha1 p] @ (if challenge = [] then [] else [challenge])) = sha1 (sha1 p @ challenge)"
    using sha1_of_eq [of "[sha1 p] @ (if challenge = [] then [] else [challenge])"] assms(3) by (simp add: length_sha1)
  then have "slpClientHandleAuthMe sendto (0 # challenge) ?c =
      (True, [(server_ip c, server_port c, SLP_TYPE_AUTH_ME # sha1 (sha1 p @ challenge) @ take 63 u)])"
    using c assms(4) by (simp add: slpClientHandleAuthMe_def Let_def slpClientSendRaw_def)
  moreover have "slpClientHandleAuthMe sendto payload (slpClientSetCredentials (Some []) (Some p) c) = (False, [])"
    by (simp add: slpClientHandleAuthMe_def slpClientSetCredentials_def)
  moreover have "\<forall>ty rest. ty \<noteq> 0 \<longrightarrow> slpClientHandleAuthMe sendto (ty # rest) ?c = (False, [])"
    "slpClientHandleAuthMe sendto [] ?c = (False, [])"
    by (simp_all add: slpClientHandleAuthMe_def)
  ultimately show ?thesis using c(1) by blast
qed

theorem auth_answer_witness:
  "fst (slpClientHandleAuthMe (\<lambda>_ _. True) (0 # replicate 64 5)
     (slpClientSetCredentials (Some [98, 111, 98]) (Some [112, 119]) zero_SlpClient))"
  using auth_answer [of "[98, 111, 98]" "[112, 119]" "replicate 64 5" "\<lambda>_ _. True" zero_SlpClient] by simp

end
