(* ===== verification/Servers.thy ===== *)
theory Servers
  imports Prelude
begin

text \<open>
  The server list (\<^verbatim>\<open>slpcfg/servers.h\<close> and \<^verbatim>\<open>slpcfg/servers.c\<close>): the line parser and the list it fills. Text is
  a byte list; a C string ends at the first zero byte. The conversions \<^verbatim>\<open>%Ns\<close> of \<^verbatim>\<open>sscanf\<close> and \<^verbatim>\<open>strtol\<close> are
  modelled as the C standard defines them (numbers unbounded: the caller only tests a range that
  saturation does not touch).
\<close>

section \<open>C library\<close>

definition c_str :: "bytes \<Rightarrow> bytes" where
  "c_str b = takeWhile (\<lambda>c. c \<noteq> 0) b"

definition is_space :: "u8 \<Rightarrow> bool" where
  "is_space c \<longleftrightarrow> c = 32 \<or> c = 9 \<or> c = 10 \<or> c = 11 \<or> c = 12 \<or> c = 13"

definition is_digit :: "u8 \<Rightarrow> bool" where
  "is_digit c \<longleftrightarrow> 48 \<le> c \<and> c \<le> 57"

text \<open>One \<^verbatim>\<open>%Ns\<close> conversion: the word and the input behind it.\<close>

definition scan_word :: "nat \<Rightarrow> bytes \<Rightarrow> (bytes \<times> bytes) option" where
  "scan_word n s =
     (let s1 = dropWhile is_space s; w = takeWhile (\<lambda>c. \<not> is_space c) (take n s1)
      in if w = [] then None else Some (w, drop (length w) s1))"

fun scan_words :: "nat list \<Rightarrow> bytes \<Rightarrow> bytes list" where
  "scan_words [] s = []"
| "scan_words (n # ns) s = (case scan_word n s of None \<Rightarrow> [] | Some (w, r) \<Rightarrow> w # scan_words ns r)"

fun digits_val :: "int \<Rightarrow> bytes \<Rightarrow> int" where
  "digits_val acc [] = acc"
| "digits_val acc (c # cs) = (if is_digit c then digits_val (acc * 10 + (uint c - 48)) cs else acc)"

definition strtol :: "bytes \<Rightarrow> int" where
  "strtol s =
     (case dropWhile is_space s of
        [] \<Rightarrow> 0
      | c # cs \<Rightarrow> if c = 45 then - digits_val 0 cs else if c = 43 then digits_val 0 cs else digits_val 0 (c # cs))"

section \<open>Parser\<close>

definition SLPCFG_MAX_SERVERS :: nat where "SLPCFG_MAX_SERVERS = 10"
definition SLPCFG_NAME_MAX :: nat where "SLPCFG_NAME_MAX = 32"
definition SLPCFG_HOST_MAX :: nat where "SLPCFG_HOST_MAX = 128"
definition SLPCFG_USER_MAX :: nat where "SLPCFG_USER_MAX = 64"
definition SLPCFG_PASS_MAX :: nat where "SLPCFG_PASS_MAX = 64"

record SlpServer =
  sv_name :: bytes
  sv_host :: bytes
  sv_port :: u16
  sv_username :: bytes
  sv_password :: bytes

definition trim :: "bytes \<Rightarrow> bytes" where
  "trim s = rev (dropWhile (\<lambda>c. c = 10 \<or> c = 13 \<or> c = 32 \<or> c = 9) (rev s))"

text \<open>The part of a host before its last colon, and the text behind it.\<close>

definition split_colon :: "bytes \<Rightarrow> (bytes \<times> bytes) option" where
  "split_colon host =
     (if 58 \<in> set host then
        Some (butlast (rev (dropWhile (\<lambda>c. c \<noteq> 58) (rev host))), rev (takeWhile (\<lambda>c. c \<noteq> 58) (rev host)))
      else None)"

definition make_server :: "bytes \<Rightarrow> bytes \<Rightarrow> int \<Rightarrow> bytes \<Rightarrow> bytes \<Rightarrow> SlpServer option" where
  "make_server name host port user pass =
     (if port < 1 \<or> port > 65535 then None
      else Some \<lparr>sv_name = take (SLPCFG_NAME_MAX - 1) name, sv_host = take (SLPCFG_HOST_MAX - 1) host,
             sv_port = of_int port, sv_username = take (SLPCFG_USER_MAX - 1) user,
             sv_password = take (SLPCFG_PASS_MAX - 1) pass\<rparr>)"

definition word_at :: "nat \<Rightarrow> bytes list \<Rightarrow> bytes" where
  "word_at i ws = (if i < length ws then ws ! i else [])"

definition parse_line :: "bytes \<Rightarrow> SlpServer option" where
  "parse_line line0 =
     (let line = trim (takeWhile (\<lambda>c. c \<noteq> 35) (c_str line0))
      in if line = [] then None
         else
           (let ws = scan_words [31, 127, 7, 63, 63] line
            in if length ws \<ge> 3 \<and> is_digit (ws ! 2 ! 0) then
                 make_server (ws ! 0) (ws ! 1) (strtol (ws ! 2)) (word_at 3 ws) (word_at 4 ws)
               else
                 (let vs = scan_words [31, 127, 63, 63] line
                  in if length vs < 2 then None
                     else case split_colon (vs ! 1) of
                         Some (h, p) \<Rightarrow> make_server (vs ! 0) h (strtol p) (word_at 2 vs) (word_at 3 vs)
                       | None \<Rightarrow> make_server (vs ! 0) (vs ! 1) 11451 (word_at 2 vs) (word_at 3 vs))))"

definition LINE_SIZE :: nat where "LINE_SIZE = SLPCFG_NAME_MAX + SLPCFG_HOST_MAX + 8"

text \<open>The line loop; \<open>n\<close> servers were read before.\<close>

function parse_lines :: "nat \<Rightarrow> bytes \<Rightarrow> SlpServer list" where
  "parse_lines n p =
     (if n < SLPCFG_MAX_SERVERS \<and> p \<noteq> [] then
        (let line = takeWhile (\<lambda>c. c \<noteq> 10) p;
             got = (case parse_line (take (LINE_SIZE - 1) line) of None \<Rightarrow> [] | Some s \<Rightarrow> [s])
         in if length line = length p then got
            else got @ parse_lines (n + length got) (drop (length line + 1) p))
      else [])"
  by pat_completeness auto
termination
  by (relation "measure (\<lambda>(_, p). length p)") (auto simp: diff_less_mono2)

declare parse_lines.simps [simp del]

definition slpServersParse :: "bytes \<Rightarrow> SlpServer list" where
  "slpServersParse t = parse_lines 0 t"

definition slpServersLoad :: "bytes option \<Rightarrow> SlpServer list \<Rightarrow> nat \<times> SlpServer list" where
  "slpServersLoad file old =
     (case file of
        None \<Rightarrow> (0, old)
      | Some txt \<Rightarrow>
          (let l = slpServersParse (take (SLPCFG_MAX_SERVERS * LINE_SIZE - 1) txt) in (length l, l)))"

definition slpServersCount :: "SlpServer list \<Rightarrow> int" where
  "slpServersCount l = int (length l)"

definition slpServersGet :: "int \<Rightarrow> SlpServer list \<Rightarrow> SlpServer option" where
  "slpServersGet index l = (if index < 0 \<or> index \<ge> slpServersCount l then None else Some (l ! nat index))"

fun slpServersFindByName :: "bytes \<Rightarrow> SlpServer list \<Rightarrow> int \<Rightarrow> int" where
  "slpServersFindByName name [] i = -1"
| "slpServersFindByName name (s # l) i = (if sv_name s = name then i else slpServersFindByName name l (i + 1))"

section \<open>Bounds\<close>

definition server_ok :: "SlpServer \<Rightarrow> bool" where
  "server_ok s \<longleftrightarrow> sv_name s \<noteq> [] \<and> length (sv_name s) < SLPCFG_NAME_MAX \<and> length (sv_host s) < SLPCFG_HOST_MAX \<and>
     sv_port s \<noteq> 0 \<and> length (sv_username s) < SLPCFG_USER_MAX \<and> length (sv_password s) < SLPCFG_PASS_MAX"

lemma scan_words_ne: "w \<in> set (scan_words ns s) \<Longrightarrow> w \<noteq> []"
proof (induction ns arbitrary: s)
  case (Cons n ns)
  then show ?case by (auto simp: scan_word_def Let_def split: option.splits if_splits)
qed simp

lemma make_server_ok:
  assumes "make_server name host port user pass = Some s" and "name \<noteq> []"
  shows "server_ok s"
proof -
  have p: "1 \<le> port" "port \<le> 65535" using assms(1) by (auto simp: make_server_def split: if_splits)
  then have "uint (of_int port :: u16) = port" by (simp add: uint_word_of_int)
  then have "(of_int port :: u16) \<noteq> 0" using p by (metis unsigned_0 not_one_le_zero)
  with assms show ?thesis
    by (auto simp: make_server_def server_ok_def SLPCFG_NAME_MAX_def SLPCFG_HOST_MAX_def SLPCFG_USER_MAX_def
        SLPCFG_PASS_MAX_def split: if_splits)
qed

lemma scan_words_nth: "i < length (scan_words ns s) \<Longrightarrow> scan_words ns s ! i \<noteq> []"
  by (rule scan_words_ne [OF nth_mem])

lemma parse_line_ok:
  assumes "parse_line l = Some s"
  shows "server_ok s"
proof -
  define line where "line = trim (takeWhile (\<lambda>c. c \<noteq> 35) (c_str l))"
  define ws where "ws = scan_words [31, 127, 7, 63, 63] line"
  define vs where "vs = scan_words [31, 127, 63, 63] line"
  have ne: "length ws \<ge> 3 \<Longrightarrow> ws ! 0 \<noteq> []" "length vs \<ge> 2 \<Longrightarrow> vs ! 0 \<noteq> []"
    unfolding ws_def vs_def by (intro scan_words_nth, linarith)+
  have "(if length ws \<ge> 3 \<and> is_digit (ws ! 2 ! 0) then
           make_server (ws ! 0) (ws ! 1) (strtol (ws ! 2)) (word_at 3 ws) (word_at 4 ws)
         else if length vs < 2 then None
         else case split_colon (vs ! 1) of
             Some (h, p) \<Rightarrow> make_server (vs ! 0) h (strtol p) (word_at 2 vs) (word_at 3 vs)
           | None \<Rightarrow> make_server (vs ! 0) (vs ! 1) 11451 (word_at 2 vs) (word_at 3 vs)) = Some s"
    using assms unfolding parse_line_def Let_def line_def [symmetric] ws_def [symmetric] vs_def [symmetric]
    by (auto split: if_splits)
  with ne show ?thesis by (auto split: if_splits option.splits intro: make_server_ok)
qed

lemma parse_lines_bounds:
  "n \<le> SLPCFG_MAX_SERVERS \<Longrightarrow>
   n + length (parse_lines n p) \<le> SLPCFG_MAX_SERVERS \<and> (\<forall>s \<in> set (parse_lines n p). server_ok s)"
proof (induction n p rule: parse_lines.induct)
  case (1 n p)
  define line where "line = takeWhile (\<lambda>c. c \<noteq> 10) p"
  define got where "got = (case parse_line (take (LINE_SIZE - 1) line) of None \<Rightarrow> [] | Some s \<Rightarrow> [s])"
  show ?case
  proof (cases "n < SLPCFG_MAX_SERVERS \<and> p \<noteq> []")
    case True
    have g: "length got \<le> 1" "\<forall>s \<in> set got. server_ok s"
      by (auto simp: got_def split: option.splits intro: parse_line_ok)
    have e: "parse_lines n p = (if length line = length p then got
        else got @ parse_lines (n + length got) (drop (length line + 1) p))"
      by (subst parse_lines.simps) (simp add: True Let_def line_def got_def)
    have IH: "n + length got + length (parse_lines (n + length got) (drop (length line + 1) p)) \<le> SLPCFG_MAX_SERVERS \<and>
        (\<forall>s \<in> set (parse_lines (n + length got) (drop (length line + 1) p)). server_ok s)"
      if "length line \<noteq> length p"
      using 1 True that g(1) unfolding line_def got_def by simp
    from e g IH True show ?thesis by (cases "length line = length p") auto
  next
    case False
    then have "parse_lines n p = []" by (subst parse_lines.simps) auto
    then show ?thesis using 1 by simp
  qed
qed

section \<open>Rendering a list and reading it back\<close>

definition plain_word :: "bytes \<Rightarrow> bool" where
  "plain_word w \<longleftrightarrow> w \<noteq> [] \<and> (\<forall>c \<in> set w. \<not> is_space c \<and> c \<noteq> 0 \<and> c \<noteq> 35)"

fun join :: "bytes list \<Rightarrow> bytes" where
  "join [] = []"
| "join [w] = w"
| "join (w # v # ws) = w @ 32 # join (v # ws)"

fun dec :: "nat \<Rightarrow> bytes" where
  "dec n = (if n < 10 then [of_nat (48 + n)] else dec (n div 10) @ [of_nat (48 + n mod 10)])"

declare dec.simps [simp del]

definition server_words :: "SlpServer \<Rightarrow> bytes list" where
  "server_words s = [sv_name s, sv_host s, dec (unat (sv_port s))] @
     (if sv_username s = [] then [] else sv_username s # (if sv_password s = [] then [] else [sv_password s]))"

definition render_server :: "SlpServer \<Rightarrow> bytes" where
  "render_server s = join (server_words s) @ [10]"

definition plain_server :: "SlpServer \<Rightarrow> bool" where
  "plain_server s \<longleftrightarrow> server_ok s \<and> list_all plain_word (server_words s) \<and>
     (sv_username s = [] \<longrightarrow> sv_password s = []) \<and> length (join (server_words s)) < LINE_SIZE"

lemma scan_word_space [simp]: "scan_word n (32 # s) = scan_word n s"
  by (simp add: scan_word_def is_space_def)

lemma scan_words_space [simp]: "scan_words ns (32 # s) = scan_words ns s"
  by (cases ns) simp_all

lemma scan_words_nil [simp]: "scan_words ns [] = []"
  by (cases ns) (simp_all add: scan_word_def)

lemma takeWhile_take_word:
  assumes "\<forall>c \<in> set w. \<not> is_space c" and "length w \<le> n" and "r = [] \<or> is_space (hd r)"
  shows "takeWhile (\<lambda>c. \<not> is_space c) (take n (w @ r)) = w"
proof -
  have "take n (w @ r) = w @ take (n - length w) r" using assms(2) by simp
  moreover have "takeWhile (\<lambda>c. \<not> is_space c) (take (n - length w) r) = []"
    using assms(3) by (cases r; cases "n - length w") auto
  ultimately show ?thesis using assms(1) by (simp add: takeWhile_append2)
qed

lemma scan_word_word:
  assumes "plain_word w" and "length w \<le> n" and "r = [] \<or> is_space (hd r)"
  shows "scan_word n (w @ r) = Some (w, r)"
proof -
  have w: "w \<noteq> []" "\<forall>c \<in> set w. \<not> is_space c" using assms(1) by (auto simp: plain_word_def)
  then have "dropWhile is_space (w @ r) = w @ r" by (cases w) auto
  then show ?thesis
    using takeWhile_take_word [OF w(2) assms(2,3)] w(1) by (simp add: scan_word_def Let_def)
qed

lemma scan_words_join:
  "list_all plain_word ws \<Longrightarrow> length ws \<le> length ns \<Longrightarrow> (\<forall>i < length ws. length (ws ! i) \<le> ns ! i) \<Longrightarrow>
   scan_words ns (join ws) = ws"
proof (induction ws arbitrary: ns rule: join.induct)
  case 1
  then show ?case by simp
next
  case (2 w)
  then obtain m ms where ns: "ns = m # ms" by (cases ns) auto
  from 2 ns have "scan_word m (w @ []) = Some (w, [])" by (intro scan_word_word) auto
  then show ?case by (simp add: ns)
next
  case (3 w v ws)
  then obtain m ms where ns: "ns = m # ms" by (cases ns) auto
  from 3(3,4) 3(2) ns have h: "scan_word m (w @ 32 # join (v # ws)) = Some (w, 32 # join (v # ws))"
    by (intro scan_word_word) (auto simp: is_space_def)
  have "length ((v # ws) ! i) \<le> ms ! i" if "i < length (v # ws)" for i
    using 3(4) that ns by (auto dest: spec [of _ "Suc i"])
  then have "scan_words ms (join (v # ws)) = v # ws" using 3 ns by simp
  then show ?case using h by (simp add: ns)
qed

lemma unat_digit: "k < 10 \<Longrightarrow> unat (of_nat (48 + k) :: u8) = 48 + k"
  by (subst unat_of_nat) (simp add: take_bit_nat_eq_self)

lemma digit_ok: "k < 10 \<Longrightarrow> is_digit (of_nat (48 + k))"
  by (simp only: is_digit_def word_le_nat_alt unat_digit) simp

lemma dec_digits: "c \<in> set (dec n) \<Longrightarrow> is_digit c"
proof (induction n rule: dec.induct)
  case (1 n)
  show ?case
  proof (cases "n < 10")
    case True
    then show ?thesis using 1(2) digit_ok [of n] by (subst (asm) dec.simps) auto
  next
    case False
    then have "dec n = dec (n div 10) @ [of_nat (48 + n mod 10)]" by (subst dec.simps) simp
    with 1 False digit_ok [of "n mod 10"] show ?thesis by (auto simp del: of_nat_add)
  qed
qed

lemma dec_length: "n < 10 ^ Suc k \<Longrightarrow> length (dec n) \<le> Suc k"
proof (induction k arbitrary: n)
  case 0
  then show ?case by (simp add: dec.simps)
next
  case (Suc k)
  have "n div 10 < 10 ^ Suc k" using Suc.prems by (simp add: less_mult_imp_div_less)
  then have "length (dec (n div 10)) \<le> Suc k" by (rule Suc.IH)
  then show ?case by (subst dec.simps) simp
qed

lemma digits_val_append:
  "(\<forall>c \<in> set xs. is_digit c) \<Longrightarrow> digits_val acc (xs @ ys) = digits_val (digits_val acc xs) ys"
  by (induction xs arbitrary: acc) auto

lemma digits_val_digit:
  assumes "k < 10"
  shows "digits_val a [of_nat (48 + k)] = a * 10 + int k"
proof -
  have "uint (of_nat (48 + k) :: u8) = int (48 + k)" by (simp only: uint_nat unat_digit [OF assms])
  then show ?thesis using digit_ok [OF assms] by (simp del: of_nat_add)
qed

lemma digits_val_dec: "digits_val 0 (dec n) = int n"
proof (induction n rule: dec.induct)
  case (1 n)
  show ?case
  proof (cases "n < 10")
    case True
    then have "dec n = [of_nat (48 + n)]" by (subst dec.simps) simp
    with True digits_val_digit [of n 0] show ?thesis by (simp del: of_nat_add digits_val.simps)
  next
    case False
    then have "dec n = dec (n div 10) @ [of_nat (48 + n mod 10)]" by (subst dec.simps) simp
    then have "digits_val 0 (dec n) = digits_val (digits_val 0 (dec (n div 10))) [of_nat (48 + n mod 10)]"
      using dec_digits digits_val_append by metis
    also have "\<dots> = int (n div 10) * 10 + int (n mod 10)"
      using 1 [OF False] digits_val_digit [of "n mod 10" "int (n div 10)"] by simp
    also have "\<dots> = int n" by (metis div_mult_mod_eq of_nat_add of_nat_mult of_nat_numeral)
    finally show ?thesis .
  qed
qed

lemma dec_ne: "dec n \<noteq> []"
  by (subst dec.simps) simp

lemma digit_plain: "is_digit c \<Longrightarrow> \<not> is_space c \<and> c \<noteq> 0 \<and> c \<noteq> 35 \<and> c \<noteq> 45 \<and> c \<noteq> 43"
  by (auto simp: is_digit_def is_space_def)

lemma strtol_dec: "strtol (dec n) = int n"
proof -
  obtain c cs where c: "dec n = c # cs" by (cases "dec n") (auto simp: dec_ne)
  then have "is_digit c" using dec_digits [of c n] by simp
  with c show ?thesis using digit_plain [of c] digits_val_dec [of n] by (simp add: strtol_def)
qed

lemma dec_hd: "is_digit (dec n ! 0)"
  using dec_digits [of "dec n ! 0" n] dec_ne [of n] by (simp add: hd_conv_nth [symmetric])

lemma port_length: "length (dec (unat (p :: u16))) \<le> 7"
proof -
  have "unat p < 2 ^ 16" using unsigned_less [of p, where ?'a = nat] by simp
  then have "unat p < 10 ^ Suc 4" by simp
  then have "length (dec (unat p)) \<le> Suc 4" by (rule dec_length)
  then show ?thesis by simp
qed

lemma join_set: "c \<in> set (join ws) \<Longrightarrow> c = 32 \<or> (\<exists>w \<in> set ws. c \<in> set w)"
  by (induction ws rule: join.induct) auto

lemma joined_last: "ws \<noteq> [] \<Longrightarrow> list_all plain_word ws \<Longrightarrow> join ws \<noteq> [] \<and> \<not> is_space (last (join ws))"
  by (induction ws rule: join.induct) (auto simp: plain_word_def)

lemma trim_join:
  assumes "ws \<noteq> []" and "list_all plain_word ws"
  shows "trim (join ws) = join ws"
proof -
  obtain ys y where "join ws = ys @ [y]" "\<not> is_space y"
    using joined_last [OF assms] by (metis append_butlast_last_id)
  then show ?thesis by (simp add: trim_def is_space_def)
qed

lemma clean_join:
  assumes "list_all plain_word ws"
  shows "c_str (join ws) = join ws" and "takeWhile (\<lambda>c. c \<noteq> 35) (join ws) = join ws"
    and "10 \<notin> set (join ws)"
proof -
  have "c \<noteq> 0 \<and> c \<noteq> 35 \<and> c \<noteq> 10" if c: "c \<in> set (join ws)" for c
  proof (cases "c = 32")
    case False
    then obtain w where "w \<in> set ws" "c \<in> set w" using join_set [OF c] by blast
    then have "\<not> is_space c" "c \<noteq> 0" "c \<noteq> 35" using assms by (auto simp: list_all_iff plain_word_def)
    then show ?thesis by (auto simp: is_space_def)
  qed simp
  then show "c_str (join ws) = join ws" and "takeWhile (\<lambda>c. c \<noteq> 35) (join ws) = join ws"
    and "10 \<notin> set (join ws)"
    by (auto simp: c_str_def takeWhile_eq_all_conv)
qed

lemma plain_server_lengths:
  assumes "plain_server s" and "i < length (server_words s)"
  shows "length (server_words s ! i) \<le> [31, 127, 7, 63, 63] ! i"
proof -
  have "i < 5" using assms(2) by (auto simp: server_words_def split: if_splits)
  then consider "i = 0" | "i = 1" | "i = 2" | "i = 3" | "i = 4" by linarith
  then show ?thesis
    using assms port_length [of "sv_port s"]
    by cases (auto simp: plain_server_def server_ok_def server_words_def SLPCFG_NAME_MAX_def SLPCFG_HOST_MAX_def
        SLPCFG_USER_MAX_def SLPCFG_PASS_MAX_def split: if_splits)
qed

lemma parse_line_render:
  assumes "plain_server s"
  shows "parse_line (join (server_words s)) = Some s"
proof -
  define ws where "ws = server_words s"
  have pl: "list_all plain_word ws" and ne: "ws \<noteq> []" and ln: "length ws \<le> 5"
    using assms by (auto simp: ws_def plain_server_def server_words_def)
  have sc: "scan_words [31, 127, 7, 63, 63] (join ws) = ws"
    by (rule scan_words_join [OF pl]) (use plain_server_lengths [OF assms] ln in \<open>auto simp: ws_def\<close>)
  have jn: "join ws \<noteq> []" using joined_last [OF ne pl] by simp
  have w: "ws ! 0 = sv_name s" "ws ! 1 = sv_host s" "ws ! 2 = dec (unat (sv_port s))" "length ws \<ge> 3"
    "word_at 3 ws = sv_username s" "word_at 4 ws = sv_password s"
    using assms by (auto simp: ws_def server_words_def word_at_def plain_server_def)
  have p: "unat (sv_port s) \<ge> 1" "unat (sv_port s) \<le> 65535"
    using assms unsigned_less [of "sv_port s", where ?'a = nat]
    by (auto simp: plain_server_def server_ok_def Suc_le_eq unat_gt_0)
  have p_int: "\<not> uint (sv_port s) < 1" "\<not> 65535 < uint (sv_port s)"
    using p uint_nat [of "sv_port s"] by linarith+
  have "parse_line (join ws) = make_server (sv_name s) (sv_host s) (int (unat (sv_port s))) (sv_username s) (sv_password s)"
    by (simp only: parse_line_def Let_def clean_join [OF pl] trim_join [OF ne pl] sc w jn dec_hd strtol_dec)
      simp
  also have "\<dots> = Some s"
    using assms p_int by (cases s) (auto simp: make_server_def plain_server_def server_ok_def)
  finally show ?thesis by (simp add: ws_def)
qed

lemma parse_lines_render:
  "\<forall>s \<in> set l. plain_server s \<Longrightarrow> n + length l \<le> SLPCFG_MAX_SERVERS \<Longrightarrow>
   parse_lines n (concat (map render_server l)) = l"
proof (induction l arbitrary: n)
  case Nil
  then show ?case by (subst parse_lines.simps) simp
next
  case (Cons s l)
  define j where "j = join (server_words s)"
  define r where "r = concat (map render_server l)"
  have ps: "plain_server s" using Cons.prems by simp
  then have pl: "list_all plain_word (server_words s)" and len: "length j < LINE_SIZE"
    by (auto simp: plain_server_def j_def)
  have tw: "takeWhile (\<lambda>c. c \<noteq> 10) (j @ 10 # r) = j"
    using clean_join(3) [OF pl] by (auto simp: j_def takeWhile_tail)
  have pj: "parse_line (take (LINE_SIZE - 1) j) = Some s"
    using len parse_line_render [OF ps] by (simp add: j_def)
  have "parse_lines n (j @ 10 # r) = s # parse_lines (n + 1) r"
    using Cons.prems(2) by (subst parse_lines.simps) (simp add: tw pj [simplified] Let_def)
  moreover have "parse_lines (n + 1) r = l" using Cons by (simp add: r_def)
  moreover have "concat (map render_server (s # l)) = j @ 10 # r" by (simp add: render_server_def [of s] j_def r_def)
  ultimately show ?case by simp
qed

section \<open>Properties\<close>

text \<open>C38: Whatever the configuration file holds, the parser keeps at most ten servers, and every
  server it keeps has a name, fits the fixed-size fields of the C struct with room for the
  terminating zero, and has a port between 1 and 65535; the index lookup never leaves the list.\<close>

theorem slpServersParse_bounds:
  "length (slpServersParse t) \<le> SLPCFG_MAX_SERVERS \<and> list_all server_ok (slpServersParse t) \<and>
   (case slpServersGet i (slpServersParse t) of
      None \<Rightarrow> i < 0 \<or> int (length (slpServersParse t)) \<le> i
    | Some s \<Rightarrow> s = slpServersParse t ! nat i \<and> server_ok s)"
  using parse_lines_bounds [of 0 t]
  by (auto simp: slpServersParse_def slpServersGet_def slpServersCount_def list_all_iff)

text \<open>C39: Round trip: up to ten servers, each written on a line of its own as name, host, decimal port and
  optionally user name and password, are read back exactly, provided the words hold no blank, zero
  or hash byte and the line fits the parser's line buffer; so are they from a file of at most 1679
  bytes.\<close>

theorem servers_roundtrip:
  assumes "\<forall>s \<in> set l. plain_server s" and "length l \<le> SLPCFG_MAX_SERVERS"
  shows "slpServersParse (concat (map render_server l)) = l \<and>
     (length (concat (map render_server l)) < SLPCFG_MAX_SERVERS * LINE_SIZE \<longrightarrow>
      slpServersLoad (Some (concat (map render_server l))) old = (length l, l))"
  using parse_lines_render [of l 0] assms by (simp_all add: slpServersParse_def slpServersLoad_def)

definition sample_server :: SlpServer where
  "sample_server = \<lparr>sv_name = [110, 120], sv_host = [115, 108, 112, 46, 105, 111], sv_port = 11451,
     sv_username = [98, 111, 98], sv_password = [112, 119]\<rparr>"

lemma dec_11451: "dec 11451 = [49, 49, 52, 53, 49]"
  by (simp add: dec.simps [of 11451] dec.simps [of 1145] dec.simps [of 114] dec.simps [of 11] dec.simps [of "Suc 0"])

lemma sample_server_plain: "plain_server sample_server"
  by (simp add: plain_server_def server_ok_def server_words_def sample_server_def dec_11451 plain_word_def is_space_def
      LINE_SIZE_def SLPCFG_NAME_MAX_def SLPCFG_HOST_MAX_def SLPCFG_USER_MAX_def SLPCFG_PASS_MAX_def)

theorem servers_roundtrip_witness:
  "slpServersParse (render_server sample_server @ render_server sample_server) = [sample_server, sample_server] \<and>
   slpServersLoad (Some (render_server sample_server @ render_server sample_server)) [] = (2, [sample_server, sample_server])"
proof -
  have a: "\<forall>s \<in> set [sample_server, sample_server]. plain_server s" using sample_server_plain by simp
  have b: "length [sample_server, sample_server] \<le> SLPCFG_MAX_SERVERS" by (simp add: SLPCFG_MAX_SERVERS_def)
  have c: "length (concat (map render_server [sample_server, sample_server])) < SLPCFG_MAX_SERVERS * LINE_SIZE"
    by (simp add: render_server_def server_words_def sample_server_def dec_11451 LINE_SIZE_def SLPCFG_NAME_MAX_def
        SLPCFG_HOST_MAX_def SLPCFG_MAX_SERVERS_def)
  from servers_roundtrip [OF a b, of "[]"] c show ?thesis by simp
qed

end
