(* ===== verification/Runtime.thy ===== *)
theory Runtime
  imports Tunnel_Path Slp_Client Servers
begin

text \<open>
  The relay runtime (\<^verbatim>\<open>slpcfg/slp_runtime.cpp\<close>) and the configuration service in front of it
  (\<^verbatim>\<open>slpcfg/slp_cfg_service.cpp\<close>): the server selection, the console's virtual address, starting and
  stopping the relay connection, and one iteration of the receive thread.

  The state of a run is the record \<open>app\<close>: the runtime object, the server list of \<open>Servers\<close>, the two files on
  the card, and the tunnel, LDN control plane and sockets of \<open>Tunnel\<close>. What the operating system answers is
  the record \<open>rt_env\<close>. Texts are byte lists without their terminating zero. Every operation is
  one step here; the locks it takes are in \<open>Locks\<close>.
\<close>

section \<open>Configuration files\<close>

text \<open>\<open>fe_read\<close> gives what a successful read of the whole file puts into the buffer; the other answers are
  success flags.\<close>

record fs_env =
  fe_read :: "bytes \<Rightarrow> bytes option"
  fe_create :: bool
  fe_open_write :: bool
  fe_write :: bool

text \<open>The text in the buffer and the returned size; \<open>None\<close> is the result -1.\<close>

definition ReadConfigText :: "fs_env \<Rightarrow> bytes option \<Rightarrow> nat \<Rightarrow> (bytes \<times> nat) option" where
  "ReadConfigText fe file cap =
     (case file of
        None \<Rightarrow> None
      | Some content \<Rightarrow>
          (let sz = length content
           in if sz > 0 \<and> sz < cap - 1
              then (case fe_read fe content of None \<Rightarrow> None | Some buf \<Rightarrow> Some (buf, sz))
              else None))"

section \<open>The virtual address\<close>

definition IsReservedVirtualOctet :: "u32 \<Rightarrow> u32 \<Rightarrow> bool" where
  "IsReservedVirtualOctet c d \<longleftrightarrow> c = 0 \<or> c = 255 \<or> c = 37 \<or> d = 0 \<or> d = 255"

text \<open>The retry loop; \<open>draws\<close> are the random byte pairs, and 64 attempts are made.\<close>

fun generate_loop :: "nat \<Rightarrow> (nat \<Rightarrow> u8 \<times> u8) \<Rightarrow> nat \<Rightarrow> u32 \<times> u32" where
  "generate_loop 0 draws attempt = (100, 100)"
| "generate_loop (Suc left) draws attempt =
     (let (r0, r1) = draws attempt; c = ucast r0; d = ucast r1
      in if \<not> IsReservedVirtualOctet c d then (c, d) else generate_loop left draws (attempt + 1))"

definition GenerateVirtualOctets :: "(nat \<Rightarrow> u8 \<times> u8) \<Rightarrow> u32 \<times> u32" where
  "GenerateVirtualOctets draws = generate_loop 64 draws 0"

text \<open>One \<^verbatim>\<open>%u\<close> conversion: the value and the rest of the input. The value is that of \<^verbatim>\<open>strtoul\<close> on 64-bit
  \<^verbatim>\<open>long\<close>, stored in an \<^verbatim>\<open>unsigned\<close>.\<close>

definition scan_u :: "bytes \<Rightarrow> (u32 \<times> bytes) option" where
  "scan_u s0 =
     (let s = dropWhile is_space s0;
          neg = (s \<noteq> [] \<and> hd s = 45);
          s1 = (if s \<noteq> [] \<and> (hd s = 45 \<or> hd s = 43) then tl s else s);
          ds = takeWhile is_digit s1;
          v = digits_val 0 ds;
          ul = (if v \<ge> 2 ^ 64 then 2 ^ 64 - 1 else if neg then - v else v)
      in if ds = [] then None else Some (of_int ul, drop (length ds) s1))"

text \<open>The conversion \<^verbatim>\<open>"%u.%u"\<close>; \<open>None\<close> when fewer than two values are assigned.\<close>

definition scan_octets :: "bytes \<Rightarrow> (u32 \<times> u32) option" where
  "scan_octets s =
     (case scan_u s of
        None \<Rightarrow> None
      | Some (c, r) \<Rightarrow>
          (case r of
             [] \<Rightarrow> None
           | x # r' \<Rightarrow> if x \<noteq> 46 then None
               else (case scan_u r' of None \<Rightarrow> None | Some (d, _) \<Rightarrow> Some (c, d))))"

definition ReadPersistedVirtualOctets :: "fs_env \<Rightarrow> bytes option \<Rightarrow> (u32 \<times> u32) option" where
  "ReadPersistedVirtualOctets fe file =
     (case ReadConfigText fe file 32 of
        None \<Rightarrow> None
      | Some (buf, sz) \<Rightarrow>
          (case scan_octets (c_str buf) of
             None \<Rightarrow> None
           | Some (c, d) \<Rightarrow> if c > 255 \<or> d > 255 \<or> IsReservedVirtualOctet c d then None else Some (c, d)))"

definition octet_text :: "u32 \<Rightarrow> u32 \<Rightarrow> bytes" where
  "octet_text c d = dec (unat c) @ [46] @ dec (unat d)"

text \<open>The file after the call: it is deleted first, then created with the final size and written.\<close>

definition PersistVirtualOctets :: "fs_env \<Rightarrow> u32 \<Rightarrow> u32 \<Rightarrow> bytes option" where
  "PersistVirtualOctets fe c d =
     (let text = take 31 (octet_text c d @ [10])
      in if \<not> fe_create fe then None
         else if fe_open_write fe \<and> fe_write fe then Some text
         else Some (replicate (length text) 0))"

definition prefix_text :: bytes where "prefix_text = [49, 48, 46, 49, 51, 46]"

definition DefaultVirtualIp :: bytes where
  "DefaultVirtualIp = [49, 48, 46, 49, 51, 46, 51, 55, 46, 50]"

record rt_env =
  re_fs :: fs_env
  re_nifm :: bool
  re_draws :: "nat \<Rightarrow> u8 \<times> u8"
  re_draws2 :: "nat \<Rightarrow> u8 \<times> u8"
  re_os :: os_answers
  re_sendto :: "int \<Rightarrow> bytes \<Rightarrow> bool"
  re_thread :: bool
  re_netmap :: netmap
  re_to_ms :: "int \<Rightarrow> int"

text \<open>An operation that asks for the address twice draws fresh random bytes the second time.\<close>

definition second_draw :: "rt_env \<Rightarrow> rt_env" where
  "second_draw e = e\<lparr>re_draws := re_draws2 e\<rparr>"

definition GetVirtualIp :: "rt_env \<Rightarrow> nat \<Rightarrow> bytes option \<Rightarrow> bytes \<times> bytes option" where
  "GetVirtualIp e cap file =
     (case ReadPersistedVirtualOctets (re_fs e) file of
        Some (c, d) \<Rightarrow> (take (cap - 1) (prefix_text @ octet_text c d), file)
      | None \<Rightarrow>
          if \<not> re_nifm e then (take (cap - 1) DefaultVirtualIp, file)
          else (let (c, d) = GenerateVirtualOctets (re_draws e)
                in (take (cap - 1) (prefix_text @ octet_text c d), PersistVirtualOctets (re_fs e) c d)))"

definition to_string :: "bytes \<Rightarrow> string" where
  "to_string b = map (\<lambda>x. char_of (unat x)) b"

section \<open>State\<close>

definition SLPCFG_STATE_STOPPED :: int where "SLPCFG_STATE_STOPPED = 0"
definition SLPCFG_STATE_RUNNING :: int where "SLPCFG_STATE_RUNNING = 1"

record Runtime =
  m_sel_index :: int
  rt_state :: int
  m_ip :: bytes
  m_connected_host :: bytes
  m_relay_ip :: u32
  m_client :: SlpClient
  m_thread_running :: bool
  m_stop_event :: bool
  m_rx_frames :: u32
  m_tx_frames :: u32

definition new_Runtime :: Runtime where
  "new_Runtime = \<lparr>m_sel_index = -1, rt_state = SLPCFG_STATE_STOPPED, m_ip = [], m_connected_host = [], m_relay_ip = 0,
     m_client = zero_SlpClient\<lparr>cl_fd := -1\<rparr>, m_thread_running = False, m_stop_event = False, m_rx_frames = 0,
     m_tx_frames = 0\<rparr>"

record 'w app =
  a_rt :: Runtime
  a_servers :: "SlpServer list"
  a_config :: "bytes option"
  a_virtual_id :: "bytes option"
  a_con :: "'w Console"

section \<open>Server selection\<close>

definition ReloadServers :: "rt_env \<Rightarrow> 'w app \<Rightarrow> int \<times> 'w app" where
  "ReloadServers e a =
     (case ReadConfigText (re_fs e) (a_config a) 4096 of
        None \<Rightarrow> (0, a)
      | Some (buf, sz) \<Rightarrow>
          (let l = slpServersParse (take sz buf); count = slpServersCount l; rt = a_rt a;
               sel = (if m_sel_index rt < 0 \<or> m_sel_index rt \<ge> count then (if count > 0 then 0 else -1) else m_sel_index rt)
           in (count, a\<lparr>a_servers := l, a_rt := rt\<lparr>m_sel_index := sel\<rparr>\<rparr>)))"

definition RelayOnLocalNetwork :: "Runtime \<Rightarrow> bool" where
  "RelayOnLocalNetwork rt =
     (let ip = m_relay_ip rt
      in if ip = 0 then False
         else
           (let ip_host = bswap32 ip;
                first = drop_bit 24 ip_host AND 0xFF;
                first_two = drop_bit 16 ip_host AND 0xFFFF
            in if first = 0x0A then True
               else if first = 0xAC then first_two AND 0xFFF0 = 0xAC10
               else if first = 0xC0 then first_two = 0xC0A8
               else if first = 0xA9 then first_two = 0xA9FE
               else False))"

definition ServerCount :: "'w app \<Rightarrow> int" where
  "ServerCount a = slpServersCount (a_servers a)"

definition ServerName :: "int \<Rightarrow> 'w app \<Rightarrow> bytes" where
  "ServerName index a = (case slpServersGet index (a_servers a) of Some s \<Rightarrow> sv_name s | None \<Rightarrow> [])"

definition ServerHost :: "int \<Rightarrow> 'w app \<Rightarrow> bytes" where
  "ServerHost index a = (case slpServersGet index (a_servers a) of Some s \<Rightarrow> sv_host s | None \<Rightarrow> [])"

definition ServerPort :: "int \<Rightarrow> 'w app \<Rightarrow> u16" where
  "ServerPort index a = (case slpServersGet index (a_servers a) of Some s \<Rightarrow> sv_port s | None \<Rightarrow> 0)"

definition SelectServer :: "u32 \<Rightarrow> 'w app \<Rightarrow> bool \<times> 'w app" where
  "SelectServer index a =
     (if sint index \<ge> slpServersCount (a_servers a) then (False, a)
      else (True, a\<lparr>a_rt := (a_rt a)\<lparr>m_sel_index := sint index\<rparr>\<rparr>))"

section \<open>Start and stop\<close>

definition tun_env_of :: "rt_env \<Rightarrow> int \<Rightarrow> Runtime \<Rightarrow> tun_env" where
  "tun_env_of e now rt = \<lparr>te_now = now, te_running = (rt_state rt = SLPCFG_STATE_RUNNING), te_client = m_client rt,
     te_sendto = re_sendto e, te_netmap = re_netmap e\<rparr>"

definition rt_Start :: "rt_env \<Rightarrow> 'w app \<Rightarrow> bool \<times> 'w app \<times> relay_out list" where
  "rt_Start e a =
     (let rt = a_rt a
      in if rt_state rt = SLPCFG_STATE_RUNNING then (True, a, [])
         else if m_sel_index rt < 0 \<or> m_sel_index rt \<ge> slpServersCount (a_servers a) then (False, a, [])
         else case slpServersGet (m_sel_index rt) (a_servers a) of
             None \<Rightarrow> (False, a, [])
           | Some s \<Rightarrow>
               (let c1 = slpClientSetCredentials (Some (sv_username s)) (Some (sv_password s)) (m_client rt);
                    (ok, c2) = slpClientOpen (re_os e) (sv_host s) (sv_port s) c1
                in if \<not> ok then (False, a\<lparr>a_rt := rt\<lparr>m_client := c2\<rparr>\<rparr>, [])
                   else
                     (let (_, outs) = slpClientSendPing (re_sendto e) c2 0xC0FFEE;
                          (ip, file1) = GetVirtualIp e 16 (a_virtual_id a);
                          (ip2, file2) = GetVirtualIp (second_draw e) 16 file1;
                          con = RefreshLocalIp (to_string ip2) (a_con a);
                          rt1 = rt\<lparr>m_client := c2, m_relay_ip := server_ip c2, m_ip := ip,
                                  m_connected_host := take 127 (sv_host s), m_stop_event := False, m_thread_running := True\<rparr>;
                          a1 = a\<lparr>a_rt := rt1, a_virtual_id := file2, a_con := con\<rparr>
                      in if \<not> re_thread e
                         then (False, a1\<lparr>a_rt := rt1\<lparr>m_client := slpClientClose c2, m_thread_running := False\<rparr>\<rparr>, outs)
                         else (True, a1\<lparr>a_rt := rt1\<lparr>rt_state := SLPCFG_STATE_RUNNING\<rparr>\<rparr>, outs))))"

definition rt_Stop :: "'w app \<Rightarrow> 'w app" where
  "rt_Stop a =
     (let rt = a_rt a
      in if rt_state rt \<noteq> SLPCFG_STATE_RUNNING then a
         else a\<lparr>a_rt := rt\<lparr>rt_state := SLPCFG_STATE_STOPPED, m_thread_running := False, m_stop_event := True,
                          m_client := slpClientClose (m_client rt)\<rparr>,
                a_con := (a_con a)\<lparr>con_tun := OnStop (con_tun (a_con a))\<rparr>\<rparr>)"

section \<open>The receive thread\<close>

definition KeepaliveIntervalMs :: int where "KeepaliveIntervalMs = 10000"

record loop_state =
  last_keepalive :: int
  keepalive_fails :: nat

text \<open>The keepalive part of an iteration: the loop variables, the client, the transmit counter and what was
  sent.\<close>

definition keepalive_step :: "rt_env \<Rightarrow> int \<Rightarrow> loop_state \<times> Runtime \<Rightarrow> (loop_state \<times> Runtime) \<times> relay_out list" where
  "keepalive_step e now st =
     (let (ls, rt) = st
      in if re_to_ms e (now - last_keepalive ls) \<ge> KeepaliveIntervalMs then
           (let ls1 = ls\<lparr>last_keepalive := now\<rparr>;
                (ok, outs) = slpClientSendKeepalive (re_sendto e) (m_client rt)
            in if ok then ((ls1\<lparr>keepalive_fails := 0\<rparr>, rt\<lparr>m_tx_frames := m_tx_frames rt + 1\<rparr>), outs)
               else if keepalive_fails ls1 + 1 \<ge> 3
                 then ((ls1\<lparr>keepalive_fails := 0\<rparr>, rt\<lparr>m_client := snd (slpClientReopen (re_os e) (m_client rt))\<rparr>), outs)
                 else ((ls1\<lparr>keepalive_fails := keepalive_fails ls1 + 1\<rparr>, rt), outs))
         else (st, []))"

text \<open>What an iteration does with the datagram it received (\<open>None\<close> on a timeout), and whether the stop event
  is looked at afterwards.\<close>

definition handle_frame :: "rt_env \<Rightarrow> int \<Rightarrow> (bytes \<times> u8) option \<Rightarrow> Runtime \<times> 'w Console \<Rightarrow>
    bool \<times> (Runtime \<times> 'w Console) \<times> relay_out list" where
  "handle_frame e now r st =
     (let (rt, con) = st
      in case r of
           None \<Rightarrow> (True, st, [])
         | Some (buf, ty) \<Rightarrow>
             if ty = SLP_TYPE_PING then (False, st, [])
             else if ty = SLP_TYPE_AUTH_ME then
               (False, st, snd (slpClientHandleAuthMe (re_sendto e) (tl buf) (m_client rt)))
             else
               (let rt1 = rt\<lparr>m_rx_frames := m_rx_frames rt + 1\<rparr>
                in if length buf > 1 then
                     (let (con1, outs) = OnFrame (tun_env_of e now rt1) ty (tl buf) con in (True, (rt1, con1), outs))
                   else (True, (rt1, con), [])))"

text \<open>One iteration: the three readings of the clock, what \<^verbatim>\<open>recv\<close> delivered, and the loop's result, which is
  \<open>False\<close> when the loop is left by its \<^verbatim>\<open>break\<close>.\<close>

record iter_in =
  ii_now :: int
  ii_ldn_now :: int
  ii_frame_now :: int
  ii_recv :: "bytes option"

definition run_iter :: "rt_env \<Rightarrow> iter_in \<Rightarrow> loop_state \<times> 'w app \<Rightarrow> bool \<times> (loop_state \<times> 'w app) \<times> relay_out list" where
  "run_iter e x st =
     (let (ls, a) = st;
          ((ls1, rt1), o1) = keepalive_step e (ii_now x) (ls, a_rt a);
          con0 = a_con a;
          (l, ds) = Tick (rt_state rt1 = SLPCFG_STATE_RUNNING) (ii_ldn_now x) (con_ldn con0);
          (con1, o2) = send_all (tun_env_of e (ii_ldn_now x) rt1) ds (con0\<lparr>con_ldn := l\<rparr>);
          (check, (rt2, con2), o3) = handle_frame e (ii_frame_now x) (slpClientRecv (ii_recv x) 2048) (rt1, con1)
      in (\<not> (check \<and> m_stop_event rt2), (ls1, a\<lparr>a_rt := rt2, a_con := con2\<rparr>), o1 @ o2 @ o3))"

text \<open>The loop on a given sequence of iterations, each with the answers of the operating system during it. The result
  is the state when the loop is left, or after the last of them.\<close>

fun run_loop :: "(rt_env \<times> iter_in) list \<Rightarrow> loop_state \<times> 'w app \<Rightarrow> (loop_state \<times> 'w app) \<times> relay_out list" where
  "run_loop [] st = (st, [])"
| "run_loop ((e, x) # xs) st =
     (if \<not> m_thread_running (a_rt (snd st)) then (st, [])
      else (let (go, st1, o1) = run_iter e x st
            in if \<not> go then (st1, o1) else (let (st2, o2) = run_loop xs st1 in (st2, o1 @ o2))))"

section \<open>Configuration service\<close>

datatype cfg_result = Cfg_Success | Cfg_InvalidRequestSize

definition copy_ip :: "nat \<Rightarrow> bytes \<Rightarrow> bytes" where
  "copy_ip n ip = take n (strncpy ip 15 @ [0])"

definition version_text :: bytes where "version_text = [48, 46, 49, 46, 48]"

definition cfg_GetVersion :: "nat \<Rightarrow> bytes" where
  "cfg_GetVersion n = take n (strncpy version_text 31 @ [0])"

definition cfg_GetState :: "nat \<Rightarrow> 'w app \<Rightarrow> u32 \<times> u32 \<times> bytes" where
  "cfg_GetState n a = (of_int (rt_state (a_rt a)), of_int (m_sel_index (a_rt a)), copy_ip n (m_ip (a_rt a)))"

definition cfg_SelectServer :: "u32 \<Rightarrow> 'w app \<Rightarrow> cfg_result \<times> 'w app" where
  "cfg_SelectServer index a =
     (let (ok, a1) = SelectServer index a in (if ok then Cfg_Success else Cfg_InvalidRequestSize, a1))"

definition cfg_Start :: "rt_env \<Rightarrow> 'w app \<Rightarrow> cfg_result \<times> 'w app \<times> relay_out list" where
  "cfg_Start e a =
     (let (ok, a1, outs) = rt_Start e a in (if ok then Cfg_Success else Cfg_InvalidRequestSize, a1, outs))"

definition cfg_Stop :: "'w app \<Rightarrow> cfg_result \<times> 'w app" where
  "cfg_Stop a = (Cfg_Success, rt_Stop a)"

definition cfg_Reload :: "rt_env \<Rightarrow> 'w app \<Rightarrow> cfg_result \<times> 'w app" where
  "cfg_Reload e a = (Cfg_Success, snd (ReloadServers e a))"

end
