(* ===== verification/Runtime_Props.thy ===== *)
theory Runtime_Props
  imports Runtime
begin

text \<open>
  Properties of the relay runtime: the virtual address is drawn once and stays, the runtime's state is
  well typed along every sequence of configuration commands, starting a connection drops the server's
  credentials, and the receive thread reconnects after three failed keepalives.
\<close>

section \<open>Decimal texts\<close>

lemma takeWhile_dec: "r = [] \<or> \<not> is_digit (hd r) \<Longrightarrow> takeWhile is_digit (dec n @ r) = dec n"
  using dec_digits by (cases r) (auto simp: takeWhile_append2 takeWhile_tail)

lemma dec_starts: "\<exists>c cs. dec n = c # cs \<and> is_digit c"
  using dec_digits [of _ n] dec_ne [of n] by (cases "dec n") auto

lemma scan_u_dec:
  assumes "n < 2 ^ 32" and "r = [] \<or> \<not> is_digit (hd r)"
  shows "scan_u (dec n @ r) = Some (of_nat n, r)"
proof -
  obtain c cs where c: "dec n = c # cs" "is_digit c" using dec_starts by blast
  have s: "dropWhile is_space (dec n @ r) = dec n @ r" using c digit_plain [OF c(2)] by simp
  have sign: "hd (dec n @ r) \<noteq> 45" "hd (dec n @ r) \<noteq> 43" using c digit_plain [OF c(2)] by auto
  show ?thesis
    unfolding scan_u_def s Let_def using sign assms(1) takeWhile_dec [OF assms(2)] dec_ne [of n]
    by (simp add: digits_val_dec)
qed

lemma scan_octets_text:
  assumes "c \<le> 255" "d \<le> 255" and "r = [] \<or> \<not> is_digit (hd r)"
  shows "scan_octets (octet_text c d @ r) = Some (c, d)"
proof -
  have "\<not> is_digit 46" by (simp add: is_digit_def)
  moreover have "unat c < 2 ^ 32" "unat d < 2 ^ 32" using unsigned_less [of c, where ?'a = nat] unsigned_less [of d, where ?'a = nat] by simp_all
  ultimately show ?thesis
    using scan_u_dec [of "unat c" "46 # dec (unat d) @ r"] scan_u_dec [OF _ assms(3), of "unat d"]
    by (simp add: scan_octets_def octet_text_def)
qed

lemma octet_text_plain: "x \<in> set (octet_text c d) \<Longrightarrow> x \<noteq> 0"
  using digit_plain dec_digits by (auto simp: octet_text_def)

lemma octet_text_length:
  assumes "c \<le> 255" "d \<le> 255" shows "length (octet_text c d) \<le> 7" "octet_text c d \<noteq> []"
proof -
  have "unat c \<le> 255" "unat d \<le> 255" using assms by (simp_all add: word_le_nat_alt)
  then show "length (octet_text c d) \<le> 7"
    using dec_length [of "unat c" 2] dec_length [of "unat d" 2] by (simp add: octet_text_def)
qed (simp add: octet_text_def)

lemma digit_char:
  assumes "is_digit x"
  shows "(of_char (char_of (unat x)) :: nat) = unat x" "48 \<le> unat x" "unat x \<le> 57"
  using assms unsigned_less [of x, where ?'a = nat] by (auto simp: is_digit_def word_le_nat_alt)

lemma parse_digits:
  "\<forall>x \<in> set ds. is_digit x \<Longrightarrow>
   parse_ip_loop (to_string ds @ rest) v oct cur = parse_ip_loop rest v oct (nat (digits_val (int cur) ds))"
proof (induction ds arbitrary: cur)
  case (Cons x ds)
  have "int (cur * 10 + (unat x - 48)) = int cur * 10 + (uint x - 48)"
    using digit_char(2) [of x] Cons.prems by (simp add: of_nat_diff)
  then show ?case
    using Cons.IH [of "cur * 10 + (unat x - 48)"] Cons.prems digit_char [of x]
    by (simp add: to_string_def)
qed (simp add: to_string_def)

lemma parse_dec: "parse_ip_loop (to_string (dec n) @ rest) v oct 0 = parse_ip_loop rest v oct n"
  using parse_digits [of "dec n" rest v oct 0] dec_digits by (simp add: digits_val_dec)

lemma to_string_append: "to_string (a @ b) = to_string a @ to_string b"
  by (simp add: to_string_def)

lemma ParseIp_octets:
  assumes "c \<le> 255" "d \<le> 255"
  shows "ParseIp (to_string (prefix_text @ octet_text c d)) = 0x0A0D0000 OR push_bit 8 c OR d"
proof -
  have le: "unat c \<le> 255" "unat d \<le> 255" using assms by (simp_all add: word_le_nat_alt)
  have dot: "to_string (46 # x) = CHR ''.'' # to_string x" for x by (simp add: to_string_def char_of_def bit_0)
  have pre: "to_string prefix_text = ''10.13.''" by (simp add: to_string_def prefix_text_def char_of_def bit_0)
  have "parse_ip_loop (''10.13.'' @ to_string (dec (unat c)) @ ''.'' @ to_string (dec (unat d))) 0 0 0 =
      parse_ip_loop (to_string (dec (unat c)) @ ''.'' @ to_string (dec (unat d))) 0x0A0D 2 0"
    by (simp add: numeral_2_eq_2)
  also have "\<dots> = push_bit 8 (push_bit 8 0x0A0D OR c) OR d"
    using parse_dec [of "unat d" "[]"] le by (simp add: parse_dec)
  also have "\<dots> = 0x0A0D0000 OR push_bit 8 c OR d" by (simp add: push_bit_or) (simp add: or.assoc)
  finally show ?thesis by (simp add: ParseIp_def octet_text_def to_string_append pre dot)
qed

section \<open>The virtual address\<close>

lemma generate_free: "\<not> IsReservedVirtualOctet c d \<and> c \<le> 255 \<and> d \<le> 255" if "generate_loop n draws k = (c, d)"
  using that
proof (induction n draws k rule: generate_loop.induct)
  case (1 draws k)
  then show ?case by (auto simp: IsReservedVirtualOctet_def)
next
  case (2 left draws k)
  have small: "(ucast (x :: u8) :: u32) \<le> 255" for x
    using unsigned_less [of x, where ?'a = nat] by (simp add: word_le_nat_alt unsigned_ucast_eq take_bit_nat_eq_self)
  from 2 show ?case by (cases "draws k") (auto simp: Let_def small split: if_splits)
qed

lemma ReadPersisted_free:
  "ReadPersistedVirtualOctets fe file = Some (c, d) \<Longrightarrow> \<not> IsReservedVirtualOctet c d \<and> c \<le> 255 \<and> d \<le> 255"
  by (auto simp: ReadPersistedVirtualOctets_def not_less split: option.splits if_splits)

lemma persist_read:
  assumes "fe_create fe" "fe_open_write fe" "fe_write fe" and "fe_read fe' = Some" and "c \<le> 255" "d \<le> 255"
    and "\<not> IsReservedVirtualOctet c d"
  shows "ReadPersistedVirtualOctets fe' (PersistVirtualOctets fe c d) = Some (c, d)"
proof -
  have len: "length (octet_text c d @ [10]) \<le> 8" using octet_text_length [OF assms(5,6)] by simp
  then have "PersistVirtualOctets fe c d = Some (octet_text c d @ [10])"
    using assms(1-3) by (simp add: PersistVirtualOctets_def Let_def)
  moreover have "ReadConfigText fe' (Some (octet_text c d @ [10])) 32 =
      Some (octet_text c d @ [10], length (octet_text c d @ [10]))"
    using len assms(4) by (simp add: ReadConfigText_def Let_def)
  moreover have "c_str (octet_text c d @ [10]) = octet_text c d @ [10]"
    using octet_text_plain by (simp add: c_str_def takeWhile_eq_all_conv)
  moreover have "scan_octets (octet_text c d @ [10]) = Some (c, d)"
    by (rule scan_octets_text) (use assms in \<open>simp_all add: is_digit_def\<close>)
  ultimately show ?thesis using assms(5-7) by (simp add: ReadPersistedVirtualOctets_def not_less)
qed

lemma ReadConfigText_same: "fe_read fe = fe_read fe' \<Longrightarrow> ReadConfigText fe file cap = ReadConfigText fe' file cap"
  by (simp add: ReadConfigText_def Let_def split: option.split)

lemma address_text:
  assumes "c \<le> 255" "d \<le> 255" shows "take 15 (prefix_text @ octet_text c d) = prefix_text @ octet_text c d"
  using octet_text_length(1) [OF assms] by (simp add: prefix_text_def)

lemma high_bits: "(push_bit 8 (take_bit 8 c) OR take_bit 8 d) AND push_bit 16 (k :: u32) = 0"
  by (rule bit_word_eqI) (auto simp: bit_simps)

lemma IsLanAddress_virtual:
  assumes "c \<le> 255" "d \<le> 255" shows "IsLanAddress (0x0A0D0000 OR push_bit 8 c OR d)"
proof -
  have "take_bit 8 x = x" if "x \<le> 255" for x :: u32
    using that by (simp add: word_le_nat_alt word_unat_eq_iff unsigned_take_bit_eq take_bit_nat_eq_self)
  then have cd: "c = take_bit 8 c" "d = take_bit 8 d" using assms by simp_all
  from high_bits [of c d "0xFFFF"] have "(push_bit 8 c OR d) AND 0xFFFF0000 = 0" using cd by simp
  then show ?thesis
    by (simp add: IsLanAddress_def LAN_NETWORK_MASK_def LAN_NETWORK_BASE_def bit.conj_disj_distrib2)
qed

lemma address_persisted:
  assumes "GetVirtualIp e 16 file = (ip, file')" and "re_nifm e"
    and "fe_create (re_fs e)" "fe_open_write (re_fs e)" "fe_write (re_fs e)" "fe_read (re_fs e) = Some"
  obtains c d where "ip = prefix_text @ octet_text c d" "\<not> IsReservedVirtualOctet c d" "c \<le> 255" "d \<le> 255"
    "\<And>e'. fe_read (re_fs e') = Some \<Longrightarrow> GetVirtualIp e' 16 file' = (ip, file')"
proof -
  obtain c d where cd: "ReadPersistedVirtualOctets (re_fs e) file' = Some (c, d)" "ip = take 15 (prefix_text @ octet_text c d)"
      "\<not> IsReservedVirtualOctet c d" "c \<le> 255" "d \<le> 255"
  proof (cases "ReadPersistedVirtualOctets (re_fs e) file")
    case None
    obtain c d where g: "GenerateVirtualOctets (re_draws e) = (c, d)" by fastforce
    then have "\<not> IsReservedVirtualOctet c d \<and> c \<le> 255 \<and> d \<le> 255" by (simp add: GenerateVirtualOctets_def generate_free)
    with None g assms that persist_read show ?thesis by (auto simp: GetVirtualIp_def)
  next
    case (Some p)
    then show ?thesis using assms(1) that ReadPersisted_free by (cases p) (auto simp: GetVirtualIp_def)
  qed
  have "ReadPersistedVirtualOctets (re_fs e') file' = Some (c, d)" if "fe_read (re_fs e') = Some" for e' :: rt_env
    using cd(1) that assms(6) ReadConfigText_same [of "re_fs e" "re_fs e'"] by (simp add: ReadPersistedVirtualOctets_def)
  then have "GetVirtualIp e' 16 file' = (ip, file')" if "fe_read (re_fs e') = Some" for e' :: rt_env
    using that by (simp add: GetVirtualIp_def cd(2) del: take_append)
  with that [of c d] cd address_text show ?thesis by simp
qed

text \<open>C29: Once the network service answers and the card can be written, the console's address is 10.13.c.d for
  octets outside every reserved band, it parses to an address inside the virtual subnet, and every later
  call returns the same address and leaves the file alone, whatever the random source and the network
  service do then.\<close>

theorem virtual_ip_stable:
  assumes "GetVirtualIp e 16 file = (ip, file')" and "re_nifm e"
    and "fe_create (re_fs e)" "fe_open_write (re_fs e)" "fe_write (re_fs e)" "fe_read (re_fs e) = Some"
  shows "\<exists>c d. ip = prefix_text @ octet_text c d \<and> \<not> IsReservedVirtualOctet c d \<and> c \<le> 255 \<and> d \<le> 255 \<and>
     ParseIp (to_string ip) = 0x0A0D0000 OR push_bit 8 c OR d \<and> IsLanAddress (ParseIp (to_string ip)) \<and>
     (\<forall>e'. fe_read (re_fs e') = Some \<longrightarrow> GetVirtualIp e' 16 file' = (ip, file'))"
  using address_persisted [OF assms] ParseIp_octets IsLanAddress_virtual by metis

definition good_fs :: fs_env where
  "good_fs = \<lparr>fe_read = Some, fe_create = True, fe_open_write = True, fe_write = True\<rparr>"

definition sample_rt_env :: rt_env where
  "sample_rt_env = \<lparr>re_fs = good_fs, re_nifm = True, re_draws = (\<lambda>_. (12, 34)), re_draws2 = (\<lambda>_. (56, 78)),
     re_os = \<lparr>os_pton = (\<lambda>_. Some 0x0100007F), os_dns_socket = 8, os_socket = 9, os_bind = True, os_dns = (\<lambda>_. None)\<rparr>,
     re_sendto = (\<lambda>fd b. fd = 9), re_thread = True, re_netmap = netmap_init, re_to_ms = (\<lambda>t. t)\<rparr>"

theorem virtual_ip_stable_witness:
  "\<exists>ip file'. GetVirtualIp sample_rt_env 16 None = (ip, file') \<and> IsLanAddress (ParseIp (to_string ip)) \<and>
     GetVirtualIp (sample_rt_env\<lparr>re_nifm := False, re_draws := (\<lambda>_. (99, 99))\<rparr>) 16 file' = (ip, file')"
proof -
  obtain ip file' where g: "GetVirtualIp sample_rt_env 16 None = (ip, file')" by fastforce
  from virtual_ip_stable [OF g] show ?thesis by (auto simp: sample_rt_env_def good_fs_def g [unfolded sample_rt_env_def good_fs_def])
qed

section \<open>Runs of the runtime\<close>

datatype (plugins only: code) rt_op =
    Op_Select u32
  | Op_Start rt_env
  | Op_Stop
  | Op_Reload rt_env
  | Op_Iterate rt_env loop_state iter_in

fun rt_step :: "rt_op \<Rightarrow> 'w app \<Rightarrow> 'w app" where
  "rt_step (Op_Select index) a = snd (cfg_SelectServer index a)"
| "rt_step (Op_Start e) a = fst (snd (cfg_Start e a))"
| "rt_step Op_Stop a = snd (cfg_Stop a)"
| "rt_step (Op_Reload e) a = snd (cfg_Reload e a)"
| "rt_step (Op_Iterate e ls x) a = snd (fst (snd (run_iter e x (ls, a))))"

definition rt_ok :: "int \<Rightarrow> Runtime \<Rightarrow> bool" where
  "rt_ok count rt \<longleftrightarrow>
     - (2 ^ 31) \<le> m_sel_index rt \<and> m_sel_index rt < count \<and>
     rt_state rt \<in> {SLPCFG_STATE_STOPPED, SLPCFG_STATE_RUNNING} \<and>
     m_thread_running rt = (rt_state rt = SLPCFG_STATE_RUNNING) \<and>
     (rt_state rt = SLPCFG_STATE_RUNNING \<longrightarrow> cl_fd (m_client rt) \<ge> 0 \<and> \<not> m_stop_event rt) \<and>
     length (m_ip rt) \<le> 15 \<and> length (m_connected_host rt) \<le> 127"

definition app_ok :: "'w app \<Rightarrow> bool" where
  "app_ok a \<longleftrightarrow> rt_ok (slpServersCount (a_servers a)) (a_rt a) \<and> length (a_servers a) \<le> SLPCFG_MAX_SERVERS"

lemma SelectServer_ok: "app_ok a \<Longrightarrow> app_ok (snd (SelectServer index a))"
  using sint_greater_eq [of index] by (auto simp: SelectServer_def app_ok_def rt_ok_def)

lemma Stop_ok: "app_ok a \<Longrightarrow> app_ok (rt_Stop a)"
  by (auto simp: rt_Stop_def Let_def app_ok_def rt_ok_def SLPCFG_STATE_STOPPED_def SLPCFG_STATE_RUNNING_def)

lemma Reload_ok:
  assumes "app_ok a" shows "app_ok (snd (ReloadServers e a))"
  using assms parse_lines_bounds [of 0] by (auto simp: ReloadServers_def app_ok_def rt_ok_def Let_def slpServersCount_def slpServersParse_def split: option.splits)

lemma open_fd: "slpClientOpen os host port c = (True, c') \<Longrightarrow> cl_fd c' \<ge> 0 \<and> \<not> has_credentials c' \<and> server_ip c' = the (slpResolveHost os host)"
  by (auto simp: slpClientOpen_def zero_SlpClient_def split: option.splits if_splits)

lemma GetVirtualIp_length: "length (fst (GetVirtualIp e 16 file)) \<le> 15"
  by (auto simp: GetVirtualIp_def split_beta Let_def split: option.split)

text \<open>The outcomes of \<^verbatim>\<open>Start\<close>.\<close>

lemma Start_cases:
  assumes "rt_Start e a = (ok, a', outs)"
  obtains (running) "ok" "rt_state (a_rt a) = SLPCFG_STATE_RUNNING" "a' = a"
    | (refused) c where "\<not> ok" "rt_state (a_rt a) \<noteq> SLPCFG_STATE_RUNNING" "a' = a\<lparr>a_rt := (a_rt a)\<lparr>m_client := c\<rparr>\<rparr>"
    | (opened) s c c' ip where "rt_state (a_rt a) \<noteq> SLPCFG_STATE_RUNNING" "slpServersGet (m_sel_index (a_rt a)) (a_servers a) = Some s"
        "slpClientOpen (re_os e) (sv_host s) (sv_port s) c = (True, c')" "ok = re_thread e" "a_servers a' = a_servers a"
        "length ip \<le> 15"
        "a_rt a' = (a_rt a)\<lparr>m_client := (if ok then c' else slpClientClose c'), m_relay_ip := server_ip c', m_ip := ip,
           m_connected_host := take 127 (sv_host s), m_stop_event := False, m_thread_running := ok,
           rt_state := (if ok then SLPCFG_STATE_RUNNING else rt_state (a_rt a))\<rparr>"
proof (cases "rt_state (a_rt a) = SLPCFG_STATE_RUNNING")
  case True
  then have "ok" "a' = a" using assms by (simp_all add: rt_Start_def)
  with True show ?thesis by (intro running)
next
  case False
  show ?thesis
  proof (cases "m_sel_index (a_rt a) < 0 \<or> m_sel_index (a_rt a) \<ge> slpServersCount (a_servers a)")
    case True
    then have "\<not> ok" "a' = a\<lparr>a_rt := (a_rt a)\<lparr>m_client := m_client (a_rt a)\<rparr>\<rparr>"
      using False assms by (simp_all add: rt_Start_def)
    with False show ?thesis by (intro refused)
  next
    case sel: False
    then obtain s where s: "slpServersGet (m_sel_index (a_rt a)) (a_servers a) = Some s" by (auto simp: slpServersGet_def)
    define c where "c = slpClientSetCredentials (Some (sv_username s)) (Some (sv_password s)) (m_client (a_rt a))"
    obtain op c' where o': "slpClientOpen (re_os e) (sv_host s) (sv_port s) c = (op, c')" by fastforce
    obtain ip f1 where g1: "GetVirtualIp e 16 (a_virtual_id a) = (ip, f1)" by fastforce
    obtain ip2 f2 where g2: "GetVirtualIp (second_draw e) 16 f1 = (ip2, f2)" by fastforce
    have len: "length ip \<le> 15" using GetVirtualIp_length [of e "a_virtual_id a"] g1 by simp
    have st: "rt_Start e a = (if \<not> op then (False, a\<lparr>a_rt := (a_rt a)\<lparr>m_client := c'\<rparr>\<rparr>, []) else
        (let rt1 = (a_rt a)\<lparr>m_client := c', m_relay_ip := server_ip c', m_ip := ip,
               m_connected_host := take 127 (sv_host s), m_stop_event := False, m_thread_running := True\<rparr>;
             a1 = a\<lparr>a_rt := rt1, a_virtual_id := f2, a_con := RefreshLocalIp (to_string ip2) (a_con a)\<rparr>;
             outs = snd (slpClientSendPing (re_sendto e) c' 0xC0FFEE)
         in if \<not> re_thread e then (False, a1\<lparr>a_rt := rt1\<lparr>m_client := slpClientClose c', m_thread_running := False\<rparr>\<rparr>, outs)
            else (True, a1\<lparr>a_rt := rt1\<lparr>rt_state := SLPCFG_STATE_RUNNING\<rparr>\<rparr>, outs)))"
      using False sel s o' g1 g2 by (simp add: rt_Start_def c_def split_beta Let_def)
    show ?thesis
    proof (cases op)
      case True
      then have "ok = re_thread e" "a_servers a' = a_servers a"
        "a_rt a' = (a_rt a)\<lparr>m_client := (if ok then c' else slpClientClose c'), m_relay_ip := server_ip c', m_ip := ip,
           m_connected_host := take 127 (sv_host s), m_stop_event := False, m_thread_running := ok,
           rt_state := (if ok then SLPCFG_STATE_RUNNING else rt_state (a_rt a))\<rparr>"
        using st assms by (auto simp: Let_def split: if_splits)
      with True show ?thesis using o' len by (intro opened [OF False s]) simp_all
    next
      case no: False
      then have "\<not> ok" "a' = a\<lparr>a_rt := (a_rt a)\<lparr>m_client := c'\<rparr>\<rparr>" using st assms by simp_all
      with False show ?thesis by (intro refused)
    qed
  qed
qed

lemma Start_ok:
  assumes "app_ok a" shows "app_ok (fst (snd (rt_Start e a)))"
proof -
  obtain ok a' outs where st: "rt_Start e a = (ok, a', outs)" by (metis prod_cases3)
  then show ?thesis
  proof (cases rule: Start_cases)
    case (opened s c c' ip)
    then show ?thesis using st assms open_fd [OF opened(3)] by (auto simp: app_ok_def rt_ok_def)
  qed (use st assms in \<open>auto simp: app_ok_def rt_ok_def\<close>)
qed

lemma keepalive_ok: "rt_ok n rt \<Longrightarrow> rt_ok n (snd (fst (keepalive_step e now (ls, rt))))"
  by (auto simp: keepalive_step_def rt_ok_def slpClientReopen_def Let_def split_beta)

lemma handle_frame_ok: "rt_ok n rt \<Longrightarrow> rt_ok n (fst (fst (snd (handle_frame e now r (rt, con)))))"
  by (auto simp: handle_frame_def rt_ok_def Let_def split_beta split: option.splits)

lemma run_iter_ok: "app_ok a \<Longrightarrow> app_ok (snd (fst (snd (run_iter e x (ls, a)))))"
  by (simp add: run_iter_def app_ok_def split_beta Let_def keepalive_ok handle_frame_ok)

interpretation rt: invariant_system "\<lambda>_ _. True" rt_step app_ok
proof
  fix a :: "'w app" and c
  assume "app_ok a"
  then show "app_ok (rt_step c a)"
    by (cases c) (simp_all add: cfg_SelectServer_def cfg_Start_def cfg_Stop_def cfg_Reload_def SelectServer_ok Start_ok
        Stop_ok Reload_ok run_iter_ok split_beta Let_def)
qed

lemma legal_True [simp]: "legal (\<lambda>_ _. True) step cs s"
  by (induction cs arbitrary: s) auto

definition new_app :: "bytes option \<Rightarrow> bytes option \<Rightarrow> 'w Console \<Rightarrow> 'w app" where
  "new_app config vid con = \<lparr>a_rt = new_Runtime, a_servers = [], a_config = config, a_virtual_id = vid, a_con = con\<rparr>"

text \<open>C30: Along every sequence of configuration commands and receive iterations the runtime is well typed: at
  most ten servers, the selected index below the number of servers and inside the range of \<^verbatim>\<open>int\<close>, the state
  stopped or running, the thread flag set exactly while running, a valid socket and no stop request while
  running, and the two texts inside their arrays of 16 and 128 bytes.\<close>

theorem runtime_well_typed:
  "let a = fold rt_step ops (new_app config vid con); rt = a_rt a
   in length (a_servers a) \<le> 10 \<and> - (2 ^ 31) \<le> m_sel_index rt \<and> m_sel_index rt < int (length (a_servers a)) \<and>
      rt_state rt \<in> {0, 1} \<and> m_thread_running rt = (rt_state rt = 1) \<and>
      (rt_state rt = 1 \<longrightarrow> cl_fd (m_client rt) \<ge> 0 \<and> \<not> m_stop_event rt) \<and>
      length (m_ip rt) < 16 \<and> length (m_connected_host rt) < 128"
proof -
  have "app_ok (new_app config vid con)"
    by (simp add: new_app_def new_Runtime_def app_ok_def rt_ok_def slpServersCount_def SLPCFG_STATE_STOPPED_def SLPCFG_STATE_RUNNING_def)
  then have "app_ok (fold rt_step ops (new_app config vid con))" by (rule rt.inv_steps) simp
  then show ?thesis
    by (auto simp: Let_def app_ok_def rt_ok_def slpServersCount_def SLPCFG_MAX_SERVERS_def SLPCFG_STATE_STOPPED_def
        SLPCFG_STATE_RUNNING_def)
qed

definition sample_con :: "unit Console" where
  "sample_con = \<lparr>con_tun = new_Tunnel, con_ldn = new_LdnControl, con_mgr = new_manager\<rparr>"

definition sample_app :: "unit app" where
  "sample_app = new_app (Some (render_server sample_server)) None sample_con"

lemma sample_reload: "snd (cfg_Reload sample_rt_env sample_app) = sample_app\<lparr>a_servers := [sample_server], a_rt := new_Runtime\<lparr>m_sel_index := 0\<rparr>\<rparr>"
proof -
  have p: "slpServersParse (render_server sample_server) = [sample_server]"
    using parse_lines_render [of "[sample_server]" 0] sample_server_plain by (simp add: slpServersParse_def SLPCFG_MAX_SERVERS_def)
  have "length (render_server sample_server) < 4095 \<and> render_server sample_server \<noteq> []"
    by (simp add: render_server_def server_words_def sample_server_def dec_11451)
  then show ?thesis
    using p by (simp add: cfg_Reload_def ReloadServers_def ReadConfigText_def sample_app_def new_app_def sample_rt_env_def good_fs_def
        Let_def slpServersCount_def new_Runtime_def)
qed

lemma sample_start: "\<exists>a' outs. rt_Start sample_rt_env (snd (cfg_Reload sample_rt_env sample_app)) = (True, a', outs) \<and> rt_state (a_rt a') = 1"
  unfolding sample_reload by (simp add: rt_Start_def Let_def split_beta new_Runtime_def slpServersCount_def slpServersGet_def slpClientOpen_def
      slpResolveHost_def sample_rt_env_def SLPCFG_STATE_STOPPED_def SLPCFG_STATE_RUNNING_def)

theorem runtime_well_typed_witness:
  "let a = fold rt_step [Op_Reload sample_rt_env, Op_Start sample_rt_env] sample_app
   in rt_state (a_rt a) = 1 \<and> cl_fd (m_client (a_rt a)) \<ge> 0 \<and> \<not> m_stop_event (a_rt a)"
proof -
  let ?a = "fold rt_step [Op_Reload sample_rt_env, Op_Start sample_rt_env] sample_app"
  have "rt_state (a_rt ?a) = 1" using sample_start by (auto simp: cfg_Start_def split_beta Let_def)
  then show ?thesis
    using runtime_well_typed [of "[Op_Reload sample_rt_env, Op_Start sample_rt_env]" "Some (render_server sample_server)" None sample_con]
    by (simp add: sample_app_def [symmetric] Let_def del: fold_simps)
qed

section \<open>Credentials\<close>

text \<open>C31: After a successful start the client holds no credentials, whatever login the selected server has:
  opening the connection clears what was set just before. A login challenge of the relay is then never
  answered.\<close>

theorem start_drops_credentials:
  assumes "rt_Start e a = (True, a', outs)" and "rt_state (a_rt a) \<noteq> SLPCFG_STATE_RUNNING"
  shows "\<not> has_credentials (m_client (a_rt a')) \<and>
     slpClientHandleAuthMe sendto payload (m_client (a_rt a')) = (False, [])"
  using assms(1)
proof (cases rule: Start_cases)
  case (opened s c c' ip)
  then show ?thesis using open_fd [OF opened(3)] by (simp add: slpClientHandleAuthMe_def)
qed (use assms(2) in simp_all)

theorem start_drops_credentials_witness:
  "let a = snd (cfg_Reload sample_rt_env sample_app); (ok, a', outs) = rt_Start sample_rt_env a
   in ok \<and> (\<exists>s. slpServersGet (m_sel_index (a_rt a)) (a_servers a) = Some s \<and> sv_username s \<noteq> []) \<and> \<not> has_credentials (m_client (a_rt a'))"
proof -
  let ?a = "snd (cfg_Reload sample_rt_env sample_app)"
  obtain a' outs where st: "rt_Start sample_rt_env ?a = (True, a', outs)" using sample_start by blast
  have "rt_state (a_rt ?a) \<noteq> SLPCFG_STATE_RUNNING"
    by (simp add: sample_reload new_Runtime_def SLPCFG_STATE_STOPPED_def SLPCFG_STATE_RUNNING_def)
  moreover have "slpServersGet (m_sel_index (a_rt ?a)) (a_servers ?a) = Some sample_server" "sv_username sample_server \<noteq> []"
    by (simp_all add: sample_reload slpServersGet_def slpServersCount_def) (simp add: sample_server_def)
  ultimately show ?thesis using start_drops_credentials [OF st] st by (simp add: Let_def)
qed

text \<open>An index with the top bit set passes the range check of \<^verbatim>\<open>SelectServer\<close>, because the check is made on the
  signed value, and the runtime cannot be started afterwards.\<close>

lemma SelectServer_negative:
  assumes "sint index < 0"
  shows "cfg_SelectServer index a = (Cfg_Success, a\<lparr>a_rt := (a_rt a)\<lparr>m_sel_index := sint index\<rparr>\<rparr>)"
    and "rt_state (a_rt a) \<noteq> SLPCFG_STATE_RUNNING \<Longrightarrow>
      rt_Start e (snd (cfg_SelectServer index a)) = (False, snd (cfg_SelectServer index a), [])"
  using assms by (simp_all add: cfg_SelectServer_def SelectServer_def slpServersCount_def rt_Start_def Let_def)

section \<open>Stopping\<close>

text \<open>Stopping a running runtime publishes the stopped state, ends the receive loop before its next
  iteration, closes the socket and discards every partly reassembled packet; stopping a stopped runtime
  changes nothing.\<close>

lemma Stop_spec:
  assumes "app_ok a"
  shows "if rt_state (a_rt a) = SLPCFG_STATE_RUNNING then
      rt_state (a_rt (rt_Stop a)) = SLPCFG_STATE_STOPPED \<and> cl_fd (m_client (a_rt (rt_Stop a))) = -1 \<and>
      (\<forall>e \<in> set (g_frags (con_tun (a_con (rt_Stop a)))). \<not> fe_active e) \<and>
      (\<forall>xs ls. run_loop xs (ls, rt_Stop a) = ((ls, rt_Stop a), []))
    else rt_Stop a = a"
proof (cases "rt_state (a_rt a) = SLPCFG_STATE_RUNNING")
  case True
  then have s: "rt_Stop a = a\<lparr>a_rt := (a_rt a)\<lparr>rt_state := SLPCFG_STATE_STOPPED, m_thread_running := False, m_stop_event := True,
      m_client := slpClientClose (m_client (a_rt a))\<rparr>, a_con := (a_con a)\<lparr>con_tun := OnStop (con_tun (a_con a))\<rparr>\<rparr>"
    by (simp add: rt_Stop_def Let_def)
  have "run_loop xs (ls, rt_Stop a) = ((ls, rt_Stop a), [])" for xs ls by (cases xs; cases "hd xs") (simp_all add: s)
  with True assms show ?thesis by (auto simp: s app_ok_def rt_ok_def slpClientClose_def OnStop_def)
qed (simp add: rt_Stop_def)

section \<open>Reconnecting\<close>

text \<open>The iterations in which a keepalive is due, by their operating-system answers; \<open>prev\<close> is the time of the previous
  one.\<close>

fun due :: "int \<Rightarrow> (rt_env \<times> iter_in) list \<Rightarrow> rt_env list" where
  "due prev [] = []"
| "due prev ((e, x) # xs) =
     (if re_to_ms e (ii_now x - prev) \<ge> KeepaliveIntervalMs then e # due (ii_now x) xs else due prev xs)"

text \<open>Every third element, when \<open>n\<close> came before.\<close>

fun thirds :: "nat \<Rightarrow> 'a list \<Rightarrow> 'a list" where
  "thirds n [] = []"
| "thirds n (x # xs) = (if n + 1 \<ge> 3 then x # thirds 0 xs else thirds (n + 1) xs)"

abbreviation reopened :: "rt_env list \<Rightarrow> SlpClient \<Rightarrow> SlpClient" where
  "reopened es c \<equiv> fold (\<lambda>e c. snd (slpClientReopen (re_os e) c)) es c"

lemma keepalive_fails_step:
  assumes "\<And>fd b. \<not> re_sendto e fd b"
  shows "fst (keepalive_step e t (ls, rt)) =
    (if re_to_ms e (t - last_keepalive ls) \<ge> KeepaliveIntervalMs then
       (ls\<lparr>last_keepalive := t, keepalive_fails := (if keepalive_fails ls + 1 \<ge> 3 then 0 else keepalive_fails ls + 1)\<rparr>,
        if keepalive_fails ls + 1 \<ge> 3 then rt\<lparr>m_client := snd (slpClientReopen (re_os e) (m_client rt))\<rparr> else rt)
     else (ls, rt))"
  using assms by (simp add: keepalive_step_def slpClientSendKeepalive_def slpClientSendRaw_def Let_def)

lemma handle_frame_runtime:
  "\<exists>n. fst (fst (snd (handle_frame e now r (rt, con)))) = rt\<lparr>m_rx_frames := n\<rparr>"
  by (cases rt) (auto simp: handle_frame_def Let_def split_beta split: option.split)

text \<open>One iteration in which nothing can be sent.\<close>

lemma run_iter_failing:
  assumes "\<And>fd b. \<not> re_sendto e fd b" "\<not> m_stop_event (a_rt a)" "run_iter e x (ls, a) = (go, (ls', a'), outs)"
  shows "go \<and> (ls', m_client (a_rt a')) =
      (let (l, rt) = fst (keepalive_step e (ii_now x) (ls, a_rt a)) in (l, m_client rt)) \<and>
    a_rt a' = (a_rt a)\<lparr>m_client := m_client (a_rt a'), m_rx_frames := m_rx_frames (a_rt a')\<rparr>"
proof -
  obtain ls1 rt1 o1 where k: "keepalive_step e (ii_now x) (ls, a_rt a) = ((ls1, rt1), o1)" by (metis prod.collapse)
  have rt1: "rt1 = (a_rt a)\<lparr>m_client := m_client rt1\<rparr>"
    using keepalive_fails_step [OF assms(1), of "ii_now x" ls "a_rt a"] k by (auto split: if_splits)
  obtain l ds where t: "Tick (rt_state rt1 = SLPCFG_STATE_RUNNING) (ii_ldn_now x) (con_ldn (a_con a)) = (l, ds)" by fastforce
  obtain con1 o2 where sa: "send_all (tun_env_of e (ii_ldn_now x) rt1) ds ((a_con a)\<lparr>con_ldn := l\<rparr>) = (con1, o2)" by fastforce
  obtain chk rt2 con2 o3 where hf: "handle_frame e (ii_frame_now x) (slpClientRecv (ii_recv x) 2048) (rt1, con1) = (chk, (rt2, con2), o3)"
    by (metis prod.collapse)
  have ls': "ls' = ls1" and "a_rt a' = rt2" and go: "\<not> m_stop_event (a_rt a') \<Longrightarrow> go"
    using assms(3) by (auto simp: run_iter_def k t sa hf Let_def)
  then obtain n where n: "a_rt a' = rt1\<lparr>m_rx_frames := n\<rparr>"
    using handle_frame_runtime [of e "ii_frame_now x" "slpClientRecv (ii_recv x) 2048" rt1 con1] by (auto simp: hf)
  have "m_stop_event (a_rt a') = m_stop_event (a_rt a)" by (subst n, subst rt1) simp
  moreover have "a_rt a' = (a_rt a)\<lparr>m_client := m_client (a_rt a'), m_rx_frames := m_rx_frames (a_rt a')\<rparr>"
    unfolding n by (subst rt1) simp
  ultimately show ?thesis using go assms(2) by (simp add: k ls' n)
qed

lemma run_loop_failing:
  assumes "\<forall>(e, x) \<in> set xs. \<forall>fd b. \<not> re_sendto e fd b" "m_thread_running (a_rt a)" "\<not> m_stop_event (a_rt a)"
    and "keepalive_fails ls < 3" "run_loop xs (ls, a) = ((ls', a'), outs)"
  shows "m_client (a_rt a') = reopened (thirds (keepalive_fails ls) (due (last_keepalive ls) xs)) (m_client (a_rt a)) \<and>
    keepalive_fails ls' = (keepalive_fails ls + length (due (last_keepalive ls) xs)) mod 3 \<and>
    a_rt a' = (a_rt a)\<lparr>m_client := m_client (a_rt a'), m_rx_frames := m_rx_frames (a_rt a')\<rparr>"
  using assms
proof (induction xs arbitrary: ls a outs)
  case (Cons y xs)
  obtain e x where y: "y = (e, x)" by (cases y)
  obtain go ls1 a1 o1 where i: "run_iter e x (ls, a) = (go, (ls1, a1), o1)" by (metis prod.collapse)
  have e: "\<And>fd b. \<not> re_sendto e fd b" using Cons.prems(1) by (auto simp: y)
  note f = run_iter_failing [OF e Cons.prems(3) i]
  have k: "(ls1, m_client (a_rt a1)) = (let (l, rt) = fst (keepalive_step e (ii_now x) (ls, a_rt a)) in (l, m_client rt))"
    using f by blast
  have rt1: "a_rt a1 = (a_rt a)\<lparr>m_client := m_client (a_rt a1), m_rx_frames := m_rx_frames (a_rt a1)\<rparr>" using f by blast
  have run1: "m_thread_running (a_rt a1)" "\<not> m_stop_event (a_rt a1)" using Cons.prems(2,3) by (subst rt1, simp)+
  have xs: "\<forall>(e, x) \<in> set xs. \<forall>fd b. \<not> re_sendto e fd b" using Cons.prems(1) by auto
  obtain o2 where l: "run_loop xs (ls1, a1) = ((ls', a'), o2)"
    using Cons.prems(2,5) f by (auto simp: y i split_beta Let_def prod_eq_iff)
  have le: "keepalive_fails ls1 < 3" using k Cons.prems(4) by (auto simp: keepalive_fails_step [OF e] split: if_splits)
  note IH = Cons.IH [OF xs run1 le l]
  have m3: "Suc (k + n) mod 3 = n mod 3" if "k < 3" "2 \<le> k" for k n :: nat using that by presburger
  have "a_rt a' = (a_rt a1)\<lparr>m_client := m_client (a_rt a'), m_rx_frames := m_rx_frames (a_rt a')\<rparr>" using IH by blast
  also have "\<dots> = (a_rt a)\<lparr>m_client := m_client (a_rt a'), m_rx_frames := m_rx_frames (a_rt a')\<rparr>" by (subst rt1) simp
  finally have "a_rt a' = (a_rt a)\<lparr>m_client := m_client (a_rt a'), m_rx_frames := m_rx_frames (a_rt a')\<rparr>" .
  moreover have "keepalive_fails ls' = (keepalive_fails ls + length (due (last_keepalive ls) (y # xs))) mod 3"
    using IH k Cons.prems(4) m3 by (auto simp: y keepalive_fails_step [OF e] split: if_splits)
  moreover have "m_client (a_rt a') = reopened (thirds (keepalive_fails ls) (due (last_keepalive ls) (y # xs))) (m_client (a_rt a))"
    using IH k by (auto simp: y keepalive_fails_step [OF e] split: if_splits)
  ultimately show ?case by blast
qed simp

text \<open>Where \<^verbatim>\<open>socket\<close> and \<^verbatim>\<open>bind\<close> succeed, the last reopening decides.\<close>

lemma reopened_last:
  assumes "server_ip c \<noteq> 0" "server_port c \<noteq> 0" "\<forall>e \<in> set es. os_socket (re_os e) \<ge> 0 \<and> os_bind (re_os e)"
  shows "reopened es c = c\<lparr>cl_fd := last (cl_fd c # map (\<lambda>e. os_socket (re_os e)) es)\<rparr>"
  using assms
proof (induction es arbitrary: c)
  case (Cons e es)
  then show ?case using Cons.IH [of "c\<lparr>cl_fd := os_socket (re_os e)\<rparr>"] by (simp add: slpClientReopen_def)
qed simp

text \<open>C32: The receive thread while nothing can be sent. Over any sequence of its iterations, with whatever arrives and
  whatever the operating system answers in each, it keeps its socket through two missed keepalives; at the third, and at
  every third one after it, it replaces the socket by the one the operating system gives it then, to the same relay
  address and port, provided \<^verbatim>\<open>socket\<close> and \<^verbatim>\<open>bind\<close> succeed at those moments and a relay address is cached. Nothing else of
  the runtime changes but the count of received frames; no frame is counted as sent.\<close>

theorem reconnect_after_three_misses:
  assumes "\<forall>(e, x) \<in> set xs. \<forall>fd b. \<not> re_sendto e fd b" and "m_thread_running (a_rt a)" and "\<not> m_stop_event (a_rt a)"
    and "keepalive_fails ls = 0" and "server_ip (m_client (a_rt a)) \<noteq> 0" and "server_port (m_client (a_rt a)) \<noteq> 0"
    and "\<forall>e \<in> set (thirds 0 (due (last_keepalive ls) xs)). os_socket (re_os e) \<ge> 0 \<and> os_bind (re_os e)"
    and "run_loop xs (ls, a) = ((ls', a'), outs)"
  shows "a_rt a' = (a_rt a)\<lparr>m_client := (m_client (a_rt a))\<lparr>cl_fd := last (cl_fd (m_client (a_rt a)) #
         map (\<lambda>e. os_socket (re_os e)) (thirds 0 (due (last_keepalive ls) xs)))\<rparr>, m_rx_frames := m_rx_frames (a_rt a')\<rparr> \<and>
     keepalive_fails ls' = length (due (last_keepalive ls) xs) mod 3"
proof -
  note f = run_loop_failing [OF assms(1-3) _ assms(8)]
  note l = reopened_last [OF assms(5-7)]
  have "m_client (a_rt a') = (m_client (a_rt a))\<lparr>cl_fd := last (cl_fd (m_client (a_rt a)) #
         map (\<lambda>e. os_socket (re_os e)) (thirds 0 (due (last_keepalive ls) xs)))\<rparr>"
    using f assms(4) by (simp only: l)
  with f assms(4) show ?thesis by (auto simp del: last.simps)
qed

text \<open>Six missed keepalives, with another socket on offer each time.\<close>

definition failing_iters :: "(rt_env \<times> iter_in) list" where
  "failing_iters = map (\<lambda>n. (sample_rt_env\<lparr>re_sendto := \<lambda>_ _. False,
       re_os := (re_os sample_rt_env)\<lparr>os_socket := 100 + n\<rparr>\<rparr>,
     \<lparr>ii_now = 10000 * n, ii_ldn_now = 0, ii_frame_now = 0, ii_recv = None\<rparr>)) [1, 2, 3, 4, 5, 6]"

definition failing_app :: "unit app" where
  "failing_app = sample_app\<lparr>a_rt := new_Runtime\<lparr>m_client := zero_SlpClient\<lparr>cl_fd := 4, server_ip := 1, server_port := 11451\<rparr>,
     m_thread_running := True\<rparr>\<rparr>"

theorem reconnect_after_three_misses_witness:
  "cl_fd (m_client (a_rt (snd (fst (run_loop (take 5 failing_iters) (\<lparr>last_keepalive = 0, keepalive_fails = 0\<rparr>, failing_app)))))) = 103 \<and>
   cl_fd (m_client (a_rt (snd (fst (run_loop failing_iters (\<lparr>last_keepalive = 0, keepalive_fails = 0\<rparr>, failing_app)))))) = 106"
proof -
  let ?ls = "\<lparr>last_keepalive = 0, keepalive_fails = 0\<rparr>"
  have g: "m_thread_running (a_rt failing_app)" "\<not> m_stop_event (a_rt failing_app)" "keepalive_fails ?ls = 0"
    "server_ip (m_client (a_rt failing_app)) \<noteq> 0" "server_port (m_client (a_rt failing_app)) \<noteq> 0"
    by (simp_all add: failing_app_def new_Runtime_def)
  have fd: "cl_fd (m_client (a_rt (snd (fst (run_loop xs (?ls, failing_app)))))) =
      last (4 # map (\<lambda>e. os_socket (re_os e)) (thirds 0 (due 0 xs)))" if "set xs \<subseteq> set failing_iters"
      "\<forall>e \<in> set (thirds 0 (due 0 xs)). os_socket (re_os e) \<ge> 0 \<and> os_bind (re_os e)" for xs
  proof -
    obtain ls' a' outs where l: "run_loop xs (?ls, failing_app) = ((ls', a'), outs)" by (metis prod.collapse)
    have "\<forall>(e, x) \<in> set xs. \<forall>fd b. \<not> re_sendto e fd b" using that(1) by (auto simp: failing_iters_def)
    note e = reconnect_after_three_misses [OF this g _ l, THEN conjunct1]
    have "cl_fd (m_client (a_rt a')) = last (cl_fd (m_client (a_rt failing_app)) #
        map (\<lambda>e. os_socket (re_os e)) (thirds 0 (due 0 xs)))"
      using that(2) by (subst e) (simp_all del: last.simps)
    moreover have "cl_fd (m_client (a_rt failing_app)) = 4" by (simp add: failing_app_def)
    ultimately show ?thesis by (simp add: l del: last.simps)
  qed
  have 5: "map (\<lambda>e. os_socket (re_os e)) (thirds 0 (due 0 (take 5 failing_iters))) = [103]"
    "\<forall>e \<in> set (thirds 0 (due 0 (take 5 failing_iters))). os_socket (re_os e) \<ge> 0 \<and> os_bind (re_os e)"
    and 6: "map (\<lambda>e. os_socket (re_os e)) (thirds 0 (due 0 failing_iters)) = [103, 106]"
    "\<forall>e \<in> set (thirds 0 (due 0 failing_iters)). os_socket (re_os e) \<ge> 0 \<and> os_bind (re_os e)"
    by (simp_all add: failing_iters_def sample_rt_env_def KeepaliveIntervalMs_def)
  show ?thesis using fd [OF set_take_subset 5(2)] fd [OF subset_refl 6(2)] by (simp add: 5(1) 6(1))
qed

end
