(* ===== verification/Ldn_Service.thy ===== *)
theory Ldn_Service
  imports Ldn_Session
begin

text \<open>
  The \<^verbatim>\<open>ldn:u\<close> service in front of the control plane (\<^verbatim>\<open>ldn/ldn_icommunication.cpp\<close>,
  \<^verbatim>\<open>ldn/ldn_mitm_service.cpp\<close>): which sessions are intercepted, the commands of a session object, and its
  destructor, which forces the shared control plane back to its initial state.

  A command returns its result code and output, the new control plane, the calls made to the console's
  network service and the datagrams sent. Tracing is left out, and so is
  \<^verbatim>\<open>AttachStateChangeEvent\<close>, which only hands out a kernel handle.
\<close>

section \<open>Sessions\<close>

definition ldn_ShouldMitm :: "bool \<Rightarrow> (u64 \<Rightarrow> bool) \<Rightarrow> u64 \<Rightarrow> bool" where
  "ldn_ShouldMitm running is_application program_id = (if \<not> running then False else is_application program_id)"

definition LdnMitmVersion_text :: bytes where
  "LdnMitmVersion_text = [115, 108, 112, 32, 48, 46, 49, 46, 48]"

definition LdnConfig_GetVersion :: bytes where
  "LdnConfig_GetVersion = memcpy (replicate 32 0) LdnMitmVersion_text"

section \<open>Commands\<close>

record ldn_env =
  le_running :: bool
  le_vip :: string
  le_nifm :: nifm_answers
  le_high :: u64
  le_low :: u64
  le_rnd16 :: bytes
  le_sleep :: "nat \<Rightarrow> LdnControl \<Rightarrow> LdnControl"

datatype (plugins only: code) ldn_call =
    L_Initialize
  | L_InitializeSystem2 u64
  | L_Finalize
  | L_OpenAccessPoint
  | L_CloseAccessPoint
  | L_CreateNetwork CreateNetworkConfig
  | L_DestroyNetwork
  | L_SetAdvertiseData "bytes option" nat
  | L_OpenStation
  | L_CloseStation
  | L_Connect ConnectNetworkData NetworkInfo
  | L_Disconnect
  | L_GetState
  | L_GetNetworkInfo
  | L_GetIpv4Address
  | L_GetDisconnectReason
  | L_GetSecurityParameter
  | L_GetNetworkConfig
  | L_GetNetworkInfoLatestUpdate nat
  | L_Scan u16 ScanFilter nat

text \<open>What a command hands back besides its result code.\<close>

datatype (plugins only: code) ldn_out =
    LO_None
  | LO_U32 u32
  | LO_Address u32 u32
  | LO_Info "NetworkInfo option"
  | LO_Security "(bytes \<times> u64 \<times> u64) option"
  | LO_Config "NetworkConfig option"
  | LO_Update "(NetworkInfo \<times> u8 list) option"
  | LO_Scan u32 "NetworkInfo list"

type_synonym ldn_reply = "(ldn_result \<times> ldn_out) \<times> LdnControl \<times> NifmCall list \<times> datagram list"

definition with_nifm :: "ldn_result \<times> LdnControl \<times> NifmCall list \<Rightarrow> ldn_reply" where
  "with_nifm x = (let (r, c, calls) = x in ((r, LO_None), c, calls, []))"

definition with_frames :: "ldn_result \<times> LdnControl \<times> datagram list \<Rightarrow> ldn_reply" where
  "with_frames x = (let (r, c, ds) = x in ((r, LO_None), c, [], ds))"

definition query :: "LdnControl \<Rightarrow> ldn_result \<times> ldn_out \<Rightarrow> ldn_reply" where
  "query c x = (x, c, [], [])"

fun CommState_u32 :: "CommState \<Rightarrow> u32" where
  "CommState_u32 CS_None = 0"
| "CommState_u32 CS_Initialized = 1"
| "CommState_u32 CS_AccessPoint = 2"
| "CommState_u32 CS_AccessPointCreated = 3"
| "CommState_u32 CS_Station = 4"
| "CommState_u32 CS_StationConnected = 5"
| "CommState_u32 CS_Error = 6"

fun ldn_exec :: "ldn_env \<Rightarrow> ldn_call \<Rightarrow> LdnControl \<Rightarrow> ldn_reply" where
  "ldn_exec e L_Initialize c = with_nifm (ldn_Initialize (le_vip e) (le_nifm e) c)"
| "ldn_exec e (L_InitializeSystem2 unk) c = with_nifm (ldn_Initialize (le_vip e) (le_nifm e) c)"
| "ldn_exec e L_Finalize c = with_nifm (ldn_Finalize (le_nifm e) c)"
| "ldn_exec e L_OpenAccessPoint c = with_nifm (OpenAccessPoint (le_nifm e) c)"
| "ldn_exec e L_CloseAccessPoint c = with_nifm (CloseAccessPoint (le_nifm e) c)"
| "ldn_exec e (L_CreateNetwork data) c =
     with_frames (CreateNetwork (le_running e) (le_high e) (le_low e) (le_rnd16 e) data c)"
| "ldn_exec e L_DestroyNetwork c = with_frames (DestroyNetwork (le_running e) c)"
| "ldn_exec e (L_SetAdvertiseData data sz) c = with_frames (SetAdvertiseData (le_running e) data sz c)"
| "ldn_exec e L_OpenStation c = with_nifm (OpenStation (le_nifm e) c)"
| "ldn_exec e L_CloseStation c = with_nifm (CloseStation (le_nifm e) c)"
| "ldn_exec e (L_Connect dat data) c = with_frames (ldn_Connect (le_running e) (le_sleep e) dat data c)"
| "ldn_exec e L_Disconnect c = with_frames (ldn_Disconnect (le_running e) c)"
| "ldn_exec e L_GetState c = query c (None, LO_U32 (CommState_u32 (m_state c)))"
| "ldn_exec e L_GetNetworkInfo c = query c (map_prod (\<lambda>r. r) LO_Info (ldn_GetNetworkInfo c))"
| "ldn_exec e L_GetIpv4Address c = query c (None, LO_Address (m_ipv4_address c) (m_subnet_mask c))"
| "ldn_exec e L_GetDisconnectReason c = query c (None, LO_U32 (m_disconnect_reason c))"
| "ldn_exec e L_GetSecurityParameter c = query c (map_prod (\<lambda>r. r) LO_Security (GetSecurityParameter c))"
| "ldn_exec e L_GetNetworkConfig c = query c (map_prod (\<lambda>r. r) LO_Config (GetNetworkConfig c))"
| "ldn_exec e (L_GetNetworkInfoLatestUpdate n) c =
     (let ((r, u), c1) = GetNetworkInfoLatestUpdate n c in ((r, LO_Update u), c1, [], []))"
| "ldn_exec e (L_Scan chan f cap) c =
     (let ((r, found), c1, ds) = ldn_Scan (le_running e) (le_sleep e) f (min cap 65535) c
      in ((r, LO_Scan (of_nat (length found)) found), c1, [], ds))"

text \<open>Destruction of the session object.\<close>

definition LdnICommunicationService_delete :: "nifm_answers \<Rightarrow> LdnControl \<Rightarrow> LdnControl \<times> NifmCall list" where
  "LdnICommunicationService_delete na c = (let (_, c1, calls) = ldn_Finalize na c in (c1, calls))"

section \<open>What reaches a console without a session\<close>

datatype (plugins only: code) ldn_event =
    Frame_In bool int u32 bytes
  | Timer bool int

fun ldn_event_step :: "ldn_event \<Rightarrow> LdnControl \<Rightarrow> LdnControl \<times> datagram list" where
  "ldn_event_step (Frame_In running now sip payload) c = OnControlFrame running now sip payload c"
| "ldn_event_step (Timer running now) c = Tick running now c"

fun ldn_events :: "ldn_event list \<Rightarrow> LdnControl \<Rightarrow> LdnControl \<times> datagram list" where
  "ldn_events [] c = (c, [])"
| "ldn_events (ev # evs) c =
     (let (c1, d1) = ldn_event_step ev c; (c2, d2) = ldn_events evs c1 in (c2, d1 @ d2))"

lemma take_tail_Nil [simp]: "take (n - min (length xs) n) (drop n xs) = []"
  by (cases "n \<le> length xs") auto

lemma HandleScanResp_state: "m_state (HandleScanResp sip body c) = m_state c"
  by (simp add: HandleScanResp_def Let_def split: option.split)

lemma idle_silent:
  assumes "m_state c = CS_None"
  shows "m_state (fst (ldn_event_step ev c)) = CS_None \<and> snd (ldn_event_step ev c) = []"
  using assms
  by (cases ev) (auto simp: OnControlFrame_def HandleScan_def HandleConnect_def HandleSyncNetwork_def HandleRelayHeartbeat_def
      HandleRelayBye_def HandleScanResp_state Tick_def Let_def split: option.split)

lemma idle_events_silent:
  "m_state c = CS_None \<Longrightarrow> m_state (fst (ldn_events evs c)) = CS_None \<and> snd (ldn_events evs c) = []"
proof (induction evs arbitrary: c)
  case (Cons ev evs)
  have "m_state (fst (ldn_event_step ev c)) = CS_None" "snd (ldn_event_step ev c) = []"
    using idle_silent [OF Cons.prems] by auto
  with Cons.IH show ?case by (simp add: split_beta Let_def)
qed simp

section \<open>A session reaches only states of the control plane's runs\<close>

text \<open>One transition of the service: a command, a control frame or a timer tick from the relay, or the
  end of the session.\<close>

datatype (plugins only: code) ldn_op =
    Command ldn_env ldn_call
  | Event ldn_event
  | Session_End nifm_answers

fun ldn_op_step :: "ldn_op \<Rightarrow> LdnControl \<Rightarrow> LdnControl" where
  "ldn_op_step (Command e call) c = fst (snd (ldn_exec e call c))"
| "ldn_op_step (Event ev) c = fst (ldn_event_step ev c)"
| "ldn_op_step (Session_End na) c = fst (LdnICommunicationService_delete na c)"

text \<open>The legal transitions: the arrays of a network configuration have their declared sizes, the
  random bytes drawn are sixteen, and what happens while a command sleeps is again a run.\<close>

fun call_ok :: "ldn_env \<Rightarrow> ldn_call \<Rightarrow> bool" where
  "call_ok e (L_CreateNetwork data) \<longleftrightarrow> length (le_rnd16 e) = 16 \<and>
     length (nc_unk1 (cn_networkConfig data)) = 2 \<and> length (nc_unk2 (cn_networkConfig data)) = 4"
| "call_ok e _ \<longleftrightarrow> True"

definition sleep_ok :: "ldn_env \<Rightarrow> bool" where
  "sleep_ok e \<longleftrightarrow> (\<forall>i c. ldn_run c \<longrightarrow> ldn_run (le_sleep e i c))"

fun ldn_op_ok :: "ldn_op \<Rightarrow> LdnControl \<Rightarrow> bool" where
  "ldn_op_ok (Command e call) c \<longleftrightarrow> call_ok e call \<and> sleep_ok e"
| "ldn_op_ok _ c \<longleftrightarrow> True"

lemma scan_loop_keeps_run:
  assumes "sleep_ok e" "ldn_run c"
  shows "ldn_run (fst (scan_loop running (le_sleep e) i lc sn c))"
  using assms(2)
proof (induction running "le_sleep e" i lc sn c rule: scan_loop.induct)
  case (1 running i lc sn c)
  let ?p = "if i \<noteq> 0 \<and> i mod 3 = 0 then SendFrame running (SubnetBroadcast c) LanPacket_Scan [] c else (c, [])"
  obtain c1 d1 where p: "?p = (c1, d1)" by (cases ?p) blast
  have "ldn_run (fst ?p)" using "1.prems" by (simp add: ldn_run.send)
  then have "ldn_run c1" by (simp only: p fst_conv)
  then have "ldn_run (le_sleep e i c1)" using assms(1) by (simp add: sleep_ok_def)
  then show ?case
    using "1.hyps" [OF _ p [symmetric] refl refl refl] "1.prems" p
    by (subst scan_loop.simps) (auto simp: Let_def split_beta simp del: One_nat_def)
qed

lemma connect_poll_keeps_run:
  assumes "sleep_ok e" "ldn_run c"
  shows "ldn_run (fst (snd (connect_poll running (le_sleep e) host_ip my i c)))"
  using assms(2)
proof (induction running "le_sleep e" host_ip my i c rule: connect_poll.induct)
  case (1 running host_ip my i c)
  let ?p = "if i mod 50 = 49 then SendFrame running host_ip LanPacket_Connect my c else (c, [])"
  obtain c1 d1 where p: "?p = (c1, d1)" by (cases ?p) blast
  have "ldn_run (fst ?p)" using "1.prems" by (simp add: ldn_run.send)
  then have "ldn_run (le_sleep e i c1)" using assms(1) by (simp add: p sleep_ok_def)
  then show ?case
    using "1.hyps" [OF _ _ p [symmetric]] "1.prems" p
    by (subst connect_poll.simps) (simp add: Let_def split_beta del: if_split split: if_split)
qed

lemma Scan_keeps_run:
  assumes "sleep_ok e" "ldn_run c"
  shows "ldn_run (fst (snd (ldn_Scan running (le_sleep e) f cap c)))"
  using assms(2) scan_loop_keeps_run [OF assms(1)]
  by (simp add: ldn_Scan_def Let_def split_beta ldn_run.scan ldn_run.send)

lemma Connect_keeps_run:
  assumes "sleep_ok e" "ldn_run c"
  shows "ldn_run (fst (snd (ldn_Connect running (le_sleep e) dat data c)))"
  using assms(2) connect_poll_keeps_run [OF assms(1)]
  by (simp add: ldn_Connect_def Let_def split_beta ldn_run.join ldn_run.join_fail ldn_run.send)

lemma with_state [simp]:
  "fst (snd (with_nifm x)) = fst (snd x)" "fst (snd (with_frames y)) = fst (snd y)" "fst (snd (query c q)) = c"
  by (simp_all add: with_nifm_def with_frames_def query_def split_beta Let_def)

lemma ldn_exec_keeps_run:
  assumes "ldn_run c" "call_ok e call" "sleep_ok e"
  shows "ldn_run (fst (snd (ldn_exec e call c)))"
  using assms Scan_keeps_run Connect_keeps_run
  by (cases call) (simp_all add: ldn_run.intros Let_def split_beta)

lemma ldn_event_keeps_run: "ldn_run c \<Longrightarrow> ldn_run (fst (ldn_event_step ev c))"
  by (cases ev) (simp_all add: ldn_run.intros)

lemma delete_keeps_run: "ldn_run c \<Longrightarrow> ldn_run (fst (LdnICommunicationService_delete na c))"
  by (simp add: LdnICommunicationService_delete_def split_beta Let_def ldn_run.finalize)

interpretation ls: invariant_system ldn_op_ok ldn_op_step ldn_run
proof
  fix c op assume "ldn_run c" "ldn_op_ok op c"
  then show "ldn_run (ldn_op_step op c)"
    by (cases op) (simp_all add: ldn_exec_keeps_run ldn_event_keeps_run delete_keeps_run)
qed

section \<open>Properties\<close>

text \<open>C21: Whatever commands a game issues, in whatever order and with whatever frames and timer ticks
  between them (also while a command sleeps), the network description the service hands out is
  well-formed and, while the console hosts, lists at most eight nodes: the console itself first and then
  stations with pairwise different addresses.\<close>

theorem service_reports_consistent_network:
  assumes "legal ldn_op_ok ldn_op_step ops new_LdnControl" and "c = fold ldn_op_step ops new_LdnControl"
    and "fst (ldn_exec e L_GetNetworkInfo c) = (None, LO_Info (Some i))"
  shows "NetworkInfo_ok i \<and>
     (m_state c = CS_AccessPointCreated \<longrightarrow>
        (let n = unat (nodeCount (ldn i)); ips = map ipv4Address (take n (nodes (ldn i)))
         in 1 \<le> n \<and> n \<le> 8 \<and> hd ips = m_ipv4_address c \<and> distinct (tl ips)))"
proof -
  have run: "ldn_run c" using ls.inv_steps [OF ldn_run.start assms(1)] assms(2) by simp
  then have wf: "ldn_wf c" by (rule ldn_run_wf)
  have i: "i = m_network_info c"
    using assms(3) by (simp add: query_def ldn_GetNetworkInfo_def split: if_splits)
  have sw: "stations_wf (m_stations c)" using wf by (simp add: ldn_wf_def)
  have ok: "NetworkInfo_ok i" using wf by (simp add: i ldn_wf_def buffers_wf_def)
  have "let n = unat (nodeCount (ldn i)); ips = map ipv4Address (take n (nodes (ldn i)))
      in 1 \<le> n \<and> n \<le> 8 \<and> hd ips = m_ipv4_address c \<and> distinct (tl ips)"
    if host: "m_state c = CS_AccessPointCreated"
  proof -
    have n: "unat (nodeCount (ldn i)) = length (used_nodes c)" using nodeCount_used [OF wf host] by (simp add: i)
    have "take (length (used_nodes c)) (nodes (ldn i)) = used_nodes c"
      using wf host by (simp add: i ldn_wf_def roster_ok_def)
    moreover have "distinct (map src_ip (filter active (m_stations c)))" using sw by (simp add: stations_wf_def)
    ultimately show ?thesis
      using length_used_le [OF sw] by (simp add: n used_ips [OF sw] length_used [OF sw] NodeCountMax_def)
  qed
  with ok show ?thesis by blast
qed


definition host_env :: ldn_env where
  "host_env = \<lparr>le_running = True, le_vip = ''10.13.0.5'', le_nifm = nifm_ok, le_high = 1, le_low = 2,
     le_rnd16 = replicate 16 0, le_sleep = (\<lambda>_ c. c)\<rparr>"

definition host_ops :: "ldn_op list" where
  "host_ops = [Command host_env L_Initialize, Command host_env L_OpenAccessPoint,
     Command host_env (L_CreateNetwork sample_config)]"

lemma host_ops_legal: "legal ldn_op_ok ldn_op_step host_ops c"
  by (simp add: host_ops_def host_env_def sleep_ok_def sample_config_def zero_NetworkConfig_def)

lemma host_ops_fold: "fold ldn_op_step host_ops new_LdnControl = host_console ''10.13.0.5'' sample_config"
  by (simp add: host_ops_def host_env_def host_console_def)

theorem service_reports_consistent_network_witness:
  "\<exists>i. fst (ldn_exec host_env L_GetNetworkInfo (fold ldn_op_step host_ops new_LdnControl)) = (None, LO_Info (Some i)) \<and>
     unat (nodeCount (ldn i)) \<le> 8"
proof -
  define c where "c = fold ldn_op_step host_ops new_LdnControl"
  have st: "m_state c = CS_AccessPointCreated"
    using host_console_facts(1) [of "''10.13.0.5''" sample_config] by (simp add: c_def host_ops_fold sample_ips)
  then have "fst (ldn_exec host_env L_GetNetworkInfo c) = (None, LO_Info (Some (m_network_info c)))"
    by (simp add: query_def ldn_GetNetworkInfo_def has_network_def)
  with service_reports_consistent_network [OF host_ops_legal c_def this] st show ?thesis
    unfolding c_def [symmetric] Let_def by blast
qed

text \<open>C24: Once the session object of a game is gone, in whatever state it left the control plane, the console is out
  of local network mode, has no stations and no join under way, and it stays in its initial state and
  sends nothing in answer to any sequence of incoming control frames and timer ticks.\<close>

theorem closed_session_is_silent:
  assumes "LdnICommunicationService_delete na c = (c1, calls)"
  shows "m_state c1 = CS_None \<and> \<not> m_local_network_mode c1 \<and> \<not> m_join_active c1 \<and> StationCount c1 = 0 \<and>
     m_state (fst (ldn_events evs c1)) = CS_None \<and> snd (ldn_events evs c1) = []"
proof -
  obtain c0 where c0: "exit_if_entered na c = (c0, calls)" "\<not> m_local_network_mode c0"
    using assms by (auto simp: LdnICommunicationService_delete_def ldn_Finalize_def exit_if_entered_def ExitLocalNetworkMode_def
        split_beta Let_def split: if_splits)
  then have c1: "c1 = SetState CS_None (ResetStations (c0\<lparr>m_scan_results := [], m_scan_filter_lcid := 0, m_join_active := False,
      m_relay_sync_seq_valid := False\<rparr>))"
    using assms by (simp add: LdnICommunicationService_delete_def ldn_Finalize_def)
  have "m_state c1 = CS_None" by (simp add: c1 SetState_def SignalStateChange_def)
  moreover have "StationCount c1 = 0"
    by (auto simp: c1 SetState_def SignalStateChange_def StationCount_def ResetStations_def reset_station_def filter_empty_conv)
  moreover have "\<not> m_local_network_mode c1" "\<not> m_join_active c1"
    using c0(2) by (simp_all add: c1 SetState_def SignalStateChange_def ResetStations_def)
  ultimately show ?thesis using idle_events_silent [of c1 evs] by blast
qed

theorem closed_session_is_silent_witness:
  "\<exists>c1 calls. LdnICommunicationService_delete nifm_ok (host_console ''10.13.1.1'' sample_config) = (c1, calls) \<and> m_state c1 = CS_None \<and>
     snd (ldn_events [Frame_In True 5 0x0A0D0202 (build_frame 0 LanPacket_Scan []), Timer True 100000000] c1) = []"
proof -
  obtain c1 calls where d: "LdnICommunicationService_delete nifm_ok (host_console ''10.13.1.1'' sample_config) = (c1, calls)" by fastforce
  from closed_session_is_silent [OF d] d show ?thesis by blast
qed

end
