(* ===== verification/Trace_Log.thy ===== *)
theory Trace_Log
  imports Servers "HOL-Library.Sublist"
begin

text \<open>
  The trace log on the card (\<^verbatim>\<open>slpcfg/slp_trace.cpp\<close>, built with \<^verbatim>\<open>SLPCFG_DEBUG_TRACE\<close> as the Makefile does):
  how a line is put together in a buffer of 256 bytes and how it gets into the file. The lemmas show that
  the buffer is never overrun, that the file only grows, and that it grows by whole lines.

  The answers of the file system and the clock are the record \<open>trace_env\<close>; the text that \<^verbatim>\<open>vsnprintf\<close> makes of the
  format and its arguments is a parameter (\<open>None\<close> where it reports an error). The file on the card is a
  field of the logger's state.
\<close>

section \<open>State and answers\<close>

text \<open>\<open>tr_write old off line\<close> is what the file holds after \<^verbatim>\<open>WriteFile\<close>; the code ignores its result.\<close>

record trace_env =
  tr_now_ms :: u64
  tr_create :: bool
  tr_open :: bool
  tr_size :: bool
  tr_write :: "bytes \<Rightarrow> nat \<Rightarrow> bytes \<Rightarrow> bytes"

record trace =
  g_opened :: bool
  g_log :: "bytes option"

definition CloseIfOpen :: "trace \<Rightarrow> trace" where
  "CloseIfOpen st = (if g_opened st then st\<lparr>g_opened := False\<rparr> else st)"

definition OpenIfNeeded :: "trace_env \<Rightarrow> trace \<Rightarrow> trace" where
  "OpenIfNeeded e st =
     (if g_opened st then st
      else
        (let created = (case g_log st of Some f \<Rightarrow> Some f | None \<Rightarrow> if tr_create e then Some [] else None);
             st1 = st\<lparr>g_log := created\<rparr>
         in if created = None \<or> \<not> tr_open e then st1 else st1\<lparr>g_opened := True\<rparr>))"

definition WriteLine :: "trace_env \<Rightarrow> bytes \<Rightarrow> trace \<Rightarrow> trace" where
  "WriteLine e line st =
     (if \<not> g_opened st then st
      else case g_log st of
          None \<Rightarrow> st
        | Some f \<Rightarrow>
            if \<not> tr_size e then st
            else CloseIfOpen (st\<lparr>g_log := Some (tr_write e f (length f) line)\<rparr>))"

definition TraceInit :: "trace_env \<Rightarrow> trace \<Rightarrow> trace" where
  "TraceInit e st = OpenIfNeeded e st"

section \<open>One line\<close>

text \<open>\<^verbatim>\<open>snprintf(buf + off, sizeof(buf) - off, ...)\<close> that produces \<open>t\<close>: as much of the text as fits, and a zero.\<close>

definition snprintf_at :: "bytes \<Rightarrow> nat \<Rightarrow> bytes \<Rightarrow> bytes" where
  "snprintf_at buf off t =
     (if off < length buf then take off buf @ memcpy (drop off buf) (take (length buf - off - 1) t @ [0]) else buf)"

definition trace_header :: "u64 \<Rightarrow> bytes" where
  "trace_header now = [91] @ dec (unat now) @ [93, 32]"

text \<open>The bytes handed to \<^verbatim>\<open>WriteLine\<close>, from the uninitialised buffer \<open>buf0\<close>; \<open>None\<close> for an early return.\<close>

definition trace_bytes :: "u64 \<Rightarrow> bytes \<Rightarrow> bytes option \<Rightarrow> bytes option" where
  "trace_bytes now buf0 msg =
     (let h = trace_header now; hdr = length h; buf1 = snprintf_at buf0 0 h
      in if hdr \<ge> length buf0 then None
         else case msg of
             None \<Rightarrow> None
           | Some body \<Rightarrow>
               (let buf2 = snprintf_at buf1 hdr body;
                    tot = hdr + length body;
                    tot1 = (if tot > length buf0 - 1 then length buf0 - 1 else tot);
                    buf3 = buf2[tot1 := 10]
                in Some (take (tot1 + 1) buf3)))"

definition Trace :: "trace_env \<Rightarrow> bytes \<Rightarrow> bytes option \<Rightarrow> trace \<Rightarrow> trace" where
  "Trace e buf0 msg st =
     (let st1 = (if \<not> g_opened st then OpenIfNeeded e st else st)
      in if \<not> g_opened st1 then st1
         else case trace_bytes (tr_now_ms e) buf0 msg of
             None \<Rightarrow> st1
           | Some line \<Rightarrow> WriteLine e line st1)"

text \<open>What the line should be: time stamp and message, cut at 255 bytes, and a newline.\<close>

definition trace_line :: "u64 \<Rightarrow> bytes \<Rightarrow> bytes" where
  "trace_line now body = take 255 (trace_header now @ body) @ [10]"

lemma length_snprintf_at [simp]: "length (snprintf_at buf off t) = length buf"
  by (auto simp: snprintf_at_def memcpy_def)

lemma snprintf_at_text:
  assumes "off < length buf"
  shows "take (length buf - 1) (snprintf_at buf off t) =
     take off buf @ take (length buf - 1 - off) (t @ 0 # drop (off + length t + 1) buf)"
proof -
  have "length buf - Suc 0 \<le> off \<Longrightarrow> off = length buf - Suc 0" using assms by linarith
  with assms show ?thesis by (cases "length t \<le> length buf - off - 1")
    (auto simp: snprintf_at_def memcpy_def take_Cons' min_def add.commute Nat.diff_diff_eq)
qed

lemma length_trace_header: "length (trace_header now) < 256"
proof -
  have "unat now < 10 ^ Suc 19" using unsigned_less [where ?'a = nat, of now] by simp
  from dec_length [OF this] show ?thesis by (simp add: trace_header_def)
qed

lemma trace_bytes_line:
  assumes "length buf0 = 256"
  shows "trace_bytes now buf0 msg = map_option (trace_line now) msg"
proof (cases msg)
  case (Some body)
  define h where "h = trace_header now"
  have h: "length h < 256" using length_trace_header by (simp add: h_def)
  define buf2 where "buf2 = snprintf_at (snprintf_at buf0 0 h) (length h) body"
  define tot where "tot = min 255 (length h + length body)"
  have buf2: "take 255 buf2 = take (length h) (take 255 (snprintf_at buf0 0 h)) @
      take (255 - length h) (body @ 0 # drop (length h + length body + 1) (snprintf_at buf0 0 h))"
    using snprintf_at_text [of "length h" "snprintf_at buf0 0 h" body] h assms by (simp add: buf2_def min_def)
  have "take (length h) (take 255 (snprintf_at buf0 0 h)) = h"
    using snprintf_at_text [of 0 buf0 h] h assms by simp
  then have "take tot (take 255 buf2) = take tot (h @ body)"
    unfolding buf2 using h by (auto simp: tot_def min_def)
  moreover have "tot \<le> 255" "take tot (h @ body) = take 255 (h @ body)" by (auto simp: tot_def min_def)
  ultimately have pre: "take tot buf2 = take 255 (h @ body)" by (simp add: min_absorb1 del: take_append)
  have "length buf2 = 256" "tot < 256" using assms by (simp_all add: buf2_def tot_def)
  then have "take (tot + 1) (buf2[tot := 10]) = take tot buf2 @ [10]"
    by (simp add: take_Suc_conv_app_nth list_update_append)
  moreover have "(if length h + length body > 255 then 255 else length h + length body) = tot" by (simp add: tot_def)
  ultimately show ?thesis
    using Some h assms pre
    by (cases "length h + length body > 255")
      (simp_all add: trace_bytes_def trace_line_def Let_def h_def [symmetric] buf2_def [symmetric] del: take_append)
qed (simp add: trace_bytes_def Let_def)

section \<open>The log\<close>

text \<open>The calls of a run, each with its answers, its buffer and its message.\<close>

type_synonym trace_call = "trace_env \<times> bytes \<times> bytes option"

definition trace_calls :: "trace_call list \<Rightarrow> trace \<Rightarrow> trace" where
  "trace_calls = fold (\<lambda>(e, buf0, msg). Trace e buf0 msg)"

definition trace_wf :: "trace \<Rightarrow> bool" where
  "trace_wf st \<longleftrightarrow> (g_opened st \<longrightarrow> g_log st \<noteq> None)"

definition log_text :: "trace \<Rightarrow> bytes" where
  "log_text st = (case g_log st of None \<Rightarrow> [] | Some f \<Rightarrow> f)"

text \<open>\<^verbatim>\<open>WriteFile\<close> with the offset at the end of the file.\<close>

definition write_at :: "bytes \<Rightarrow> nat \<Rightarrow> bytes \<Rightarrow> bytes" where
  "write_at f off l = take off f @ l @ drop (off + length l) f"

definition whole_write :: "trace_env \<Rightarrow> bool" where
  "whole_write e \<longleftrightarrow> (\<forall>f off l. tr_write e f off l = f \<or> tr_write e f off l = write_at f off l)"

definition card_works :: "trace_env \<Rightarrow> bool" where
  "card_works e \<longleftrightarrow> tr_create e \<and> tr_open e \<and> tr_size e \<and> tr_write e = write_at"

definition call_lines :: "trace_call \<Rightarrow> bytes list" where
  "call_lines c = (case c of (e, _, msg) \<Rightarrow> (case msg of None \<Rightarrow> [] | Some body \<Rightarrow> [trace_line (tr_now_ms e) body]))"

lemma log_text_Some [simp]: "log_text \<lparr>g_opened = b, g_log = Some f\<rparr> = f"
  by (simp add: log_text_def)

lemma write_at_end: "write_at f (length f) l = f @ l"
  by (simp add: write_at_def)

lemma OpenIfNeeded_text: "log_text (OpenIfNeeded e st) = log_text st" "trace_wf st \<Longrightarrow> trace_wf (OpenIfNeeded e st)"
  by (auto simp: OpenIfNeeded_def log_text_def trace_wf_def Let_def split: option.splits)

lemma Trace_step:
  assumes "trace_wf st" and "length buf0 = 256"
  shows "trace_wf (Trace e buf0 msg st)"
    "whole_write e \<Longrightarrow> \<exists>ls. log_text (Trace e buf0 msg st) = log_text st @ concat ls \<and> subseq ls (call_lines (e, buf0, msg))"
    "card_works e \<Longrightarrow> log_text (Trace e buf0 msg st) = log_text st @ concat (call_lines (e, buf0, msg))"
proof -
  define st1 where "st1 = (if \<not> g_opened st then OpenIfNeeded e st else st)"
  have st1: "trace_wf st1" "log_text st1 = log_text st" using assms(1) OpenIfNeeded_text by (simp_all add: st1_def)
  have T: "Trace e buf0 msg st = (if \<not> g_opened st1 then st1
      else case msg of None \<Rightarrow> st1 | Some body \<Rightarrow> WriteLine e (trace_line (tr_now_ms e) body) st1)"
    using trace_bytes_line [OF assms(2)] by (simp add: Trace_def st1_def Let_def split: option.split)
  have W: "WriteLine e l st1 = (if \<not> g_opened st1 \<or> \<not> tr_size e then st1
      else \<lparr>g_opened = False, g_log = Some (tr_write e (log_text st1) (length (log_text st1)) l)\<rparr>)" for l
    using st1(1) by (cases st1) (auto simp: WriteLine_def CloseIfOpen_def trace_wf_def log_text_def)
  show "trace_wf (Trace e buf0 msg st)" using st1(1) by (auto simp: T W trace_wf_def split: option.split)
  show "\<exists>ls. log_text (Trace e buf0 msg st) = log_text st @ concat ls \<and> subseq ls (call_lines (e, buf0, msg))"
    if w: "whole_write e"
  proof (cases "log_text (Trace e buf0 msg st) = log_text st")
    case True
    then show ?thesis by (intro exI [of _ "[]"]) simp
  next
    case False
    then obtain body where "msg = Some body" by (auto simp: T st1(2) split: if_splits option.splits)
    moreover from this have "log_text (Trace e buf0 msg st) =
        tr_write e (log_text st) (length (log_text st)) (trace_line (tr_now_ms e) body)"
      using False unfolding T by (simp add: W st1(2) split: if_splits)
    with False w have "log_text (Trace e buf0 msg st) = log_text st @ trace_line (tr_now_ms e) body"
      unfolding whole_write_def write_at_end [symmetric] by metis
    ultimately show ?thesis by (intro exI [of _ "call_lines (e, buf0, msg)"]) (simp add: call_lines_def)
  qed
  show "log_text (Trace e buf0 msg st) = log_text st @ concat (call_lines (e, buf0, msg))" if w: "card_works e"
  proof -
    have "g_opened st1" using w assms(1) by (auto simp: st1_def card_works_def OpenIfNeeded_def Let_def split: option.split)
    then show ?thesis
      using w by (auto simp: T W st1(2) call_lines_def card_works_def write_at_end split: option.split)
  qed
qed

lemma trace_line_shape: "length (trace_line now body) \<le> 256" "last (trace_line now body) = 10"
  by (simp_all add: trace_line_def)

lemma trace_calls_wf:
  "trace_wf st \<Longrightarrow> list_all (\<lambda>(e, buf0, msg). length buf0 = 256) calls \<Longrightarrow> trace_wf (trace_calls calls st)"
  by (induction calls arbitrary: st) (auto simp: trace_calls_def Trace_step(1))

text \<open>On a working card every message is in the log, in order.\<close>

lemma trace_log_complete:
  assumes "trace_wf st" and "list_all (\<lambda>(e, buf0, msg). length buf0 = 256 \<and> card_works e) calls"
  shows "log_text (trace_calls calls st) = log_text st @ concat (map (concat \<circ> call_lines) calls)"
  using assms by (induction calls arbitrary: st) (auto simp: trace_calls_def Trace_step(1,3))

lemma trace_calls_lines:
  assumes "trace_wf st" and "list_all (\<lambda>(e, buf0, msg). length buf0 = 256 \<and> whole_write e) calls"
  shows "\<exists>ls. log_text (trace_calls calls st) = log_text st @ concat ls \<and> subseq ls (concat (map call_lines calls))"
  using assms
proof (induction calls arbitrary: st)
  case (Cons c calls)
  obtain e buf0 msg where c: "c = (e, buf0, msg)" by (cases c)
  have p: "length buf0 = 256" "whole_write e" using Cons.prems(2) c by simp_all
  obtain ls where ls: "log_text (Trace e buf0 msg st) = log_text st @ concat ls" "subseq ls (call_lines c)"
    using Trace_step(2) [OF Cons.prems(1) p] c by blast
  obtain ls' where "log_text (trace_calls calls (Trace e buf0 msg st)) = log_text (Trace e buf0 msg st) @ concat ls'"
      "subseq ls' (concat (map call_lines calls))"
    using Cons.IH [OF Trace_step(1) [OF Cons.prems(1) p(1)]] Cons.prems(2) by auto
  with ls c show ?case
    by (intro exI [of _ "ls @ ls'"]) (simp add: trace_calls_def list_emb_append_mono)
qed (auto simp: trace_calls_def intro: exI [of _ "[]"])

text \<open>The trace log is append-only and made of whole lines, whatever the card answers, as long as
  a single write happens completely or not at all: what a run adds to the file is the concatenation of lines of
  its messages, in order, some possibly missing; every line fits the buffer of 256 bytes and ends with a newline.\<close>

lemma trace_log_whole_lines:
  assumes "trace_wf st" and "list_all (\<lambda>(e, buf0, msg). length buf0 = 256 \<and> whole_write e) calls"
  shows "\<exists>ls. log_text (trace_calls calls st) = log_text st @ concat ls \<and> subseq ls (concat (map call_lines calls)) \<and>
     list_all (\<lambda>l. length l \<le> 256 \<and> last l = 10) ls"
proof -
  obtain ls where "log_text (trace_calls calls st) = log_text st @ concat ls" "subseq ls (concat (map call_lines calls))"
    using trace_calls_lines [OF assms] by blast
  moreover have "list_all (\<lambda>l. length l \<le> 256 \<and> last l = 10) (concat (map call_lines calls))"
    by (auto simp: list_all_iff call_lines_def trace_line_shape split: option.splits)
  moreover have "set ls \<subseteq> set (concat (map call_lines calls))"
    using calculation(2) unfolding subseq_conv_nths by (elim exE) (simp only: set_nths_subset)
  ultimately show ?thesis by (intro exI [of _ ls]) (auto simp: list_all_iff)
qed

definition sample_trace_env :: trace_env where
  "sample_trace_env = \<lparr>tr_now_ms = 5, tr_create = True, tr_open = True, tr_size = True, tr_write = write_at\<rparr>"

end
