(* ===== verification/Boot.thy ===== *)
theory Boot
  imports Bsd_Session Runtime_Props Ldn_Service Trace_Log
begin

text \<open>
  The sysmodule's own start (\<^verbatim>\<open>main.cpp\<close>): the heap behind \<^verbatim>\<open>operator new\<close>, the initialisation of the system
  services, the two log files written at boot, how \<^verbatim>\<open>Main\<close> wires runtime, tunnel, socket manager and LDN control
  plane together before it registers its services and starts its threads, and which service object a new
  session of a client gets.

  A function is \<open>None\<close> where the source aborts the process. What a system call answers is a parameter; the
  loops of the two server threads are the sequences of commands of the service theories.
\<close>

section \<open>The heap\<close>

definition HeapSize :: nat where "HeapSize = 512 * 1024"

text \<open>\<open>'h\<close> is the heap object of the system library, which is created on the first use.\<close>

record 'h heap =
  g_heap_handle :: "'h option"
  g_heap_initialized :: bool

definition GetHeapHandle :: "(nat \<Rightarrow> 'h) \<Rightarrow> 'h heap \<Rightarrow> 'h option \<times> 'h heap" where
  "GetHeapHandle CreateExpHeap st =
     (let st1 = (if \<not> g_heap_initialized st
                 then st\<lparr>g_heap_handle := Some (CreateExpHeap HeapSize), g_heap_initialized := True\<rparr> else st)
      in (g_heap_handle st1, st1))"

definition heap_Allocate :: "(nat \<Rightarrow> 'h) \<Rightarrow> ('h option \<Rightarrow> nat \<Rightarrow> 'p option \<times> 'h option) \<Rightarrow> nat \<Rightarrow> 'h heap \<Rightarrow> 'p option \<times> 'h heap" where
  "heap_Allocate create alloc sz st =
     (let (h, st1) = GetHeapHandle create st; (p, h') = alloc h sz in (p, st1\<lparr>g_heap_handle := h'\<rparr>))"

definition heap_Deallocate :: "(nat \<Rightarrow> 'h) \<Rightarrow> ('h option \<Rightarrow> 'p \<Rightarrow> 'h option) \<Rightarrow> 'p \<Rightarrow> 'h heap \<Rightarrow> 'h heap" where
  "heap_Deallocate create free p st =
     (let (h, st1) = GetHeapHandle create st in st1\<lparr>g_heap_handle := free h p\<rparr>)"

text \<open>The heap is created once: an allocation after the first one works on the heap the first one left.\<close>

lemma heap_created_once:
  assumes "heap_Allocate create alloc n st = (p, st1)"
  shows "g_heap_initialized st1" "GetHeapHandle create' st1 = (g_heap_handle st1, st1)"
    "g_heap_initialized st \<Longrightarrow> g_heap_handle st1 = snd (alloc (g_heap_handle st) n)"
  using assms by (auto simp: heap_Allocate_def GetHeapHandle_def split_beta Let_def)

text \<open>The bytes of one slot of a socket's receive ring (the address, two 16-bit fields and the payload), and of
  the whole ring, which is part of the socket object.\<close>

definition ReceivedPacket_bytes :: nat where
  "ReceivedPacket_bytes = 16 + 2 + 2 + PROXY_SOCKET_MAX_PAYLOAD"

definition rx_ring_bytes :: nat where
  "rx_ring_bytes = PROXY_SOCKET_MAX_QUEUE_SIZE * ReceivedPacket_bytes"

text \<open>The heap holds eight sockets at most, the limit of the socket manager is sixty-four.\<close>

lemma heap_smaller_than_socket_limit:
  "k * rx_ring_bytes \<le> HeapSize \<longleftrightarrow> k \<le> 8" "8 < MAX_PROXY_SOCKETS"
  by (auto simp: rx_ring_bytes_def ReceivedPacket_bytes_def HeapSize_def PROXY_SOCKET_MAX_PAYLOAD_def
      PROXY_SOCKET_MAX_QUEUE_SIZE_def MAX_PROXY_SOCKETS_def)

section \<open>System services\<close>

datatype sys_call = Sm_Initialize | Fs_InitializeForSystem | Fs_SetAllocator | Fs_SetEnabledAutoAbort
  | Fs_MountSdCard | Nifm_Initialize | Bsd_Initialize | Socket_Initialize
  | Socket_Exit | Bsd_Exit | Nifm_Exit | Fs_Unmount

text \<open>A sequence of calls, each with whether a failure aborts; the calls made, and whether the end was reached.\<close>

fun sys_calls :: "(sys_call \<Rightarrow> bool) \<Rightarrow> (sys_call \<times> bool) list \<Rightarrow> sys_call list \<times> bool" where
  "sys_calls ok [] = ([], True)"
| "sys_calls ok ((c, checked) # cs) =
     (if checked \<and> \<not> ok c then ([c], False)
      else (let (made, done) = sys_calls ok cs in (c # made, done)))"

definition InitializeSystemModule :: "(sys_call \<Rightarrow> bool) \<Rightarrow> sys_call list \<times> bool" where
  "InitializeSystemModule ok = sys_calls ok
     [(Sm_Initialize, True), (Fs_InitializeForSystem, False), (Fs_SetAllocator, False), (Fs_SetEnabledAutoAbort, False),
      (Fs_MountSdCard, True), (Nifm_Initialize, True), (Bsd_Initialize, True), (Socket_Initialize, True)]"

definition FinalizeSystemModule :: "sys_call list" where
  "FinalizeSystemModule = [Socket_Exit, Bsd_Exit, Nifm_Exit, Fs_Unmount]"

fun undoes :: "sys_call \<Rightarrow> sys_call option" where
  "undoes Fs_MountSdCard = Some Fs_Unmount"
| "undoes Nifm_Initialize = Some Nifm_Exit"
| "undoes Bsd_Initialize = Some Bsd_Exit"
| "undoes Socket_Initialize = Some Socket_Exit"
| "undoes _ = None"

text \<open>What was opened is closed in the opposite order.\<close>

lemma finalize_reverses_initialize:
  assumes "InitializeSystemModule ok = (made, True)"
  shows "FinalizeSystemModule = rev (List.map_filter undoes made)"
  using assms by (auto simp: InitializeSystemModule_def FinalizeSystemModule_def List.map_filter_def split: if_splits)

text \<open>The buffer lent to the socket service: the sizes of the four buffers, rounded up to a page (\<open>AlignUp\<close>, of the system
  library), times the efficiency factor.\<close>

record socket_config =
  sc_tcp_tx_max :: nat
  sc_tcp_rx_max :: nat
  sc_udp_tx :: nat
  sc_udp_rx :: nat
  sc_efficiency :: nat
  sc_sessions :: nat

definition LibnxSocketInitConfig :: socket_config where
  "LibnxSocketInitConfig = \<lparr>sc_tcp_tx_max = 0x2000, sc_tcp_rx_max = 0x2000, sc_udp_tx = 0x2000, sc_udp_rx = 0x2000,
     sc_efficiency = 4, sc_sessions = 4\<rparr>"

definition socket_tmem_bytes :: "(nat \<Rightarrow> nat) \<Rightarrow> socket_config \<Rightarrow> nat" where
  "socket_tmem_bytes AlignUp c =
     sc_efficiency c * AlignUp (sc_tcp_tx_max c + sc_tcp_rx_max c + sc_udp_tx c + sc_udp_rx c)"

lemma socket_tmem_holds_buffers:
  assumes "\<And>v. v \<le> AlignUp v"
  shows "4 * 0x8000 \<le> socket_tmem_bytes AlignUp LibnxSocketInitConfig"
  using assms [of "0x8000"] by (simp add: socket_tmem_bytes_def LibnxSocketInitConfig_def)

section \<open>Sessions\<close>

definition PortIndex_LdnMitm :: nat where "PortIndex_LdnMitm = 0"
definition PortIndex_BsdMitm :: nat where "PortIndex_BsdMitm = 1"
definition NumMitmPorts :: nat where "NumMitmPorts = 3"

datatype accepted = Accept_Ldn | Accept_Bsd BsdMitmService

definition OnNeedsToAccept :: "nat \<Rightarrow> u64 \<Rightarrow> 'w bsd \<Rightarrow> (accepted \<times> 'w bsd) option" where
  "OnNeedsToAccept port_index pid b =
     (if port_index = PortIndex_LdnMitm then Some (Accept_Ldn, b)
      else if port_index = PortIndex_BsdMitm then
        (let (svc, b1) = BsdMitmService_new pid b in Some (Accept_Bsd svc, b1))
      else None)"

section \<open>Main\<close>

text \<open>The three TCP callbacks registered at boot.\<close>

definition refuse :: "'w connect_call" where
  "refuse sip sport dip dport pr w = (False, w)"

definition register_callbacks :: "'w data_call \<Rightarrow> 'w ProxySocketManager \<Rightarrow> 'w ProxySocketManager" where
  "register_callbacks send m =
     SetProxyDisconnectCallback (Some refuse) (SetProxyConnectReplyCallback (Some refuse)
       (SetProxyConnectCallback (Some refuse) (SetSendCallback (Some send) m)))"

text \<open>The heartbeat file is deleted, created with its final size and written; \<open>hb_write old new\<close> is what a write
  at offset zero leaves.\<close>

record heartbeat_env =
  hb_delete :: bool
  hb_create :: bool
  hb_open :: bool
  hb_write :: "bytes \<Rightarrow> bytes \<Rightarrow> bytes"

definition kText :: bytes where
  "kText = [115, 108, 112, 45, 99, 108, 105, 101, 110, 116, 32, 98, 111, 111, 116, 101, 100, 10]"

definition heartbeat :: "heartbeat_env \<Rightarrow> bytes option \<Rightarrow> bytes option" where
  "heartbeat e f =
     (let f1 = (if hb_delete e then None else f);
          f2 = (case f1 of None \<Rightarrow> if hb_create e then Some (replicate (length kText) 0) else None | Some c \<Rightarrow> Some c)
      in case f2 of None \<Rightarrow> None | Some c \<Rightarrow> if hb_open e then Some (hb_write e c kText) else Some c)"

text \<open>The calls of \<^verbatim>\<open>Main\<close> whose failure aborts, and what a successful one makes visible outside.\<close>

datatype boot_call = Register_Cfg | Create_Cfg_Thread | Register_Ldn | Register_Bsd | Create_Mitm_Thread

datatype boot_event = Cfg_Registered | Cfg_Thread_Started | Mitm_Registered nat | Mitm_Thread_Started

record boot_env =
  be_heartbeat :: heartbeat_env
  be_rt :: rt_env
  be_trace_init :: trace_env
  be_trace1 :: trace_call
  be_trace2 :: trace_call
  be_ldn_nifm :: nifm_answers
  be_call :: "boot_call \<Rightarrow> bool"

record 'w boot =
  bo_app :: "'w app"
  bo_heartbeat :: "bytes option"
  bo_trace :: trace
  bo_events :: "boot_event list"

definition boot_step :: "boot_env \<Rightarrow> boot_call \<Rightarrow> boot_event \<Rightarrow> 'w boot \<Rightarrow> 'w boot option" where
  "boot_step e c ev b = (if be_call e c then Some (b\<lparr>bo_events := bo_events b @ [ev]\<rparr>) else None)"

text \<open>The tunnel, the callbacks and the LDN control plane; \<open>None\<close> when its initialisation fails.\<close>

definition boot_wiring :: "rt_env \<Rightarrow> nifm_answers \<Rightarrow> 'w data_call \<Rightarrow> 'w app \<Rightarrow> 'w app option" where
  "boot_wiring e na send a1 =
     (let (vip, file1) = GetVirtualIp e 16 (a_virtual_id a1);
          con1 = tun_Init (to_string vip) send (a_con a1);
          con2 = con1\<lparr>con_mgr := register_callbacks send (con_mgr con1)\<rparr>;
          (vip2, file2) = GetVirtualIp (second_draw e) 16 file1;
          (rc, l, _) = ldn_Initialize (to_string vip2) na (con_ldn con2)
      in if rc \<noteq> None then None else Some (a1\<lparr>a_virtual_id := file2, a_con := con2\<lparr>con_ldn := l\<rparr>\<rparr>))"

definition boot_services :: "boot_env \<Rightarrow> 'w boot \<Rightarrow> 'w boot option" where
  "boot_services e b =
     Option.bind (boot_step e Register_Cfg Cfg_Registered b) (\<lambda>b1.
     Option.bind (boot_step e Create_Cfg_Thread Cfg_Thread_Started b1) (\<lambda>b2.
     Option.bind (boot_step e Register_Ldn (Mitm_Registered PortIndex_LdnMitm) b2) (\<lambda>b3.
     Option.bind (boot_step e Register_Bsd (Mitm_Registered PortIndex_BsdMitm) b3) (\<lambda>b4.
     boot_step e Create_Mitm_Thread Mitm_Thread_Started b4))))"

definition Main :: "boot_env \<Rightarrow> 'w data_call \<Rightarrow> 'w boot \<Rightarrow> 'w boot option" where
  "Main e send b =
     (let hb = heartbeat (be_heartbeat e) (bo_heartbeat b);
          a1 = snd (ReloadServers (be_rt e) (bo_app b));
          tr = trace_calls [be_trace1 e, be_trace2 e] (TraceInit (be_trace_init e) (bo_trace b))
      in Option.bind (boot_wiring (be_rt e) (be_ldn_nifm e) send a1) (\<lambda>a2.
           boot_services e (b\<lparr>bo_app := a2, bo_heartbeat := hb, bo_trace := tr\<rparr>)))"

text \<open>The state of the process and its files before \<^verbatim>\<open>Main\<close>.\<close>

definition new_boot :: "bytes option \<Rightarrow> bytes option \<Rightarrow> bytes option \<Rightarrow> bytes option \<Rightarrow> 'w boot" where
  "new_boot cfg vid hb tlog = \<lparr>bo_app = new_app cfg vid new_Console, bo_heartbeat = hb,
     bo_trace = \<lparr>g_opened = False, g_log = tlog\<rparr>, bo_events = []\<rparr>"

lemma boot_services_Some:
  "boot_services e b = Some b' \<longleftrightarrow> be_call e Register_Cfg \<and> be_call e Create_Cfg_Thread \<and> be_call e Register_Ldn \<and>
     be_call e Register_Bsd \<and> be_call e Create_Mitm_Thread \<and>
     b' = b\<lparr>bo_events := bo_events b @ [Cfg_Registered, Cfg_Thread_Started, Mitm_Registered PortIndex_LdnMitm,
       Mitm_Registered PortIndex_BsdMitm, Mitm_Thread_Started]\<rparr>"
  by (auto simp: boot_services_def boot_step_def)

lemma Main_Some:
  "Main e send b = Some b' \<longleftrightarrow> (\<forall>c. be_call e c) \<and>
     (\<exists>a. boot_wiring (be_rt e) (be_ldn_nifm e) send (snd (ReloadServers (be_rt e) (bo_app b))) = Some a \<and>
        b' = b\<lparr>bo_app := a, bo_heartbeat := heartbeat (be_heartbeat e) (bo_heartbeat b),
          bo_trace := trace_calls [be_trace1 e, be_trace2 e] (TraceInit (be_trace_init e) (bo_trace b)),
          bo_events := bo_events b @ [Cfg_Registered, Cfg_Thread_Started, Mitm_Registered PortIndex_LdnMitm,
            Mitm_Registered PortIndex_BsdMitm, Mitm_Thread_Started]\<rparr>)"
proof -
  have "(\<forall>c. be_call e c) \<longleftrightarrow> be_call e Register_Cfg \<and> be_call e Create_Cfg_Thread \<and> be_call e Register_Ldn \<and>
     be_call e Register_Bsd \<and> be_call e Create_Mitm_Thread" by (metis boot_call.exhaust)
  then show ?thesis
    by (cases "boot_wiring (be_rt e) (be_ldn_nifm e) send (snd (ReloadServers (be_rt e) (bo_app b)))")
      (auto simp: Main_def boot_services_Some Let_def)
qed

text \<open>The wiring never fails, so the module comes up exactly when the system accepts its services and threads.\<close>

lemma boot_wiring_total: "\<exists>a. boot_wiring e na send a1 = Some a"
  by (simp add: boot_wiring_def ldn_Initialize_def split_beta Let_def)

text \<open>A session on a port that \<^verbatim>\<open>Main\<close> registered is never refused, and each registered port is below the number of
  ports of the server.\<close>

lemma registered_ports_served:
  assumes "Main e send b = Some b'" and "bo_events b = []" and "Mitm_Registered port \<in> set (bo_events b')"
  shows "port < NumMitmPorts" "OnNeedsToAccept port pid m \<noteq> None"
  using assms unfolding Main_Some
  by (auto simp: OnNeedsToAccept_def PortIndex_LdnMitm_def PortIndex_BsdMitm_def NumMitmPorts_def split_beta)

text \<open>The boot log: on a working card the heartbeat holds its text and the trace starts with the messages of \<^verbatim>\<open>Main\<close>.\<close>

lemma heartbeat_written:
  assumes "hb_delete e \<or> f = None" and "hb_create e" and "hb_open e" and "hb_write e (replicate (length kText) 0) kText = kText"
  shows "heartbeat e f = Some kText"
  using assms by (auto simp: heartbeat_def)

end
