(* ===== verification/System.thy ===== *)
theory System
  imports Bsd_Transparent Runtime_Props Boot
begin

text \<open>
  The parts together: the state that \<open>Boot\<close> leaves behind, and the callback through which a game's datagram
  enters the tunnel. The lemmas follow an address and a datagram through runtime, tunnel, socket manager and
  LDN control plane.
\<close>

section \<open>The send callback\<close>

text \<open>What a socket command can touch outside the socket layer: the tunnel, and what it put out.\<close>

record wire =
  w_tun :: Tunnel
  w_out :: "tun_out list"

definition tun_callback :: "tun_env \<Rightarrow> wire data_call" where
  "tun_callback e sip sport dip dport pr data w =
     (let (ok, t, outs) = tun_Send e sip sport dip dport pr (Some data) (length data) (w_tun w)
      in (ok, \<lparr>w_tun = t, w_out = w_out w @ outs\<rparr>))"

section \<open>One address\<close>

lemma boot_wiring_con:
  assumes "boot_wiring e na send a1 = Some a" and "a_con a1 = new_Console"
  shows "m_local_ip (con_mgr (a_con a)) = g_local_ip (con_tun (a_con a))"
    "con_mgr (a_con a) = register_callbacks send (SetLocalIp (g_local_ip (con_tun (a_con a))) new_manager)"
    "a_rt a = a_rt a1" "a_servers a = a_servers a1"
  using assms by (auto simp: boot_wiring_def split_beta Let_def ldn_Initialize_def tun_Init_def register_callbacks_def
      SetSendCallback_def SetLocalIp_def SetProxyConnectCallback_def SetProxyConnectReplyCallback_def
      SetProxyDisconnectCallback_def new_Console_def)

lemma Main_boots:
  assumes "Main e send (new_boot cfg vid hb tlog) = Some b"
  shows "m_local_ip (con_mgr (a_con (bo_app b))) = g_local_ip (con_tun (a_con (bo_app b)))"
    "con_mgr (a_con (bo_app b)) = register_callbacks send (SetLocalIp (g_local_ip (con_tun (a_con (bo_app b)))) new_manager)"
    "rt_state (a_rt (bo_app b)) \<noteq> SLPCFG_STATE_RUNNING"
proof -
  let ?a1 = "snd (ReloadServers (be_rt e) (new_app cfg vid new_Console))"
  have w: "boot_wiring (be_rt e) (be_ldn_nifm e) send ?a1 = Some (bo_app b)"
    using assms by (auto simp: Main_Some new_boot_def)
  have a1: "a_con ?a1 = new_Console" "rt_state (a_rt ?a1) \<noteq> SLPCFG_STATE_RUNNING"
    by (auto simp: new_app_def ReloadServers_def Let_def new_Runtime_def SLPCFG_STATE_STOPPED_def SLPCFG_STATE_RUNNING_def split: option.split)
  from boot_wiring_con [OF w a1(1)] a1(2)
  show "m_local_ip (con_mgr (a_con (bo_app b))) = g_local_ip (con_tun (a_con (bo_app b)))"
    "con_mgr (a_con (bo_app b)) = register_callbacks send (SetLocalIp (g_local_ip (con_tun (a_con (bo_app b)))) new_manager)"
    "rt_state (a_rt (bo_app b)) \<noteq> SLPCFG_STATE_RUNNING" by simp_all
qed

lemma Start_started:
  assumes "rt_Start e a = (True, a1, outs)" and "rt_state (a_rt a) \<noteq> SLPCFG_STATE_RUNNING"
  obtains ip file1 ip2 file2 where "GetVirtualIp e 16 (a_virtual_id a) = (ip, file1)"
    "GetVirtualIp (second_draw e) 16 file1 = (ip2, file2)" "a_virtual_id a1 = file2"
    "a_con a1 = RefreshLocalIp (to_string ip2) (a_con a)" "m_ip (a_rt a1) = ip" "rt_state (a_rt a1) = SLPCFG_STATE_RUNNING"
  using assms
  by (cases "GetVirtualIp e 16 (a_virtual_id a)", cases "GetVirtualIp (second_draw e) 16 (snd (GetVirtualIp e 16 (a_virtual_id a)))")
    (auto simp: rt_Start_def Let_def split_beta split: if_splits option.splits)

lemma RefreshLocalIp_ips:
  assumes "ParseIp vip \<noteq> 0" and "m_local_ip (con_mgr con) = g_local_ip (con_tun con)"
  shows "g_local_ip (con_tun (RefreshLocalIp vip con)) = ParseIp vip" "m_local_ip (con_mgr (RefreshLocalIp vip con)) = ParseIp vip"
  using assms by (auto simp: RefreshLocalIp_def Let_def SetLocalIp_def)

lemma IsLanAddress_nonzero: "IsLanAddress ip \<Longrightarrow> ip \<noteq> 0"
  by (auto simp: IsLanAddress_def LAN_NETWORK_MASK_def LAN_NETWORK_BASE_def)

text \<open>C11: A console has one identity. Whatever the network service and the random source answered at boot, once
  the relay connection has been started with a working network service and a writable card, the tunnel and
  the socket manager use the address shown to the user, and the LDN control plane takes the same one
  when a game opens it later, whatever the random source does then.\<close>

theorem one_virtual_address:
  assumes "Main e0 send (new_boot cfg vid hb tlog) = Some b" and "rt_Start e (bo_app b) = (True, a1, outs)"
    and "re_nifm e" "fe_create (re_fs e)" "fe_open_write (re_fs e)" "fe_write (re_fs e)" "fe_read (re_fs e) = Some"
    and "fe_read (re_fs e') = Some" and "GetVirtualIp e' 16 (a_virtual_id a1) = (vip, file)"
    and "ldn_Initialize (to_string vip) na' (con_ldn (a_con a1)) = (rc, l, calls)"
  shows "g_local_ip (con_tun (a_con a1)) = m_ipv4_address l \<and> m_local_ip (con_mgr (a_con a1)) = m_ipv4_address l \<and>
     IsLanAddress (m_ipv4_address l) \<and> m_ipv4_address l = ParseIp (to_string (m_ip (a_rt a1)))"
proof -
  obtain ip file1 ip2 file2 where g: "GetVirtualIp e 16 (a_virtual_id (bo_app b)) = (ip, file1)"
      "GetVirtualIp (second_draw e) 16 file1 = (ip2, file2)" "a_virtual_id a1 = file2"
      "a_con a1 = RefreshLocalIp (to_string ip2) (a_con (bo_app b))" "m_ip (a_rt a1) = ip"
    using Start_started [OF assms(2) Main_boots(3) [OF assms(1)]] by metis
  obtain c d where cd: "ip = prefix_text @ octet_text c d" "c \<le> 255" "d \<le> 255"
      "\<And>e'. fe_read (re_fs e') = Some \<Longrightarrow> GetVirtualIp e' 16 file1 = (ip, file1)"
    using address_persisted [OF g(1) assms(3-7)] by metis
  have "(ip2, file2) = (ip, file1)" using g(2) cd(4) [of "second_draw e"] assms(7) by (simp add: second_draw_def)
  moreover from this have "vip = ip" using assms(9) cd(4) [OF assms(8)] g(3) by simp
  moreover have lan: "IsLanAddress (ParseIp (to_string ip))"
    using IsLanAddress_virtual [OF cd(2,3)] ParseIp_octets [OF cd(2,3)] cd(1) by simp
  moreover note Main_boots(1) [OF assms(1)]
  ultimately show ?thesis
    using assms(10) g(4,5) IsLanAddress_nonzero [OF lan] RefreshLocalIp_ips
    by (auto simp: ldn_Initialize_def exit_if_entered_def ExitLocalNetworkMode_def split_beta Let_def)
qed

definition card_config :: bytes where "card_config = render_server sample_server"

definition sample_boot_env :: boot_env where
  "sample_boot_env = \<lparr>be_heartbeat = \<lparr>hb_delete = True, hb_create = True, hb_open = True, hb_write = (\<lambda>_ t. t)\<rparr>,
     be_rt = sample_rt_env\<lparr>re_nifm := False\<rparr>, be_trace_init = sample_trace_env, be_trace1 = (sample_trace_env, replicate 256 0, Some []),
     be_trace2 = (sample_trace_env, replicate 256 0, Some []), be_ldn_nifm = nifm_ok, be_call = (\<lambda>_. True)\<rparr>"

lemma sample_boot:
  fixes send :: "'w data_call"
  shows "\<exists>b. Main sample_boot_env send (new_boot (Some card_config) None None None) = Some b \<and>
     a_servers (bo_app b) = [sample_server] \<and> a_rt (bo_app b) = new_Runtime\<lparr>m_sel_index := 0\<rparr>"
proof -
  let ?a0 = "new_app (Some card_config) None (new_Console :: 'w Console)"
  have p: "slpServersParse card_config = [sample_server]"
    using parse_lines_render [of "[sample_server]" 0] sample_server_plain
    by (simp add: slpServersParse_def SLPCFG_MAX_SERVERS_def card_config_def)
  have "length card_config < 4095" "card_config \<noteq> []"
    by (simp_all add: card_config_def render_server_def server_words_def sample_server_def dec_11451)
  then have r: "snd (ReloadServers (be_rt sample_boot_env) ?a0) = ?a0\<lparr>a_servers := [sample_server], a_rt := new_Runtime\<lparr>m_sel_index := 0\<rparr>\<rparr>"
    using p by (simp add: sample_boot_env_def ReloadServers_def ReadConfigText_def new_app_def sample_rt_env_def good_fs_def Let_def
        slpServersCount_def new_Runtime_def)
  obtain a where a: "boot_wiring (be_rt sample_boot_env) (be_ldn_nifm sample_boot_env) send (snd (ReloadServers (be_rt sample_boot_env) ?a0)) = Some a"
    using boot_wiring_total by blast
  have "a_con (snd (ReloadServers (be_rt sample_boot_env) ?a0)) = new_Console" unfolding r by (simp add: new_app_def)
  from boot_wiring_con(3,4) [OF a this] have "a_servers a = [sample_server]" "a_rt a = new_Runtime\<lparr>m_sel_index := 0\<rparr>" by (simp_all add: r)
  moreover have "\<exists>b. Main sample_boot_env send (new_boot (Some card_config) None None None) = Some b \<and> bo_app b = a"
    unfolding Main_Some by (simp add: new_boot_def a) (simp add: sample_boot_env_def)
  ultimately show ?thesis by auto
qed

lemma sample_server_starts:
  assumes "a_servers a = [sample_server]" and "a_rt a = new_Runtime\<lparr>m_sel_index := 0\<rparr>"
  shows "\<exists>a' outs. rt_Start sample_rt_env a = (True, a', outs)"
  by (simp add: assms rt_Start_def Let_def split_beta new_Runtime_def slpServersCount_def slpServersGet_def slpClientOpen_def
      slpResolveHost_def sample_rt_env_def SLPCFG_STATE_STOPPED_def SLPCFG_STATE_RUNNING_def)

theorem one_virtual_address_witness:
  "\<exists>b a1 outs. Main sample_boot_env (\<lambda>_ _ _ _ _ _ w :: unit. (True, w)) (new_boot (Some card_config) None None None) = Some b \<and>
     rt_Start sample_rt_env (bo_app b) = (True, a1, outs) \<and>
     g_local_ip (con_tun (a_con a1)) = ParseIp (to_string (m_ip (a_rt a1))) \<and> IsLanAddress (g_local_ip (con_tun (a_con a1)))"
proof -
  obtain b :: "unit boot" where a: "Main sample_boot_env (\<lambda>_ _ _ _ _ _ w. (True, w)) (new_boot (Some card_config) None None None) = Some b"
      "a_servers (bo_app b) = [sample_server]" "a_rt (bo_app b) = new_Runtime\<lparr>m_sel_index := 0\<rparr>" using sample_boot by blast
  obtain a1 outs where s: "rt_Start sample_rt_env (bo_app b) = (True, a1, outs)" using sample_server_starts [OF a(2,3)] by blast
  obtain vip f where g: "GetVirtualIp sample_rt_env 16 (a_virtual_id a1) = (vip, f)" by fastforce
  obtain rc l calls where i: "ldn_Initialize (to_string vip) nifm_ok (con_ldn (a_con a1)) = (rc, l, calls)" by (rule prod_cases3)
  have e: "re_nifm sample_rt_env" "fe_create (re_fs sample_rt_env)" "fe_open_write (re_fs sample_rt_env)"
    "fe_write (re_fs sample_rt_env)" "fe_read (re_fs sample_rt_env) = Some"
    by (simp_all add: sample_rt_env_def good_fs_def)
  from one_virtual_address [OF a(1) s e e(5) g i] a(1) s show ?thesis by metis
qed

section \<open>TCP over the virtual network\<close>

text \<open>C12: There is no TCP over the virtual network, and a game learns it at once: with the callbacks registered at
  boot, connecting a stream socket to any IPv4 address fails with \<^verbatim>\<open>ENETUNREACH\<close> without waiting and without
  sending anything, blocking or not, and the socket is left bound.\<close>

theorem tcp_connect_refused:
  assumes "Main e send (new_boot cfg vid hb tlog) = Some b"
    and "m_type s = Stream" and "m_state s \<noteq> Closed" and "sin_family addr = family_val AF_Inet"
  shows "\<exists>s'. sock_Connect (SendProxyConnect (con_mgr (a_con (bo_app b)))) wait addr s w = ((Inl E_NetUnreach, s'), w) \<and>
     m_state s' = Bound"
proof -
  have "SendProxyConnect (con_mgr (a_con (bo_app b))) = refuse"
    unfolding Main_boots(2) [OF assms(1)]
    by (auto simp: SendProxyConnect_def register_callbacks_def SetProxyConnectCallback_def SetProxyConnectReplyCallback_def
        SetProxyDisconnectCallback_def refuse_def fun_eq_iff)
  then show ?thesis using assms(2-4) by (simp add: sock_Connect_def refuse_def Let_def)
qed

theorem tcp_connect_refused_witness:
  "\<exists>b s'. Main sample_boot_env (\<lambda>_ _ _ _ _ _ w :: unit. (True, w)) (new_boot (Some card_config) None None None) = Some b \<and>
     sock_Connect (SendProxyConnect (con_mgr (a_con (bo_app b)))) (\<lambda>s. (True, s)) inet_any (new_ProxySocket Stream Proto_Tcp) () =
       ((Inl E_NetUnreach, s'), ())"
proof -
  obtain b :: "unit boot" where a: "Main sample_boot_env (\<lambda>_ _ _ _ _ _ w. (True, w)) (new_boot (Some card_config) None None None) = Some b"
    using sample_boot by blast
  have "m_type (new_ProxySocket Stream Proto_Tcp) = Stream" "m_state (new_ProxySocket Stream Proto_Tcp) \<noteq> Closed"
    "sin_family inet_any = family_val AF_Inet" by (simp_all add: new_ProxySocket_def inet_any_def)
  from tcp_connect_refused [OF a this] a show ?thesis by blast
qed

section \<open>A datagram from game to game\<close>

text \<open>The sender's side: a \<^verbatim>\<open>SendTo\<close> on an open proxy socket is one call of the tunnel.\<close>

definition can_send :: "int \<Rightarrow> ProxySocket \<Rightarrow> wire bsd \<Rightarrow> bool" where
  "can_send fd s b \<longleftrightarrow> tracked_proxy fd b \<and> GetProxySocket fd (b_mgr b) = Some s \<and> m_state s \<noteq> Created \<and> m_state s \<noteq> Closed \<and>
     \<not> m_shutdown_write s \<and> \<not> HasRealAddress (b_netmap b)"

lemma SendTo_tunnels:
  assumes "can_send fd s b" and "m_send_callback (b_mgr b) = Some (tun_callback e)"
    and "addr_in addr = Some dest" and "length data \<le> 2000"
    and "tun_Send e (Numeric (Addr (m_local_addr s))) (GetPort (m_local_addr s)) (GetAddr dest) (GetPort dest) (m_protocol s)
      (Some data) (length data) (w_tun (b_world b)) = (True, t', outs)"
  shows "SendTo eb fd flags (Some data) addr svc b = (answer [int (length data), 0] [], counted svc,
     b\<lparr>b_world := \<lparr>w_tun = t', w_out = w_out (b_world b) @ outs\<rparr>\<rparr>)"
proof -
  have "sendto_promote fd (lan_dest_in addr) b = (None, b)"
    using assms(1) by (auto simp: can_send_def tracked_proxy_def sendto_promote_def split: option.splits)
  moreover have "send_dest_ip (b_netmap b) s dest = GetAddr dest"
    using assms(1) by (simp add: can_send_def send_dest_ip_def GameToVirtual_def)
  moreover have "SendProxyData (b_mgr b) = tun_callback e" by (simp add: SendProxyData_def assms(2) fun_eq_iff)
  ultimately show ?thesis
    using assms(1,3,4,5)
    by (simp add: SendTo_def can_send_def sendto_proxy_def sock_SendTo_def PROXY_SOCKET_MAX_PAYLOAD_def payload_of_def
        tun_callback_def buf_size_def ret_errno_def)
qed

text \<open>The receiver's side: the datagram is put into the queue of every listening socket, and the next
  \<^verbatim>\<open>RecvFrom\<close> hands it out.\<close>

lemma RouteIncomingData_delivers:
  assumes "mgr_wf m" and "map_of (m_sockets m) fd = Some s" and "fd \<in> set (FindAllSocketsByDestination dip dport pr kMaxSockets m)"
    and "IsLanModePort dport \<or> known sip"
  shows "map_of (m_sockets (snd (RouteIncomingData known g sip sport dip dport pr data n m))) fd =
     Some (sock_IncomingData data n (route_from_addr g sip sport) s)"
proof -
  have "distinct (FindAllSocketsByDestination dip dport pr kMaxSockets m)"
    using assms(1) unfolding FindAll_eq by (intro distinct_take distinct_map_filter) (simp add: mgr_wf_def)
  then show ?thesis
    using assms(2-4) by (auto simp: RouteIncomingData_def Let_def fold_on_socket_lookup)
qed

lemma RecvFrom_first:
  assumes "tracked_proxy fd b" and "GetProxySocket fd (b_mgr b) = Some (sock_IncomingData (Some data) (length data) frm s)"
    and "sock_wf s" and "rx_queue s = []" and "\<not> m_shutdown_read s" and "m_state s \<noteq> Closed" and "length data \<le> 2000"
  shows "fst (RecvFrom eb fd flags out_size 16 svc b) =
     answer [int (min out_size (length data)), 0, 16] [take out_size data, enc_SockAddrIn frm]"
proof -
  let ?s = "sock_IncomingData (Some data) (length data) frm s"
  have q: "rx_queue ?s = [(frm, data)]"
    using rx.contents_push [OF sock_wfD(1) [OF assms(3)], of "(data, frm)"] assms(4,7)
    by (simp add: rx_push_def pkt_seen_def bounded_push_def PROXY_SOCKET_MAX_PAYLOAD_def PROXY_SOCKET_MAX_QUEUE_SIZE_def)
  then have "m_rx_count ?s \<noteq> 0" using rx.length_contents [of ?s] by simp
  moreover have "m_shutdown_read ?s = m_shutdown_read s" "m_state ?s = m_state s" by (simp_all add: sock_IncomingData_def Let_def)
  ultimately have "fst (sock_RecvFrom w (out_size > 0) out_size fl True ?s) =
      \<lparr>ro_ret = int (min out_size (length data)), ro_bytes = take out_size data, ro_from = Some frm\<rparr>" for w fl
    using consume_front_spec(1) [OF sock_wf_IncomingData [OF assms(3)] q] assms(5,6) by (auto simp: sock_RecvFrom_def Let_def)
  then show ?thesis
    using assms(1,2) by (simp add: RecvFrom_def split_beta Let_def addr_out_def)
qed

definition listens :: "int \<Rightarrow> ProxySocket \<Rightarrow> u32 \<Rightarrow> u32 \<Rightarrow> u16 \<Rightarrow> 'w Console \<Rightarrow> bool" where
  "listens fd s sip dip dport con \<longleftrightarrow> mgr_wf (con_mgr con) \<and> GetProxySocket fd (con_mgr con) = Some s \<and>
     fd \<in> set (FindAllSocketsByDestination dip dport Proto_Udp kMaxSockets (con_mgr con)) \<and>
     (IsLanModePort dport \<or> IsKnownSessionPeer sip (con_ldn con)) \<and> rx_queue s = [] \<and> \<not> m_shutdown_read s \<and> m_state s \<noteq> Closed"

text \<open>C1: From one game to another. The sending console is connected to a relay, its socket is open and the operating
  system takes what is sent. A game sends a datagram of at most 2000 bytes on an open proxy socket to an
  address outside 127.0.0.0/8 and to a port other than 11452, which belongs to the control plane: it is reported sent
  in full. The relay frames it became reach another console, each once and in any order within a second, which
  holds no fragment of an earlier packet with the same source and number. One of the first eight sockets there
  that match the destination has an empty queue, and the port is a LAN port or the sender a member of the session.
  Then the next \<^verbatim>\<open>RecvFrom\<close> on that socket returns the payload, cut to the caller's buffer, and the sender's virtual
  address and port.\<close>

theorem datagram_end_to_end:
  assumes "te_running e" and "cl_fd (te_client e) \<ge> 0" and "\<And>buf. te_sendto e (cl_fd (te_client e)) buf"
    and "can_send fdA sA bA" and "m_send_callback (b_mgr bA) = Some (tun_callback e)" and "addr_in addr = Some dest"
    and "GetAddr dest AND 0xFF000000 \<noteq> 0x7F000000" and "GetPort dest \<noteq> ControlPort" and "length data \<le> 2000"
    and "src = (if Numeric (Addr (m_local_addr sA)) = 0 then g_local_ip (w_tun (b_world bA)) else Numeric (Addr (m_local_addr sA)))"
    and "SendTo eA fdA flags (Some data) addr svcA bA = (rA, svcA', bA')"
    and "w_out (b_world bA') = w_out (b_world bA) @ map Relay rs"
    and "distinct (map snd (as @ [(tm, k)]))" and "set (map snd (as @ [(tm, k)])) = {..<length rs}"
    and "\<forall>x \<in> set (as @ [(tm, k)]). t0 \<le> fst x \<and> fst x \<le> t0 + FragTimeoutTicks"
    and "\<forall>f \<in> set (g_frags (con_tun con)). fe_last_tick f < INT64_MAX \<and> \<not> frag_key src (g_ip_id (w_tun (b_world bA))) f"
    and "length (g_frags (con_tun con)) = MaxFragEntries"
    and "listens fdB sB src (GetAddr dest) (GetPort dest) con" and "\<not> HasRealAddress (te_netmap e')"
    and "b_mgr bB = con_mgr (fst (recv_frames e' (map (\<lambda>(t, i). (t, snd (snd (rs ! i)))) (as @ [(tm, k)])) con))"
    and "tracked_proxy fdB bB"
  shows "rA = answer [int (length data), 0] [] \<and>
     (\<exists>frm. fst (RecvFrom eB fdB flagsB n 16 svcB bB) =
          answer [int (min n (length data)), 0, 16] [take n data, enc_SockAddrIn frm] \<and>
        GetAddr frm = src \<and> GetPort frm = GetPort (m_local_addr sA))"
proof -
  let ?t = "w_tun (b_world bA)" and ?sip = "Numeric (Addr (m_local_addr sA))" and ?sport = "GetPort (m_local_addr sA)"
  let ?dip = "GetAddr dest" and ?dport = "GetPort dest"
  let ?frm = "route_from_addr (te_netmap e') src ?sport"
  obtain t' outs where ts: "tun_Send e ?sip ?sport ?dip ?dport (m_protocol sA) (Some data) (length data) ?t = (True, t', outs)"
    using tun_Send_frames [OF assms(1,2,3,7,9)] by blast
  note sent = SendTo_tunnels [OF assms(4,5,6,9) ts, of eA flags svcA]
  have rA: "rA = answer [int (length data), 0] []" using sent assms(11) by simp
  have "outs = map Relay rs" using sent assms(11,12) by auto
  with ts have ts': "tun_Send e ?sip ?sport ?dip ?dport (m_protocol sA) (Some data) (length data) ?t = (True, t', map Relay rs)"
    by simp
  obtain g where "recv_frames e' (map (\<lambda>(t, i). (t, snd (snd (rs ! i)))) (as @ [(tm, k)])) con =
      ProcessIpv4 (e'\<lparr>te_now := tm\<rparr>) (udp_packet src ?sport ?dip ?dport (g_ip_id ?t) data) (set_frags g con)"
    using tunnel_packet_arrives(2) [OF assms(1,2,3,7,9) ts' assms(13-15) _ assms(17), of e'] assms(10,16) by auto
  then have "b_mgr bB = snd (RouteIncomingData (peer_known con) (te_netmap e') src ?sport ?dip ?dport Proto_Udp
      (Some data) (length data) (con_mgr con))"
    using assms(8,20) unfolding ProcessIpv4_udp [OF assms(9)] by (simp add: route_to_sockets_def peer_known_frags)
  then have "GetProxySocket fdB (b_mgr bB) = Some (sock_IncomingData (Some data) (length data) ?frm sB)"
    using RouteIncomingData_delivers [of "con_mgr con" fdB sB ?dip ?dport Proto_Udp "peer_known con" src] assms(18)
    by (simp add: listens_def GetProxySocket_def peer_known_def)
  moreover have "sock_wf sB" using assms(18) mgr_wf_lookup by (auto simp: listens_def GetProxySocket_def)
  ultimately have "fst (RecvFrom eB fdB flagsB n 16 svcB bB) =
      answer [int (min n (length data)), 0, 16] [take n data, enc_SockAddrIn ?frm]"
    using assms(9,18,21) by (intro RecvFrom_first [of fdB bB data ?frm sB]) (simp_all add: listens_def)
  with rA from_addr_decode [OF assms(19), of src ?sport] show ?thesis by blast
qed

definition lan_mgr :: "int \<Rightarrow> wire ProxySocketManager" where
  "lan_mgr fd = on_socket fd (\<lambda>s. snd (sock_Bind (any_port 30000) s))
     (snd (CreateProxySocket fd Dgram Proto_Udp (register_callbacks (tun_callback Tunnel_Path.sample_env) new_manager)))"

definition lan_bsd :: "int \<Rightarrow> wire ProxySocketManager \<Rightarrow> wire bsd" where
  "lan_bsd fd m = (new_bsd m new_LdnControl \<lparr>w_tun = new_Tunnel\<lparr>g_local_ip := 0x0A0D0005\<rparr>, w_out = []\<rparr>)
     \<lparr>g_socket_info := [(fd, sample_info\<lparr>si_is_proxy := True\<rparr>)]\<rparr>"

definition lan_env :: "wire bsd_env" where
  "lan_env = \<lparr>be_fwd = (\<lambda>q w. (\<lparr>fr_rc = 0, fr_words = [], fr_bufs = []\<rparr>, w)), be_wait = (\<lambda>s. (False, s)),
     be_nifm = nifm_ok, be_ip_config = None\<rparr>"

definition lan_socket :: ProxySocket where
  "lan_socket = (new_ProxySocket Dgram Proto_Udp)\<lparr>m_local_addr := any_port 30000, m_state := Bound\<rparr>"

lemma lan_mgr_socket: "m_sockets (lan_mgr fd) = [(fd, lan_socket)]" "m_send_callback (lan_mgr fd) = Some (tun_callback Tunnel_Path.sample_env)"
  by (simp_all add: lan_mgr_def on_socket_def update_socket_def CreateProxySocket_def register_callbacks_def new_manager_def
      SetProxyConnectCallback_def SetProxyConnectReplyCallback_def SetProxyDisconnectCallback_def SetSendCallback_def
      MAX_PROXY_SOCKETS_def sock_Bind_def lan_socket_def) (simp_all add: new_ProxySocket_def)

lemma lan_mgr_wf: "mgr_wf (lan_mgr fd)"
proof -
  have "mgr_wf (register_callbacks (tun_callback Tunnel_Path.sample_env) new_manager)"
    by (rule mgr_wf_frame [OF mgr_wf_new])
      (simp_all add: register_callbacks_def SetProxyConnectCallback_def SetProxyConnectReplyCallback_def
        SetProxyDisconnectCallback_def SetSendCallback_def mgr_wf_pool [OF mgr_wf_new])
  then show ?thesis unfolding lan_mgr_def by (intro mgr_wf_on_socket mgr_wf_Create sock_wf_Bind)
qed

definition peer_addr :: SockAddrIn where "peer_addr = route_from_addr netmap_init 0x0A0D0009 30000"

lemma peer_addr: "addr_in (Some (enc_SockAddrIn peer_addr)) = Some peer_addr" "GetAddr peer_addr = 0x0A0D0009" "GetPort peer_addr = 30000"
proof -
  have h: "\<not> HasRealAddress netmap_init" by (simp add: HasRealAddress_def netmap_init_def)
  have "SockAddrIn_ok peer_addr"
    by (simp add: peer_addr_def route_from_addr_def Let_def SockAddrIn_ok_def SetAddr_def inet_any_def zero_SockAddrIn_def)
  then show "addr_in (Some (enc_SockAddrIn peer_addr)) = Some peer_addr" by (simp add: addr_in_def sa.enc_length sa.dec_enc_Nil)
  show "GetAddr peer_addr = 0x0A0D0009" "GetPort peer_addr = 30000" using from_addr_decode [OF h] by (simp_all add: peer_addr_def)
qed

definition lan_con :: "int \<Rightarrow> wire Console" where
  "lan_con fd = new_Console\<lparr>con_mgr := lan_mgr fd\<rparr>"

lemma any_port_numeric [simp]: "Numeric (Addr (any_port p)) = 0"
  by (simp add: any_port_def inet_any_def zero_SockAddrIn_def Addr_def FromNetwork_def Numeric_def)

lemma lan_listens: "listens fd lan_socket sip 0x0A0D0009 30000 (lan_con fd)"
proof -
  have "dest_matches 0x0A0D0009 30000 Proto_Udp lan_socket"
    by (simp add: dest_matches_def lan_socket_def Let_def) (simp add: new_ProxySocket_def)
  moreover have "rx_queue lan_socket = []" by (simp add: lan_socket_def rx.contents_def) (simp add: new_ProxySocket_def)
  moreover have "\<not> m_shutdown_read lan_socket" "m_state lan_socket \<noteq> Closed"
    by (simp_all add: lan_socket_def) (simp add: new_ProxySocket_def)
  ultimately show ?thesis
    by (simp add: listens_def lan_con_def lan_mgr_wf GetProxySocket_def lan_mgr_socket FindAll_eq kMaxSockets_def IsLanModePort_def)
qed

lemma lan_can_send: "can_send fd lan_socket (lan_bsd fd (lan_mgr fd))"
  by (simp add: can_send_def lan_bsd_def new_bsd_def tracked_proxy_def info_of_def GetProxySocket_def lan_mgr_socket HasRealAddress_def
      netmap_init_def lan_socket_def) (simp add: new_ProxySocket_def)

theorem datagram_end_to_end_witness:
  "\<exists>r svc' b' x y frm. SendTo lan_env 3 0 (Some (replicate 1500 7)) (Some (enc_SockAddrIn peer_addr)) sample_svc (lan_bsd 3 (lan_mgr 3)) =
       (r, svc', b') \<and> r = answer [1500, 0] [] \<and> w_out (b_world b') = [Relay x, Relay y] \<and>
     fst (RecvFrom lan_env 4 0 2000 16 sample_svc
       (lan_bsd 4 (con_mgr (fst (recv_frames Tunnel_Path.sample_env [(9, snd (snd y)), (9, snd (snd x))] (lan_con 4)))))) =
     answer [1500, 0, 16] [replicate 1500 7, enc_SockAddrIn frm] \<and> GetAddr frm = 0x0A0D0005 \<and> GetPort frm = 30000"
proof -
  let ?d = "replicate 1500 (7 :: u8)" and ?b = "lan_bsd 3 (lan_mgr 3)" and ?e = Tunnel_Path.sample_env
  let ?t = "w_tun (b_world ?b)"
  have e: "te_running ?e" "cl_fd (te_client ?e) \<ge> 0" "\<And>buf. te_sendto ?e (cl_fd (te_client ?e)) buf" "\<not> HasRealAddress (te_netmap ?e)"
    by (simp_all add: Tunnel_Path.sample_env_def HasRealAddress_def netmap_init_def)
  have cb: "m_send_callback (b_mgr ?b) = Some (tun_callback ?e)" "b_mgr ?b = lan_mgr 3"
    by (simp_all add: lan_bsd_def new_bsd_def lan_mgr_socket)
  have t: "?t = new_Tunnel\<lparr>g_local_ip := 0x0A0D0005\<rparr>" "w_out (b_world ?b) = []" by (simp_all add: lan_bsd_def new_bsd_def)
  have la: "Numeric (Addr (m_local_addr lan_socket)) = 0" "GetPort (m_local_addr lan_socket) = 30000"
    by (simp_all add: lan_socket_def)
  have d: "length ?d \<le> 2000" "GetAddr peer_addr AND 0xFF000000 \<noteq> 0x7F000000" "GetPort peer_addr \<noteq> ControlPort"
    by (simp_all add: peer_addr ControlPort_def)
  obtain r svc' b' where st: "SendTo lan_env 3 0 (Some ?d) (Some (enc_SockAddrIn peer_addr)) sample_svc ?b = (r, svc', b')"
    by (rule prod_cases3)
  define p where "p = udp_packet 0x0A0D0005 30000 0x0A0D0009 30000 (g_ip_id new_Tunnel) ?d"
  have np: "parts p = 2" by (simp add: p_def parts_def length_udp_packet SLP_MTU_def)
  define mk where "mk f = (server_ip (te_client ?e), server_port (te_client ?e), f)" for f :: bytes
  let ?x = "mk (frag_frame p 0)" and ?y = "mk (frag_frame p 1)"
  have up: "[0..<2] = [0, Suc 0]" by (simp add: upt_rec)
  have "w_out (b_world b') = map Relay [?x, ?y]"
    using SendTo_tunnels [OF lan_can_send cb(1) peer_addr(1) d(1) tun_Send_frames [OF e(1-3) d(2,1)], of lan_env 0 sample_svc] st
    by (auto simp: t la peer_addr p_def [symmetric] np up mk_def)
  then have w: "w_out (b_world b') = w_out (b_world ?b) @ map Relay [?x, ?y]" by (simp add: t)
  have ord: "distinct (map snd ([(9, 1)] @ [(9::int, 0::nat)]))" "set (map snd ([(9, 1)] @ [(9::int, 0::nat)])) = {..<length [?x, ?y]}"
    "\<forall>a \<in> set ([(9, 1)] @ [(9::int, 0::nat)]). 9 \<le> fst a \<and> fst a \<le> 9 + FragTimeoutTicks"
    by (auto simp: FragTimeoutTicks_def)
  have g: "\<forall>f \<in> set (g_frags (con_tun (lan_con 4))). fe_last_tick f < INT64_MAX \<and> \<not> frag_key 0x0A0D0005 (g_ip_id ?t) f"
    "length (g_frags (con_tun (lan_con 4))) = MaxFragEntries"
    by (simp_all add: lan_con_def new_Console_def new_Tunnel_def zero_FragEntry_def INT64_MAX_def frag_key_def)
  have src: "(0x0A0D0005 :: u32) = (if Numeric (Addr (m_local_addr lan_socket)) = 0 then g_local_ip ?t
      else Numeric (Addr (m_local_addr lan_socket)))" by (simp add: la t)
  have "b_mgr (lan_bsd 4 m) = m" "tracked_proxy 4 (lan_bsd 4 m)" for m
    by (simp_all add: lan_bsd_def new_bsd_def tracked_proxy_def info_of_def)
  note E = datagram_end_to_end [OF e(1-3) lan_can_send cb(1) peer_addr(1) d(2,3,1) src st w ord g
      lan_listens [of 4 "0x0A0D0005", folded peer_addr(2,3)] e(4) this, of lan_env 0 2000 sample_svc]
  have eq: "map (\<lambda>(t, i). (t, snd (snd ([?x, ?y] ! i)))) ([(9, 1)] @ [(9::int, 0)]) = [(9, snd (snd ?y)), (9, snd (snd ?x))]"
    by simp
  have n: "int (min 2000 (length ?d)) = 1500" "take 2000 ?d = ?d" "int (length ?d) = 1500" by simp_all
  from E [unfolded eq n la(2)] st w [unfolded t(2)] show ?thesis by (simp only: append_Nil list.map) blast
qed

end
