(* ===== verification/Overlay.thy ===== *)
theory Overlay
  imports Runtime_Props
begin

text \<open>
  The overlay application (\<^verbatim>\<open>overlay/source/main.cpp\<close>, \<^verbatim>\<open>servers.c\<close>, \<^verbatim>\<open>slpcfg.c\<close>): its own reader of the server list and
  the actions behind its buttons, as calls of the configuration service of \<open>Runtime\<close>. The overlay and the
  sysmodule read the same file and exchange only an index, so what matters is that both lists agree.

  Drawing, the flag file's path and the connection to the service manager are left out.
\<close>

section \<open>The overlay's server list\<close>

record OvServer =
  ov_name :: bytes
  ov_host :: bytes
  ov_port :: u16

definition ov_make_server :: "bytes \<Rightarrow> bytes \<Rightarrow> int \<Rightarrow> OvServer option" where
  "ov_make_server name host port =
     (if port < 1 \<or> port > 65535 then None
      else Some \<lparr>ov_name = take (SLPCFG_NAME_MAX - 1) name, ov_host = take (SLPCFG_HOST_MAX - 1) host, ov_port = of_int port\<rparr>)"

definition ov_parse_line :: "bytes \<Rightarrow> OvServer option" where
  "ov_parse_line line0 =
     (let line = trim (takeWhile (\<lambda>c. c \<noteq> 35) (c_str line0))
      in if line = [] then None
         else
           (let ws = scan_words [31, 127, 7] line
            in if length ws = 3 then ov_make_server (ws ! 0) (ws ! 1) (strtol (ws ! 2))
               else
                 (let vs = scan_words [31, 127] line
                  in if length vs = 2 then
                       (case split_colon (vs ! 1) of
                          Some (h, p) \<Rightarrow> ov_make_server (vs ! 0) h (strtol p)
                        | None \<Rightarrow> ov_make_server (vs ! 0) (vs ! 1) 11451)
                     else None)))"

function ov_parse_lines :: "nat \<Rightarrow> bytes \<Rightarrow> OvServer list" where
  "ov_parse_lines n p =
     (if n < SLPCFG_MAX_SERVERS \<and> p \<noteq> [] then
        (let line = takeWhile (\<lambda>c. c \<noteq> 10) p;
             got = (case ov_parse_line (take (LINE_SIZE - 1) line) of None \<Rightarrow> [] | Some s \<Rightarrow> [s])
         in if length line = length p then got
            else got @ ov_parse_lines (n + length got) (drop (length line + 1) p))
      else [])"
  by pat_completeness auto
termination
  by (relation "measure (\<lambda>(_, p). length p)") (auto simp: diff_less_mono2)

declare ov_parse_lines.simps [simp del]

definition ov_slpServersParse :: "bytes \<Rightarrow> OvServer list" where
  "ov_slpServersParse t = ov_parse_lines 0 t"

definition ov_slpServersLoad :: "bytes option \<Rightarrow> OvServer list \<Rightarrow> nat \<times> OvServer list" where
  "ov_slpServersLoad file old =
     (case file of
        None \<Rightarrow> (0, old)
      | Some txt \<Rightarrow>
          (let l = ov_slpServersParse (take (SLPCFG_MAX_SERVERS * LINE_SIZE - 1) txt) in (length l, l)))"

definition ov_slpServersGet :: "int \<Rightarrow> OvServer list \<Rightarrow> OvServer option" where
  "ov_slpServersGet index l = (if index < 0 \<or> index \<ge> int (length l) then None else Some (l ! nat index))"

section \<open>Actions\<close>

text \<open>The overlay's globals. \<open>g_have_svc\<close> says that the configuration service was reached.\<close>

record overlay =
  g_ov_servers :: "OvServer list"
  g_have_svc :: bool
  g_state_val :: u32
  g_sel_val :: u32
  g_launch_enabled :: bool

definition initServices :: "bool \<Rightarrow> bool \<Rightarrow> 'w app \<Rightarrow> overlay" where
  "initServices have flag a = \<lparr>g_ov_servers = snd (ov_slpServersLoad (a_config a) []), g_have_svc = have,
     g_state_val = 0, g_sel_val = 0, g_launch_enabled = flag\<rparr>"

text \<open>\<open>answers\<close> is whether the state query succeeds.\<close>

definition ov_refresh :: "bool \<Rightarrow> 'w app \<Rightarrow> overlay \<Rightarrow> overlay" where
  "ov_refresh answers a ov =
     (if \<not> g_have_svc ov \<or> \<not> answers then ov
      else (let (state, sel, _) = cfg_GetState 16 a in ov\<lparr>g_state_val := state, g_sel_val := sel\<rparr>))"

text \<open>The row of the main page: the name of the server whose index the service reported.\<close>

definition serverRow :: "overlay \<Rightarrow> bytes option" where
  "serverRow ov = map_option ov_name (ov_slpServersGet (sint (g_sel_val ov)) (g_ov_servers ov))"

definition ov_restart :: "rt_env \<Rightarrow> 'w app \<Rightarrow> 'w app \<times> relay_out list" where
  "ov_restart e a = (let (_, a1) = cfg_Stop a; (_, a2, outs) = cfg_Start e a1 in (a2, outs))"

definition click_server :: "rt_env \<Rightarrow> nat \<Rightarrow> overlay \<times> 'w app \<Rightarrow> (overlay \<times> 'w app) \<times> relay_out list" where
  "click_server e index st =
     (let (ov, a) = st
      in if \<not> g_have_svc ov then (st, [])
         else
           (let (_, a1) = cfg_SelectServer (of_nat index) a;
                (a2, outs) = (if g_state_val ov = 1 then ov_restart e a1 else (a1, []))
            in ((ov\<lparr>g_sel_val := of_nat index\<rparr>, a2), outs)))"

text \<open>The boot flag: whether the file exists after the toggle, given what creating and removing it do; the
  cached value is re-read.\<close>

definition SetModuleLaunchEnabled :: "bool \<Rightarrow> bool \<Rightarrow> bool \<Rightarrow> bool \<Rightarrow> overlay \<Rightarrow> bool \<times> overlay" where
  "SetModuleLaunchEnabled can_create can_remove enable exists0 ov =
     (let exists1 = (if enable then exists0 \<or> can_create else exists0 \<and> \<not> can_remove)
      in (exists1, ov\<lparr>g_launch_enabled := exists1\<rparr>))"

section \<open>The two readers agree\<close>

text \<open>What the overlay shows of a server.\<close>

definition shown :: "SlpServer \<Rightarrow> OvServer" where
  "shown s = \<lparr>ov_name = sv_name s, ov_host = sv_host s, ov_port = sv_port s\<rparr>"

definition port_third :: "bytes \<Rightarrow> bool" where
  "port_third line0 =
     (let ws = scan_words [31, 127, 7] (trim (takeWhile (\<lambda>c. c \<noteq> 35) (c_str line0)))
      in length ws < 3 \<or> is_digit (ws ! 2 ! 0))"

function lines_of :: "bytes \<Rightarrow> bytes list" where
  "lines_of p =
     (if p = [] then []
      else (let line = takeWhile (\<lambda>c. c \<noteq> 10) p
            in if length line = length p then [line] else line # lines_of (drop (length line + 1) p)))"
  by pat_completeness auto
termination
  by (relation "measure length") (auto simp: diff_less_mono2)

declare lines_of.simps [simp del]

lemma scan_words_append: "k = length ns \<Longrightarrow> scan_words ns s = take k (scan_words (ns @ ms) s)"
  by (induction ns arbitrary: s k) (auto split: option.split)

lemma scan_word_blank: "scan_word n s = None \<longleftrightarrow> n = 0 \<or> dropWhile is_space s = []"
proof (cases "dropWhile is_space s")
  case Nil
  then show ?thesis by (simp only: scan_word_def Let_def Nil) simp
next
  case (Cons c cs)
  then have "\<not> is_space c" by (metis hd_dropWhile list.sel(1) list.discI)
  with Cons show ?thesis by (cases n) (simp_all add: scan_word_def)
qed

lemma scan_words_short:
  assumes "length (scan_words [31, 127, 7] s) < 3"
  shows "scan_words [31, 127, 63, 63] s = scan_words [31, 127] s"
proof -
  have "scan_word 63 d = None" if "scan_word 7 d = None" for d using that unfolding scan_word_blank by simp
  with assms show ?thesis by (auto split: option.splits)
qed

lemma shown_make: "map_option shown (make_server n h p u pw) = ov_make_server n h p"
  by (simp add: make_server_def ov_make_server_def shown_def)

lemma parse_line_shown:
  assumes "port_third l" shows "map_option shown (parse_line l) = ov_parse_line l"
proof -
  define line where "line = trim (takeWhile (\<lambda>c. c \<noteq> 35) (c_str l))"
  define ws where "ws = scan_words [31, 127, 7, 63, 63] line"
  have w3: "scan_words [31, 127, 7] line = take 3 ws"
    using scan_words_append [of 3 "[31, 127, 7]" line "[63, 63]"] by (simp add: ws_def del: scan_words.simps)
  have v2: "scan_words [31, 127] line = take 2 ws"
    using scan_words_append [of 2 "[31, 127]" line "[7, 63, 63]"] by (simp add: ws_def del: scan_words.simps)
  have pt: "length ws < 3 \<or> is_digit (ws ! 2 ! 0)"
    using assms unfolding port_third_def line_def [symmetric] Let_def w3 by auto
  show ?thesis
  proof (cases "length ws \<ge> 3")
    case True
    then have "parse_line l = (if line = [] then None
        else make_server (ws ! 0) (ws ! 1) (strtol (ws ! 2)) (word_at 3 ws) (word_at 4 ws))"
      using pt unfolding parse_line_def line_def [symmetric] Let_def ws_def [symmetric] by simp
    moreover have "ov_parse_line l = (if line = [] then None else ov_make_server (ws ! 0) (ws ! 1) (strtol (ws ! 2)))"
      using True unfolding ov_parse_line_def line_def [symmetric] Let_def w3 by simp
    ultimately show ?thesis by (simp add: shown_make)
  next
    case False
    then have "length (scan_words [31, 127, 7] line) < 3" by (simp add: w3 del: scan_words.simps)
    from trans [OF scan_words_short [OF this] v2] have v: "scan_words [31, 127, 63, 63] line = take 2 ws" .
    have "length (take 2 ws) \<le> 2" by simp
    then show ?thesis
      using False unfolding parse_line_def ov_parse_line_def line_def [symmetric] Let_def w3 v v2 ws_def [symmetric]
      by (auto simp: shown_make split: option.split)
  qed
qed

lemma parse_lines_shown:
  assumes "list_all (\<lambda>l. port_third (take (LINE_SIZE - 1) l)) (lines_of p)"
  shows "map shown (parse_lines n p) = ov_parse_lines n p"
  using assms
proof (induction n p rule: parse_lines.induct)
  case (1 n p)
  show ?case
  proof (cases "n < SLPCFG_MAX_SERVERS \<and> p \<noteq> []")
    case True
    define line where "line = takeWhile (\<lambda>c. c \<noteq> 10) p"
    define got where "got = (case parse_line (take (LINE_SIZE - 1) line) of None \<Rightarrow> [] | Some s \<Rightarrow> [s])"
    define ogot where "ogot = (case ov_parse_line (take (LINE_SIZE - 1) line) of None \<Rightarrow> [] | Some s \<Rightarrow> [s])"
    have lines: "lines_of p = (if length line = length p then [line] else line # lines_of (drop (length line + 1) p))"
      by (subst lines_of.simps) (simp only: True line_def Let_def simp_thms if_False)
    have "port_third (take (LINE_SIZE - 1) line)" using "1.prems" unfolding lines by (simp split: if_splits)
    then have g: "ogot = map shown got"
      by (simp only: ogot_def got_def parse_line_shown [symmetric]) (simp split: option.split)
    have "map shown (parse_lines (n + length got) (drop (length line + 1) p)) =
        ov_parse_lines (n + length got) (drop (length line + 1) p)" if "length line \<noteq> length p"
      using "1.IH" [OF True line_def got_def that] "1.prems" that unfolding lines by simp
    moreover have "parse_lines n p = (if length line = length p then got else got @ parse_lines (n + length got) (drop (length line + 1) p))"
      by (subst parse_lines.simps) (simp only: True Let_def line_def got_def simp_thms if_True)
    moreover have "ov_parse_lines n p = (if length line = length p then ogot else ogot @ ov_parse_lines (n + length ogot) (drop (length line + 1) p))"
      by (subst ov_parse_lines.simps) (simp only: True Let_def line_def ogot_def simp_thms if_True)
    ultimately show ?thesis by (simp add: g)
  next
    case False
    then have "parse_lines n p = []" "ov_parse_lines n p = []"
      unfolding parse_lines.simps [of n p] ov_parse_lines.simps [of n p] by (simp_all only: if_False)
    then show ?thesis by simp
  qed
qed

section \<open>Selecting\<close>

lemma rt_Start_selection:
  "m_sel_index (a_rt (fst (snd (rt_Start e a)))) = m_sel_index (a_rt a)" "a_servers (fst (snd (rt_Start e a))) = a_servers a"
  by (auto simp: rt_Start_def Let_def split_beta split: option.split)

lemma ov_restart_selection:
  "m_sel_index (a_rt (fst (ov_restart e a))) = m_sel_index (a_rt a)" "a_servers (fst (ov_restart e a)) = a_servers a"
  by (simp_all add: ov_restart_def cfg_Stop_def cfg_Start_def split_beta Let_def rt_Start_selection)
    (simp_all add: rt_Stop_def Let_def)

lemma sint_index: "n \<le> 10 \<Longrightarrow> sint (of_nat n :: u32) = int n"
  by (simp add: signed_of_nat signed_take_bit_int_eq_self)

lemma click_selects:
  assumes "g_have_svc ov" and "index < length (a_servers a)" and "length (a_servers a) \<le> 10"
  shows "m_sel_index (a_rt (snd (fst (click_server e index (ov, a))))) = int index"
    "a_servers (snd (fst (click_server e index (ov, a)))) = a_servers a"
proof -
  have "sint (of_nat index :: u32) = int index"
    using assms(2,3) by (simp add: sint_index)
  then have "cfg_SelectServer (of_nat index) a = (Cfg_Success, a\<lparr>a_rt := (a_rt a)\<lparr>m_sel_index := int index\<rparr>\<rparr>)"
    using assms(2) by (simp add: cfg_SelectServer_def SelectServer_def slpServersCount_def)
  then show "m_sel_index (a_rt (snd (fst (click_server e index (ov, a))))) = int index"
    "a_servers (snd (fst (click_server e index (ov, a)))) = a_servers a"
    using assms(1) by (simp_all add: click_server_def split_beta Let_def ov_restart_selection)
qed

text \<open>C40: The user gets the server that was picked. Sysmodule and overlay read the same file (of at most 1679
  bytes) with two different parsers; when in every line the third word, if there is one, starts with a
  digit, they see the same names, hosts and ports in the same order, the server selected by a click is the one
  shown at that index, and the main page then shows its name, whether or not the relay connection is
  restarted on the way.\<close>

theorem overlay_selects_shown_server:
  assumes "a_config a = Some t" "t \<noteq> []" "length t < 1680" and "fe_read (re_fs e0) = Some"
    and "list_all (\<lambda>l. port_third (take (LINE_SIZE - 1) l)) (lines_of t)"
    and "a1 = snd (cfg_Reload e0 a)" and "ov = ov_refresh True a1 (initServices True flag a1)"
    and "index < length (g_ov_servers ov)" and "click_server e index (ov, a1) = ((ov', a2), outs)"
  shows "g_ov_servers ov = map shown (a_servers a2) \<and>
     (\<exists>s. slpServersGet (m_sel_index (a_rt a2)) (a_servers a2) = Some s \<and> shown s = g_ov_servers ov ! index \<and>
        serverRow (ov_refresh True a2 ov') = Some (sv_name s))"
proof -
  have "ReadConfigText (re_fs e0) (a_config a) 4096 = Some (t, length t)"
    using assms(1-4) by (simp add: ReadConfigText_def Let_def)
  then have a1: "a_servers a1 = slpServersParse t" "a_config a1 = Some t"
    using assms(1,6) by (simp_all add: cfg_Reload_def ReloadServers_def Let_def)
  have ov: "g_have_svc ov" "g_ov_servers ov = ov_slpServersParse t"
    using assms(3,7) a1(2) by (simp_all add: ov_refresh_def initServices_def split_beta Let_def ov_slpServersLoad_def
        SLPCFG_MAX_SERVERS_def LINE_SIZE_def SLPCFG_NAME_MAX_def SLPCFG_HOST_MAX_def)
  have sh: "g_ov_servers ov = map shown (a_servers a1)"
    using parse_lines_shown [OF assms(5)] ov(2) a1(1) by (simp add: slpServersParse_def ov_slpServersParse_def)
  have len: "length (a_servers a1) \<le> 10" "index < length (a_servers a1)"
    using parse_lines_bounds [of 0 t] a1(1) sh assms(8) by (simp_all add: slpServersParse_def SLPCFG_MAX_SERVERS_def)
  have sel: "m_sel_index (a_rt a2) = int index" "a_servers a2 = a_servers a1"
    using click_selects [OF ov(1) len(2,1), of e] assms(9) by simp_all
  have ov': "g_have_svc ov'" "g_ov_servers ov' = g_ov_servers ov"
    using assms(9) ov(1) by (auto simp: click_server_def split_beta Let_def)
  have "serverRow (ov_refresh True a2 ov') = Some (ov_name (g_ov_servers ov ! index))"
    using len sh by (simp add: ov_refresh_def ov' cfg_GetState_def serverRow_def ov_slpServersGet_def sel sint_index)
  then show ?thesis
    using len sh by (simp add: sel slpServersGet_def slpServersCount_def shown_def)
qed

definition small_config :: bytes where
  "small_config = [99, 32, 103, 32, 53, 10]"

lemma small_lines:
  "list_all (\<lambda>l. port_third (take (LINE_SIZE - 1) l)) (lines_of small_config)" "length (ov_slpServersParse small_config) = 1"
  by code_simp+

definition small_app :: "unit app" where
  "small_app = new_app (Some small_config) None sample_con"

theorem overlay_selects_shown_server_witness:
  "let a1 = snd (cfg_Reload sample_rt_env small_app); ov = ov_refresh True a1 (initServices True False a1);
     a2 = snd (fst (click_server sample_rt_env 0 (ov, a1)))
   in \<exists>s. slpServersGet (m_sel_index (a_rt a2)) (a_servers a2) = Some s \<and> shown s = g_ov_servers ov ! 0"
proof -
  define a1 where "a1 = snd (cfg_Reload sample_rt_env small_app)"
  define ov where "ov = ov_refresh True a1 (initServices True False a1)"
  obtain ov' a2 outs where c: "click_server sample_rt_env 0 (ov, a1) = ((ov', a2), outs)" by (metis prod.collapse)
  have a: "a_config small_app = Some small_config" "small_config \<noteq> []" "length small_config < 1680"
    by (simp_all add: small_app_def new_app_def small_config_def)
  have f: "fe_read (re_fs sample_rt_env) = Some" by (simp add: sample_rt_env_def good_fs_def)
  have "a_config a1 = Some small_config" using a(1) by (simp add: a1_def cfg_Reload_def ReloadServers_def Let_def split: option.split)
  then have "g_ov_servers ov = ov_slpServersParse small_config"
    using a(3) by (simp add: ov_def ov_refresh_def initServices_def split_beta Let_def
        ov_slpServersLoad_def SLPCFG_MAX_SERVERS_def LINE_SIZE_def SLPCFG_NAME_MAX_def SLPCFG_HOST_MAX_def)
  then have "0 < length (g_ov_servers ov)" using small_lines(2) by simp
  from overlay_selects_shown_server [OF a f small_lines(1) a1_def ov_def this c] show ?thesis
    unfolding Let_def a1_def [symmetric] ov_def [symmetric] by (auto simp: c)
qed

text \<open>Without that condition the lists differ: a login without a separate port (\<^verbatim>\<open>a h bob\<close>, a documented form of the
  sysmodule) is a server for the sysmodule and none for the overlay, and every later index is off by one.\<close>

definition login_config :: bytes where
  "login_config = [97, 32, 104, 32, 98, 111, 98, 10, 99, 32, 103, 32, 53, 10]"

lemma login_line_shifts_indices:
  "map sv_name (slpServersParse login_config) = [[97], [99]]" "map ov_name (ov_slpServersParse login_config) = [[99]]"
  by code_simp+

end
