(* ===== verification/Overlay_Gui.thy ===== *)
theory Overlay_Gui
  imports Overlay
begin

text \<open>
  The pages of the overlay (\<^verbatim>\<open>overlay/source/main.cpp\<close>) and its connection to the configuration service
  (\<^verbatim>\<open>overlay/source/slpcfg.c\<close>): which rows a page has, what they show after a refresh, and what a button press
  does to the runtime of \<open>Runtime\<close>. The lemmas show that the overlay never waits for a service that is not
  there, that the boot switch is on every main page, and that the status row tells the truth.

  The widget library is left out: a widget is the text it shows and whether it is drawn faint, \<open>None\<close> where
  the pointer is null. Answers of the service manager are the record \<open>sm_answers\<close>; a result is zero on success.
\<close>

section \<open>Reaching the service\<close>

record sm_answers =
  sm_hos12 :: bool
  sm_tipc :: "u32 \<times> u8"
  sm_cmif :: "u32 \<times> u8"
  sm_get :: u32
  sm_version_ok :: bool

datatype sm_call = Has_Service | Get_Service

text \<open>The result and the flag, which keeps its value when the request fails.\<close>

definition slpAtmosphereHasService :: "sm_answers \<Rightarrow> bool \<Rightarrow> u32 \<times> bool" where
  "slpAtmosphereHasService sm out =
     (let (rc, tmp) = (if sm_hos12 sm then sm_tipc sm else sm_cmif sm)
      in (rc, if rc = 0 then tmp \<noteq> 0 else out))"

definition slpCfgGetConfig :: "u32 \<Rightarrow> sm_answers \<Rightarrow> u32 \<times> sm_call list" where
  "slpCfgGetConfig not_installed sm =
     (let (rc, has_service) = slpAtmosphereHasService sm False
      in if rc \<noteq> 0 then (rc, [Has_Service])
         else if \<not> has_service then (not_installed, [Has_Service])
         else (sm_get sm, [Has_Service, Get_Service]))"

text \<open>The remaining globals.\<close>

record helper =
  h_ov :: overlay
  g_cfg_error :: u32
  g_version :: string

definition helper_initServices :: "u32 \<Rightarrow> sm_answers \<Rightarrow> bool \<Rightarrow> 'w app \<Rightarrow> helper \<times> sm_call list" where
  "helper_initServices not_installed sm flag a =
     (let (rc, calls) = slpCfgGetConfig not_installed sm;
          have = (rc = 0)
      in (\<lparr>h_ov = initServices have flag a, g_cfg_error = rc,
           g_version = (if have \<and> sm_version_ok sm then to_string (c_str (cfg_GetVersion 32)) else ''?'')\<rparr>, calls))"

text \<open>Asking the service manager for a name that is not registered never returns; the overlay asks only after
  the manager has answered that the name is there.\<close>

lemma asks_only_registered:
  assumes "slpCfgGetConfig not_installed sm = (rc, calls)" and "Get_Service \<in> set calls"
  shows "(if sm_hos12 sm then sm_tipc sm else sm_cmif sm) = (0, snd (if sm_hos12 sm then sm_tipc sm else sm_cmif sm))"
    "snd (if sm_hos12 sm then sm_tipc sm else sm_cmif sm) \<noteq> 0"
  using assms by (auto simp: slpCfgGetConfig_def slpAtmosphereHasService_def Let_def split_beta prod_eq_iff split: if_splits)

section \<open>The main page\<close>

type_synonym widget = "(string \<times> bool) option"

definition setValue :: "string \<Rightarrow> bool \<Rightarrow> widget \<Rightarrow> widget" where
  "setValue v faint w = (case w of None \<Rightarrow> None | Some _ \<Rightarrow> Some (v, faint))"

record MainGui =
  m_frame :: "string option"
  m_status :: widget
  m_launchToggle :: widget
  m_serverRow :: widget
  m_frameCount :: u32

definition new_MainGui :: MainGui where
  "new_MainGui = \<lparr>m_frame = None, m_status = None, m_launchToggle = None, m_serverRow = None, m_frameCount = 0\<rparr>"

definition state_text :: "u32 \<Rightarrow> string \<Rightarrow> string" where
  "state_text state ip =
     (if state = 0 then ''Stopped''
      else if state = 1 then ''Running'' @ (if ip \<noteq> [] then ''  '' @ ip else [])
      else ''Unknown'')"

text \<open>The separator of the subtitle (two blanks, a middle dot in UTF-8, two blanks).\<close>

definition dot_text :: string where
  "dot_text = ''  '' @ map char_of [0xC2, 0xB7 :: nat] @ ''  ''"

text \<open>\<open>answers\<close> is whether the state query succeeds.\<close>

definition gui_refresh :: "bool \<Rightarrow> 'w app \<Rightarrow> helper \<times> MainGui \<Rightarrow> helper \<times> MainGui" where
  "gui_refresh answers a hg =
     (let (h, g0) = hg;
          on = g_launch_enabled (h_ov h);
          g = g0\<lparr>m_launchToggle := setValue (if on then ''Enabled'' else ''Disabled'') (\<not> on) (m_launchToggle g0)\<rparr>
      in if \<not> g_have_svc (h_ov h) then (h, g)
         else if \<not> answers then (h, g\<lparr>m_status := setValue ''service lost'' True (m_status g)\<rparr>)
         else
           (let (state, sel, ip) = cfg_GetState 16 a;
                ov = ov_refresh answers a (h_ov h);
                srv = ov_slpServersGet (sint sel) (g_ov_servers ov);
                g1 = g\<lparr>m_status := setValue (state_text state (to_string (c_str ip))) (state \<noteq> 1) (m_status g),
                       m_serverRow := setValue (case srv of Some s \<Rightarrow> to_string (ov_name s) | None \<Rightarrow> ''none'')
                         (srv = None) (m_serverRow g),
                       m_frame := (case m_frame g of None \<Rightarrow> None
                         | Some _ \<Rightarrow> Some (g_version h @ (case srv of Some s \<Rightarrow> dot_text @ to_string (ov_host s) | None \<Rightarrow> [])))\<rparr>
            in (h\<lparr>h_ov := ov\<rparr>, g1)))"

datatype item = Header string | Label string | Value string string | Status_Row | Action string | Server_Row | Boot_Toggle

definition AddBootToggle :: "item list \<Rightarrow> MainGui \<Rightarrow> item list \<times> MainGui" where
  "AddBootToggle list g = (list @ [Header ''Boot'', Boot_Toggle, Label ''(reboot to apply)''], g\<lparr>m_launchToggle := Some ([], False)\<rparr>)"

definition BuildNotRunningUI :: "u32 \<Rightarrow> (u32 \<Rightarrow> string) \<Rightarrow> helper \<Rightarrow> item list \<Rightarrow> MainGui \<Rightarrow> item list \<times> MainGui" where
  "BuildNotRunningUI not_installed hex h list g =
     AddBootToggle
       (list @
        (if g_cfg_error h = not_installed then
           [Header ''Sysmodule not running'', Label ''sys-slp-client isn't installed'', Label ''or hasn't started yet.'',
            Header ''To fix'', Label ''1. Install exefs.nsp under'', Label ''   contents/4200000000000011/'',
            Label (''2. Enable '' @ [CHR 0x27] @ ''Launch at boot'' @ [CHR 0x27]), Label ''3. Reboot the console'']
         else [Header ''slp:cfg unavailable'', Label (''connect failed 0x'' @ hex (g_cfg_error h)), Label ''Try rebooting the console.'']))
       g"

definition SERVERS_CONF :: string where
  "SERVERS_CONF = ''sdmc:/config/slp-helper/servers.conf''"

text \<open>\<open>hex\<close> is the hexadecimal rendering of a result.\<close>

definition gui_createUI :: "u32 \<Rightarrow> (u32 \<Rightarrow> string) \<Rightarrow> bool \<Rightarrow> 'w app \<Rightarrow> helper \<times> MainGui \<Rightarrow> item list \<times> helper \<times> MainGui" where
  "gui_createUI not_installed hex answers a hg =
     (let (h, g0) = hg; g = g0\<lparr>m_frame := Some (g_version h)\<rparr>
      in if \<not> g_have_svc (h_ov h) then
           (let (list, g1) = BuildNotRunningUI not_installed hex h [] g in (list, gui_refresh answers a (h, g1)))
         else
           (let controls = [Status_Row, Header ''Controls'', Action ''Start'', Action ''Stop'', Action ''Restart'', Header ''Server''];
                none = (g_ov_servers (h_ov h) = []);
                rows = (if none then [Value ''Selected'' ''none configured'', Label SERVERS_CONF] else [Server_Row]);
                g1 = g\<lparr>m_status := Some ([], False), m_serverRow := (if none then m_serverRow g else Some ([], False))\<rparr>;
                (list, g2) = AddBootToggle (controls @ rows) g1
            in (list, gui_refresh answers a (h, g2))))"

definition gui_update :: "bool \<Rightarrow> 'w app \<Rightarrow> helper \<times> MainGui \<Rightarrow> helper \<times> MainGui" where
  "gui_update answers a hg =
     (let (h, g) = hg; n = m_frameCount g + 1; g1 = g\<lparr>m_frameCount := n\<rparr>
      in if n mod 30 = 0 then gui_refresh answers a (h, g1) else (h, g1))"

section \<open>Buttons\<close>

datatype action = Act_Start | Act_Stop | Act_Restart

fun run_action :: "rt_env \<Rightarrow> action \<Rightarrow> 'w app \<Rightarrow> 'w app \<times> relay_out list" where
  "run_action e Act_Start a = (let (_, a1, outs) = cfg_Start e a in (a1, outs))"
| "run_action e Act_Stop a = (let (_, a1) = cfg_Stop a in (a1, []))"
| "run_action e Act_Restart a = ov_restart e a"

text \<open>The listener of an action: whether it consumed the key, and the state. \<open>key_A\<close> is whether the bit of the A
  button is set in the pressed keys.\<close>

definition press_action :: "rt_env \<Rightarrow> bool \<Rightarrow> action \<Rightarrow> bool \<Rightarrow> (helper \<times> MainGui) \<times> 'w app \<Rightarrow>
    bool \<times> ((helper \<times> MainGui) \<times> 'w app) \<times> relay_out list" where
  "press_action e answers act key_A st =
     (let (hg, a) = st
      in if key_A then
           (let (a1, outs) = run_action e act a in (True, (gui_refresh answers a1 hg, a1), outs))
         else (False, st, []))"

definition press_toggle :: "bool \<Rightarrow> bool \<Rightarrow> bool \<Rightarrow> 'w app \<Rightarrow> bool \<Rightarrow> bool \<times> helper \<times> MainGui \<Rightarrow> bool \<times> bool \<times> helper \<times> MainGui" where
  "press_toggle can_create can_remove answers a key_A st =
     (let (exists0, h, g) = st
      in if key_A then
           (let (exists1, ov) = SetModuleLaunchEnabled can_create can_remove (\<not> g_launch_enabled (h_ov h)) exists0 (h_ov h)
            in (True, exists1, gui_refresh answers a (h\<lparr>h_ov := ov\<rparr>, g)))
         else (False, st))"

section \<open>The server page\<close>

definition bullet_text :: string where
  "bullet_text = map char_of [0xE2, 0x97, 0x8F :: nat] @ '' ''"

text \<open>The rows: name, address with a mark at the selected one, and whether it is drawn faint.\<close>

definition server_page :: "overlay \<Rightarrow> (string \<times> string \<times> bool) list option" where
  "server_page ov =
     (if g_ov_servers ov = [] then None
      else Some (map (\<lambda>(i, s). let selected = (of_nat i = g_sel_val ov)
                              in (to_string (ov_name s),
                                  (if selected then bullet_text else []) @ to_string (ov_host s) @ '':'' @ to_string (dec (unat (ov_port s))),
                                  \<not> selected))
            (enumerate 0 (take SLPCFG_MAX_SERVERS (g_ov_servers ov)))))"

section \<open>What the user sees\<close>

text \<open>The switch for launching at boot is on the page whether or not the sysmodule is running, and shows the
  flag read from the card.\<close>

lemma boot_toggle_reachable:
  assumes "gui_createUI ni hex answers a (h, g) = (items, h', g')"
  shows "Boot_Toggle \<in> set items"
    "m_launchToggle g' = Some (if g_launch_enabled (h_ov h) then ''Enabled'' else ''Disabled'', \<not> g_launch_enabled (h_ov h))"
  using assms by (auto simp: gui_createUI_def AddBootToggle_def BuildNotRunningUI_def gui_refresh_def setValue_def
      split_beta Let_def split: if_splits)

lemma cfg_state_words:
  "cfg_GetState 16 a = (of_int (rt_state (a_rt a)), of_int (m_sel_index (a_rt a)), copy_ip 16 (m_ip (a_rt a)))"
  by (simp add: cfg_GetState_def)

lemma refresh_rows:
  assumes "gui_refresh True a (h, g) = (h', g')" and "g_have_svc (h_ov h)"
  shows "m_status g' = setValue (state_text (of_int (rt_state (a_rt a))) (to_string (c_str (copy_ip 16 (m_ip (a_rt a))))))
      (of_int (rt_state (a_rt a)) \<noteq> (1 :: u32)) (m_status g)"
    "h_ov h' = ov_refresh True a (h_ov h)" "g_sel_val (h_ov h') = of_int (m_sel_index (a_rt a))"
    "m_serverRow g' = setValue (case serverRow (h_ov h') of Some n \<Rightarrow> to_string n | None \<Rightarrow> ''none'')
      (serverRow (h_ov h') = None) (m_serverRow g)"
proof -
  define ov where "ov = ov_refresh True a (h_ov h)"
  have sel: "g_sel_val ov = of_int (m_sel_index (a_rt a))" using assms(2) by (simp add: ov_def ov_refresh_def cfg_state_words)
  from assms(1) show "m_status g' = setValue (state_text (of_int (rt_state (a_rt a))) (to_string (c_str (copy_ip 16 (m_ip (a_rt a))))))
      (of_int (rt_state (a_rt a)) \<noteq> (1 :: u32)) (m_status g)"
    using assms(2) by (auto simp: gui_refresh_def cfg_state_words Let_def)
  from assms(1) show ov': "h_ov h' = ov_refresh True a (h_ov h)"
    using assms(2) by (auto simp: gui_refresh_def cfg_state_words Let_def)
  with sel show "g_sel_val (h_ov h') = of_int (m_sel_index (a_rt a))" by (simp add: ov_def)
  have "m_serverRow g' = setValue (case ov_slpServersGet (sint (g_sel_val ov)) (g_ov_servers ov) of
      Some s \<Rightarrow> to_string (ov_name s) | None \<Rightarrow> ''none'') (ov_slpServersGet (sint (g_sel_val ov)) (g_ov_servers ov) = None) (m_serverRow g)"
    using assms unfolding sel by (auto simp: gui_refresh_def cfg_state_words Let_def ov_def)
  then show "m_serverRow g' = setValue (case serverRow (h_ov h') of Some n \<Rightarrow> to_string n | None \<Rightarrow> ''none'')
      (serverRow (h_ov h') = None) (m_serverRow g)"
    unfolding ov' ov_def [symmetric] serverRow_def by (simp split: option.split)
qed

text \<open>After a refresh with an answering service the status row says ``Running'' exactly when the runtime is
  running, and the server row names the server of the reported index.\<close>

lemma status_row_true:
  assumes "gui_refresh True a (h, g) = (h', g')" and "g_have_svc (h_ov h)" and "m_status g \<noteq> None"
    and "rt_state (a_rt a) \<in> {SLPCFG_STATE_STOPPED, SLPCFG_STATE_RUNNING}"
  shows "\<exists>t. m_status g' = Some (t, rt_state (a_rt a) \<noteq> SLPCFG_STATE_RUNNING) \<and>
      take 7 t = (if rt_state (a_rt a) = SLPCFG_STATE_RUNNING then ''Running'' else ''Stopped'')"
proof -
  have "(of_int (rt_state (a_rt a)) = (1 :: u32)) = (rt_state (a_rt a) = 1)" "(of_int (rt_state (a_rt a)) = (0 :: u32)) = (rt_state (a_rt a) = 0)"
    using assms(4) by (auto simp: SLPCFG_STATE_STOPPED_def SLPCFG_STATE_RUNNING_def)
  then show ?thesis
    using assms(3,4) unfolding refresh_rows(1) [OF assms(1,2)]
    by (auto simp: setValue_def state_text_def SLPCFG_STATE_STOPPED_def SLPCFG_STATE_RUNNING_def)
qed

text \<open>When the service has gone the row says so, and nothing the overlay remembers changes.\<close>

lemma service_lost:
  assumes "gui_refresh False a (h, g) = (h', g')" and "g_have_svc (h_ov h)" and "m_status g \<noteq> None"
  shows "h' = h" "m_status g' = Some (''service lost'', True)"
  using assms by (auto simp: gui_refresh_def setValue_def Let_def)

text \<open>The toggle shows what is on the card, also when the card refused the change.\<close>

lemma toggle_shows_card:
  assumes "press_toggle cc cr answers a True (ex0, h, g) = (True, ex1, h', g')" and "m_launchToggle g \<noteq> None"
  shows "g_launch_enabled (h_ov h') = ex1" "m_launchToggle g' = Some (if ex1 then ''Enabled'' else ''Disabled'', \<not> ex1)"
  using assms by (auto simp: press_toggle_def SetModuleLaunchEnabled_def gui_refresh_def setValue_def ov_refresh_def
      split_beta Let_def split: if_splits)

text \<open>Exactly one row of the server page is marked, when the reported index is one of the list.\<close>

lemma one_server_marked:
  assumes "server_page ov = Some rows" and "length (g_ov_servers ov) \<le> SLPCFG_MAX_SERVERS" and "i < length (g_ov_servers ov)"
  shows "length rows = length (g_ov_servers ov)" "snd (snd (rows ! i)) \<longleftrightarrow> unat (g_sel_val ov) \<noteq> i"
proof -
  have r: "length rows = length (g_ov_servers ov)" "snd (snd (rows ! i)) \<longleftrightarrow> of_nat i \<noteq> g_sel_val ov"
    using assms by (auto simp: server_page_def nth_enumerate_eq Let_def split: if_splits)
  have "unat (of_nat i :: u32) = i" using assms(2,3) by (simp add: SLPCFG_MAX_SERVERS_def unat_of_nat take_bit_nat_eq_self)
  with r show "length rows = length (g_ov_servers ov)" "snd (snd (rows ! i)) \<longleftrightarrow> unat (g_sel_val ov) \<noteq> i" by auto
qed

end
