(* ===== verification/Nifm.thy ===== *)
theory Nifm
  imports Runtime
begin

text \<open>
  The interception of the network-interface service (\<^verbatim>\<open>nifm/nifm_mitm_service.cpp\<close>), which \<^verbatim>\<open>main.cpp\<close> no longer
  registers: which clients it would be offered to, and the two queries it answers with the virtual address.
  The lemmas show what a game would conclude from the answers.

  Of the reply of \<^verbatim>\<open>GetCurrentIpConfigInfo\<close> the code names three addresses; the rest of the structure is the
  type parameter. The real service's answer is a parameter, \<open>None\<close> when the forwarded request failed.
\<close>

definition VirtualSubnetMask :: u32 where "VirtualSubnetMask = 0xFFFF0000"
definition VirtualGateway :: u32 where "VirtualGateway = 0x0A0D2501"

record 'o IpConfigInfo =
  ic_current_addr :: bytes
  ic_subnet_mask :: bytes
  ic_gateway :: bytes
  ic_other :: 'o

definition nifm_GetVirtualIp :: "LdnControl \<Rightarrow> u32" where
  "nifm_GetVirtualIp l = LocalIp l"

definition ToIpV4 :: "u32 \<Rightarrow> bytes" where
  "ToIpV4 ip = [ucast (drop_bit 24 ip AND 0xFF), ucast (drop_bit 16 ip AND 0xFF), ucast (drop_bit 8 ip AND 0xFF), ucast (ip AND 0xFF)]"

definition nifm_ShouldMitm :: "(u64 \<Rightarrow> bool) \<Rightarrow> u64 \<Rightarrow> Runtime \<Rightarrow> bool" where
  "nifm_ShouldMitm is_application program_id rt =
     (if rt_state rt \<noteq> SLPCFG_STATE_RUNNING then False
      else if program_id = 0x4200000000000011 then False
      else if \<not> is_application program_id then False
      else True)"

definition GetCurrentIpAddress :: "LdnControl \<Rightarrow> bytes" where
  "GetCurrentIpAddress l = ToIpV4 (nifm_GetVirtualIp l)"

definition GetCurrentIpConfigInfo :: "'o \<Rightarrow> 'o IpConfigInfo option \<Rightarrow> LdnControl \<Rightarrow> 'o IpConfigInfo" where
  "GetCurrentIpConfigInfo zero forwarded l =
     (let info = (case forwarded of
                    None \<Rightarrow> \<lparr>ic_current_addr = replicate 4 0, ic_subnet_mask = replicate 4 0, ic_gateway = replicate 4 0, ic_other = zero\<rparr>
                  | Some i \<Rightarrow> i)
      in info\<lparr>ic_current_addr := ToIpV4 (nifm_GetVirtualIp l), ic_subnet_mask := ToIpV4 VirtualSubnetMask,
              ic_gateway := ToIpV4 VirtualGateway\<rparr>)"

section \<open>What a game makes of it\<close>

lemma ToIpV4_Wr32be: "ToIpV4 ip = Wr32be ip"
  unfolding ToIpV4_def Wr32be_def and_255
  by (simp, intro conjI) (rule bit_word_eqI, auto simp: bit_simps)+

lemma Rd32be_ToIpV4 [wire_simps]: "Rd32be (ToIpV4 ip) = ip"
  by (simp add: ToIpV4_Wr32be wire_simps)

text \<open>The broadcast address and the on-link test of an interface configuration.\<close>

definition broadcast_of :: "'o IpConfigInfo \<Rightarrow> u32" where
  "broadcast_of i = Rd32be (ic_current_addr i) OR NOT (Rd32be (ic_subnet_mask i))"

definition on_link :: "'o IpConfigInfo \<Rightarrow> u32 \<Rightarrow> bool" where
  "on_link i ip \<longleftrightarrow> ip AND Rd32be (ic_subnet_mask i) = Rd32be (ic_current_addr i) AND Rd32be (ic_subnet_mask i)"

text \<open>With a console address of the virtual network the game broadcasts to 10.13.255.255 and takes exactly the
  addresses of the virtual network for neighbours, the gateway among them; what the real service said of
  anything else is passed on.\<close>

lemma virtual_interface:
  assumes "IsLanAddress (LocalIp l)"
  shows "broadcast_of (GetCurrentIpConfigInfo zero f l) = 0x0A0DFFFF"
    "on_link (GetCurrentIpConfigInfo zero f l) ip = IsLanAddress ip"
    "Rd32be (ic_current_addr (GetCurrentIpConfigInfo zero f l)) = Rd32be (GetCurrentIpAddress l)"
    "on_link (GetCurrentIpConfigInfo zero f l) (Rd32be (ic_gateway (GetCurrentIpConfigInfo zero f l)))"
    "f = Some i \<Longrightarrow> ic_other (GetCurrentIpConfigInfo zero f l) = ic_other i"
proof -
  let ?i = "GetCurrentIpConfigInfo zero f l"
  have i: "Rd32be (ic_current_addr ?i) = LocalIp l" "Rd32be (ic_subnet_mask ?i) = 0xFFFF0000" "Rd32be (ic_gateway ?i) = 0x0A0D2501"
    by (simp_all add: GetCurrentIpConfigInfo_def nifm_GetVirtualIp_def VirtualSubnetMask_def VirtualGateway_def wire_simps)
  have l: "LocalIp l AND 0xFFFF0000 = 0x0A0D0000"
    using assms by (simp add: IsLanAddress_def LAN_NETWORK_MASK_def LAN_NETWORK_BASE_def)
  have "LocalIp l OR 0xFFFF = (LocalIp l AND NOT 0xFFFF) OR 0xFFFF"
    by (rule bit_word_eqI) (auto simp: bit_simps)
  moreover have "NOT 0xFFFF = (0xFFFF0000 :: u32)" by simp
  ultimately have "LocalIp l OR 0xFFFF = 0x0A0DFFFF" by (simp only: l) simp
  moreover have "NOT 0xFFFF0000 = (0xFFFF :: u32)" by simp
  ultimately show "broadcast_of ?i = 0x0A0DFFFF" by (simp only: broadcast_of_def i)
  show "on_link ?i ip = IsLanAddress ip"
    by (simp add: on_link_def i l IsLanAddress_def LAN_NETWORK_MASK_def LAN_NETWORK_BASE_def)
  show "on_link ?i (Rd32be (ic_gateway ?i))" by (simp add: on_link_def i l)
  show "Rd32be (ic_current_addr ?i) = Rd32be (GetCurrentIpAddress l)"
    by (simp add: i GetCurrentIpAddress_def nifm_GetVirtualIp_def wire_simps)
  show "f = Some i \<Longrightarrow> ic_other ?i = ic_other i" by (simp add: GetCurrentIpConfigInfo_def)
qed

text \<open>Only applications are offered the false address, and only while the relay connection is up.\<close>

lemma nifm_scope:
  "nifm_ShouldMitm app prog rt \<longleftrightarrow> rt_state rt = SLPCFG_STATE_RUNNING \<and> prog \<noteq> 0x4200000000000011 \<and> app prog"
  by (simp add: nifm_ShouldMitm_def)

end
