(* ===== verification/Lock_Order.thy ===== *)
theory Lock_Order
  imports Main
begin

text \<open>
  Threads that take scoped locks, for any program: what a piece of code does to locks is a term of \<open>lprog\<close>
  (a \<^verbatim>\<open>scoped_lock\<close> is a guarded block, a branch a choice, a loop a repetition), and any number of threads are
  interleaved by a step relation. A lock is free when no thread, the asking one included, holds it: the
  mutexes of the program are not recursive.

  The locale \<open>lock_order\<close> is the contract of a program that takes its locks in ascending order of a rank:
  inside it every interleaving excludes two owners of a lock and is free of deadlock, in the strong
  sense that every waiting thread waits, through a chain of owners, for one that can go on.
\<close>

section \<open>Programs\<close>

datatype 'l lprog =
    Skip
  | Seq "'l lprog" "'l lprog"
  | Choice "'l lprog" "'l lprog"
  | Loop "'l lprog"
  | Guard 'l "'l lprog"

definition seq :: "'l lprog list \<Rightarrow> 'l lprog" where
  "seq ps = foldr Seq ps Skip"

definition choice :: "'l lprog list \<Rightarrow> 'l lprog" where
  "choice ps = foldr Choice ps Skip"

definition opt :: "'l lprog \<Rightarrow> 'l lprog" where
  "opt p = Choice Skip p"

text \<open>A thread is the stack of what it still has to do; the locks it holds are those it has still to release.\<close>

datatype 'l instr = Run "'l lprog" | Release 'l

type_synonym 'l stack = "'l instr list"

definition holds :: "'l \<Rightarrow> 'l stack \<Rightarrow> bool" where
  "holds l k \<longleftrightarrow> Release l \<in> set k"

section \<open>Steps\<close>

inductive thread_step :: "('l \<Rightarrow> bool) \<Rightarrow> 'l stack \<Rightarrow> 'l stack \<Rightarrow> bool" for free where
  Skip: "thread_step free (Run Skip # k) k"
| Seq: "thread_step free (Run (Seq p q) # k) (Run p # Run q # k)"
| ChoiceL: "thread_step free (Run (Choice p q) # k) (Run p # k)"
| ChoiceR: "thread_step free (Run (Choice p q) # k) (Run q # k)"
| LoopEnd: "thread_step free (Run (Loop p) # k) k"
| LoopBody: "thread_step free (Run (Loop p) # k) (Run p # Run (Loop p) # k)"
| Acquire: "free l \<Longrightarrow> thread_step free (Run (Guard l p) # k) (Run p # Release l # k)"
| Release: "thread_step free (Release l # k) k"

inductive_cases thread_stepE: "thread_step free k k'"
inductive_simps thread_step_Guard: "thread_step free (Run (Guard l p) # k) k'"

definition lock_free :: "'l stack list \<Rightarrow> 'l \<Rightarrow> bool" where
  "lock_free ts l \<longleftrightarrow> list_all (\<lambda>k. \<not> holds l k) ts"

inductive sys_step :: "'l stack list \<Rightarrow> 'l stack list \<Rightarrow> bool" where
  step: "i < length ts \<Longrightarrow> thread_step (lock_free ts) (ts ! i) k \<Longrightarrow> sys_step ts (ts[i := k])"

definition can_go :: "'l stack list \<Rightarrow> nat \<Rightarrow> bool" where
  "can_go ts i \<longleftrightarrow> i < length ts \<and> (\<exists>k. thread_step (lock_free ts) (ts ! i) k)"

text \<open>Thread \<open>i\<close> asks for a lock that thread \<open>j\<close> holds.\<close>

definition waits_for :: "'l stack list \<Rightarrow> nat \<Rightarrow> nat \<Rightarrow> bool" where
  "waits_for ts i j \<longleftrightarrow> i < length ts \<and> j < length ts \<and>
     (\<exists>l p k. ts ! i = Run (Guard l p) # k \<and> holds l (ts ! j))"

abbreviation runs_to :: "'l stack list \<Rightarrow> 'l stack list \<Rightarrow> bool" where
  "runs_to \<equiv> sys_step\<^sup>*\<^sup>*"

definition start :: "'l lprog list \<Rightarrow> 'l stack list" where
  "start ps = map (\<lambda>p. [Run p]) ps"

lemma holds_simps [simp]:
  "\<not> holds l []" "holds l (Run p # k) = holds l k" "holds l (Release l' # k) = (l = l' \<or> holds l k)"
  by (auto simp: holds_def)

lemma waits_forI:
  assumes "i < length ts" "j < length ts" "ts ! i \<noteq> []" "hd (ts ! i) = Run (Guard l p)" "Release l \<in> set (ts ! j)"
  shows "waits_for ts i j"
  using assms by (cases "ts ! i") (auto simp: waits_for_def holds_def)

text \<open>Only asking for a lock that is taken stops a thread.\<close>

lemma blocked_iff:
  assumes "i < length ts" and "ts ! i \<noteq> []"
  shows "can_go ts i \<or> (\<exists>j. waits_for ts i j)"
proof (cases "ts ! i")
  case (Cons x k)
  have go: "can_go ts i" if "thread_step (lock_free ts) (x # k) k'" for k'
    using that Cons assms(1) by (auto simp: can_go_def)
  show ?thesis
  proof (cases x)
    case (Run p)
    show ?thesis
    proof (cases p)
      case (Guard l q)
      show ?thesis
      proof (cases "lock_free ts l")
        case True
        then show ?thesis using go Run Guard by (blast intro: thread_step.Acquire)
      next
        case False
        then obtain j where "j < length ts" "holds l (ts ! j)" by (auto simp: lock_free_def list_all_length)
        then show ?thesis using Cons Run Guard assms(1) by (auto simp: waits_for_def)
      qed
    qed (use go Run in \<open>blast intro: thread_step.intros\<close>)+
  qed (use go in \<open>blast intro: thread_step.intros\<close>)
qed (use assms in simp)

text \<open>A given way through one thread: \<open>thread_move\<close> makes one step, \<open>b\<close> says which way is taken at a choice or at the
  head of a loop. \<open>follow n i bs\<close> lets thread \<open>i\<close> make up to \<open>n\<close> steps, with \<open>bs\<close> the ways it takes, and stops where a
  way is missing or the thread is blocked.\<close>

fun thread_move :: "('l \<Rightarrow> bool) \<Rightarrow> bool \<Rightarrow> 'l stack \<Rightarrow> 'l stack option" where
  "thread_move free b (Run Skip # k) = Some k"
| "thread_move free b (Run (Seq p q) # k) = Some (Run p # Run q # k)"
| "thread_move free b (Run (Choice p q) # k) = Some (Run (if b then q else p) # k)"
| "thread_move free b (Run (Loop p) # k) = Some (if b then Run p # Run (Loop p) # k else k)"
| "thread_move free b (Run (Guard l p) # k) = (if free l then Some (Run p # Release l # k) else None)"
| "thread_move free b (Release l # k) = Some k"
| "thread_move free b [] = None"

fun branches :: "'l stack \<Rightarrow> bool" where
  "branches (Run (Choice p q) # k) = True"
| "branches (Run (Loop p) # k) = True"
| "branches _ = False"

fun follow :: "nat \<Rightarrow> nat \<Rightarrow> bool list \<Rightarrow> 'l stack list \<Rightarrow> 'l stack list" where
  "follow 0 i bs ts = ts"
| "follow (Suc n) i bs ts =
     (if branches (ts ! i) \<and> bs = [] then ts
      else case thread_move (lock_free ts) (bs \<noteq> [] \<and> hd bs) (ts ! i) of
          None \<Rightarrow> ts
        | Some k \<Rightarrow> follow n i (if branches (ts ! i) then tl bs else bs) (ts[i := k]))"

lemma thread_move_step: "thread_move free b k = Some k' \<Longrightarrow> thread_step free k k'"
  by (induction free b k rule: thread_move.induct) (auto intro: thread_step.intros split: if_splits)

lemma length_follow [simp]: "length (follow n i bs ts) = length ts"
  by (induction n arbitrary: bs ts) (simp_all split: option.split)

lemma follow_runs: "i < length ts \<Longrightarrow> runs_to ts (follow n i bs ts)"
proof (induction n arbitrary: bs ts)
  case (Suc n)
  show ?case
  proof (cases "branches (ts ! i) \<and> bs = [] \<or> thread_move (lock_free ts) (bs \<noteq> [] \<and> hd bs) (ts ! i) = None")
    case False
    then obtain k where k: "thread_move (lock_free ts) (bs \<noteq> [] \<and> hd bs) (ts ! i) = Some k" by blast
    have "sys_step ts (ts[i := k])" using Suc.prems thread_move_step [OF k] by (rule sys_step.step)
    moreover have "runs_to (ts[i := k]) (follow (Suc n) i bs ts)" using False k Suc.IH Suc.prems by auto
    ultimately show ?thesis by (rule converse_rtranclp_into_rtranclp)
  qed auto
qed simp

section \<open>Waiting for ever\<close>

text \<open>A set of threads that wait for one another keeps waiting, whatever the other threads do.\<close>

definition stuck_set :: "'l stack list \<Rightarrow> nat set \<Rightarrow> bool" where
  "stuck_set ts I \<longleftrightarrow> (\<forall>i \<in> I. \<exists>j \<in> I. waits_for ts i j)"

lemma waits_no_step:
  assumes "waits_for ts i j" shows "\<not> thread_step (lock_free ts) (ts ! i) k"
  using assms by (auto simp: waits_for_def thread_step_Guard lock_free_def list_all_length)

lemma stuck_step:
  assumes "stuck_set ts I" and "sys_step ts ts'"
  shows "\<forall>i \<in> I. ts' ! i = ts ! i" "stuck_set ts' I"
proof -
  from assms(2) obtain i k where s: "ts' = ts[i := k]" "i < length ts" "thread_step (lock_free ts) (ts ! i) k"
    by cases auto
  have "i \<notin> I" using assms(1) s(3) waits_no_step unfolding stuck_set_def by blast
  then show same: "\<forall>i \<in> I. ts' ! i = ts ! i" using s(1) by (metis nth_list_update_neq)
  have "waits_for ts' a b" if "a \<in> I" "b \<in> I" "waits_for ts a b" for a b
    using that same s(1) by (simp add: waits_for_def)
  with assms(1) show "stuck_set ts' I" unfolding stuck_set_def by meson
qed

lemma stuck_forever:
  assumes "stuck_set ts I" and "runs_to ts ts'"
  shows "\<forall>i \<in> I. ts' ! i = ts ! i \<and> \<not> can_go ts' i"
proof -
  have "stuck_set ts' I \<and> (\<forall>i \<in> I. ts' ! i = ts ! i)"
    using assms(2,1) by (induction rule: rtranclp_induct) (auto simp: stuck_step)
  then show ?thesis using waits_no_step by (fastforce simp: stuck_set_def can_go_def)
qed

section \<open>One owner\<close>

definition exclusive :: "'l stack list \<Rightarrow> bool" where
  "exclusive ts \<longleftrightarrow> (\<forall>l. \<forall>i < length ts. \<forall>j < length ts. holds l (ts ! i) \<and> holds l (ts ! j) \<longrightarrow> i = j)"

lemma thread_step_holds: "thread_step free k k' \<Longrightarrow> holds l k' \<Longrightarrow> holds l k \<or> free l"
  by (erule thread_stepE) auto

lemma exclusive_step:
  assumes "sys_step ts ts'" and "exclusive ts" shows "exclusive ts'"
  using assms(1)
proof cases
  case (step i k)
  have "holds l (ts ! i) \<or> lock_free ts l" if "holds l k" for l using thread_step_holds [OF step(3) that] .
  then show ?thesis
    using assms(2) step(1,2) unfolding exclusive_def lock_free_def list_all_length
    by (metis length_list_update nth_list_update_eq nth_list_update_neq)
qed

lemma exclusive_start: "exclusive (start ps)"
  by (simp add: exclusive_def start_def)

lemma mutual_exclusion: "runs_to (start ps) ts \<Longrightarrow> exclusive ts"
  by (induction rule: rtranclp_induct) (simp_all add: exclusive_start exclusive_step)

section \<open>Ascending locks\<close>

text \<open>\<open>ascending rank m p\<close>: every lock that \<open>p\<close> takes has at least rank \<open>m\<close>, and inside a guarded block only locks of
  higher rank are taken.\<close>

fun ascending :: "('l \<Rightarrow> nat) \<Rightarrow> nat \<Rightarrow> 'l lprog \<Rightarrow> bool" where
  "ascending rank m Skip = True"
| "ascending rank m (Seq p q) = (ascending rank m p \<and> ascending rank m q)"
| "ascending rank m (Choice p q) = (ascending rank m p \<and> ascending rank m q)"
| "ascending rank m (Loop p) = ascending rank m p"
| "ascending rank m (Guard l p) = (m \<le> rank l \<and> ascending rank (Suc (rank l)) p)"

text \<open>The least rank that a thread with this stack may ask for.\<close>

fun floor_of :: "('l \<Rightarrow> nat) \<Rightarrow> 'l stack \<Rightarrow> nat" where
  "floor_of rank [] = 0"
| "floor_of rank (Run p # k) = floor_of rank k"
| "floor_of rank (Release l # k) = Suc (rank l)"

fun stack_ok :: "('l \<Rightarrow> nat) \<Rightarrow> 'l stack \<Rightarrow> bool" where
  "stack_ok rank [] = True"
| "stack_ok rank (Run p # k) = (ascending rank (floor_of rank k) p \<and> stack_ok rank k)"
| "stack_ok rank (Release l # k) = (floor_of rank k \<le> rank l \<and> stack_ok rank k)"

lemma ascending_seq [simp]: "ascending rank m (seq ps) = list_all (ascending rank m) ps"
  by (induction ps) (simp_all add: seq_def)

lemma ascending_choice [simp]: "ascending rank m (choice ps) = list_all (ascending rank m) ps"
  by (induction ps) (simp_all add: choice_def)

lemma ascending_opt [simp]: "ascending rank m (opt p) = ascending rank m p"
  by (simp add: opt_def)

lemma ascending_mono: "ascending rank m p \<Longrightarrow> n \<le> m \<Longrightarrow> ascending rank n p"
  by (induction p arbitrary: m n) auto

lemma stack_ok_step: "thread_step free k k' \<Longrightarrow> stack_ok rank k \<Longrightarrow> stack_ok rank k'"
  by (induction rule: thread_step.induct) auto

lemma floor_above_held: "stack_ok rank k \<Longrightarrow> holds l k \<Longrightarrow> rank l < floor_of rank k"
proof (induction k)
  case (Cons x k)
  then show ?case by (cases x) (auto dest: order.strict_trans2)
qed simp

text \<open>The contract: a rank, and the programs that threads run.\<close>

locale lock_order =
  fixes rank :: "'l \<Rightarrow> nat" and bound :: nat and programs :: "'l lprog set"
  assumes ordered: "p \<in> programs \<Longrightarrow> ascending rank 0 p" and bounded: "rank l < bound"
begin

lemma stacks_ok:
  assumes "set ps \<subseteq> programs" and "runs_to (start ps) ts"
  shows "list_all (stack_ok rank) ts"
  using assms(2)
proof (induction rule: rtranclp_induct)
  case base
  then show ?case using assms(1) ordered by (auto simp: start_def list_all_iff)
next
  case (step ts ts')
  from step.hyps(2) show ?case
  proof cases
    case (step i k)
    with \<open>list_all (stack_ok rank) ts\<close> have "stack_ok rank k" by (metis list_all_length stack_ok_step)
    with \<open>list_all (stack_ok rank) ts\<close> step(1) show ?thesis
      by (metis length_list_update list_all_length nth_list_update_eq nth_list_update_neq)
  qed
qed

text \<open>Along a chain of waiting threads the ranks of the locks they ask for grow, so the chain ends at a
  thread that can go on.\<close>

lemma waiting_chain_ends:
  assumes "list_all (stack_ok rank) ts" and "i < length ts" and "ts ! i \<noteq> []"
  shows "\<exists>j. (waits_for ts)\<^sup>*\<^sup>* i j \<and> can_go ts j"
  using assms(2,3)
proof (induction "bound - floor_of rank (ts ! i)" arbitrary: i rule: less_induct)
  case less
  show ?case
  proof (cases "can_go ts i")
    case False
    then obtain j where w: "waits_for ts i j" using blocked_iff [OF less.prems] by blast
    then obtain l p k where l: "ts ! i = Run (Guard l p) # k" "holds l (ts ! j)" "j < length ts" by (auto simp: waits_for_def)
    have ok: "stack_ok rank (ts ! i)" "stack_ok rank (ts ! j)" using assms(1) less.prems(1) l(3) by (simp_all add: list_all_length)
    have "floor_of rank (ts ! i) \<le> rank l" using ok(1) l(1) by simp
    moreover have "rank l < floor_of rank (ts ! j)" using floor_above_held [OF ok(2) l(2)] .
    ultimately have "bound - floor_of rank (ts ! j) < bound - floor_of rank (ts ! i)" using bounded [of l] by linarith
    moreover have "ts ! j \<noteq> []" using l(2) by auto
    ultimately obtain j' where "(waits_for ts)\<^sup>*\<^sup>* j j'" "can_go ts j'" using less.hyps l(3) by blast
    with w show ?thesis by (meson converse_rtranclp_into_rtranclp)
  qed auto
qed

theorem deadlock_free:
  assumes "set ps \<subseteq> programs" and "runs_to (start ps) ts" and "i < length ts" and "ts ! i \<noteq> []"
  shows "\<exists>j. (waits_for ts)\<^sup>*\<^sup>* i j \<and> can_go ts j"
  using waiting_chain_ends stacks_ok assms by blast

end

end
