(* ===== verification/Locks.thy ===== *)
theory Locks
  imports Lock_Order Ldn_Session
begin

text \<open>
  Who takes which mutex while holding which: the locking of every operation that one of the program's threads
  performs, as terms of \<open>Lock_Order\<close> in the order of the source. \<open>x_lk\<close> is what function \<open>x\<close> does to locks; a
  branch that takes locks on one side only is \<open>opt\<close>, a loop \<open>Loop\<close>, and the statements in between, which may
  write trace lines and allocate memory, are \<open>work\<close>. Conditions are dropped, so a term allows more
  than the code does.

  Waiting for the receive thread to end is taking \<open>L_thread\<close>, which that thread holds as long as it lives. Waits
  with a timeout hold no lock and are left out, and so are calls to the system. \<open>S\<close> is the list of the proxy sockets.
  The parameter \<open>lo\<close> is whether an LDN control frame can be addressed to 127.0.0.0/8.
\<close>

section \<open>The mutexes\<close>

datatype lock =
    L_thread
  | L_info | L_pids | L_abandoned
  | L_ldn
  | L_rt
  | L_mgr
  | L_pool | L_queue nat
  | L_state nat
  | L_trace
  | L_heap

fun lock_rank :: "lock \<Rightarrow> nat" where
  "lock_rank L_thread = 0"
| "lock_rank L_info = 1"
| "lock_rank L_pids = 1"
| "lock_rank L_abandoned = 1"
| "lock_rank L_ldn = 2"
| "lock_rank L_rt = 3"
| "lock_rank L_mgr = 4"
| "lock_rank L_pool = 5"
| "lock_rank (L_queue s) = 5"
| "lock_rank (L_state s) = 6"
| "lock_rank L_trace = 7"
| "lock_rank L_heap = 8"

type_synonym prog = "lock lprog"

named_theorems lock_defs \<open>locking of the program's operations\<close>

section \<open>Heap and trace\<close>

definition Alloc_lk :: prog where [lock_defs]: "Alloc_lk = opt (Guard L_heap Skip)"

definition Trace_lk :: prog where [lock_defs]: "Trace_lk = Guard L_trace (Loop Alloc_lk)"

definition work :: prog where [lock_defs]: "work = Loop (Choice Trace_lk Alloc_lk)"

section \<open>Proxy sockets and their manager\<close>

definition GetLocalAddr_lk :: "nat \<Rightarrow> prog" where [lock_defs]: "GetLocalAddr_lk s = Guard (L_state s) Skip"
definition GetRemoteAddr_lk :: "nat \<Rightarrow> prog" where [lock_defs]: "GetRemoteAddr_lk s = Guard (L_state s) Skip"
definition sock_GetState_lk :: "nat \<Rightarrow> prog" where [lock_defs]: "sock_GetState_lk s = Guard (L_state s) Skip"
definition sock_Bind_lk :: "nat \<Rightarrow> prog" where [lock_defs]: "sock_Bind_lk s = Guard (L_state s) Skip"
definition HasPendingData_lk :: "nat \<Rightarrow> prog" where [lock_defs]: "HasPendingData_lk s = Guard (L_queue s) Skip"
definition GetPendingDataSize_lk :: "nat \<Rightarrow> prog" where [lock_defs]: "GetPendingDataSize_lk s = Guard (L_queue s) Skip"

definition IncomingData_lk :: "nat \<Rightarrow> prog" where [lock_defs]:
  "IncomingData_lk s = seq [work, Guard (L_queue s) Skip]"

definition sock_RecvFrom_lk :: "nat \<Rightarrow> prog" where [lock_defs]:
  "sock_RecvFrom_lk s = seq [Guard (L_queue s) Skip, opt (Guard (L_queue s) Skip)]"

definition mgr_get_lk :: prog where [lock_defs]: "mgr_get_lk = Guard L_mgr Skip"

definition CreateProxySocket_lk :: prog where [lock_defs]: "CreateProxySocket_lk = Guard L_mgr Alloc_lk"

definition pool_lk :: prog where [lock_defs]: "pool_lk = Guard L_pool Skip"

definition SendProxyConnect_lk :: prog where [lock_defs]: "SendProxyConnect_lk = mgr_get_lk"
definition SendProxyDisconnect_lk :: prog where [lock_defs]: "SendProxyDisconnect_lk = mgr_get_lk"

definition sock_Connect_lk :: "nat \<Rightarrow> prog" where [lock_defs]:
  "sock_Connect_lk s = seq [Guard (L_state s) Skip,
     Choice (seq [Guard (L_state s) Skip, GetLocalAddr_lk s, SendProxyConnect_lk, opt (Guard (L_state s) Skip)])
            (Guard (L_state s) Skip)]"

definition sock_Close_lk :: "nat \<Rightarrow> prog" where [lock_defs]:
  "sock_Close_lk s = seq [Guard (L_state s) Skip, Guard (L_queue s) Skip, opt SendProxyDisconnect_lk]"

definition CloseProxySocket_lk :: "nat \<Rightarrow> prog" where [lock_defs]:
  "CloseProxySocket_lk s = seq [Guard L_mgr (opt (seq [GetLocalAddr_lk s, opt pool_lk])), opt (sock_Close_lk s)]"

definition DeliverPendingPackets_lk :: "nat \<Rightarrow> prog" where [lock_defs]:
  "DeliverPendingPackets_lk s = Guard L_mgr (Loop (IncomingData_lk s))"

section \<open>From tunnel to sockets\<close>

definition IsKnownSessionPeerPublic_lk :: prog where [lock_defs]: "IsKnownSessionPeerPublic_lk = Guard L_ldn Skip"

definition RouteIncomingData_lk :: "nat list \<Rightarrow> prog" where [lock_defs]:
  "RouteIncomingData_lk S = seq [opt IsKnownSessionPeerPublic_lk, work,
     opt (Guard L_mgr (seq [Loop (choice (map GetLocalAddr_lk S)), Loop (choice (map IncomingData_lk S))]))]"

definition rt_get_lk :: prog where [lock_defs]: "rt_get_lk = Guard L_rt Skip"

definition tun_Send_lk :: "bool \<Rightarrow> nat list \<Rightarrow> prog" where [lock_defs]:
  "tun_Send_lk lo S = opt (seq [rt_get_lk, opt (if lo then seq [Trace_lk, RouteIncomingData_lk S] else Skip)])"

text \<open>A game may send to any address, so its path always includes the loopback delivery.\<close>

definition SendProxyData_lk :: "nat list \<Rightarrow> prog" where [lock_defs]:
  "SendProxyData_lk S = seq [mgr_get_lk, opt (tun_Send_lk True S), work]"

definition sock_SendTo_lk :: "nat list \<Rightarrow> prog" where [lock_defs]:
  "sock_SendTo_lk S = opt (seq [work, SendProxyData_lk S])"

section \<open>LDN control plane\<close>

definition SendFrame_lk :: "bool \<Rightarrow> nat list \<Rightarrow> prog" where [lock_defs]:
  "SendFrame_lk lo S = seq [rt_get_lk, opt (seq [tun_Send_lk lo S, Trace_lk])]"

definition ldn_op_lk :: prog where [lock_defs]: "ldn_op_lk = Guard L_ldn work"

definition UpdateNodes_lk :: "bool \<Rightarrow> nat list \<Rightarrow> prog" where [lock_defs]:
  "UpdateNodes_lk lo S = Loop (SendFrame_lk lo S)"

definition ldn_update_lk :: "bool \<Rightarrow> nat list \<Rightarrow> prog" where [lock_defs]:
  "ldn_update_lk lo S = Guard L_ldn (seq [work, opt (UpdateNodes_lk lo S)])"

definition ldn_bye_lk :: "bool \<Rightarrow> nat list \<Rightarrow> prog" where [lock_defs]:
  "ldn_bye_lk lo S = Guard L_ldn (seq [work, opt (SendFrame_lk lo S), work])"

definition OnControlFrame_lk :: "bool \<Rightarrow> nat list \<Rightarrow> prog" where [lock_defs]:
  "OnControlFrame_lk lo S = Guard L_ldn (seq [work, choice [SendFrame_lk lo S, UpdateNodes_lk lo S, work]])"

definition Tick_lk :: "bool \<Rightarrow> nat list \<Rightarrow> prog" where [lock_defs]:
  "Tick_lk lo S = Guard L_ldn (opt (Choice (seq [work, UpdateNodes_lk lo S]) (seq [opt (SendFrame_lk lo S), work])))"

definition Scan_lk :: "bool \<Rightarrow> nat list \<Rightarrow> prog" where [lock_defs]:
  "Scan_lk lo S = seq [Guard L_ldn work,
     opt (seq [SendFrame_lk lo S, work, Loop (seq [opt (SendFrame_lk lo S), Guard L_ldn work]), Guard L_ldn work])]"

definition Connect_lk :: "bool \<Rightarrow> nat list \<Rightarrow> prog" where [lock_defs]:
  "Connect_lk lo S = seq [Guard L_ldn work,
     opt (seq [work, SendFrame_lk lo S, Loop (seq [Guard L_ldn Skip, opt (SendFrame_lk lo S)]), opt (Guard L_ldn Skip), work])]"

text \<open>The commands of the \<^verbatim>\<open>ldn:u\<close> service: the queries and state changes that send nothing, those that announce
  the new node list, those that say good-bye, and the two that wait for answers.\<close>

definition ldn_service_lk :: "bool \<Rightarrow> nat list \<Rightarrow> prog" where [lock_defs]:
  "ldn_service_lk lo S = seq [work, choice [ldn_op_lk, ldn_update_lk lo S, ldn_bye_lk lo S, Scan_lk lo S, Connect_lk lo S], work]"

section \<open>Relay runtime and configuration service\<close>

definition ReloadServers_lk :: prog where [lock_defs]: "ReloadServers_lk = Guard L_rt Alloc_lk"

definition SetLocalIp_lk :: prog where [lock_defs]: "SetLocalIp_lk = Guard L_mgr Skip"

definition RefreshLocalIp_lk :: prog where [lock_defs]: "RefreshLocalIp_lk = seq [work, opt (seq [Trace_lk, SetLocalIp_lk])]"

definition rt_Start_lk :: prog where [lock_defs]:
  "rt_Start_lk = seq [Trace_lk, Guard L_rt (opt (seq [work, opt RefreshLocalIp_lk, work]))]"

definition rt_Stop_lk :: prog where [lock_defs]:
  "rt_Stop_lk = seq [Trace_lk, Guard L_rt Skip, opt (seq [Guard L_thread Skip, Trace_lk])]"

definition cfg_GetState_lk :: prog where [lock_defs]: "cfg_GetState_lk = seq [rt_get_lk, rt_get_lk, rt_get_lk]"

definition cfg_thread :: prog where [lock_defs]:
  "cfg_thread = Loop (choice [Skip, cfg_GetState_lk, rt_get_lk, rt_Start_lk, rt_Stop_lk, ReloadServers_lk])"

section \<open>Receive thread\<close>

definition ProcessIpv4_lk :: "bool \<Rightarrow> nat list \<Rightarrow> prog" where [lock_defs]:
  "ProcessIpv4_lk lo S = opt (Choice (OnControlFrame_lk lo S) (seq [RouteIncomingData_lk S, work]))"

definition OnFrame_lk :: "bool \<Rightarrow> nat list \<Rightarrow> prog" where [lock_defs]:
  "OnFrame_lk lo S = seq [work, opt (ProcessIpv4_lk lo S)]"

definition rx_thread :: "bool \<Rightarrow> nat list \<Rightarrow> prog" where [lock_defs]:
  "rx_thread lo S = Guard L_thread (seq [Loop (seq [work, Tick_lk lo S, work, opt (OnFrame_lk lo S)]), Trace_lk])"

section \<open>Socket service\<close>

definition info_lk :: prog where [lock_defs]: "info_lk = Guard L_info work"

definition bsd_ShouldMitm_lk :: prog where [lock_defs]: "bsd_ShouldMitm_lk = seq [work, rt_get_lk, work, opt (Guard L_pids work)]"

definition bsd_delete_lk :: "nat list \<Rightarrow> prog" where [lock_defs]:
  "bsd_delete_lk S = seq [work, info_lk, Loop (choice (map CloseProxySocket_lk S)), opt (Guard L_ldn work),
     opt (Guard L_abandoned work), opt (Guard L_pids work), work]"

text \<open>\<^verbatim>\<open>Close\<close> closes the proxy socket while it holds the table of descriptors.\<close>

definition bsd_Close_lk :: "nat \<Rightarrow> prog" where [lock_defs]:
  "bsd_Close_lk s = seq [work, Guard L_info (seq [opt (CloseProxySocket_lk s), work]), work]"

definition auto_bind_lk :: "nat \<Rightarrow> prog" where [lock_defs]:
  "auto_bind_lk s = seq [CreateProxySocket_lk, work, opt (seq [pool_lk, work, mgr_get_lk, sock_Bind_lk s, opt pool_lk])]"

definition bsd_Bind_lk :: "nat \<Rightarrow> prog" where [lock_defs]:
  "bsd_Bind_lk s = seq [work, opt (seq [info_lk, opt (seq [CreateProxySocket_lk, work, opt mgr_get_lk, opt pool_lk,
     opt (seq [sock_Bind_lk s, work, opt (seq [info_lk, opt (Guard L_ldn work), work, DeliverPendingPackets_lk s])])])]), work]"

definition bsd_Connect_lk :: "nat \<Rightarrow> prog" where [lock_defs]:
  "bsd_Connect_lk s = seq [work, opt (seq [info_lk, opt (seq [mgr_get_lk, opt (auto_bind_lk s), sock_Connect_lk s, opt info_lk])]), work]"

definition bsd_send_lk :: "nat list \<Rightarrow> nat \<Rightarrow> prog" where [lock_defs]:
  "bsd_send_lk S s = seq [work, info_lk, opt (seq [mgr_get_lk, opt (seq [auto_bind_lk s, info_lk])]),
     opt (seq [mgr_get_lk, sock_SendTo_lk S]), work]"

definition bsd_recv_lk :: "nat \<Rightarrow> prog" where [lock_defs]:
  "bsd_recv_lk s = seq [work, info_lk, opt (seq [mgr_get_lk, opt (sock_RecvFrom_lk s)]), work]"

definition bsd_names_lk :: "nat \<Rightarrow> prog" where [lock_defs]:
  "bsd_names_lk s = seq [work, mgr_get_lk, opt (choice [seq [GetRemoteAddr_lk s, sock_GetState_lk s], GetLocalAddr_lk s,
     GetPendingDataSize_lk s]), opt info_lk, work]"

definition bsd_poll_lk :: "nat list \<Rightarrow> prog" where [lock_defs]:
  "bsd_poll_lk S = seq [work, Loop (seq [mgr_get_lk, choice (map (\<lambda>s. seq [opt (HasPendingData_lk s), opt (sock_GetState_lk s)]) S)]), work]"

definition bsd_info_lk :: prog where [lock_defs]: "bsd_info_lk = seq [work, opt info_lk, work]"

definition bsd_service_lk :: "nat list \<Rightarrow> prog" where [lock_defs]:
  "bsd_service_lk S = choice
     ([bsd_ShouldMitm_lk, bsd_delete_lk S, bsd_poll_lk S, bsd_info_lk] @
      concat (map (\<lambda>s. [bsd_Close_lk s, bsd_Bind_lk s, bsd_Connect_lk s, bsd_send_lk S s, bsd_recv_lk s, bsd_names_lk s]) S))"

definition ldn_ShouldMitm_lk :: prog where [lock_defs]: "ldn_ShouldMitm_lk = rt_get_lk"

definition mitm_thread :: "bool \<Rightarrow> nat list \<Rightarrow> prog" where [lock_defs]:
  "mitm_thread lo S = Loop (choice [ldn_ShouldMitm_lk, ldn_service_lk lo S, bsd_service_lk S])"

section \<open>Boot\<close>

definition Main_lk :: prog where [lock_defs]:
  "Main_lk = seq [ReloadServers_lk, Trace_lk, Trace_lk, Trace_lk, work, SetLocalIp_lk, mgr_get_lk, mgr_get_lk, mgr_get_lk,
     mgr_get_lk, mgr_get_lk, ldn_op_lk, work]"

section \<open>The order\<close>

definition threads :: "bool \<Rightarrow> nat list \<Rightarrow> prog set" where
  "threads lo S = {Main_lk, cfg_thread, mitm_thread lo S, rx_thread lo S}"

lemma lock_rank_bound: "lock_rank l < 9"
  by (cases l) simp_all

lemma Main_ascending: "ascending lock_rank 0 Main_lk"
  by (simp add: lock_defs)

lemma cfg_ascending: "ascending lock_rank 0 cfg_thread"
  by (simp add: lock_defs)

lemma rx_ascending: "ascending lock_rank 0 (rx_thread False S)"
  by (simp add: lock_defs list_all_iff)

lemma mitm_ascending: "ascending lock_rank 0 (mitm_thread False S)"
  by (simp add: lock_defs list_all_iff)

interpretation slp_locks: lock_order lock_rank 9 "threads False S" for S
  by unfold_locales (auto simp: threads_def Main_ascending cfg_ascending rx_ascending mitm_ascending lock_rank_bound)

text \<open>C7: The program does not deadlock as long as no LDN control frame is addressed to the loopback network.
  In every interleaving of any number of the program's threads (boot, configuration service, the server thread of
  the games, the receive thread), with any proxy sockets, no two threads hold the same mutex, and every
  thread that has not ended can go on or waits, through a chain of owners of the mutexes (or of
  the receive thread that \<^verbatim>\<open>Stop\<close> joins), for one that can.\<close>

theorem no_deadlock:
  assumes "set ps \<subseteq> threads False S" and "runs_to (start ps) ts" and "i < length ts" and "ts ! i \<noteq> []"
  shows "exclusive ts \<and> (\<exists>j. (waits_for ts)\<^sup>*\<^sup>* i j \<and> can_go ts j)"
  using slp_locks.deadlock_free [OF assms] mutual_exclusion [OF assms(2)] by simp

text \<open>The witness: the receive thread is inside its loop and holds \<open>L_thread\<close>, the configuration service is about to
  join it.\<close>

definition joining :: "lock stack list" where
  "joining = follow 40 1 [True, True, True, True, True, False, False, True] (follow 3 0 [] (start [rx_thread False [0], cfg_thread]))"

lemma joining_waits: "waits_for joining 1 0" "length joining = 2" "joining ! 1 \<noteq> []"
proof -
  have "hd (joining ! 1) = Run (Guard L_thread Skip)" "Release L_thread \<in> set (joining ! 0)" and j: "joining ! 1 \<noteq> []"
    by code_simp+
  moreover show "length joining = 2" by (simp add: joining_def start_def)
  ultimately show "waits_for joining 1 0" "joining ! 1 \<noteq> []" by (auto intro: waits_forI)
qed

theorem no_deadlock_witness:
  "exclusive joining \<and> waits_for joining 1 0 \<and> (\<exists>j. (waits_for joining)\<^sup>*\<^sup>* 1 j \<and> can_go joining j)"
proof -
  have "runs_to (start [rx_thread False [0], cfg_thread]) joining"
    unfolding joining_def by (rule rtranclp_trans [OF follow_runs follow_runs]) (simp_all add: start_def)
  with no_deadlock [of "[rx_thread False [0], cfg_thread]" "[0]" joining 1] show ?thesis
    using joining_waits by (simp add: threads_def)
qed

section \<open>Two ways to a deadlock\<close>

text \<open>The excluded case is real. A hosting console answers every scan to the address the scan came from\<close>

lemma scan_answered_to_sender:
  assumes "m_state c = CS_AccessPointCreated" and "OnControlFrame True now sip payload c = (c', ds)"
    and "parse_frame payload = Some (LanPacket_Scan, sq, body)"
  shows "\<exists>d. ds = [d] \<and> fst (snd (snd d)) = sip"
  using assms by (auto simp: OnControlFrame_def HandleScan_def SendFrame_def Let_def split: if_splits option.splits)

text \<open>while it holds the mutex of the LDN control plane. When that address is 127.0.0.1 the tunnel delivers the answer
  locally, and the delivery asks for the same mutex again: the receive thread waits for itself for ever, and so does
  everything that asks for the mutex or joins the thread, such as \<^verbatim>\<open>Stop\<close>.\<close>

definition spoofed :: "lock stack list" where
  "spoofed = follow 200 1 [True, True, True, True, True, False, False, True]
     (follow 200 0 [True, False, False, False, True, False, True, True, False, False, False, True, True, True, False, True]
       (start [rx_thread True [], cfg_thread]))"

lemma loopback_frame_deadlocks:
  "runs_to (start [rx_thread True [], cfg_thread]) spoofed" "stuck_set spoofed {0, 1}"
proof -
  show "runs_to (start [rx_thread True [], cfg_thread]) spoofed"
    unfolding spoofed_def by (intro rtranclp_trans [OF follow_runs follow_runs]) (simp_all add: start_def)
  have "hd (spoofed ! 0) = Run (Guard L_ldn Skip)" "Release L_ldn \<in> set (spoofed ! 0)" "spoofed ! 0 \<noteq> []"
    "hd (spoofed ! 1) = Run (Guard L_thread Skip)" "Release L_thread \<in> set (spoofed ! 0)" "spoofed ! 1 \<noteq> []"
    by code_simp+
  moreover have "length spoofed = 2" by (simp add: spoofed_def start_def)
  ultimately have "waits_for spoofed 0 0" "waits_for spoofed 1 0" by (auto intro: waits_forI)
  then show "stuck_set spoofed {0, 1}" by (auto simp: stuck_set_def)
qed

text \<open>The unused accept path takes the manager's mutex under a socket's queue mutex, the delivery of a datagram
  the other way round; two threads doing both would block each other.\<close>

definition IncomingConnection_lk :: "nat \<Rightarrow> prog" where [lock_defs]:
  "IncomingConnection_lk s = opt (Guard (L_queue s) (seq [Alloc_lk, GetLocalAddr_lk s, mgr_get_lk]))"

definition RouteConnectRequest_lk :: "nat list \<Rightarrow> prog" where [lock_defs]:
  "RouteConnectRequest_lk S = seq [Guard L_mgr (Loop (choice (map (\<lambda>s. seq [sock_GetState_lk s, opt (GetLocalAddr_lk s)]) S))),
     choice (map IncomingConnection_lk S)]"

definition crossed :: "lock stack list" where
  "crossed = follow 200 0 [False] (follow 200 1 [False, False, True, False, True, False, False]
     (follow 10 0 [False, False, True] (start [RouteConnectRequest_lk [0], RouteIncomingData_lk [0]])))"

lemma accept_path_inverts_order:
  "runs_to (start [RouteConnectRequest_lk [0], RouteIncomingData_lk [0]]) crossed" "stuck_set crossed {0, 1}"
proof -
  show "runs_to (start [RouteConnectRequest_lk [0], RouteIncomingData_lk [0]]) crossed"
    unfolding crossed_def
    by (rule rtranclp_trans [OF rtranclp_trans [OF follow_runs follow_runs] follow_runs]) (simp_all add: start_def)
  have "hd (crossed ! 0) = Run (Guard L_mgr Skip)" "Release (L_queue 0) \<in> set (crossed ! 0)" "crossed ! 0 \<noteq> []"
    "hd (crossed ! 1) = Run (Guard (L_queue 0) Skip)" "Release L_mgr \<in> set (crossed ! 1)" "crossed ! 1 \<noteq> []"
    by code_simp+
  moreover have "length crossed = 2" by (simp add: crossed_def start_def)
  ultimately have "waits_for crossed 0 1" "waits_for crossed 1 0" by (auto intro: waits_forI)
  then show "stuck_set crossed {0, 1}" by (auto simp: stuck_set_def)
qed

end
