(* ===== verification/Ldn_Steps.thy ===== *)
theory Ldn_Steps
  imports Ldn_Service
begin

text \<open>
  The commands of \<open>Ldn_Service\<close> cut where their thread sleeps. \<^verbatim>\<open>Scan\<close> and \<^verbatim>\<open>Connect\<close> release the mutex and sleep
  between their rounds, so other threads and other consoles run in the middle of them; here a command is
  a first part and a part for every time its thread wakes up. Run with the same interruptions, the parts
  together are the command. A part is one step: the moments between two locked regions of one part, which
  lie around \<^verbatim>\<open>SendFrame\<close>, are not cut further.
\<close>

text \<open>What is left of a command while its thread sleeps: round, last count and stable rounds of \<^verbatim>\<open>Scan\<close>; host,
  node and round of \<^verbatim>\<open>Connect\<close>.\<close>

datatype (plugins only: code) pending =
    Idle
  | Scanning nat nat nat
  | Joining u32 bytes nat

type_synonym part = "pending \<times> LdnControl \<times> datagram list"

definition scan_head :: "bool \<Rightarrow> nat \<Rightarrow> nat \<Rightarrow> nat \<Rightarrow> LdnControl \<Rightarrow> part" where
  "scan_head running i last_count stable_n c =
     (if i \<ge> 10 then (Idle, c, [])
      else (let (c1, d) = (if i \<noteq> 0 \<and> i mod 3 = 0
              then SendFrame running (SubnetBroadcast c) LanPacket_Scan [] c else (c, []))
            in (Scanning i last_count stable_n, c1, d)))"

definition scan_wake :: "bool \<Rightarrow> nat \<Rightarrow> nat \<Rightarrow> nat \<Rightarrow> LdnControl \<Rightarrow> part" where
  "scan_wake running i last_count stable_n c =
     (let cur = length (m_scan_results c)
      in if cur > 0 \<and> cur = last_count then
           (if stable_n + 1 \<ge> 2 then (Idle, c, []) else scan_head running (i + 1) cur (stable_n + 1) c)
         else scan_head running (i + 1) cur 0 c)"

definition join_head :: "bool \<Rightarrow> u32 \<Rightarrow> bytes \<Rightarrow> nat \<Rightarrow> LdnControl \<Rightarrow> part" where
  "join_head running host_ip my i c =
     (if i \<ge> 300 then (Idle, join_abort c, [])
      else if m_state c = CS_StationConnected then (Idle, c, [])
      else (let (c1, d) = (if i mod 50 = 49 then SendFrame running host_ip LanPacket_Connect my c else (c, []))
            in (Joining host_ip my i, c1, d)))"

fun wake :: "bool \<Rightarrow> pending \<Rightarrow> LdnControl \<Rightarrow> part" where
  "wake running Idle c = (Idle, c, [])"
| "wake running (Scanning i last_count stable_n) c = scan_wake running i last_count stable_n c"
| "wake running (Joining host_ip my i) c = join_head running host_ip my (i + 1) c"

definition after :: "datagram list \<Rightarrow> part \<Rightarrow> part" where
  "after d x = (let (p, c, d') = x in (p, c, d @ d'))"

definition scan_call :: "bool \<Rightarrow> ScanFilter \<Rightarrow> LdnControl \<Rightarrow> part" where
  "scan_call running f c =
     (if m_state c = CS_None \<or> m_state c = CS_Error then (Idle, c, [])
      else (let c1 = scan_begin f c; (c2, d) = SendFrame running (SubnetBroadcast c1) LanPacket_Scan [] c1
            in after d (scan_head running 0 0 0 c2)))"

definition connect_call :: "bool \<Rightarrow> ConnectNetworkData \<Rightarrow> NetworkInfo \<Rightarrow> LdnControl \<Rightarrow> part" where
  "connect_call running dat data c =
     (if m_state c = CS_None \<or> nodeCount (ldn data) = 0 then (Idle, c, [])
      else (let host_ip = ipv4Address (nodes (ldn data) ! 0); c1 = join_begin data c;
                my = enc_NodeInfo (my_node dat c1); (c2, d) = SendFrame running host_ip LanPacket_Connect my c1
            in after d (join_head running host_ip my 0 c2)))"

fun begin_call :: "ldn_env \<Rightarrow> ldn_call \<Rightarrow> LdnControl \<Rightarrow> part" where
  "begin_call e (L_Scan chan f cap) c = scan_call (le_running e) f c"
| "begin_call e (L_Connect dat data) c = connect_call (le_running e) dat data c"
| "begin_call e call c = (let (_, c1, _, d) = ldn_exec e call c in (Idle, c1, d))"

section \<open>The parts make up the command\<close>

text \<open>Running up to \<open>n\<close> parts with \<open>env i\<close> as what happens during the sleep of round \<open>i\<close>.\<close>

fun round_of :: "pending \<Rightarrow> nat" where
  "round_of Idle = 0"
| "round_of (Scanning i _ _) = i"
| "round_of (Joining _ _ i) = i"

fun wakes :: "nat \<Rightarrow> bool \<Rightarrow> (nat \<Rightarrow> LdnControl \<Rightarrow> LdnControl) \<Rightarrow> part \<Rightarrow> part" where
  "wakes 0 running env x = x"
| "wakes (Suc n) running env (p, c, d) =
     (if p = Idle then (p, c, d)
      else wakes n running env (after d (wake running p (env (round_of p) c))))"

lemma after_simps [simp]: "after d (p, c, d') = (p, c, d @ d')" "after [] x = x" "after d (after d' x) = after (d @ d') x"
  by (cases x; simp add: after_def)+

lemma after_eq: "after d x = (fst x, fst (snd x), d @ snd (snd x))"
  by (cases x) simp

lemma wakes_idle [simp]: "wakes n running env (Idle, c, d) = (Idle, c, d)"
  by (cases n) simp_all

lemma wakes_after: "wakes n running env (after d x) = after d (wakes n running env x)"
proof (induction n arbitrary: d x)
  case (Suc n)
  obtain p c d' where x: "x = (p, c, d')" by (cases x)
  show ?case
    using Suc.IH [of "d @ d'"] Suc.IH [of d'] Suc.IH [of d] by (simp add: x)
qed simp

lemma scan_loop_parts:
  assumes "10 \<le> i + n"
  shows "wakes n running env (scan_head running i last_count stable_n c) =
     (let (c1, d) = scan_loop running env i last_count stable_n c in (Idle, c1, d))"
  using assms
proof (induction n arbitrary: i last_count stable_n c)
  case 0
  then show ?case by (subst scan_loop.simps) (simp add: scan_head_def)
next
  case (Suc n)
  show ?case
  proof (cases "i \<ge> 10")
    case True
    then show ?thesis by (subst scan_loop.simps) (simp add: scan_head_def)
  next
    case False
    obtain c1 d1 where s: "(if i \<noteq> 0 \<and> i mod 3 = 0 then SendFrame running (SubnetBroadcast c) LanPacket_Scan [] c else (c, [])) =
        (c1, d1)" by fastforce
    have IH: "wakes n running env (scan_head running (i + 1) l m c') =
        (let (c1, d) = scan_loop running env (i + 1) l m c' in (Idle, c1, d))" for l m c'
      using Suc.prems by (intro Suc.IH) simp
    show ?thesis
      using False s IH
      by (subst scan_loop.simps) (simp add: scan_head_def [of running i] scan_wake_def Let_def wakes_after split_beta, simp add: after_eq)
  qed
qed

lemma connect_poll_parts:
  assumes "300 \<le> i + n"
  shows "wakes n running env (join_head running host_ip my i c) =
     (let (ok, c1, d) = connect_poll running env host_ip my i c in (Idle, if ok then c1 else join_abort c1, d))"
  using assms
proof (induction n arbitrary: i c)
  case 0
  then show ?case by (subst connect_poll.simps) (simp add: join_head_def)
next
  case (Suc n)
  show ?case
  proof (cases "i \<ge> 300 \<or> m_state c = CS_StationConnected")
    case True
    then show ?thesis by (subst connect_poll.simps) (auto simp add: join_head_def)
  next
    case False
    obtain c1 d1 where s: "(if i mod 50 = 49 then SendFrame running host_ip LanPacket_Connect my c else (c, [])) = (c1, d1)"
      by fastforce
    have IH: "wakes n running env (join_head running host_ip my (i + 1) c') =
        (let (ok, c1, d) = connect_poll running env host_ip my (i + 1) c' in (Idle, if ok then c1 else join_abort c1, d))" for c'
      using Suc.prems by (intro Suc.IH) simp
    show ?thesis
      using False s IH
      by (subst connect_poll.simps) (simp add: join_head_def [of running host_ip my i] Let_def wakes_after split_beta)
  qed
qed

text \<open>Every command is its parts: 300 wake-ups are enough for every command to end, and then the control plane
  and the frames sent are the command's.\<close>

lemma call_by_parts:
  assumes "300 \<le> n"
  shows "wakes n (le_running e) (le_sleep e) (begin_call e call c) =
     (let (_, c1, _, d) = ldn_exec e call c in (Idle, c1, d))"
proof (cases call)
  case (L_Connect dat data)
  with assms show ?thesis
    by (simp add: connect_call_def ldn_Connect_def Let_def split_beta with_frames_def wakes_after connect_poll_parts)
next
  case (L_Scan chan f cap)
  with assms show ?thesis
    by (simp add: scan_call_def ldn_Scan_def Let_def split_beta wakes_after scan_loop_parts) (simp add: after_eq)
qed (auto simp: split_beta Let_def)

end
