(* ===== verification/Relay_Net.thy ===== *)
theory Relay_Net
  imports Prelude
begin

text \<open>
  Consoles that exchange messages through a relay, for any kind of console and message. The relay may lose,
  delay, repeat and reorder messages and hand them to consoles they were not meant for; it does not make
  messages up. So the messages are a set that only grows: each message in it may be delivered to any
  console at any time, any number of times, or never.

  The state also records every state that a console has been in. A property of the network then says what
  must have happened before: the locale \<open>relay_net\<close> proves invariants of consoles and messages that refer
  to that record, from the steps of one console.
\<close>

record ('c, 'm) net =
  n_con :: "nat \<Rightarrow> 'c"
  n_wire :: "'m set"
  n_past :: "(nat \<times> 'c) set"

definition net_new :: "(nat \<Rightarrow> 'c) \<Rightarrow> ('c, 'm) net" where
  "net_new f = \<lparr>n_con = f, n_wire = {}, n_past = {(i, f i) |i. True}\<rparr>"

definition net_upd :: "nat \<Rightarrow> 'c \<Rightarrow> 'm list \<Rightarrow> ('c, 'm) net \<Rightarrow> ('c, 'm) net" where
  "net_upd i c out s = \<lparr>n_con = (n_con s)(i := c), n_wire = n_wire s \<union> set out, n_past = insert (i, c) (n_past s)\<rparr>"

text \<open>\<open>act\<close> is a step a console takes by itself, \<open>recv\<close> its reaction to a message; both give the new state and
  the messages sent.\<close>

inductive net_run :: "('c \<Rightarrow> bool) \<Rightarrow> ('c \<Rightarrow> 'c \<Rightarrow> 'm list \<Rightarrow> bool) \<Rightarrow> ('m \<Rightarrow> 'c \<Rightarrow> 'c \<Rightarrow> 'm list \<Rightarrow> bool) \<Rightarrow>
    ('c, 'm) net \<Rightarrow> bool"
  for start act recv where
  init: "(\<And>i. start (f i)) \<Longrightarrow> net_run start act recv (net_new f)"
| act: "net_run start act recv s \<Longrightarrow> act (n_con s i) c out \<Longrightarrow> net_run start act recv (net_upd i c out s)"
| recv: "net_run start act recv s \<Longrightarrow> m \<in> n_wire s \<Longrightarrow> recv m (n_con s i) c out \<Longrightarrow>
    net_run start act recv (net_upd i c out s)"

lemma net_upd_fields [simp]:
  "n_con (net_upd i c out s) = (n_con s)(i := c)" "n_wire (net_upd i c out s) = n_wire s \<union> set out"
  "n_past (net_upd i c out s) = insert (i, c) (n_past s)"
  by (simp_all add: net_upd_def)

text \<open>The record is a record: it holds the present state of every console.\<close>

lemma present_in_past: "net_run start act recv s \<Longrightarrow> (i, n_con s i) \<in> n_past s"
  by (induction rule: net_run.induct) (auto simp: net_new_def)

text \<open>The contract: what holds of a console (\<open>inv\<close>) and of a message (\<open>ok\<close>) relative to the past only becomes
  easier to satisfy as the past grows, every console starts with it, and every step keeps it.\<close>

locale relay_net =
  fixes start :: "'c \<Rightarrow> bool"
    and act :: "'c \<Rightarrow> 'c \<Rightarrow> 'm list \<Rightarrow> bool"
    and recv :: "'m \<Rightarrow> 'c \<Rightarrow> 'c \<Rightarrow> 'm list \<Rightarrow> bool"
    and inv :: "(nat \<times> 'c) set \<Rightarrow> 'c \<Rightarrow> bool"
    and ok :: "(nat \<times> 'c) set \<Rightarrow> 'm \<Rightarrow> bool"
  assumes inv_mono: "inv H c \<Longrightarrow> H \<subseteq> H' \<Longrightarrow> inv H' c"
    and ok_mono: "ok H m \<Longrightarrow> H \<subseteq> H' \<Longrightarrow> ok H' m"
    and inv_start: "start c \<Longrightarrow> inv H c"
    and act_step: "inv H c \<Longrightarrow> act c c' out \<Longrightarrow> (i, c') \<in> H \<Longrightarrow> inv H c' \<and> (\<forall>m \<in> set out. ok H m)"
    and recv_step: "inv H c \<Longrightarrow> ok H m \<Longrightarrow> recv m c c' out \<Longrightarrow> (i, c') \<in> H \<Longrightarrow> inv H c' \<and> (\<forall>m \<in> set out. ok H m)"
begin

definition sound :: "('c, 'm) net \<Rightarrow> bool" where
  "sound s \<longleftrightarrow> (\<forall>(i, c) \<in> n_past s. inv (n_past s) c) \<and> (\<forall>m \<in> n_wire s. ok (n_past s) m)"

lemma step_keeps:
  assumes "sound s" "inv (insert (i, c) (n_past s)) c" "\<forall>m \<in> set out. ok (insert (i, c) (n_past s)) m"
  shows "sound (net_upd i c out s)"
  using assms by (auto simp: sound_def intro: inv_mono ok_mono subset_insertI)

lemma net_sound:
  assumes "net_run start act recv s"
  shows "sound s"
  using assms
proof (induction rule: net_run.induct)
  case (init f)
  then show ?case by (auto simp: sound_def net_new_def inv_start)
next
  case (act s i c out)
  let ?H = "insert (i, c) (n_past s)"
  have "inv ?H (n_con s i)"
    using act.IH present_in_past [OF act.hyps(1), of i] by (auto simp: sound_def intro: inv_mono subset_insertI)
  from act_step [OF this act.hyps(2), of i] act.IH show ?case by (intro step_keeps) auto
next
  case (recv s m i c out)
  let ?H = "insert (i, c) (n_past s)"
  have "inv ?H (n_con s i)" "ok ?H m"
    using recv.IH recv.hyps(2) present_in_past [OF recv.hyps(1), of i]
    by (auto simp: sound_def intro: inv_mono ok_mono subset_insertI)
  from recv_step [OF this recv.hyps(3), of i] recv.IH show ?case by (intro step_keeps) auto
qed

lemma net_invariant:
  assumes "net_run start act recv s"
  shows "inv (n_past s) (n_con s j)" "(i, c) \<in> n_past s \<Longrightarrow> inv (n_past s) c" "m \<in> n_wire s \<Longrightarrow> ok (n_past s) m"
  using net_sound [OF assms] present_in_past [OF assms, of j] by (auto simp: sound_def)

end

end
