(* ===== verification/Ldn_Network.thy ===== *)
theory Ldn_Network
  imports Ldn_Steps Relay_Net
begin

text \<open>
  Any number of consoles playing over one relay: the control plane of each console with the game's commands,
  the timer and the frames of the others, as an interpretation of \<open>relay_net\<close>. The invariant says what a
  console's beliefs about the others rest on; every handler and every command is shown to keep it.
\<close>

section \<open>One console\<close>

record ldn_node =
  k_ctl :: LdnControl
  k_op :: pending

text \<open>\<^verbatim>\<open>SetAdvertiseData\<close> does not look at the state; here a game does not call it while it is connected to a
  network of somebody else (see \<open>advertise_while_connected\<close>). The arrays of the network it asks to join have
  their declared sizes.\<close>

fun call_fits :: "ldn_call \<Rightarrow> LdnControl \<Rightarrow> bool" where
  "call_fits (L_SetAdvertiseData _ _) c \<longleftrightarrow> m_state c \<noteq> CS_StationConnected"
| "call_fits (L_Connect _ data) c \<longleftrightarrow> NetworkInfo_ok data"
| "call_fits _ _ \<longleftrightarrow> True"

text \<open>A console by itself: a command begins, a sleeping command goes on, the timer ticks, the session ends, and
  the socket service enters or leaves local network mode. Commands come one after the other.\<close>

inductive node_act :: "ldn_node \<Rightarrow> ldn_node \<Rightarrow> datagram list \<Rightarrow> bool" where
  call: "k_op k = Idle \<Longrightarrow> call_ok e call \<Longrightarrow> call_fits call (k_ctl k) \<Longrightarrow> begin_call e call (k_ctl k) = (p, c, d) \<Longrightarrow>
    node_act k \<lparr>k_ctl = c, k_op = p\<rparr> d"
| resume: "wake running (k_op k) (k_ctl k) = (p, c, d) \<Longrightarrow> node_act k \<lparr>k_ctl = c, k_op = p\<rparr> d"
| timer: "Tick running now (k_ctl k) = (c, d) \<Longrightarrow> node_act k (k\<lparr>k_ctl := c\<rparr>) d"
| gone: "k_op k = Idle \<Longrightarrow> node_act k (k\<lparr>k_ctl := fst (LdnICommunicationService_delete na (k_ctl k))\<rparr>) []"
| mode_on: "node_act k (k\<lparr>k_ctl := fst (snd (EnterLocalNetworkMode na (k_ctl k)))\<rparr>) []"
| mode_off: "node_act k (k\<lparr>k_ctl := fst (ExitLocalNetworkMode na (k_ctl k))\<rparr>) []"

inductive node_recv :: "datagram \<Rightarrow> ldn_node \<Rightarrow> ldn_node \<Rightarrow> datagram list \<Rightarrow> bool" where
  frame: "OnControlFrame running now sip payload (k_ctl k) = (c, d) \<Longrightarrow>
    node_recv (sip, sport, dip, dport, pr, payload) k (k\<lparr>k_ctl := c\<rparr>) d"

definition node_new :: ldn_node where
  "node_new = \<lparr>k_ctl = new_LdnControl, k_op = Idle\<rparr>"

abbreviation ldn_net :: "(ldn_node, datagram) net \<Rightarrow> bool" where
  "ldn_net \<equiv> net_run (\<lambda>k. k = node_new) node_act node_recv"

section \<open>What a console relies on\<close>

text \<open>The control planes that hosted at some time, and whether a console with a given address was joining a
  network at some time.\<close>

definition hosts :: "(nat \<times> ldn_node) set \<Rightarrow> LdnControl set" where
  "hosts H = {h. \<exists>i k. (i, k) \<in> H \<and> h = k_ctl k \<and> m_state h = CS_AccessPointCreated \<and> ldn_wf h}"

definition joined :: "(nat \<times> ldn_node) set \<Rightarrow> u32 \<Rightarrow> bool" where
  "joined H ip \<longleftrightarrow> (\<exists>i k. (i, k) \<in> H \<and> m_ipv4_address (k_ctl k) = ip \<and> m_join_active (k_ctl k))"

definition agrees :: "(nat \<times> ldn_node) set \<Rightarrow> LdnControl \<Rightarrow> bool" where
  "agrees H c \<longleftrightarrow>
     (m_state c = CS_StationConnected \<longrightarrow>
        (\<exists>h \<in> hosts H. m_network_info c = m_network_info h) \<and> (\<exists>h \<in> hosts H. listed_node (m_ipv4_address c) h)) \<and>
     (\<forall>r \<in> set (m_scan_results c). \<exists>h \<in> hosts H. r = m_network_info h) \<and>
     (\<forall>s \<in> set (m_stations c). active s \<longrightarrow> joined H (src_ip s))"

text \<open>Besides being well formed, a console has stations only while it hosts, and then it has published what it
  would build.\<close>

definition settled :: "LdnControl \<Rightarrow> bool" where
  "settled c \<longleftrightarrow> ldn_wf c \<and> length (m_join_target_bssid c) = 6 \<and> (m_state c \<noteq> CS_AccessPointCreated \<longrightarrow> (\<forall>s \<in> set (m_stations c). \<not> active s)) \<and>
     (m_state c = CS_AccessPointCreated \<longrightarrow> BuildNetwork c = m_network_info c)"

fun joining :: "pending \<Rightarrow> bool" where
  "joining (Joining _ _ _) \<longleftrightarrow> True"
| "joining _ \<longleftrightarrow> False"

fun short_op :: "pending \<Rightarrow> bool" where
  "short_op (Joining _ my _) \<longleftrightarrow> length my \<le> sizeof_NetworkInfo"
| "short_op _ \<longleftrightarrow> True"

definition node_inv :: "(nat \<times> ldn_node) set \<Rightarrow> ldn_node \<Rightarrow> bool" where
  "node_inv H k \<longleftrightarrow> settled (k_ctl k) \<and> agrees H (k_ctl k) \<and> short_op (k_op k) \<and>
     (joining (k_op k) \<longrightarrow> joined H (m_ipv4_address (k_ctl k)))"

definition frame_ok :: "(nat \<times> ldn_node) set \<Rightarrow> datagram \<Rightarrow> bool" where
  "frame_ok H m \<longleftrightarrow> (\<forall>ty seq body. parse_frame (dg_payload m) = Some (ty, seq, body) \<longrightarrow>
     (ty = LanPacket_ScanResp \<or> ty = LanPacket_SyncNetwork \<longrightarrow> (\<exists>h \<in> hosts H. body = enc_NetworkInfo (m_network_info h))) \<and>
     (ty = LanPacket_Connect \<longrightarrow> joined H (fst m)))"

lemma hosts_mono: "h \<in> hosts H \<Longrightarrow> H \<subseteq> H' \<Longrightarrow> h \<in> hosts H'"
  by (auto simp: hosts_def)

lemma joined_mono: "joined H ip \<Longrightarrow> H \<subseteq> H' \<Longrightarrow> joined H' ip"
  by (auto simp: joined_def)

lemma joined_intro: "(i, k) \<in> H \<Longrightarrow> m_join_active (k_ctl k) \<Longrightarrow> joined H (m_ipv4_address (k_ctl k))"
  unfolding joined_def by blast

lemma agrees_mono: "agrees H c \<Longrightarrow> H \<subseteq> H' \<Longrightarrow> agrees H' c"
  unfolding agrees_def by (meson hosts_mono joined_mono)

lemma frame_ok_mono: "frame_ok H m \<Longrightarrow> H \<subseteq> H' \<Longrightarrow> frame_ok H' m"
  unfolding frame_ok_def by (blast intro: hosts_mono joined_mono)

section \<open>Steps that learn nothing\<close>

text \<open>A step that believes nothing new: it does not become connected, collects no scan result and admits no
  station.\<close>

definition quiet :: "LdnControl \<Rightarrow> LdnControl \<Rightarrow> bool" where
  "quiet c c' \<longleftrightarrow>
     (m_state c' = CS_StationConnected \<longrightarrow> m_state c = CS_StationConnected \<and> m_network_info c' = m_network_info c \<and>
        m_ipv4_address c' = m_ipv4_address c) \<and>
     set (m_scan_results c') \<subseteq> set (m_scan_results c) \<and>
     (\<forall>s \<in> set (m_stations c'). active s \<longrightarrow> (\<exists>s0 \<in> set (m_stations c). active s0 \<and> src_ip s0 = src_ip s))"

lemma quiet_agrees:
  assumes "agrees H c" "quiet c c'" shows "agrees H c'"
  unfolding agrees_def
proof (intro conjI ballI impI)
  assume "m_state c' = CS_StationConnected"
  with assms show "\<exists>h \<in> hosts H. m_network_info c' = m_network_info h" "\<exists>h \<in> hosts H. listed_node (m_ipv4_address c') h"
    by (simp_all add: agrees_def quiet_def)
next
  fix r assume "r \<in> set (m_scan_results c')"
  then have "r \<in> set (m_scan_results c)" using assms(2) by (auto simp: quiet_def)
  with assms(1) show "\<exists>h \<in> hosts H. r = m_network_info h" by (simp add: agrees_def)
next
  fix s assume "s \<in> set (m_stations c')" "active s"
  then obtain s0 where "s0 \<in> set (m_stations c)" "active s0" "src_ip s0 = src_ip s" using assms(2) by (auto simp: quiet_def)
  with assms(1) show "joined H (src_ip s)" by (auto simp: agrees_def)
qed

lemma quiet_refl [simp]: "quiet c c"
  by (auto simp: quiet_def)

lemma quiet_trans:
  assumes "quiet a b" "quiet b c" shows "quiet a c"
  unfolding quiet_def
proof (intro conjI ballI impI)
  fix s assume "s \<in> set (m_stations c)" "active s"
  then obtain s1 where "s1 \<in> set (m_stations b)" "active s1" "src_ip s1 = src_ip s" using assms(2) by (auto simp: quiet_def)
  with assms(1) show "\<exists>s0 \<in> set (m_stations a). active s0 \<and> src_ip s0 = src_ip s" unfolding quiet_def by metis
qed (use assms in \<open>auto simp: quiet_def\<close>)

lemma settled_cong:
  assumes "settled c" "m_stations c' = m_stations c" "m_network_info c' = m_network_info c"
    "m_advertise_data c' = m_advertise_data c" "m_advertise_size c' = m_advertise_size c"
    "m_prev_node_connected c' = m_prev_node_connected c" "m_node_changes c' = m_node_changes c"
    "m_recent_scanners c' = m_recent_scanners c" "m_network_config c' = m_network_config c"
    "m_scan_results c' = m_scan_results c \<or> m_scan_results c' = []"
    "m_state c' = m_state c" "m_ipv4_address c' = m_ipv4_address c" "m_self_name c' = m_self_name c"
    "length (m_join_target_bssid c') = length (m_join_target_bssid c)"
  shows "settled c'"
proof -
  have "ldn_wf c'" using assms by (intro ldn_wf_cong [of c c']) (simp_all add: settled_def)
  moreover have "BuildNetwork c' = BuildNetwork c" by (rule Build_cong) (use assms in auto)
  ultimately show ?thesis using assms by (simp add: settled_def)
qed

lemma kept_fields [simp]:
  "m_join_target_bssid (SetState st c) = m_join_target_bssid c"
  "m_scan_results (ResetStations c) = m_scan_results c" "m_join_target_bssid (ResetStations c) = m_join_target_bssid c"
  "m_scan_results (InitNodeStateChange c) = m_scan_results c"
  "m_join_target_bssid (InitNodeStateChange c) = m_join_target_bssid c"
  by (simp_all add: SetState_def SignalStateChange_def ResetStations_def InitNodeStateChange_def)

lemma SendFrame_fields [simp]:
  "m_state (fst (SendFrame running dst ty body c)) = m_state c" "m_stations (fst (SendFrame running dst ty body c)) = m_stations c"
  "m_scan_results (fst (SendFrame running dst ty body c)) = m_scan_results c"
  "m_ipv4_address (fst (SendFrame running dst ty body c)) = m_ipv4_address c"
  "m_network_info (fst (SendFrame running dst ty body c)) = m_network_info c"
  "m_join_active (fst (SendFrame running dst ty body c)) = m_join_active c"
  "m_join_target_bssid (fst (SendFrame running dst ty body c)) = m_join_target_bssid c"
  by (simp_all add: SendFrame_def Let_def)

lemma mode_fields [simp]:
  "m_stations (fst (exit_if_entered na c)) = m_stations c" "m_stations (fst (enter_if_needed na c)) = m_stations c"
  "m_scan_results (fst (exit_if_entered na c)) = m_scan_results c"
  "m_scan_results (fst (enter_if_needed na c)) = m_scan_results c"
  "m_join_target_bssid (fst (exit_if_entered na c)) = m_join_target_bssid c"
  "m_join_target_bssid (fst (enter_if_needed na c)) = m_join_target_bssid c"
  by (auto simp: exit_if_entered_def enter_if_needed_def ExitLocalNetworkMode_def EnterLocalNetworkMode_def Let_def
      split: sum.splits option.splits)

section \<open>What a console says\<close>

lemma packet_types [simp]:
  "LanPacket_SyncNetwork \<noteq> LanPacket_Connect" "LanPacket_ScanResp \<noteq> LanPacket_Connect" "LanPacket_Scan \<noteq> LanPacket_Connect"
  "LanPacket_Scan \<noteq> LanPacket_ScanResp" "LanPacket_Scan \<noteq> LanPacket_SyncNetwork"
  "LanPacket_RelayHeartbeat \<noteq> LanPacket_ScanResp" "LanPacket_RelayHeartbeat \<noteq> LanPacket_Connect"
  "LanPacket_RelayHeartbeat \<noteq> LanPacket_SyncNetwork" "LanPacket_RelayBye \<noteq> LanPacket_ScanResp"
  "LanPacket_RelayBye \<noteq> LanPacket_Connect" "LanPacket_RelayBye \<noteq> LanPacket_SyncNetwork"
  "LanPacket_Connect \<noteq> LanPacket_ScanResp" "LanPacket_Connect \<noteq> LanPacket_SyncNetwork"
  by (code_simp)+

text \<open>Every frame is one of this program's; a network description in it is the sender's own, while it hosts, and
  a request to join is only sent under its address and when \<open>asking\<close>.\<close>

definition said :: "bool \<Rightarrow> LdnControl \<Rightarrow> datagram \<Rightarrow> bool" where
  "said asking c m \<longleftrightarrow> (\<exists>seq ty body. dg_payload m = build_frame seq ty body \<and> length body \<le> sizeof_NetworkInfo \<and>
     (ty = LanPacket_ScanResp \<or> ty = LanPacket_SyncNetwork \<longrightarrow>
        m_state c = CS_AccessPointCreated \<and> body = enc_NetworkInfo (m_network_info c)) \<and>
     (ty = LanPacket_Connect \<longrightarrow> asking \<and> fst m = m_ipv4_address c))"

lemma said_ok:
  assumes "said asking (k_ctl k) m" "ldn_wf (k_ctl k)" "(i, k) \<in> H" "asking \<Longrightarrow> joined H (m_ipv4_address (k_ctl k))"
  shows "frame_ok H m"
proof -
  obtain seq ty body where m: "dg_payload m = build_frame seq ty body" "length body \<le> sizeof_NetworkInfo"
    and told: "ty = LanPacket_ScanResp \<or> ty = LanPacket_SyncNetwork \<longrightarrow>
        m_state (k_ctl k) = CS_AccessPointCreated \<and> body = enc_NetworkInfo (m_network_info (k_ctl k))"
    and ask: "ty = LanPacket_Connect \<longrightarrow> asking \<and> fst m = m_ipv4_address (k_ctl k)"
    using assms(1) by (auto simp: said_def)
  have "k_ctl k \<in> hosts H" if "m_state (k_ctl k) = CS_AccessPointCreated"
    using that assms(2,3) by (auto simp: hosts_def)
  with told ask assms(4) show ?thesis
    unfolding frame_ok_def m(1) parse_build [OF m(2)] by auto
qed

lemma said_intro:
  assumes "dg_payload m = build_frame seq ty body" "length body \<le> sizeof_NetworkInfo"
    and "ty = LanPacket_ScanResp \<or> ty = LanPacket_SyncNetwork \<Longrightarrow>
       m_state c = CS_AccessPointCreated \<and> body = enc_NetworkInfo (m_network_info c)"
    and "ty = LanPacket_Connect \<Longrightarrow> asking \<and> fst m = m_ipv4_address c"
  shows "said asking c m"
  unfolding said_def using assms by (intro exI [of _ seq] exI [of _ ty] exI [of _ body]) blast

lemma SendFrame_said:
  assumes "m \<in> set (snd (SendFrame running dst ty body c))" "length body \<le> sizeof_NetworkInfo"
    and "ty = LanPacket_ScanResp \<or> ty = LanPacket_SyncNetwork \<Longrightarrow>
       m_state c' = CS_AccessPointCreated \<and> body = enc_NetworkInfo (m_network_info c')"
    and "ty = LanPacket_Connect \<Longrightarrow> asking \<and> m_ipv4_address c' = m_ipv4_address c"
  shows "said asking c' m"
proof -
  obtain seq where "dg_payload m = build_frame seq ty body" "fst m = m_ipv4_address c"
    using assms(1) by (auto simp: SendFrame_def Let_def dg_payload_def split: if_splits)
  with assms(2-4) show ?thesis by (intro said_intro) auto
qed

lemma enc_info_length: "ldn_wf c \<Longrightarrow> length (enc_NetworkInfo (m_network_info c)) = sizeof_NetworkInfo"
  by (simp add: ldn_wf_def buffers_wf_def info.enc_length sizeof_NetworkInfo_def)

lemma sync_loop_silent: "snd (sync_loop False ss c) = []"
  by (induction ss arbitrary: c) (auto simp: SendFrame_def split_beta Let_def)

lemma UpdateNodes_said:
  assumes "ldn_wf (fst (UpdateNodes running c))" "m \<in> set (snd (UpdateNodes running c))"
    and "m_state c \<noteq> CS_AccessPointCreated \<Longrightarrow> \<forall>s \<in> set (m_stations c). \<not> active s"
  shows "said asking (fst (UpdateNodes running c)) m"
proof -
  have running using assms(2) by (cases running) (auto simp: UpdateNodes_def sync_loop_silent split_beta Let_def)
  have sw: "stations_wf (m_stations c)" using assms(1) by (simp add: ldn_wf_def)
  note o = UpdateNodes_out [OF sw \<open>running\<close>]
  have "map dg_dst (snd (UpdateNodes running c)) \<noteq> []" using assms(2) by auto
  then have "filter active (m_stations c) \<noteq> []" using o by simp
  with assms(3) have host: "m_state c = CS_AccessPointCreated" by (auto simp: filter_empty_conv)
  from o assms(2) have "is_sync (m_ipv4_address c) (BuildNetwork c) m" by blast
  then obtain q where "dg_payload m = build_frame q LanPacket_SyncNetwork (enc_NetworkInfo (BuildNetwork c))"
    by (auto simp: is_sync_def dg_payload_def)
  with host enc_info_length [OF assms(1)] show ?thesis
    by (intro said_intro [of m q]) auto
qed

section \<open>Steps\<close>

text \<open>A step that keeps the console settled, learns nothing and says nothing new.\<close>

definition clean :: "bool \<Rightarrow> LdnControl \<Rightarrow> LdnControl \<times> datagram list \<Rightarrow> bool" where
  "clean asking c x \<longleftrightarrow> settled (fst x) \<and> quiet c (fst x) \<and> (\<forall>m \<in> set (snd x). said asking (fst x) m)"

lemma Build_idem:
  "BuildNetwork (c\<lparr>m_network_info := BuildNetwork c, m_tx_seq := q\<rparr>) = BuildNetwork c"
proof -
  have u: "used_nodes (c\<lparr>m_network_info := i, m_tx_seq := q\<rparr>) = used_nodes c" for i by (rule used_nodes_cong) simp_all
  have "memcpy (memcpy d x) x = memcpy d x" for d x :: bytes by (simp add: memcpy_def)
  then show ?thesis by (simp add: BuildNetwork_used u)
qed

lemma Build_UpdateNodes: "BuildNetwork (fst (UpdateNodes running c)) = BuildNetwork c"
proof -
  obtain q where u: "fst (UpdateNodes running c) = OnNetworkInfoChanged (c\<lparr>m_network_info := BuildNetwork c, m_tx_seq := q\<rparr>)"
    by (rule UpdateNodes_state)
  show ?thesis unfolding u by (subst Build_cong [of _ "c\<lparr>m_network_info := BuildNetwork c, m_tx_seq := q\<rparr>"]) (simp_all add: Build_idem)
qed

lemma clean_UpdateNodes:
  assumes "ldn_wf (fst (UpdateNodes running c1))"
    and "length (m_join_target_bssid c1) = 6"
    and idle: "m_state c1 \<noteq> CS_AccessPointCreated \<Longrightarrow> \<forall>s \<in> set (m_stations c1). \<not> active s"
    and "m_state c1 \<noteq> CS_StationConnected" "set (m_scan_results c1) \<subseteq> set (m_scan_results c)"
    and "\<And>s. s \<in> set (m_stations c1) \<Longrightarrow> active s \<Longrightarrow> \<exists>s0 \<in> set (m_stations c). active s0 \<and> src_ip s0 = src_ip s"
  shows "clean asking c (UpdateNodes running c1)"
proof -
  obtain q where u: "fst (UpdateNodes running c1) = OnNetworkInfoChanged (c1\<lparr>m_network_info := BuildNetwork c1, m_tx_seq := q\<rparr>)"
    by (rule UpdateNodes_state)
  have "settled (fst (UpdateNodes running c1))" using assms(1,2) idle by (simp add: settled_def Build_UpdateNodes) (simp add: u)
  moreover have "m_scan_results (fst (UpdateNodes running c1)) = m_scan_results c1" by (simp add: u)
  ultimately show ?thesis
    using assms(4-6) UpdateNodes_said [OF assms(1) _ idle] by (auto simp: clean_def quiet_def)
qed

lemma clean_same: "settled c \<Longrightarrow> clean asking c (c, [])"
  by (simp add: clean_def)

lemma clean_left:
  assumes "ldn_wf c'" "length (m_join_target_bssid c') = 6" "m_state c' \<noteq> CS_AccessPointCreated" "m_state c' \<noteq> CS_StationConnected"
    and "\<And>s. s \<in> set (m_stations c') \<Longrightarrow> \<not> active s" "set (m_scan_results c') \<subseteq> set (m_scan_results c)"
    and "\<And>m. m \<in> set d \<Longrightarrow> said asking c' m"
  shows "clean asking c (c', d)"
  using assms by (auto simp: clean_def settled_def quiet_def)

lemma clean_sent:
  assumes "settled c" "settled c'" "quiet c c'" "length body \<le> sizeof_NetworkInfo"
    and "ty \<noteq> LanPacket_ScanResp" "ty \<noteq> LanPacket_SyncNetwork"
    and "ty = LanPacket_Connect \<Longrightarrow> asking \<and> m_ipv4_address c' = m_ipv4_address c0"
    and "d = snd (SendFrame running dst ty body c0)"
  shows "clean asking c (c', d)"
  using assms by (auto simp: clean_def intro: SendFrame_said)

lemma settled_SendFrame: "settled c \<Longrightarrow> settled (fst (SendFrame running dst ty body c))"
  using SendFrame_state [of running dst ty body c] by (auto intro: settled_cong)

lemma length_bye_body: "length mac = 6 \<Longrightarrow> length (bye_body mac ip) \<le> sizeof_NetworkInfo"
  by (simp add: bye_body_def enc_Heartbeat_def sizeof_NetworkInfo_def)

text \<open>The timer.\<close>

lemma reap_active: "active (reap now s) \<Longrightarrow> active s \<and> src_ip (reap now s) = src_ip s"
  by (simp add: reap_def reset_station_def split: if_splits)

lemma clean_station_tick:
  assumes "settled c"
  shows "clean False c (station_tick running now c)" "m_ipv4_address (fst (station_tick running now c)) = m_ipv4_address c"
proof -
  define x where "x = (if m_join_active c \<and> beacon_host_ip c \<noteq> 0
     then SendFrame running (beacon_host_ip c) LanPacket_RelayHeartbeat (bye_body (m_join_target_bssid c) (m_ipv4_address c)) c
     else (c, []))"
  have len: "length (bye_body (m_join_target_bssid c) (m_ipv4_address c)) \<le> sizeof_NetworkInfo"
    using assms by (intro length_bye_body) (simp add: settled_def)
  have st: "settled (fst x)" using assms by (simp add: x_def settled_SendFrame)
  have f: "m_state (fst x) = m_state c" "m_stations (fst x) = m_stations c" "m_scan_results (fst x) = m_scan_results c"
    "m_ipv4_address (fst x) = m_ipv4_address c" "m_network_info (fst x) = m_network_info c"
    "m_join_target_bssid (fst x) = m_join_target_bssid c" by (simp_all add: x_def)
  have said: "said False c' m" if "m \<in> set (snd x)" for c' m
    using that len by (auto simp: x_def split: if_splits intro: SendFrame_said)
  let ?cut = "SetState CS_Station ((fst x)\<lparr>m_disconnect_reason := 6, m_join_active := False, m_relay_sync_seq_valid := False\<rparr>)"
  have t: "station_tick running now c =
      (if m_state c = CS_StationConnected \<and> now - m_host_last_seen (fst x) \<ge> RelayPeerTimeoutTicks then (?cut, snd x) else (fst x, snd x))"
    unfolding station_tick_def x_def [symmetric] by (simp add: split_beta Let_def f)
  have keep: "clean False c (fst x, snd x)" using st said by (auto simp: clean_def quiet_def f)
  have "clean False c (?cut, snd x)" if "m_state c = CS_StationConnected"
  proof (rule clean_left)
    have "ldn_wf (fst x)" using st by (simp add: settled_def)
    from ldn_wf_pre(1) [OF this] show "ldn_wf ?cut" by (intro ldn_wf_leave) (auto elim: pre_wf_cong)
    show "\<And>s. s \<in> set (m_stations ?cut) \<Longrightarrow> \<not> active s" using assms that by (simp add: f settled_def)
    show "\<And>m. m \<in> set (snd x) \<Longrightarrow> said False ?cut m" by (rule said)
  qed (use assms in \<open>simp_all add: f settled_def\<close>)
  with keep t show "clean False c (station_tick running now c)" by (auto split: if_splits)
  show "m_ipv4_address (fst (station_tick running now c)) = m_ipv4_address c" by (simp add: t f)
qed

lemma clean_Tick:
  assumes "settled c"
  shows "clean False c (Tick running now c) \<and> m_ipv4_address (fst (Tick running now c)) = m_ipv4_address c"
proof -
  let ?c0 = "c\<lparr>m_last_beacon := now\<rparr>"
  let ?c1 = "?c0\<lparr>m_stations := map (reap now) (take StationCountMax (m_stations ?c0)) @ drop StationCountMax (m_stations ?c0)\<rparr>"
  have s0: "settled ?c0" by (rule settled_cong [OF assms]) simp_all
  have host: "clean False c (UpdateNodes running ?c1)"
    if "m_state c = CS_AccessPointCreated" "Tick running now c = UpdateNodes running ?c1"
  proof (rule clean_UpdateNodes)
    show "ldn_wf (fst (UpdateNodes running ?c1))"
      using ldn_wf_Tick [of c running now] assms that(2) by (simp add: settled_def)
    fix s assume "s \<in> set (m_stations ?c1)" "active s"
    then show "\<exists>s0 \<in> set (m_stations c). active s0 \<and> src_ip s0 = src_ip s"
      using reap_active [of now] by (auto dest: in_set_takeD in_set_dropD) (metis in_set_takeD)
  qed (use assms that in \<open>simp_all add: settled_def\<close>)
  have "clean False c x" if "clean False ?c0 x" for x using that by (simp add: clean_def quiet_def)
  with host assms s0 clean_station_tick [OF s0] clean_same [OF s0] show ?thesis
    by (auto simp: Tick_def Let_def intro: clean_same)
qed

text \<open>The frames that teach a console nothing about the others.\<close>

lemma clean_HandleScan:
  assumes "settled c"
  shows "clean False c (HandleScan running now sip c)"
proof (cases "m_state c = CS_AccessPointCreated")
  case True
  let ?c1 = "RecordScanner now sip c"
  have f: "m_advertise_size ?c1 = m_advertise_size c" "m_advertise_data ?c1 = m_advertise_data c"
    "m_scan_results ?c1 = m_scan_results c" "m_join_target_bssid ?c1 = m_join_target_bssid c"
    by (auto simp: RecordScanner_def Let_def split: option.splits)
  have "BuildNetwork ?c1 = BuildNetwork c" by (rule Build_cong) (simp_all add: f)
  then have b: "BuildNetwork ?c1 = m_network_info c" using assms True by (simp add: settled_def)
  have w: "ldn_wf ?c1" "ldn_wf c" using assms by (auto simp: settled_def intro: ldn_wf_RecordScanner)
  have s1: "settled ?c1" using assms w b True by (simp add: settled_def f)
  let ?x = "SendFrame running sip LanPacket_ScanResp (enc_NetworkInfo (m_network_info c)) ?c1"
  have "said False (fst ?x) m" if "m \<in> set (snd ?x)" for m
    using that enc_info_length [OF w(2)] True by (intro SendFrame_said) auto
  with settled_SendFrame [OF s1] True show ?thesis
    by (auto simp: HandleScan_def b clean_def quiet_def f)
qed (use assms in \<open>simp add: HandleScan_def clean_same\<close>)

lemma clean_HandleRelayHeartbeat:
  assumes "settled c"
  shows "clean False c (HandleRelayHeartbeat now sip body c, [])"
proof (cases "HandleRelayHeartbeat now sip body c = c")
  case False
  have "HandleRelayHeartbeat now sip body c = c \<or> m_state c = CS_AccessPointCreated \<and> (\<exists>nid. FindStationByIp sip c = Some nid \<and>
      HandleRelayHeartbeat now sip body c = c\<lparr>m_stations := (m_stations c)[nid - 1 := (m_stations c ! (nid - 1))\<lparr>last_seen := now\<rparr>]\<rparr>)"
    by (simp add: HandleRelayHeartbeat_def split: option.split)
  with False obtain nid where nid: "FindStationByIp sip c = Some nid" and host: "m_state c = CS_AccessPointCreated"
    and c': "HandleRelayHeartbeat now sip body c =
      c\<lparr>m_stations := (m_stations c)[nid - 1 := (m_stations c ! (nid - 1))\<lparr>last_seen := now\<rparr>]\<rparr>"
    by blast
  let ?c = "c\<lparr>m_stations := (m_stations c)[nid - 1 := (m_stations c ! (nid - 1))\<lparr>last_seen := now\<rparr>]\<rparr>"
  have sw: "stations_wf (m_stations c)" using assms by (simp add: settled_def ldn_wf_def)
  note slot = stations_wf_slot [OF sw nid]
  have "used_nodes ?c = used_nodes c"
    using slot by (simp add: used_nodes_def host_node_def take_update_swap StationCountMax_def NodeCountMax_def
        pack_last_seen [of "nid - 1" "take 7 (m_stations c)", simplified])
  then have "BuildNetwork ?c = BuildNetwork c" by (rule Build_used_cong) simp_all
  then have "BuildNetwork ?c = m_network_info c" using assms host by (simp add: settled_def)
  moreover have "ldn_wf ?c" using ldn_wf_HandleRelayHeartbeat [of c now sip body] assms by (simp add: c' settled_def)
  ultimately have "settled ?c" using assms host by (simp add: settled_def)
  moreover have "quiet c ?c"
    using slot by (auto simp: quiet_def dest!: set_update_subset_insert [THEN subsetD])
  ultimately show ?thesis by (simp add: c' clean_def)
qed (use assms in \<open>simp add: clean_same\<close>)

lemma clean_HandleRelayBye:
  assumes "settled c"
  shows "clean False c (HandleRelayBye running sip body c)"
proof -
  have w: "ldn_wf c" and sw: "stations_wf (m_stations c)" using assms by (simp_all add: settled_def ldn_wf_def)
  let ?gone = "SetState CS_Station (c\<lparr>m_disconnect_reason := 3, m_join_active := False, m_relay_sync_seq_valid := False\<rparr>)"
  let ?drop = "\<lambda>nid. c\<lparr>m_stations := (m_stations c)[nid - 1 := reset_station (m_stations c ! (nid - 1))]\<rparr>"
  have "HandleRelayBye running sip body c = (c, []) \<or>
      m_state c = CS_StationConnected \<and> HandleRelayBye running sip body c = (?gone, []) \<or>
      (\<exists>nid. m_state c = CS_AccessPointCreated \<and> FindStationByIp sip c = Some nid \<and>
        HandleRelayBye running sip body c = UpdateNodes running (?drop nid))"
    by (simp add: HandleRelayBye_def Let_def split: option.split)
  then consider "HandleRelayBye running sip body c = (c, [])"
    | "m_state c = CS_StationConnected" "HandleRelayBye running sip body c = (?gone, [])"
    | nid where "m_state c = CS_AccessPointCreated" "FindStationByIp sip c = Some nid"
        "HandleRelayBye running sip body c = UpdateNodes running (?drop nid)"
    by blast
  then show ?thesis
  proof cases
    case 1
    then show ?thesis using assms by (simp add: clean_same)
  next
    case 2
    then have "ldn_wf ?gone" using ldn_wf_HandleRelayBye [OF w, of running sip body] by simp
    then have "clean False c (?gone, [])" using assms 2(1) by (intro clean_left) (simp_all add: settled_def)
    then show ?thesis by (simp add: 2)
  next
    case 3
    note slot = stations_wf_slot [OF sw 3(2)]
    have "clean False c (UpdateNodes running (?drop nid))"
    proof (rule clean_UpdateNodes)
      show "ldn_wf (fst (UpdateNodes running (?drop nid)))" using ldn_wf_HandleRelayBye [OF w, of running sip body] 3(3) by simp
      show "\<exists>s0 \<in> set (m_stations c). active s0 \<and> src_ip s0 = src_ip s" if "s \<in> set (m_stations (?drop nid))" "active s" for s
        using that by (auto simp: reset_station_def dest!: set_update_subset_insert [THEN subsetD])
    qed (use assms 3(1) in \<open>simp_all add: settled_def\<close>)
    then show ?thesis by (simp add: 3(3))
  qed
qed

text \<open>The frames a console learns from: an answer to a scan, a network description and a request to join.\<close>

definition learnt :: "(nat \<times> ldn_node) set \<Rightarrow> LdnControl \<Rightarrow> LdnControl \<times> datagram list \<Rightarrow> bool" where
  "learnt H c x \<longleftrightarrow> settled (fst x) \<and> agrees H (fst x) \<and> m_ipv4_address (fst x) = m_ipv4_address c \<and>
     (\<forall>m \<in> set (snd x). said False (fst x) m)"

lemma clean_learnt: "clean False c x \<Longrightarrow> agrees H c \<Longrightarrow> m_ipv4_address (fst x) = m_ipv4_address c \<Longrightarrow> learnt H c x"
  using quiet_agrees by (auto simp: clean_def learnt_def)

lemma hosts_ok: "h \<in> hosts H \<Longrightarrow> dec_NetworkInfo (enc_NetworkInfo (m_network_info h)) = m_network_info h"
  by (auto simp: hosts_def ldn_wf_def buffers_wf_def info.dec_enc_Nil)

lemma learnt_ScanResp:
  assumes "settled c" "agrees H c" "h \<in> hosts H" "body = enc_NetworkInfo (m_network_info h)"
  shows "learnt H c (HandleScanResp sip body c, [])"
proof -
  obtain rs where c': "HandleScanResp sip body c = c\<lparr>m_scan_results := rs\<rparr>"
    and rs: "set rs \<subseteq> insert (m_network_info h) (set (m_scan_results c))"
  proof -
    have "\<exists>rs. HandleScanResp sip body c = c\<lparr>m_scan_results := rs\<rparr> \<and> set rs \<subseteq> insert (m_network_info h) (set (m_scan_results c))"
      using set_update_subset_insert [of "m_scan_results c" _ "m_network_info h"]
      by (auto simp: HandleScanResp_def assms(4) hosts_ok [OF assms(3)] Let_def split: option.split
          intro: exI [of _ "m_scan_results c"] exI [of _ "m_scan_results c @ [m_network_info h]"])
    with that show thesis by blast
  qed
  have "BuildNetwork (c\<lparr>m_scan_results := rs\<rparr>) = BuildNetwork c" by (rule Build_cong) simp_all
  then have "settled (c\<lparr>m_scan_results := rs\<rparr>)"
    using assms(1) ldn_wf_HandleScanResp [of c sip body] by (simp add: settled_def c')
  moreover have "agrees H (c\<lparr>m_scan_results := rs\<rparr>)" using assms(2,3) rs by (auto simp: agrees_def)
  ultimately show ?thesis by (simp add: learnt_def c')
qed

lemma learnt_Sync:
  assumes "settled c" "agrees H c" "h \<in> hosts H" "body = enc_NetworkInfo (m_network_info h)"
  shows "learnt H c (HandleSyncNetwork now body seq c, [])"
proof -
  define c1 where "c1 = (if seq \<noteq> 0 then c\<lparr>m_relay_sync_seq := seq, m_relay_sync_seq_valid := True\<rparr> else c)"
  define c2 where "c2 = c1\<lparr>m_network_info := m_network_info h, m_host_last_seen := now\<rparr>"
  define c3 where "c3 = (if m_state c2 = CS_Station \<and> listed_node (m_ipv4_address c2) c2 then SetState CS_StationConnected c2 else c2)"
  define skip where "skip \<longleftrightarrow> length body \<noteq> sizeof_NetworkInfo \<or> (m_state c \<noteq> CS_Station \<and> m_state c \<noteq> CS_StationConnected) \<or>
    (seq \<noteq> 0 \<and> seq_stale seq c)"
  have f1: "m_state c1 = m_state c" "m_stations c1 = m_stations c" "m_scan_results c1 = m_scan_results c"
    "m_ipv4_address c1 = m_ipv4_address c" "m_network_info c1 = m_network_info c"
    "m_join_target_bssid c1 = m_join_target_bssid c" by (simp_all add: c1_def)
  have l: "listed_node ip c2 = listed_node ip h" for ip by (rule listed_node_cong) (simp add: c2_def)
  have f3: "m_stations c3 = m_stations c" "m_scan_results c3 = m_scan_results c" "m_ipv4_address c3 = m_ipv4_address c"
    "m_network_info c3 = m_network_info h" "m_join_target_bssid c3 = m_join_target_bssid c"
    by (simp_all add: c3_def c2_def f1)
  have s3: "m_state c3 = (if m_state c = CS_Station \<and> listed_node (m_ipv4_address c) h then CS_StationConnected else m_state c)"
    by (simp add: c3_def l) (simp add: c2_def f1)
  have r: "HandleSyncNetwork now body seq c = (if skip then c
      else if m_join_active c1 \<and> bssid (common (m_network_info h)) \<noteq> m_join_target_bssid c1 then c1 else OnNetworkInfoChanged c3)"
    unfolding HandleSyncNetwork_def c1_def [symmetric] Let_def assms(4) hosts_ok [OF assms(3)] c2_def [symmetric] c3_def [symmetric]
      skip_def by auto
  have w: "ldn_wf (HandleSyncNetwork now body seq c)"
    using assms(1) by (intro ldn_wf_HandleSyncNetwork) (simp add: settled_def)
  have "settled c1" using assms(1) by (rule settled_cong) (simp_all add: c1_def)
  then have one: "learnt H c (c1, [])" using assms(2) by (simp add: learnt_def agrees_def f1)
  have "learnt H c (OnNetworkInfoChanged c3, [])" if "\<not> skip" "ldn_wf (OnNetworkInfoChanged c3)"
    using assms(1-3) that by (auto simp: learnt_def settled_def agrees_def f3 s3 skip_def)
  with one w assms(1,2) show ?thesis unfolding r by (simp add: learnt_def split: if_splits)
qed

lemma learnt_Connect:
  assumes "settled c" "agrees H c" "joined H sip"
  shows "learnt H c (HandleConnect running now sip body c)"
proof (cases "HandleConnect running now sip body c = (c, [])")
  case False
  let ?c1 = "\<lambda>nid. c\<lparr>m_stations := (m_stations c)[nid - 1 :=
      connect_station now sip nid (dec_NodeInfo body) (m_stations c ! (nid - 1))]\<rparr>"
  have host: "m_state c = CS_AccessPointCreated" using False by (auto simp: HandleConnect_def split: if_splits)
  obtain nid where u: "HandleConnect running now sip body c = UpdateNodes running (?c1 nid)"
    using False by (auto simp: HandleConnect_def split: if_splits option.splits)
  have w: "ldn_wf (fst (UpdateNodes running (?c1 nid)))"
    using ldn_wf_HandleConnect [of c running now sip body] assms(1) by (simp add: settled_def u)
  have "clean False (?c1 nid) (UpdateNodes running (?c1 nid))"
    using assms(1) host w by (intro clean_UpdateNodes) (auto simp: settled_def)
  moreover have "agrees H (?c1 nid)"
    using assms(2,3) host
    by (auto simp: agrees_def connect_station_def dest!: set_update_subset_insert [THEN subsetD])
  ultimately show ?thesis using quiet_agrees by (auto simp: u clean_def learnt_def)
qed (use assms in \<open>simp add: learnt_def\<close>)

lemma learnt_frame:
  assumes "settled c" "agrees H c" "frame_ok H m" "dg_payload m = payload" "fst m = sip"
  shows "learnt H c (OnControlFrame running now sip payload c)"
proof (cases "parse_frame payload")
  case None
  then show ?thesis using assms(1,2) by (simp add: OnControlFrame_def learnt_def)
next
  case (Some f)
  obtain ty seq body where f: "parse_frame payload = Some (ty, seq, body)" using Some by (cases f) auto
  have told: "\<exists>h \<in> hosts H. body = enc_NetworkInfo (m_network_info h)"
    if "ty = LanPacket_ScanResp \<or> ty = LanPacket_SyncNetwork"
    using that assms(3,4) f by (auto simp: frame_ok_def)
  have ask: "joined H sip" if "ty = LanPacket_Connect" using that assms(3,4,5) f by (auto simp: frame_ok_def)
  have ip: "m_ipv4_address (fst (HandleScan running now sip c)) = m_ipv4_address c"
    "m_ipv4_address (HandleRelayHeartbeat now sip body c) = m_ipv4_address c"
    "m_ipv4_address (fst (HandleRelayBye running sip body c)) = m_ipv4_address c"
    by (auto simp: HandleScan_def HandleRelayHeartbeat_def HandleRelayBye_def Let_def split: option.split)
  note quietly = clean_learnt [OF clean_HandleScan [OF assms(1)] assms(2) ip(1)]
    clean_learnt [OF clean_HandleRelayHeartbeat [OF assms(1)] assms(2), simplified fst_conv, OF ip(2)]
    clean_learnt [OF clean_HandleRelayBye [OF assms(1)] assms(2) ip(3)]
  have "learnt H c (c, [])" using assms(1,2) by (simp add: learnt_def)
  with told ask quietly learnt_ScanResp [OF assms(1,2)] learnt_Sync [OF assms(1,2)] learnt_Connect [OF assms(1,2)]
  show ?thesis unfolding OnControlFrame_def f by (auto split: if_splits)
qed

section \<open>Commands\<close>

lemma reset_none:
  assumes "settled c" "m_stations c0 = m_stations c" "s \<in> set (m_stations (ResetStations c0))"
  shows "\<not> active s"
  using assms stations_reset [of c0 s] by (simp add: settled_def ldn_wf_def)

text \<open>Operations that leave every session: the station table is emptied and the state is not a session's.\<close>

lemma clean_reset:
  assumes "settled c" "ldn_wf (SetState st (ResetStations c0))" "st \<noteq> CS_AccessPointCreated" "st \<noteq> CS_StationConnected"
    and "m_stations c0 = m_stations c" "m_join_target_bssid c0 = m_join_target_bssid c"
    and "set (m_scan_results c0) \<subseteq> set (m_scan_results c)" "\<And>m. m \<in> set d \<Longrightarrow> said asking (SetState st (ResetStations c0)) m"
  shows "clean asking c (SetState st (ResetStations c0), d)"
  using assms reset_none [OF assms(1,5)] by (intro clean_left) (auto simp: settled_def)

lemma clean_leaving:
  assumes "settled c"
  shows "clean False c (fst (snd (ldn_Initialize vip na c)), [])" "clean False c (fst (snd (ldn_Finalize na c)), [])"
    "clean False c (fst (snd (OpenAccessPoint na c)), [])" "clean False c (fst (snd (CloseAccessPoint na c)), [])"
    "clean False c (fst (snd (OpenStation na c)), [])" "clean False c (fst (snd (CloseStation na c)), [])"
proof -
  have w: "ldn_wf c" "length (m_join_target_bssid c) = 6" using assms by (simp_all add: settled_def)
  have "settled (c\<lparr>m_disconnect_reason := 0\<rparr>)" by (rule settled_cong [OF assms]) simp_all
  then have reason: "clean False c (c\<lparr>m_disconnect_reason := 0\<rparr>, [])" by (auto simp: clean_def quiet_def)
  show "clean False c (fst (snd (ldn_Initialize vip na c)), [])"
    by (rule clean_left [OF ldn_wf_Initialize [OF w(1)]])
      (auto simp: ldn_Initialize_def Let_def split_beta w(2) dest: reset_none [OF assms, rotated])
  show "clean False c (fst (snd (ldn_Finalize na c)), [])"
    using ldn_wf_Finalize [OF w(1), of na] assms by (auto simp: ldn_Finalize_def Let_def split_beta intro: clean_reset)
  show "clean False c (fst (snd (OpenAccessPoint na c)), [])" "clean False c (fst (snd (OpenStation na c)), [])"
    "clean False c (fst (snd (CloseAccessPoint na c)), [])" "clean False c (fst (snd (CloseStation na c)), [])"
    using ldn_wf_open_close [OF w(1), of na] assms reason
    by (auto simp: OpenAccessPoint_def OpenStation_def CloseAccessPoint_def CloseStation_def Let_def split_beta
        intro: clean_reset clean_same)
qed

lemma clean_telling:
  assumes "settled c"
  shows "clean False c (snd (DestroyNetwork running c))" "clean False c (snd (ldn_Disconnect running c))"
proof -
  have w: "ldn_wf c" and len: "length (m_join_target_bssid c) = 6" using assms by (simp_all add: settled_def)
  have "length (bssid (common (m_network_info c))) = 6"
    using w by (simp add: ldn_wf_def buffers_wf_def NetworkInfo_ok_def Common_ok_def)
  note short = length_bye_body [OF this] length_bye_body [OF len]
  have "said False c' m" if "m \<in> set (snd (SendFrame running dst LanPacket_RelayBye (bye_body mac ip) c))"
    "length (bye_body mac ip) \<le> sizeof_NetworkInfo" for c' m dst mac ip
    using that by (intro SendFrame_said [of m]) auto
  note bye = this [OF _ short(1)] this [OF _ short(2)]
  show "clean False c (snd (DestroyNetwork running c))"
    using ldn_wf_DestroyNetwork [OF w, of running] assms bye
    by (auto simp: DestroyNetwork_def Let_def split_beta intro!: clean_reset)
  show "clean False c (snd (ldn_Disconnect running c))"
    using ldn_wf_Disconnect [OF w, of running] assms bye
    by (auto simp: ldn_Disconnect_def Let_def split_beta intro!: clean_reset)
qed

lemma clean_SetAdvertiseData:
  assumes "settled c" "m_state c \<noteq> CS_StationConnected"
  shows "clean False c (snd (SetAdvertiseData running data sz c))"
proof (cases "sz > AdvertiseDataSizeMax")
  case False
  define c1 where "c1 = (case data of None \<Rightarrow> c | Some d \<Rightarrow> c\<lparr>m_advertise_data := memcpy (m_advertise_data c) (take sz d)\<rparr>)"
  define c2 where "c2 = c1\<lparr>m_advertise_size := of_nat sz, m_network_info := (m_network_info c1)\<lparr>ldn :=
      (ldn (m_network_info c1))\<lparr>advertiseDataSize := of_nat sz\<rparr>\<rparr>\<rparr>"
  have r: "snd (SetAdvertiseData running data sz c) = UpdateNodes running c2"
    using False by (simp add: SetAdvertiseData_def c1_def [symmetric] c2_def [symmetric] split_beta)
  have f: "m_state c2 = m_state c" "m_stations c2 = m_stations c" "m_scan_results c2 = m_scan_results c"
    "m_join_target_bssid c2 = m_join_target_bssid c"
    by (simp_all add: c2_def) (simp_all add: c1_def split: option.split)
  have "ldn_wf (fst (UpdateNodes running c2))"
    using ldn_wf_SetAdvertiseData [of c running data sz] assms(1) by (simp add: r settled_def)
  then have "clean False c (UpdateNodes running c2)"
    using assms by (intro clean_UpdateNodes) (auto simp: f settled_def)
  then show ?thesis by (simp add: r)
qed (use assms in \<open>simp add: SetAdvertiseData_def clean_same\<close>)

lemma clean_CreateNetwork:
  assumes "settled c" "length rnd16 = 16"
    and "length (nc_unk1 (cn_networkConfig data)) = 2" "length (nc_unk2 (cn_networkConfig data)) = 4"
  shows "clean False c (snd (CreateNetwork running high low rnd16 data c))"
proof (cases "m_state c = CS_AccessPoint")
  case True
  then obtain c1 where r: "snd (CreateNetwork running high low rnd16 data c) =
      UpdateNodes running (SetState CS_AccessPointCreated (InitNodeStateChange (ResetStations c1)))"
    and f: "m_stations c1 = m_stations c" "m_scan_results c1 = m_scan_results c" "m_join_target_bssid c1 = m_join_target_bssid c"
    by (simp add: CreateNetwork_def Let_def split_beta)
  let ?c2 = "SetState CS_AccessPointCreated (InitNodeStateChange (ResetStations c1))"
  have "ldn_wf (fst (UpdateNodes running ?c2))"
    using ldn_wf_CreateNetwork [of c rnd16 data running high low] assms r by (simp add: settled_def)
  then have "clean False c (UpdateNodes running ?c2)"
    using reset_none [OF assms(1) f(1)] assms(1) by (intro clean_UpdateNodes) (auto simp: f settled_def)
  then show ?thesis by (simp add: r)
qed (use assms in \<open>simp add: CreateNetwork_def clean_same\<close>)

lemma clean_LatestUpdate:
  assumes "settled c"
  shows "clean False c (snd (GetNetworkInfoLatestUpdate n c), [])"
proof -
  let ?c = "snd (GetNetworkInfoLatestUpdate n c)"
  have f: "m_state ?c = m_state c" "m_stations ?c = m_stations c" "m_scan_results ?c = m_scan_results c"
    "m_join_target_bssid ?c = m_join_target_bssid c" "m_network_info ?c = m_network_info c" "m_ipv4_address ?c = m_ipv4_address c"
    by (simp_all add: GetNetworkInfoLatestUpdate_def)
  have "BuildNetwork ?c = BuildNetwork c" by (rule Build_cong) (simp_all add: GetNetworkInfoLatestUpdate_def)
  then have "settled ?c" using assms ldn_wf_LatestUpdate [of c n] by (simp add: settled_def f)
  then show ?thesis by (auto simp: clean_def quiet_def f)
qed

text \<open>The parts of a scan and of a join.\<close>

lemma clean_scan_head:
  assumes "settled c" "scan_head running i l n c = (p, c', d)"
  shows "clean False c (c', d) \<and> m_ipv4_address c' = m_ipv4_address c \<and> \<not> joining p \<and> short_op p"
proof (cases "i < 10 \<and> i \<noteq> 0 \<and> i mod 3 = 0")
  case True
  let ?x = "SendFrame running (SubnetBroadcast c) LanPacket_Scan [] c"
  have "clean False c ?x"
    using assms(1) settled_SendFrame [OF assms(1)]
    by (auto simp: clean_def quiet_def sizeof_NetworkInfo_def intro: SendFrame_said)
  moreover have "m_ipv4_address (fst ?x) = m_ipv4_address c" by simp
  ultimately show ?thesis using True assms(2) by (cases ?x) (auto simp: scan_head_def)
next
  case False
  with assms show ?thesis by (auto simp: scan_head_def clean_same split: if_splits)
qed

lemma clean_join_head:
  assumes "settled c" "length my \<le> sizeof_NetworkInfo" "join_head running host my i c = (p, c', d)"
  shows "clean True c (c', d) \<and> m_ipv4_address c' = m_ipv4_address c \<and> short_op p"
proof -
  have "settled (join_abort c)" by (rule settled_cong [OF assms(1)]) (simp_all add: join_abort_def)
  then have "clean True c (join_abort c, [])" by (auto simp: clean_def quiet_def join_abort_def)
  moreover have "clean True c (SendFrame running host LanPacket_Connect my c)"
    using assms(1,2) settled_SendFrame [OF assms(1)] by (auto simp: clean_def quiet_def intro: SendFrame_said)
  moreover have "m_ipv4_address (fst (SendFrame running host LanPacket_Connect my c)) = m_ipv4_address c"
    "m_ipv4_address (join_abort c) = m_ipv4_address c" by (simp_all add: join_abort_def)
  moreover have "clean True c (c, [])" using assms(1) by (rule clean_same)
  ultimately show ?thesis
    using assms(2,3) by (cases "SendFrame running host LanPacket_Connect my c") (auto simp: join_head_def split: if_splits)
qed

lemma clean_wake:
  assumes "settled c" "short_op p" "wake running p c = (p', c', d)"
  shows "clean (joining p) c (c', d) \<and> m_ipv4_address c' = m_ipv4_address c \<and> short_op p' \<and> (joining p' \<longrightarrow> joining p)"
proof (cases p)
  case Idle
  with assms show ?thesis by (auto simp: clean_same)
next
  case (Scanning i l n)
  then have "(p', c', d) = (Idle, c, []) \<or> (\<exists>l' n'. scan_head running (i + 1) l' n' c = (p', c', d))"
    using assms(3) by (auto simp: scan_wake_def Let_def split: if_splits)
  with Scanning assms(1) clean_scan_head [OF assms(1)] show ?thesis by (auto simp: clean_same)
next
  case (Joining host my n)
  with assms clean_join_head [OF assms(1), of my running host "n + 1"] show ?thesis by simp
qed

lemma clean_mono: "clean False c x \<Longrightarrow> clean asking c x"
  unfolding clean_def said_def by blast

lemma scan_call_clean:
  assumes "settled c" "scan_call running f c = (p, c', d)"
  shows "clean False c (c', d) \<and> short_op p \<and> \<not> joining p"
proof (cases "m_state c = CS_None \<or> m_state c = CS_Error")
  case False
  let ?x = "SendFrame running (SubnetBroadcast (scan_begin f c)) LanPacket_Scan [] (scan_begin f c)"
  have s1: "settled (scan_begin f c)" by (rule settled_cong [OF assms(1)]) (simp_all add: scan_begin_def)
  have "clean False c ?x"
    using settled_SendFrame [OF s1]
    by (auto simp: clean_def quiet_def scan_begin_def sizeof_NetworkInfo_def intro: SendFrame_said)
  moreover have "(p, c', d) = (Scanning 0 0 0, fst ?x, snd ?x)"
    using False assms(2) by (simp add: scan_call_def scan_head_def split_beta Let_def)
  ultimately show ?thesis by simp
qed (use assms in \<open>auto simp: scan_call_def clean_same\<close>)

lemma my_node_length: "length (enc_NodeInfo (my_node dat c)) \<le> sizeof_NetworkInfo"
  using my_node_ok by (simp add: node.enc_length sizeof_NetworkInfo_def)

lemma connect_call_clean:
  assumes "settled c" "NetworkInfo_ok data" "connect_call running dat data c = (p, c', d)"
  shows "clean (m_join_active c') c (c', d) \<and> short_op p \<and> (joining p \<longrightarrow> m_join_active c')"
proof (cases "m_state c = CS_None \<or> nodeCount (ldn data) = 0")
  case False
  let ?c1 = "join_begin data c" and ?my = "enc_NodeInfo (my_node dat (join_begin data c))"
  let ?x = "SendFrame running (ipv4Address (nodes (ldn data) ! 0)) LanPacket_Connect ?my ?c1"
  have len: "length (m_join_target_bssid ?c1) = length (m_join_target_bssid c)"
    using assms(1,2) by (simp add: join_begin_def settled_def NetworkInfo_ok_def Common_ok_def)
  have s1: "settled ?c1" using len by (intro settled_cong [OF assms(1)]) (simp_all add: join_begin_def)
  have cl: "clean True c ?x"
    using settled_SendFrame [OF s1] my_node_length
    by (auto simp: clean_def quiet_def join_begin_def intro: SendFrame_said)
  have j: "m_join_active (fst ?x)" by (simp add: join_begin_def)
  have "(p, c', d) = (if m_state c = CS_StationConnected then Idle else Joining (ipv4Address (nodes (ldn data) ! 0)) ?my 0,
      fst ?x, snd ?x)"
    using False assms(3) by (simp add: connect_call_def join_head_def split_beta Let_def join_begin_def split: if_splits)
  then have r: "p = (if m_state c = CS_StationConnected then Idle else Joining (ipv4Address (nodes (ldn data) ! 0)) ?my 0)"
    "c' = fst ?x" "d = snd ?x" by (simp_all only: prod.inject)
  show ?thesis using cl j my_node_length unfolding r by (simp del: SendFrame_fields)
qed (use assms in \<open>auto simp: connect_call_def clean_same\<close>)

lemma call_clean:
  assumes "settled c" "call_ok e call" "call_fits call c" "begin_call e call c = (p, c', d)"
  shows "clean (m_join_active c') c (c', d) \<and> short_op p \<and> (joining p \<longrightarrow> m_join_active c')"
proof -
  note quietly = clean_same [OF assms(1)] clean_leaving [OF assms(1)] clean_telling [OF assms(1), of "le_running e"]
    clean_SetAdvertiseData [OF assms(1)] clean_CreateNetwork [OF assms(1)] clean_LatestUpdate [OF assms(1)]
  have "(clean False c (c', d) \<and> short_op p \<and> \<not> joining p) \<or>
      (clean (m_join_active c') c (c', d) \<and> short_op p \<and> (joining p \<longrightarrow> m_join_active c'))"
  proof (cases call)
    case (L_Scan chan f cap)
    then show ?thesis using scan_call_clean [OF assms(1)] assms(4) by simp
  next
    case (L_Connect dat data)
    then show ?thesis using connect_call_clean [OF assms(1)] assms(3,4) by simp
  next
    case (L_SetAdvertiseData data sz)
    then show ?thesis using quietly(10) [of "le_running e" data sz] assms(3,4) by (auto simp: with_frames_def split_beta Let_def)
  next
    case (L_CreateNetwork data)
    then show ?thesis using quietly(11) [of "le_rnd16 e" data "le_running e" "le_high e" "le_low e"] assms(2,4) by (auto simp: with_frames_def split_beta Let_def)
  qed (use assms(4) quietly(1-9,12) in \<open>auto simp: with_nifm_def with_frames_def query_def split_beta Let_def\<close>)
  then show ?thesis by (blast intro: clean_mono)
qed

section \<open>The network\<close>

lemma mode_switch:
  assumes "settled c"
  shows "clean False c (fst (snd (EnterLocalNetworkMode na c)), [])" "clean False c (fst (ExitLocalNetworkMode na c), [])"
    and "m_ipv4_address (fst (snd (EnterLocalNetworkMode na c))) = m_ipv4_address c"
      "m_ipv4_address (fst (ExitLocalNetworkMode na c)) = m_ipv4_address c"
proof -
  obtain b mtu where e: "fst (snd (EnterLocalNetworkMode na c)) = c\<lparr>m_local_network_mode := b, m_saved_mtu := mtu\<rparr>"
  proof -
    have "\<exists>b mtu. fst (snd (EnterLocalNetworkMode na c)) = c\<lparr>m_local_network_mode := b, m_saved_mtu := mtu\<rparr>"
      by (cases c) (auto simp: EnterLocalNetworkMode_def Let_def split: sum.split option.split)
    with that show thesis by blast
  qed
  have x: "fst (ExitLocalNetworkMode na c) = c\<lparr>m_local_network_mode := False\<rparr>" by (simp add: ExitLocalNetworkMode_def)
  have "settled (c\<lparr>m_local_network_mode := b, m_saved_mtu := mtu\<rparr>)" "settled (c\<lparr>m_local_network_mode := False\<rparr>)"
    by (rule settled_cong [OF assms]; simp)+
  then show "clean False c (fst (snd (EnterLocalNetworkMode na c)), [])" "clean False c (fst (ExitLocalNetworkMode na c), [])"
    "m_ipv4_address (fst (snd (EnterLocalNetworkMode na c))) = m_ipv4_address c"
    "m_ipv4_address (fst (ExitLocalNetworkMode na c)) = m_ipv4_address c"
    unfolding e x by (auto simp: clean_def quiet_def)
qed

lemma settled_new: "settled new_LdnControl"
  using ldn_wf_new by (simp add: settled_def) (simp add: new_LdnControl_def zero_Station_def)

lemma agrees_new: "agrees H new_LdnControl"
  by (simp add: agrees_def new_LdnControl_def zero_Station_def)

text \<open>From a step of a console to the contract of the network.\<close>

lemma clean_node:
  assumes "node_inv H k" "clean asking (k_ctl k) (c, d)" "(i, \<lparr>k_ctl = c, k_op = p\<rparr>) \<in> H" "short_op p"
    and "joining p \<or> asking \<Longrightarrow> joined H (m_ipv4_address c)"
  shows "node_inv H \<lparr>k_ctl = c, k_op = p\<rparr> \<and> (\<forall>m \<in> set d. frame_ok H m)"
proof -
  have s: "settled c" and q: "quiet (k_ctl k) c" and m: "\<forall>m \<in> set d. said asking c m"
    using assms(2) by (simp_all add: clean_def)
  have "agrees H c" using assms(1) q by (auto simp: node_inv_def intro: quiet_agrees)
  moreover have "frame_ok H m" if "said asking c m" for m
    using said_ok [of asking "\<lparr>k_ctl = c, k_op = p\<rparr>" m i H] that s assms(3,5) by (simp add: settled_def)
  ultimately show ?thesis using assms(4,5) s m by (auto simp: node_inv_def)
qed

lemma node_act_inv:
  assumes "node_inv H k" "node_act k k' d" "(i, k') \<in> H"
  shows "node_inv H k' \<and> (\<forall>m \<in> set d. frame_ok H m)"
proof -
  have s: "settled (k_ctl k)" and op: "short_op (k_op k)" and j: "joining (k_op k) \<Longrightarrow> joined H (m_ipv4_address (k_ctl k))"
    using assms(1) by (simp_all add: node_inv_def)
  have upd: "k\<lparr>k_ctl := c\<rparr> = \<lparr>k_ctl = c, k_op = k_op k\<rparr>" for c by simp
  from assms(2) show ?thesis
  proof cases
    case (call e call p c)
    from call_clean [OF s call(3-5)] have cl: "clean (m_join_active c) (k_ctl k) (c, d)" "short_op p" "joining p \<Longrightarrow> m_join_active c"
      by auto
    have "joined H (m_ipv4_address c)" if "m_join_active c" using that joined_intro [OF assms(3)] call(1) by simp
    with clean_node [OF assms(1) cl(1) _ cl(2), of i] cl(3) assms(3) call(1) show ?thesis by blast
  next
    case (resume running p c)
    note w = clean_wake [OF s op resume(2)]
    with clean_node [OF assms(1), of "joining (k_op k)" c d i p] j assms(3) resume(1) show ?thesis by auto
  next
    case (timer running now c)
    note t = clean_Tick [OF s, of running now, unfolded timer(2)]
    with clean_node [OF assms(1), of False c d i "k_op k"] op j assms(3) timer(1) show ?thesis by (simp add: upd)
  next
    case (gone na)
    let ?c = "fst (LdnICommunicationService_delete na (k_ctl k))"
    have "?c = fst (snd (ldn_Finalize na (k_ctl k)))" by (simp add: LdnICommunicationService_delete_def split_beta Let_def)
    with clean_node [OF assms(1), of False ?c "[]" i "k_op k"] clean_leaving(2) [OF s, of na] op assms(3) gone
    show ?thesis by (simp add: upd)
  next
    case (mode_on na)
    with clean_node [OF assms(1) mode_switch(1) [OF s], of i na "k_op k"] mode_switch(3) [OF s, of na] op j assms(3)
    show ?thesis by (simp add: upd)
  next
    case (mode_off na)
    with clean_node [OF assms(1) mode_switch(2) [OF s], of i na "k_op k"] mode_switch(4) [OF s, of na] op j assms(3)
    show ?thesis by (simp add: upd)
  qed
qed

lemma node_recv_inv:
  assumes "node_inv H k" "frame_ok H m" "node_recv m k k' d" "(i, k') \<in> H"
  shows "node_inv H k' \<and> (\<forall>m \<in> set d. frame_ok H m)"
proof -
  from assms(3) obtain running now c sip payload where r: "OnControlFrame running now sip payload (k_ctl k) = (c, d)"
    "k' = k\<lparr>k_ctl := c\<rparr>" "dg_payload m = payload" "fst m = sip"
    by cases (auto simp: dg_payload_def)
  have l: "learnt H (k_ctl k) (c, d)"
    using learnt_frame [OF _ _ assms(2) r(3,4), of "k_ctl k" running now] assms(1) r(1) by (simp add: node_inv_def)
  then have "frame_ok H m'" if "m' \<in> set d" for m'
    using said_ok [of False k' m' i H] that assms(4) r(2) by (simp add: learnt_def settled_def)
  with l assms(1) show ?thesis by (simp add: node_inv_def learnt_def r(2))
qed

interpretation ln: relay_net "\<lambda>k. k = node_new" node_act node_recv node_inv frame_ok
proof
  show "node_inv H k \<Longrightarrow> H \<subseteq> H' \<Longrightarrow> node_inv H' k" for H H' k
    unfolding node_inv_def by (meson agrees_mono joined_mono)
  show "k = node_new \<Longrightarrow> node_inv H k" for H k
    by (simp add: node_inv_def node_new_def settled_new agrees_new)
qed (fact frame_ok_mono node_act_inv node_recv_inv)+

text \<open>Why \<open>call_fits\<close> leaves a command out: \<^verbatim>\<open>SetAdvertiseData\<close> rebuilds the description as a host's. A connected
  station that calls it replaces the host by itself and from then on sends its heartbeats to itself.\<close>

lemma advertise_while_connected:
  assumes "ldn_wf c" "m_state c = CS_StationConnected" "sz \<le> AdvertiseDataSizeMax"
  shows "beacon_host_ip (fst (snd (SetAdvertiseData running data sz c))) = m_ipv4_address c"
proof -
  define c1 where "c1 = (case data of None \<Rightarrow> c | Some d \<Rightarrow> c\<lparr>m_advertise_data := memcpy (m_advertise_data c) (take sz d)\<rparr>)"
  define c2 where "c2 = c1\<lparr>m_advertise_size := of_nat sz, m_network_info := (m_network_info c1)\<lparr>ldn :=
      (ldn (m_network_info c1))\<lparr>advertiseDataSize := of_nat sz\<rparr>\<rparr>\<rparr>"
  have r: "fst (snd (SetAdvertiseData running data sz c)) = fst (UpdateNodes running c2)"
    using assms(3) by (simp add: SetAdvertiseData_def c1_def [symmetric] c2_def [symmetric] split_beta)
  have f: "m_state c2 = m_state c" "m_ipv4_address c2 = m_ipv4_address c"
    by (simp_all add: c2_def) (simp_all add: c1_def split: option.split)
  from BuildNetwork_facts [OF ldn_wf_SetAdvertiseData [OF assms(1)], of running data sz] show ?thesis
    unfolding r Build_UpdateNodes by (simp add: beacon_host_ip_def f assms(2) word_gt_0)
qed

end
