(* ===== verification/Network_Props.thy ===== *)
theory Network_Props
  imports Ldn_Network
begin

text \<open>
  The network of consoles in use. A command during which nothing else happens is a step of the network, a
  console can join any host that has room, and in every reachable state what a console believes about
  the others once was true.
\<close>

section \<open>A network in use\<close>

text \<open>A command during which nothing else happens.\<close>

lemma wakes_run:
  assumes "ldn_net s" "n_con s j = \<lparr>k_ctl = c, k_op = p\<rparr>" "wakes n running (\<lambda>_ c. c) (p, c, d) = (p', c', d')" "set d \<subseteq> n_wire s"
  shows "\<exists>s'. ldn_net s' \<and> n_con s' = (n_con s)(j := \<lparr>k_ctl = c', k_op = p'\<rparr>) \<and> n_wire s \<union> set d' \<subseteq> n_wire s'"
  using assms
proof (induction n arbitrary: s c p d)
  case 0
  then show ?case by (intro exI [of _ s]) auto
next
  case (Suc n)
  show ?case
  proof (cases "p = Idle")
    case True
    with Suc.prems show ?thesis by (intro exI [of _ s]) auto
  next
    case False
    obtain p1 c1 d1 where w: "wake running p c = (p1, c1, d1)" by (cases "wake running p c") auto
    let ?s1 = "net_upd j \<lparr>k_ctl = c1, k_op = p1\<rparr> d1 s"
    have "ldn_net ?s1" using Suc.prems(1,2) w by (intro net_run.act node_act.resume [of running]) auto
    moreover have "wakes n running (\<lambda>_ c. c) (p1, c1, d @ d1) = (p', c', d')" using Suc.prems(3) False w by simp
    moreover have "set (d @ d1) \<subseteq> n_wire ?s1" using Suc.prems(4) by auto
    ultimately obtain s' where "ldn_net s'" "n_con s' = (n_con ?s1)(j := \<lparr>k_ctl = c', k_op = p'\<rparr>)" "n_wire ?s1 \<union> set d' \<subseteq> n_wire s'"
      using Suc.IH [of ?s1 c1 p1 "d @ d1"] by (metis fun_upd_same net_upd_fields(1))
    then show ?thesis by (intro exI [of _ s']) auto
  qed
qed

lemma call_run:
  assumes "ldn_net s" "n_con s j = \<lparr>k_ctl = c, k_op = Idle\<rparr>" "call_ok e call" "call_fits call c" "le_sleep e = (\<lambda>_ c. c)"
    and "ldn_exec e call c = (rc, c', out, d)"
  shows "\<exists>s'. ldn_net s' \<and> n_con s' = (n_con s)(j := \<lparr>k_ctl = c', k_op = Idle\<rparr>) \<and> n_wire s \<union> set d \<subseteq> n_wire s'"
proof -
  obtain p1 c1 d1 where b: "begin_call e call c = (p1, c1, d1)" by (cases "begin_call e call c") auto
  let ?s1 = "net_upd j \<lparr>k_ctl = c1, k_op = p1\<rparr> d1 s"
  have "ldn_net ?s1" using assms(1-4) b by (intro net_run.act node_act.call) auto
  moreover have "wakes 300 (le_running e) (\<lambda>_ c. c) (p1, c1, d1) = (Idle, c', d)"
    using call_by_parts [of 300 e call c] assms(5,6) b by simp
  ultimately obtain s' where "ldn_net s'" "n_con s' = (n_con ?s1)(j := \<lparr>k_ctl = c', k_op = Idle\<rparr>)" "n_wire ?s1 \<union> set d \<subseteq> n_wire s'"
    using wakes_run [of ?s1 j c1 p1 300 "le_running e" d1] by auto
  then show ?thesis by (intro exI [of _ s']) auto
qed

definition sample_env :: "string \<Rightarrow> ldn_env" where
  "sample_env vip = \<lparr>le_running = True, le_vip = vip, le_nifm = nifm_ok, le_high = 1, le_low = 2,
     le_rnd16 = replicate 16 0, le_sleep = (\<lambda>_ c. c)\<rparr>"

lemma sample_env_simps [simp]:
  "le_running (sample_env vip)" "le_vip (sample_env vip) = vip" "le_nifm (sample_env vip) = nifm_ok"
  "le_high (sample_env vip) = 1" "le_low (sample_env vip) = 2" "le_rnd16 (sample_env vip) = replicate 16 0"
  "le_sleep (sample_env vip) = (\<lambda>_ c. c)"
  by (simp_all add: sample_env_def)

text \<open>One console hosts and another is ready to join.\<close>

lemma two_consoles_run:
  "\<exists>s. ldn_net s \<and> n_con s 0 = \<lparr>k_ctl = host_console hip sample_config, k_op = Idle\<rparr> \<and>
     n_con s 1 = \<lparr>k_ctl = station_console sip, k_op = Idle\<rparr>"
proof -
  let ?n = "\<lambda>s i c. ldn_net s \<and> n_con s i = \<lparr>k_ctl = c, k_op = Idle\<rparr>"
  have go: "\<exists>s'. ?n s' i (fst (snd (ldn_exec (sample_env vip) call c))) \<and> (\<forall>j. j \<noteq> i \<longrightarrow> n_con s' j = n_con s j)"
    if "?n s i c" "call_ok (sample_env vip) call" "call_fits call c" for s i c call vip
    using call_run [of s i c "sample_env vip" call] that by (cases "ldn_exec (sample_env vip) call c") fastforce
  have lift: "fst (snd (ldn_exec (sample_env vip) L_Initialize c)) = fst (snd (ldn_Initialize vip nifm_ok c))"
    "fst (snd (ldn_exec (sample_env vip) L_OpenAccessPoint c)) = fst (snd (OpenAccessPoint nifm_ok c))"
    "fst (snd (ldn_exec (sample_env vip) L_OpenStation c)) = fst (snd (OpenStation nifm_ok c))"
    "fst (snd (ldn_exec (sample_env vip) (L_CreateNetwork cfg) c)) =
       fst (snd (CreateNetwork True 1 2 (replicate 16 0) cfg c))" for vip c cfg
    by (simp_all add: with_nifm_def with_frames_def split_beta Let_def)
  have cfg: "call_ok (sample_env vip) (L_CreateNetwork sample_config)" for vip
    by (simp add: sample_config_def zero_NetworkConfig_def)
  have "ldn_net (net_new (\<lambda>_. node_new))" by (rule net_run.init) simp
  moreover have "n_con (net_new (\<lambda>_. node_new)) i = \<lparr>k_ctl = new_LdnControl, k_op = Idle\<rparr>" for i
    by (simp add: net_new_def node_new_def)
  ultimately obtain s0 where s0: "?n s0 0 new_LdnControl" "?n s0 1 new_LdnControl" by blast
  obtain s1 where s1: "?n s1 0 (fst (snd (ldn_Initialize hip nifm_ok new_LdnControl)))" "n_con s1 1 = n_con s0 1"
    using go [OF s0(1), of hip L_Initialize] by (auto simp: lift)
  obtain s2 where s2: "?n s2 0 (fst (snd (OpenAccessPoint nifm_ok (fst (snd (ldn_Initialize hip nifm_ok new_LdnControl))))))"
    "n_con s2 1 = n_con s1 1"
    using go [OF s1(1), of hip L_OpenAccessPoint] by (auto simp: lift)
  obtain s3 where s3: "?n s3 0 (host_console hip sample_config)" "n_con s3 1 = n_con s2 1"
    using go [OF s2(1) cfg] by (auto simp: lift host_console_def)
  have "?n s3 1 new_LdnControl" using s0 s1 s2 s3 by simp
  then obtain s4 where s4: "?n s4 1 (fst (snd (ldn_Initialize sip nifm_ok new_LdnControl)))" "n_con s4 0 = n_con s3 0"
    using go [of s3 1 _ sip L_Initialize] by (auto simp: lift)
  then obtain s5 where "?n s5 1 (station_console sip)" "n_con s5 0 = n_con s4 0"
    using go [OF s4(1), of sip L_OpenStation] by (auto simp: lift station_console_def)
  with s4 s3 show ?thesis by auto
qed

text \<open>A console ready to join can become connected to any host with room, whatever the network went through
  before: its scan reaches the host, its request reaches the host and the host's description reaches it.\<close>

lemma scan_loop_alone:
  "m_state (fst (scan_loop running (\<lambda>_ c. c) i l n c)) = m_state c \<and>
   m_ipv4_address (fst (scan_loop running (\<lambda>_ c. c) i l n c)) = m_ipv4_address c \<and>
   m_relay_sync_seq_valid (fst (scan_loop running (\<lambda>_ c. c) i l n c)) = m_relay_sync_seq_valid c"
proof (induction "10 - i" arbitrary: i l n c rule: less_induct)
  case less
  have v: "m_relay_sync_seq_valid (fst (SendFrame running dst ty body c)) = m_relay_sync_seq_valid c" for dst ty body
    by (simp add: SendFrame_def Let_def)
  show ?case
  proof (cases "i \<ge> 10")
    case True
    then show ?thesis by (subst (1 2 3) scan_loop.simps) simp
  next
    case False
    then have "10 - Suc i < 10 - i" by simp
    note IH = less [OF this]
    show ?thesis by (subst (1 2 3) scan_loop.simps) (use IH v in \<open>auto simp: Let_def split_beta\<close>)
  qed
qed

lemma scan_alone:
  assumes "m_state c = CS_Station" "ldn_exec (sample_env vip) (L_Scan chan f cap) c = (rc, c', out, d)"
  shows "m_state c' = CS_Station \<and> m_ipv4_address c' = m_ipv4_address c \<and> m_relay_sync_seq_valid c' = m_relay_sync_seq_valid c \<and>
     (\<exists>k m. m \<in> set d \<and> fst m = m_ipv4_address c \<and> parse_frame (dg_payload m) = Some (LanPacket_Scan, k, []))"
proof -
  let ?c1 = "scan_begin f c"
  let ?c2 = "fst (SendFrame True (SubnetBroadcast ?c1) LanPacket_Scan [] ?c1)" and ?d = "snd (SendFrame True (SubnetBroadcast ?c1) LanPacket_Scan [] ?c1)"
  obtain k where k: "?c2 = ?c1\<lparr>m_tx_seq := k\<rparr>"
      "?d = [(m_ipv4_address ?c1, ControlPort, SubnetBroadcast ?c1, ControlPort, Proto_Udp, build_frame k LanPacket_Scan [])]"
      "parse_frame (build_frame k LanPacket_Scan []) = Some (LanPacket_Scan, k, [])"
    using SendFrame_payload [of "[]" "SubnetBroadcast ?c1" LanPacket_Scan ?c1] by auto
  have r: "c' = fst (scan_loop True (\<lambda>_ c. c) 0 0 0 ?c2)" "d = ?d @ snd (scan_loop True (\<lambda>_ c. c) 0 0 0 ?c2)"
    using assms by (simp_all add: ldn_Scan_def split_beta Let_def)
  have "(m_ipv4_address c, ControlPort, SubnetBroadcast ?c1, ControlPort, Proto_Udp, build_frame k LanPacket_Scan []) \<in> set d"
    unfolding r(2) k(2) by (simp add: scan_begin_def)
  then have "\<exists>k m. m \<in> set d \<and> fst m = m_ipv4_address c \<and> parse_frame (dg_payload m) = Some (LanPacket_Scan, k, [])"
    using k(3) by (fastforce simp: dg_payload_def)
  moreover have "m_state ?c2 = CS_Station" "m_ipv4_address ?c2 = m_ipv4_address c" "m_relay_sync_seq_valid ?c2 = m_relay_sync_seq_valid c"
    unfolding k(1) by (simp_all add: scan_begin_def assms(1))
  ultimately show ?thesis unfolding r(1) by (simp add: scan_loop_alone)
qed

lemma frame_arrives:
  assumes "OnControlFrame running now (fst m) (dg_payload m) c = (c', d)"
  shows "node_recv m \<lparr>k_ctl = c, k_op = p\<rparr> \<lparr>k_ctl = c', k_op = p\<rparr> d"
proof -
  obtain sip a b e f payload where m: "m = (sip, a, b, e, f, payload)" by (cases m)
  have "OnControlFrame running now sip payload (k_ctl \<lparr>k_ctl = c, k_op = p\<rparr>) = (c', d)"
    using assms by (simp add: m dg_payload_def)
  from node_recv.frame [OF this] show ?thesis by (simp add: m)
qed

lemma network_scanned:
  assumes "ldn_net s" "n_con s i = \<lparr>k_ctl = h, k_op = oi\<rparr>" "n_con s j = \<lparr>k_ctl = c, k_op = Idle\<rparr>" "i \<noteq> j"
    and "m_state h = CS_AccessPointCreated" "m_state c = CS_Station" "\<not> m_relay_sync_seq_valid c"
  shows "\<exists>s' h' c'. ldn_net s' \<and> n_con s' i = \<lparr>k_ctl = h', k_op = oi\<rparr> \<and> n_con s' j = \<lparr>k_ctl = c', k_op = Idle\<rparr> \<and>
     m_state h' = CS_AccessPointCreated \<and> StationCount h' = StationCount h \<and> WasRecentScanner 1 (m_ipv4_address c') h' \<and>
     m_state c' = CS_Station \<and> \<not> m_relay_sync_seq_valid c'"
proof -
  let ?ip = "m_ipv4_address c" and ?e = "sample_env []"
  have wf: "ldn_wf h" using ln.net_invariant(1) [OF assms(1), of i] assms(2) by (simp add: node_inv_def settled_def)
  obtain rc c1 out d where x: "ldn_exec ?e (L_Scan 0 sample_filter 8) c = (rc, c1, out, d)"
    by (cases "ldn_exec ?e (L_Scan 0 sample_filter 8) c") auto
  from scan_alone [OF assms(6) x] obtain k m where c1: "m_state c1 = CS_Station" "m_ipv4_address c1 = ?ip" "\<not> m_relay_sync_seq_valid c1"
    and m: "m \<in> set d" "fst m = ?ip" "parse_frame (dg_payload m) = Some (LanPacket_Scan, k, [])"
    using assms(7) by auto
  obtain s1 where s1: "ldn_net s1" "n_con s1 = (n_con s)(j := \<lparr>k_ctl = c1, k_op = Idle\<rparr>)" "m \<in> n_wire s1"
    using call_run [OF assms(1,3) _ _ _ x] m(1) by auto
  define h1 where "h1 = fst (HandleScan True 0 ?ip h)"
  note g = HandleScan_fields [OF assms(5), of True 0 ?ip, folded h1_def]
  have "WasRecentScanner 1 ?ip h1" unfolding h1_def
    by (rule HandleScan_recent [OF wf assms(5)]) (simp add: ScannerTimeoutTicks_def)
  moreover have "node_recv m (n_con s1 i) \<lparr>k_ctl = h1, k_op = oi\<rparr> (snd (HandleScan True 0 ?ip h))"
    using m s1(2) assms(2,4) by (auto intro!: frame_arrives simp: OnControlFrame_scan h1_def)
  note net_run.recv [OF s1(1,3) this]
  ultimately show ?thesis using s1(2) assms(4) c1 g by (intro exI conjI) (auto simp: StationCount_def)
qed

lemma network_asked:
  assumes "ldn_net s" "n_con s i = \<lparr>k_ctl = h, k_op = oi\<rparr>" "n_con s j = \<lparr>k_ctl = c, k_op = Idle\<rparr>" "i \<noteq> j"
    and "m_state h = CS_AccessPointCreated" "m_state c = CS_Station" "\<not> m_relay_sync_seq_valid c"
  shows "\<exists>s' c' p m q my. ldn_net s' \<and> n_con s' i = \<lparr>k_ctl = h, k_op = oi\<rparr> \<and> n_con s' j = \<lparr>k_ctl = c', k_op = p\<rparr> \<and>
     m_state c' = CS_Station \<and> m_ipv4_address c' = m_ipv4_address c \<and> \<not> m_relay_sync_seq_valid c' \<and>
     m_join_target_bssid c' = bssid (common (m_network_info h)) \<and> m \<in> n_wire s' \<and> fst m = m_ipv4_address c \<and>
     parse_frame (dg_payload m) = Some (LanPacket_Connect, q, my) \<and> length my = sizeof_NodeInfo"
proof -
  have "settled h" using ln.net_invariant(1) [OF assms(1), of i] assms(2) by (simp add: node_inv_def)
  then have "ldn_wf h" and info: "m_network_info h = BuildNetwork h" using assms(5) by (simp_all add: settled_def)
  note b = BuildNetwork_facts [OF this(1), folded info]
  let ?c1 = "join_begin (m_network_info h) c" and ?dst = "ipv4Address (nodes (ldn (m_network_info h)) ! 0)"
  let ?my = "enc_NodeInfo (my_node sample_join ?c1)"
  obtain q where q: "SendFrame True ?dst LanPacket_Connect ?my ?c1 = (?c1\<lparr>m_tx_seq := q\<rparr>,
      [(m_ipv4_address ?c1, ControlPort, ?dst, ControlPort, Proto_Udp, build_frame q LanPacket_Connect ?my)])"
    "parse_frame (build_frame q LanPacket_Connect ?my) = Some (LanPacket_Connect, q, ?my)"
    using SendFrame_payload [OF my_node_length] by blast
  define c2 where "c2 = ?c1\<lparr>m_tx_seq := q\<rparr>"
  define m :: datagram where "m = (m_ipv4_address c, ControlPort, ?dst, ControlPort, Proto_Udp, build_frame q LanPacket_Connect ?my)"
  have c2: "m_state c2 = CS_Station" "m_ipv4_address c2 = m_ipv4_address c" "\<not> m_relay_sync_seq_valid c2"
    "m_join_target_bssid c2 = bssid (common (m_network_info h))" using assms(6,7) by (simp_all add: c2_def join_begin_def)
  have sent: "SendFrame True ?dst LanPacket_Connect ?my ?c1 = (c2, [m])" unfolding q(1) c2_def m_def by (simp add: join_begin_def)
  have "connect_call True sample_join (m_network_info h) c = (Joining ?dst ?my 0, c2, [m])"
    using assms(6) b(2) c2(1) unfolding connect_call_def Let_def sent by (simp add: join_head_def)
  then have "node_act (n_con s j) \<lparr>k_ctl = c2, k_op = Joining ?dst ?my 0\<rparr> [m]"
    using assms(3) b(1) by (intro node_act.call [of _ "sample_env []" "L_Connect sample_join (m_network_info h)"]) simp_all
  note run = net_run.act [OF assms(1) this]
  have "length ?my = sizeof_NodeInfo" using my_node_ok by (simp add: node.enc_length sizeof_NodeInfo_def)
  with run c2 q(2) assms(2,4) show ?thesis
    by (intro exI [of _ "net_upd j \<lparr>k_ctl = c2, k_op = Joining ?dst ?my 0\<rparr> [m] s"] exI [of _ c2] exI [of _ "Joining ?dst ?my 0"]
        exI [of _ m] exI [of _ q] exI [of _ ?my]) (simp add: m_def dg_payload_def)
qed

lemma network_join:
  assumes "ldn_net s" "n_con s i = \<lparr>k_ctl = h, k_op = oi\<rparr>" "n_con s j = \<lparr>k_ctl = c, k_op = Idle\<rparr>" "i \<noteq> j"
    and "m_state h = CS_AccessPointCreated" "m_state c = CS_Station" "\<not> m_relay_sync_seq_valid c" "StationCount h < 7"
  shows "\<exists>s'. ldn_net s' \<and> m_state (k_ctl (n_con s' j)) = CS_StationConnected \<and>
     m_network_info (k_ctl (n_con s' j)) = m_network_info (k_ctl (n_con s' i))"
proof -
  obtain s1 h1 c1 where s1: "ldn_net s1" "n_con s1 i = \<lparr>k_ctl = h1, k_op = oi\<rparr>" "n_con s1 j = \<lparr>k_ctl = c1, k_op = Idle\<rparr>"
    and h1: "m_state h1 = CS_AccessPointCreated" "StationCount h1 < 7" and rec: "WasRecentScanner 1 (m_ipv4_address c1) h1"
    and c1: "m_state c1 = CS_Station" "\<not> m_relay_sync_seq_valid c1"
    using network_scanned [OF assms(1-7)] assms(8) by metis
  let ?ip = "m_ipv4_address c1"
  have wf1: "ldn_wf h1" using ln.net_invariant(1) [OF s1(1), of i] s1(2) by (simp add: node_inv_def settled_def)
  obtain s3 c2 p m q my where s3: "ldn_net s3" "n_con s3 i = \<lparr>k_ctl = h1, k_op = oi\<rparr>" "n_con s3 j = \<lparr>k_ctl = c2, k_op = p\<rparr>" "m \<in> n_wire s3"
    and c2: "m_state c2 = CS_Station" "m_ipv4_address c2 = ?ip" "\<not> m_relay_sync_seq_valid c2"
      "m_join_target_bssid c2 = bssid (common (m_network_info h1))"
    and m: "fst m = ?ip" "parse_frame (dg_payload m) = Some (LanPacket_Connect, q, my)" "length my = sizeof_NodeInfo"
    using network_asked [OF s1 assms(4) h1(1) c1] by metis
  obtain h2 ds where h2: "HandleConnect True 1 ?ip my h1 = (h2, ds)" by (rule prod.exhaust)
  have "connect_slot ?ip h1 \<noteq> None"
    using wf1 h1(2) by (simp add: connect_slot_None ldn_wf_def StationCountMax_def NodeCountMax_def)
  then obtain nid where nid: "connect_slot ?ip h1 = Some nid" by auto
  note adm = HandleConnect_admitted [OF wf1 h1(1) m(3) disjI1 [OF rec] nid TrueI h2]
  have "node_recv m (n_con s3 i) \<lparr>k_ctl = h2, k_op = oi\<rparr> ds"
    using s3(2) m h2 by (auto intro!: frame_arrives simp: dispatch(2))
  from net_run.recv [OF s3(1,4) this] obtain s4 where s4: "ldn_net s4" "n_con s4 j = \<lparr>k_ctl = c2, k_op = p\<rparr>"
    "n_con s4 i = \<lparr>k_ctl = h2, k_op = oi\<rparr>" "set ds \<subseteq> n_wire s4" using s3(3) assms(4) by auto
  obtain d where d: "d \<in> set ds" "is_sync (m_ipv4_address h1) (m_network_info h2) d" using adm by blast
  have ok2: "NetworkInfo_ok (m_network_info h2)" using adm by (simp add: ldn_wf_def buffers_wf_def)
  obtain r where r: "parse_frame (dg_payload d) = Some (LanPacket_SyncNetwork, r, enc_NetworkInfo (m_network_info h2))"
    using parse_sync [OF ok2] d(2) unfolding dg_payload_def by (cases d) fastforce
  let ?x = "OnControlFrame True 2 (fst d) (dg_payload d) c2"
  have "bssid (common (m_network_info h1)) = bssid (common (m_network_info h2))"
    using wf1 adm h1(1) by (simp add: ldn_wf_def roster_ok_def)
  with sync_confirms [OF c2(1,3) _ ok2 r refl, of True 2 "fst d"] c2(2,4) adm
  have on: "m_state (fst ?x) = CS_StationConnected" "m_network_info (fst ?x) = m_network_info h2" by simp_all
  have "node_recv d (n_con s4 j) \<lparr>k_ctl = fst ?x, k_op = p\<rparr> (snd ?x)"
    unfolding s4(2) by (rule frame_arrives) (rule surjective_pairing)
  from net_run.recv [OF s4(1) _ this] d(1) s4(3,4) assms(4) on show ?thesis
    by (intro exI [of _ "net_upd j \<lparr>k_ctl = fst ?x, k_op = p\<rparr> (snd ?x) s4"]) auto
qed

section \<open>Properties\<close>

text \<open>What a host lists is itself and consoles that have joined.\<close>

lemma listed_real:
  assumes "node_inv H k" "k_ctl k = h" "m_state h = CS_AccessPointCreated" "listed_node ip h"
  shows "ip = m_ipv4_address h \<or> joined H ip"
  using assms listed_host [of h ip] by (auto simp: node_inv_def settled_def agrees_def)

text \<open>C17: Any number of consoles play over a relay that may lose, delay, repeat, reorder and misdirect their
  frames, with games calling commands, timers and threads in any order; a game does not set advertise data
  while connected. Whatever a console then believes about others once was true. The description a
  connected station holds was published, in full, by a console while it hosted; some host listed the station
  itself. The session filter of a console in a session, hosting or connected, accepts only its own address,
  the address of a console that hosted and the address of a console that asked to join (packets to LAN-mode ports
  do not pass that filter). Every network found by a scan
  was described so by its host, and every station a host has admitted asked to join.\<close>

theorem session_agreement:
  assumes "ldn_net s" and "c = k_ctl (n_con s j)"
  shows "(m_state c = CS_StationConnected \<longrightarrow>
       (\<exists>h \<in> hosts (n_past s). m_network_info c = m_network_info h) \<and>
       (\<exists>h \<in> hosts (n_past s). m_ipv4_address h = m_ipv4_address c \<or>
          (\<exists>st \<in> set (m_stations h). active st \<and> src_ip st = m_ipv4_address c))) \<and>
     (m_state c = CS_StationConnected \<or> m_state c = CS_AccessPointCreated \<longrightarrow>
       (\<forall>ip. IsKnownSessionPeer ip c \<longrightarrow> ip = m_ipv4_address c \<or> joined (n_past s) ip \<or>
          (\<exists>h \<in> hosts (n_past s). m_ipv4_address h = ip))) \<and>
     (\<forall>r \<in> set (m_scan_results c). \<exists>h \<in> hosts (n_past s). r = m_network_info h) \<and>
     (\<forall>st \<in> set (m_stations c). active st \<longrightarrow> joined (n_past s) (src_ip st))"
proof -
  let ?H = "n_past s"
  have a: "agrees ?H c" using ln.net_invariant(1) [OF assms(1), of j] assms(2) by (simp add: node_inv_def)
  have host: "m_ipv4_address h = ip \<or> (\<exists>st \<in> set (m_stations h). active st \<and> src_ip st = ip)"
    "ip = m_ipv4_address h \<or> joined ?H ip" if "h \<in> hosts ?H" "listed_node ip h" for h ip
    using that listed_host [of h ip] listed_real ln.net_invariant(2) [OF assms(1)] by (fastforce simp: hosts_def)+
  have peer: "ip = m_ipv4_address c \<or> joined ?H ip \<or> (\<exists>h \<in> hosts ?H. m_ipv4_address h = ip)"
    if st: "m_state c = CS_StationConnected \<or> m_state c = CS_AccessPointCreated" and k: "IsKnownSessionPeer ip c" for ip
  proof (cases "ip = m_ipv4_address c")
    case False
    then have l: "listed_node ip c" using st k by (auto simp: IsKnownSessionPeer_def in_session_def)
    show ?thesis
    proof (cases "m_state c = CS_StationConnected")
      case True
      then obtain h where h: "h \<in> hosts ?H" "m_network_info c = m_network_info h" using a by (auto simp: agrees_def)
      with host(2) [OF h(1)] l listed_node_cong [OF h(2)] show ?thesis by blast
    next
      case False
      with st l assms(2) listed_real [OF ln.net_invariant(1) [OF assms(1)]] show ?thesis by blast
    qed
  qed simp
  from a host(1) peer show ?thesis unfolding agrees_def by blast
qed

theorem session_agreement_witness:
  "\<exists>s. ldn_net s \<and> m_state (k_ctl (n_con s 1)) = CS_StationConnected \<and>
     (\<exists>h \<in> hosts (n_past s). m_network_info (k_ctl (n_con s 1)) = m_network_info h)"
proof -
  have ip: "ParseIp ''10.13.0.5'' \<noteq> 0" "ParseIp ''10.13.0.9'' \<noteq> 0" by (simp_all add: sample_ips)
  note f = host_console_facts [OF ip(1), of sample_config] and g = station_console_facts [OF ip(2)]
  have "StationCount (host_console ''10.13.0.5'' sample_config) = 0"
    using f(3) by (auto simp: StationCount_def filter_empty_conv dest: in_set_takeD)
  then have "StationCount (host_console ''10.13.0.5'' sample_config) < 7" by simp
  with two_consoles_run [of "''10.13.0.5''" "''10.13.0.9''"] f g
  obtain s where s: "ldn_net s" "m_state (k_ctl (n_con s 1)) = CS_StationConnected"
    using network_join [of _ 0 _ _ 1] by (metis zero_neq_one)
  with session_agreement [OF s(1) refl, of 1] show ?thesis by blast
qed

end
