(* ===== verification/Spec2Isabelle.thy ===== *)
theory Spec2Isabelle
  imports System Overlay_Gui Nifm Locks Network_Props
begin

text \<open>
  Verification of sys-slp-client, a Nintendo Switch sysmodule that carries the local wireless and LAN traffic
  of games over an slp relay on the internet.

  \<^bold>\<open>The program.\<close> Two system services are intercepted. \<^verbatim>\<open>bsd:u\<close> (sockets): a game's LAN sockets become proxy
  sockets inside the sysmodule, every other socket is forwarded to the real service. \<^verbatim>\<open>ldn:u\<close> (local wireless): the
  sysmodule runs its own control plane, in which consoles find, join and leave each other's networks by control
  frames. Datagrams of proxy sockets and control frames pass through the tunnel, which wraps them into
  IPv4/UDP packets and relay frames, cuts them into fragments, and reassembles what arrives. A runtime keeps
  the connection to the relay alive and chooses the console's virtual address; an overlay application controls
  it through the service \<^verbatim>\<open>slp:cfg\<close>.

  \<^bold>\<open>The theories.\<close> All source paths are below \<^verbatim>\<open>src/sysmodule/source\<close> unless they start with \<^verbatim>\<open>overlay\<close>.
    \<^item> \<open>Prelude\<close>: machine types, byte codecs, the locales \<open>ring\<close>, \<open>ring_fifo\<close> (a bounded queue over an array with head,
      tail and count) and \<open>invariant_system\<close> (an invariant kept by every legal step).
    \<^item> \<open>Ip_Addr\<close>: addresses, socket addresses and the dormant LAN address map (\<^verbatim>\<open>bsd/ip_addr.hpp\<close>, \<^verbatim>\<open>bsd_types.hpp\<close>,
      \<^verbatim>\<open>lan_addr_map\<close>). \<open>Port_Pool\<close>: the ephemeral ports (\<^verbatim>\<open>bsd/ephemeral_port_pool\<close>).
    \<^item> \<open>Proxy_Socket\<close>: the proxy socket (\<^verbatim>\<open>bsd/proxy_socket\<close>); its receive ring is an interpretation of \<open>ring_fifo\<close>.
      \<open>Socket_Manager\<close>: the registry, the routing of incoming datagrams and the ring of datagrams that arrive
      before their socket (\<^verbatim>\<open>bsd/proxy_socket_manager\<close>).
    \<^item> \<open>Bsd_Session\<close>, \<open>Bsd_Service\<close>, \<open>Bsd_Commands\<close>: the \<^verbatim>\<open>bsd:u\<close> service (\<^verbatim>\<open>bsd/bsd_mitm_service\<close>), session objects, the 34
      commands and their dispatch. \<open>Bsd_Invariant\<close>: what every command keeps of the shared state. \<open>Bsd_Props\<close>
      and \<open>Bsd_Transparent\<close>: ports, binding, \<^verbatim>\<open>Select\<close>, which replies the game's library reads exchanged, and
      that a game without LAN sockets sees the real service.
    \<^item> \<open>Ldn_Wire\<close>: the structures sent between consoles, as byte layouts with round trips, the compression and the
      control frame (\<^verbatim>\<open>ldn/ldn_interfaces.hpp\<close>, \<^verbatim>\<open>ldn/ldn_control.cpp\<close>). \<open>Ldn_Control\<close>: the control plane, every handler
      and operation, and its invariant. \<open>Ldn_Session\<close>: joining, leaving, scanning, time-outs between two consoles.
      \<open>Ldn_Service\<close>: the \<^verbatim>\<open>ldn:u\<close> commands over it (\<^verbatim>\<open>ldn/ldn_icommunication\<close>). \<open>Ldn_Steps\<close>: the commands that sleep, cut
      into the parts between their sleeps, and that the parts make up the command.
    \<^item> \<open>Relay_Net\<close>: consoles of any kind over a relay that loses, repeats, reorders and misdirects messages; the locale
      \<open>relay_net\<close> proves what must have happened before. \<open>Ldn_Network\<close>: any number of control planes with the parts of
      \<open>Ldn_Steps\<close>, an interpretation of that locale. \<open>Network_Props\<close>: what follows for the consoles' sessions.
    \<^item> \<open>Slp_Frame\<close>, \<open>Sha1\<close>, \<open>Slp_Client\<close>: the relay client (\<^verbatim>\<open>slp/slp_client.c\<close>, \<^verbatim>\<open>slp/sha1.c\<close>): frames, name resolution, login.
      \<open>Tunnel\<close> and \<open>Tunnel_Path\<close>: sending, reassembly, delivery (\<^verbatim>\<open>tunnel/slp_tunnel.cpp\<close>) and the path between two
      consoles.
    \<^item> \<open>Servers\<close>: the server list (\<^verbatim>\<open>slpcfg/servers.c\<close>). \<open>Runtime\<close>, \<open>Runtime_Props\<close>: the runtime and \<^verbatim>\<open>slp:cfg\<close>
      (\<^verbatim>\<open>slpcfg/slp_runtime.cpp\<close>, \<^verbatim>\<open>slp_cfg_service.cpp\<close>).
    \<^item> \<open>Trace_Log\<close>: the trace log (\<^verbatim>\<open>slpcfg/slp_trace.cpp\<close>). \<open>Boot\<close>: heap, system initialisation, \<^verbatim>\<open>Main\<close> and the choice
      of session objects (\<^verbatim>\<open>main.cpp\<close>). \<open>System\<close>: the properties that need all parts. \<open>Nifm\<close>: the interception of the
      network-interface service, which is not registered at present (\<^verbatim>\<open>nifm/nifm_mitm_service\<close>).
    \<^item> \<open>Overlay\<close>, \<open>Overlay_Gui\<close>: the overlay's server list, actions, pages and connection to \<^verbatim>\<open>slp:cfg\<close> (\<^verbatim>\<open>overlay/source\<close>).
    \<^item> \<open>Lock_Order\<close>: threads with scoped locks, for any program; the locale \<open>lock_order\<close> is the contract of taking
      locks in ascending order. \<open>Locks\<close>: the mutexes of this program and the order in which each operation of each
      thread takes them, an interpretation of that locale.

  \<^bold>\<open>State and effects.\<close> Each singleton or session object is a record with the source's field names; an operation
  is a function from the old to the new record and its results. The sources' mutexes make every operation (in
  the control plane: every locked section) one step, and the step relations \<open>mgr_run\<close>, \<open>sock_run\<close>, \<open>ldn_run\<close> and the
  interpretations of \<open>invariant_system\<close> let the steps of all threads interleave freely; the wiring of the callbacks
  and of the local address at boot is among them. In \<open>net_run\<close> the steps of
  several consoles interleave, and the state remembers the past ones. That the steps can be
  taken, that is, that no thread waits for ever for a mutex, is the subject of \<open>Locks\<close>, which keeps the locking of
  each operation and drops its data. Errors are the
  errno or result values of the source. Code outside the repository (the real socket service, the network
  service, \<open>sendto\<close>, files, clocks, random bytes, sleeping) is an argument; where a property relies on it, the
  reliance is a hypothesis with a witness.

  \<^bold>\<open>What is shown.\<close> A datagram sent by a game on one console is received unchanged, with its sender's address, by
  a game on another (\<open>datagram_end_to_end\<close>), built on routing, the two rings, fragmentation in any order and the
  tunnel's transparency. Sockets: manager and port invariants for every command of every session, the
  outcome of binding, exact readiness in \<^verbatim>\<open>Select\<close>, transparency for other sockets, teardown, the immediate refusal
  of TCP. Control plane: invariant, admission, joining and leaving between two consoles, scoping of sessions
  to members, time-outs, and silence after the game is gone. For any number of consoles over an unreliable relay:
  whatever a console believes about the others, its network, the stations it admitted, the addresses its
  session filter accepts and the networks it found, once was true (\<open>session_agreement\<close>). Relay: SHA-1 against a one-shot reference, login,
  name resolution, reconnecting. Configuration: parsing bounds and round trip, agreement of the two server
  lists, one stable virtual address in every part of the console. Threads: in every interleaving each mutex has
  one owner and no thread is blocked for ever, unless a control frame is sent to 127.0.0.0/8, where the code
  does block (\<open>no_deadlock\<close>, \<open>loopback_frame_deadlocks\<close>). Trace log: whole lines, appended in order.

  \<^bold>\<open>Loops.\<close> Loops with a bound in the source are structural or have a measure (\<open>scan_loop\<close> 10 rounds, \<open>connect_poll\<close>
  300, \<open>alloc_scan\<close> the size of the port range, \<open>generate_loop\<close> 64 draws). The receive thread, which runs until
  it is stopped, is given its iterations as a list, each with what arrives and what the operating system
  answers in it.

  \<^bold>\<open>Not modelled.\<close> The trace calls inside the other parts; the server loops and the dispatch of the system library, which
  call the commands; the vendored \<^verbatim>\<open>libtesla\<close> that draws the overlay's pages; the host-side test; interface
  declarations without behaviour; data races on the fields that the code reads without a mutex; reads
  beyond an array for an unchecked node count above eight, where the model stops at the array's end. A
  control frame to 127.0.0.0/8 is delivered in \<open>Tunnel\<close>, where the code blocks before the delivery. In the
  network of consoles, a relay or a peer that makes up frames (frames are not authenticated, so nothing holds
  then) and games that set advertise data while connected (\<open>advertise_while_connected\<close> shows what it breaks).
\<close>

end
